(* ===== verification/Qan_Prelude.thy ===== *)
theory Qan_Prelude
  imports Complex_Main "HOL-Library.Word" "HOL-Library.Signed_Division" "HOL-Library.Multiset"
begin

text \<open>
  Shared vocabulary of the development: the Go machine integers, the Go standard library
  functions the agent uses on strings and integers (decimal formatting, \<open>strconv.ParseInt\<close>,
  \<open>strings.Split\<close>, \<open>strings.ToLower\<close>), and the generic lemmas the components share.
  Go's \<open>int\<close>, \<open>int64\<close>, \<open>uint\<close> and \<open>uint64\<close> are 64 bits wide on the platforms the agent is
  built for; a signed value is a word read through \<open>sint\<close>. Go's \<open>float64\<close> values that the
  agent only adds, scales and compares are rationals: rounding is not modelled, except in
  the ticker, where the rounding of nanosecond timestamps matters.
\<close>

named_theorems go_word "conversions between machine integers and their values"
named_theorems frame "fields an operation leaves unchanged"

type_synonym u64 = "64 word"
type_synonym i64 = "64 word"
type_synonym float64 = rat
type_synonym bytes = string

section \<open>Integers\<close>

text \<open>Go's signed division truncates towards zero and wraps at the width.\<close>

definition go_sdiv :: "i64 \<Rightarrow> i64 \<Rightarrow> i64" where
  "go_sdiv a b = word_of_int (sint a sdiv sint b)"

definition int64_min :: int where "int64_min = - (2 ^ 63)"
definition int64_max :: int where "int64_max = 2 ^ 63 - 1"

definition in_int64 :: "int \<Rightarrow> bool" where
  "in_int64 n \<longleftrightarrow> int64_min \<le> n \<and> n \<le> int64_max"

lemma sint_word_of_int64 [go_word]:
  "in_int64 n \<Longrightarrow> sint (word_of_int n :: i64) = n"
  by (simp add: in_int64_def int64_min_def int64_max_def sint_sbintrunc' signed_take_bit_int_eq_self)

lemma sint_in_int64: "in_int64 (sint (w :: i64))"
  using sint_lt [of w] sint_ge [of w]
  by (simp add: in_int64_def int64_min_def int64_max_def)

lemma sint_nonneg_uint: "0 \<le> sint (w :: i64) \<Longrightarrow> sint w = uint w"
proof (cases "uint w < 2 ^ 63")
  case True
  then show ?thesis
    using signed_take_bit_int_eq_self [of 63 "uint w"] uint_ge_0 [of w] by (simp add: sint_uint)
next
  case False
  assume "0 \<le> sint w"
  moreover have "sint w = (uint w + 2 ^ 63) mod 2 ^ 64 - 2 ^ 63"
    by (simp add: sint_uint signed_take_bit_eq_take_bit_shift take_bit_eq_mod)
  moreover have "(uint w + 2 ^ 63) mod 2 ^ 64 = uint w - 2 ^ 63"
  proof -
    have "uint w < 2 ^ 64" using uint_lt2p [of w] by simp
    then have "0 \<le> uint w - 2 ^ 63" "uint w - 2 ^ 63 < (2 ^ 64 :: int)" using False by simp_all
    then have "(uint w - 2 ^ 63 + 2 ^ 64) mod 2 ^ 64 = uint w - 2 ^ 63"
      unfolding mod_add_self2 by (rule mod_pos_pos_trivial)
    then show ?thesis by (simp add: algebra_simps)
  qed
  moreover have "uint w < 2 ^ 64" using uint_lt2p [of w] by simp
  ultimately show ?thesis using False by simp
qed

lemma sint_neg_uint: "sint (w :: i64) < 0 \<Longrightarrow> 2 ^ 63 \<le> uint w"
proof (rule ccontr)
  assume neg: "sint w < 0" and small: "\<not> 2 ^ 63 \<le> uint w"
  then have "- (2 ^ 63) \<le> uint w" and "uint w < 2 ^ 63"
    using uint_ge_0 [of w] by linarith+
  then have "sint w = uint w"
    using signed_take_bit_int_eq_self [of 63 "uint w"] by (simp add: sint_uint)
  with neg show False by simp
qed

lemma unat_add_no_wrap [go_word]:
  "unat (a :: u64) + unat b < 2 ^ 64 \<Longrightarrow> unat (a + b) = unat a + unat b"
  by (simp add: unat_word_ariths)

lemma unat_of_nat_small [go_word]:
  "n < 2 ^ 64 \<Longrightarrow> unat (of_nat n :: u64) = n"
  by (simp add: unat_of_nat)

section \<open>Decimal numbers\<close>

definition digit_char :: "nat \<Rightarrow> char" where
  "digit_char d = char_of (48 + d)"

definition is_digit :: "char \<Rightarrow> bool" where
  "is_digit c \<longleftrightarrow> 48 \<le> (of_char c :: nat) \<and> (of_char c :: nat) \<le> 57"

definition digit_val :: "char \<Rightarrow> nat" where
  "digit_val c = of_char c - 48"

lemma digit_char_simps [simp]:
  assumes "d < 10"
  shows "is_digit (digit_char d)" and "digit_val (digit_char d) = d"
  using assms by (simp_all add: is_digit_def digit_val_def digit_char_def)

text \<open>\<open>fmt.Sprintf("%d", n)\<close>.\<close>

fun string_of_nat :: "nat \<Rightarrow> string" where
  "string_of_nat n =
     (if n < 10 then [digit_char n] else string_of_nat (n div 10) @ [digit_char (n mod 10)])"

declare string_of_nat.simps [simp del]

definition string_of_int :: "int \<Rightarrow> string" where
  "string_of_int n =
     (if n < 0 then CHR ''-'' # string_of_nat (nat (- n)) else string_of_nat (nat n))"

fun parse_digits :: "nat \<Rightarrow> string \<Rightarrow> nat option" where
  "parse_digits a [] = Some a"
| "parse_digits a (c # cs) =
     (if is_digit c then parse_digits (a * 10 + digit_val c) cs else None)"

text \<open>
  \<open>strconv.ParseInt(s, 10, 64)\<close>: an optional sign, then at least one decimal digit, then
  the range check of the result.
\<close>

datatype parse_error = ErrSyntax | ErrRange

definition parse_unsigned :: "string \<Rightarrow> parse_error + nat" where
  "parse_unsigned s =
     (if s = [] then Inl ErrSyntax
      else case parse_digits 0 s of None \<Rightarrow> Inl ErrSyntax | Some n \<Rightarrow> Inr n)"

definition check_int64 :: "int \<Rightarrow> parse_error + int" where
  "check_int64 n = (if in_int64 n then Inr n else Inl ErrRange)"

definition ParseInt :: "string \<Rightarrow> parse_error + int" where
  "ParseInt s =
     (case s of
        [] \<Rightarrow> Inl ErrSyntax
      | c # cs \<Rightarrow>
          if c = CHR ''-'' then
            (case parse_unsigned cs of Inl e \<Rightarrow> Inl e | Inr n \<Rightarrow> check_int64 (- int n))
          else
            (case parse_unsigned (if c = CHR ''+'' then cs else s) of
               Inl e \<Rightarrow> Inl e | Inr n \<Rightarrow> check_int64 (int n)))"

lemma parse_digits_append:
  "parse_digits a (xs @ ys) = Option.bind (parse_digits a xs) (\<lambda>b. parse_digits b ys)"
  by (induction xs arbitrary: a) auto

lemma parse_digits_string_of_nat: "parse_digits 0 (string_of_nat n) = Some n"
proof (induction n rule: string_of_nat.induct)
  case (1 n)
  show ?case
    using "1" by (simp add: string_of_nat.simps [of n] parse_digits_append)
qed

lemma string_of_nat_nonempty [simp]: "string_of_nat n \<noteq> []"
  by (subst string_of_nat.simps) simp

lemma string_of_nat_digits: "c \<in> set (string_of_nat n) \<Longrightarrow> is_digit c"
proof (induction n rule: string_of_nat.induct)
  case (1 n)
  then show ?case
    by (auto simp: string_of_nat.simps [of n] split: if_splits)
qed

lemma not_digit_simps [simp]:
  "\<not> is_digit CHR ''-''" "\<not> is_digit CHR ''+''" "\<not> is_digit CHR ''_''"
  by (simp_all add: is_digit_def)

lemma parse_unsigned_string_of_nat [simp]: "parse_unsigned (string_of_nat n) = Inr n"
  by (simp add: parse_unsigned_def parse_digits_string_of_nat)

lemma string_of_nat_Cons_sign:
  assumes "string_of_nat n = c # cs"
  shows "c \<noteq> CHR ''-''" and "c \<noteq> CHR ''+''"
proof -
  have "is_digit c" by (rule string_of_nat_digits [of c n]) (simp add: assms)
  then show "c \<noteq> CHR ''-''" and "c \<noteq> CHR ''+''" by auto
qed

theorem ParseInt_string_of_int: "in_int64 n \<Longrightarrow> ParseInt (string_of_int n) = Inr n"
proof (cases "n < 0")
  case True
  moreover assume "in_int64 n"
  ultimately show ?thesis
    by (simp add: ParseInt_def string_of_int_def check_int64_def)
next
  case False
  moreover assume "in_int64 n"
  moreover obtain c cs where "string_of_nat (nat n) = c # cs"
    by (cases "string_of_nat (nat n)") auto
  ultimately show ?thesis
    using string_of_nat_Cons_sign [of "nat n" c cs] parse_unsigned_string_of_nat [of "nat n"]
    by (simp add: ParseInt_def string_of_int_def check_int64_def)
qed

lemma underscore_not_in_string_of_int [simp]: "CHR ''_'' \<notin> set (string_of_int n)"
  using string_of_nat_digits [of "CHR ''_''"] by (auto simp: string_of_int_def)

section \<open>Strings\<close>

text \<open>\<open>strings.Split(s, sep)\<close> for a one-character separator.\<close>

fun split_on :: "char \<Rightarrow> string \<Rightarrow> string list" where
  "split_on c [] = [[]]"
| "split_on c (x # xs) =
     (if x = c then [] # split_on c xs
      else case split_on c xs of [] \<Rightarrow> [[x]] | y # ys \<Rightarrow> (x # y) # ys)"

lemma split_on_nonempty [simp]: "split_on c s \<noteq> []"
  by (induction s) (auto split: list.splits)

lemma split_on_no_sep [simp]: "c \<notin> set s \<Longrightarrow> split_on c s = [s]"
  by (induction s) auto

lemma split_on_append_sep: "c \<notin> set s \<Longrightarrow> split_on c (s @ c # t) = s # split_on c t"
  by (induction s) auto

lemma length_split_on: "length (split_on c s) = Suc (count_list s c)"
  by (induction s) (auto split: list.splits)

lemma split_on_two_iff: "length (split_on c s) = 2 \<longleftrightarrow> count_list s c = 1"
  by (simp add: length_split_on)

definition to_lower_char :: "char \<Rightarrow> char" where
  "to_lower_char c =
     (if 65 \<le> (of_char c :: nat) \<and> (of_char c :: nat) \<le> 90 then char_of ((of_char c :: nat) + 32) else c)"

definition ToLower :: "string \<Rightarrow> string" where
  "ToLower s = map to_lower_char s"

definition to_upper_char :: "char \<Rightarrow> char" where
  "to_upper_char c =
     (if 97 \<le> (of_char c :: nat) \<and> (of_char c :: nat) \<le> 122 then char_of ((of_char c :: nat) - 32) else c)"

definition ToUpper :: "string \<Rightarrow> string" where
  "ToUpper s = map to_upper_char s"

fun HasPrefix :: "string \<Rightarrow> string \<Rightarrow> bool" where
  "HasPrefix s [] = True"
| "HasPrefix [] (p # ps) = False"
| "HasPrefix (c # cs) (p # ps) = (c = p \<and> HasPrefix cs ps)"

lemma HasPrefix_iff: "HasPrefix s p \<longleftrightarrow> take (length p) s = p"
  by (induction s p rule: HasPrefix.induct) auto

text \<open>White space as regular expressions have it, and what \<open>strings.TrimSpace\<close> cuts off.\<close>

definition is_space :: "char \<Rightarrow> bool" where
  "is_space c \<longleftrightarrow> c \<in> {CHR 0x09, CHR 0x0A, CHR 0x0C, CHR 0x0D, CHR '' ''}"

definition is_trim :: "char \<Rightarrow> bool" where
  "is_trim c \<longleftrightarrow> is_space c \<or> c = CHR 0x0B"

definition TrimSpace :: "string \<Rightarrow> string" where
  "TrimSpace s = rev (dropWhile is_trim (rev (dropWhile is_trim s)))"

fun join_with :: "string \<Rightarrow> string list \<Rightarrow> string" where
  "join_with sep [] = []"
| "join_with sep [s] = s"
| "join_with sep (s # t # ts) = s @ sep @ join_with sep (t # ts)"

section \<open>Association lists as Go maps with an iteration order\<close>

text \<open>
  A Go map that the program ranges over is an association list with distinct keys; the
  order of the list is the order in which this execution ranges over it, which Go leaves
  unspecified. Lookups do not depend on it.
\<close>

definition wf_alist :: "('k \<times> 'v) list \<Rightarrow> bool" where
  "wf_alist xs \<longleftrightarrow> distinct (map fst xs)"

fun alist_put :: "'k \<Rightarrow> 'v \<Rightarrow> ('k \<times> 'v) list \<Rightarrow> ('k \<times> 'v) list" where
  "alist_put k v [] = [(k, v)]"
| "alist_put k v ((k', v') # xs) =
     (if k' = k then (k, v) # xs else (k', v') # alist_put k v xs)"

definition alist_del :: "'k \<Rightarrow> ('k \<times> 'v) list \<Rightarrow> ('k \<times> 'v) list" where
  "alist_del k xs = filter (\<lambda>(k', v). k' \<noteq> k) xs"

lemma map_of_alist_put [simp]: "map_of (alist_put k v xs) = (map_of xs)(k \<mapsto> v)"
  by (induction xs) (auto simp: fun_eq_iff)

lemma map_of_alist_del [simp]: "map_of (alist_del k xs) = (map_of xs)(k := None)"
  by (induction xs) (auto simp: alist_del_def fun_eq_iff)

lemma map_fst_alist_put:
  "map fst (alist_put k v xs) = (if k \<in> fst ` set xs then map fst xs else map fst xs @ [k])"
  by (induction xs) (auto simp: rev_image_eqI)

lemma fst_alist_put [simp]: "fst ` set (alist_put k v xs) = insert k (fst ` set xs)"
  by (simp add: map_fst_alist_put insert_absorb flip: set_map)

lemma fst_alist_del [simp]: "fst ` set (alist_del k xs) = fst ` set xs - {k}"
  by (force simp: alist_del_def)

lemma set_alist_put_subset: "set (alist_put k v xs) \<subseteq> insert (k, v) (set xs)"
  by (induction xs) (auto split: if_splits)

lemma alist_put_not_Nil [simp]: "alist_put k v xs \<noteq> []"
  by (cases "(k, v, xs)" rule: alist_put.cases) auto

lemma wf_alist_Nil [simp]: "wf_alist []"
  by (simp add: wf_alist_def)

lemma wf_alist_single [simp]: "wf_alist [x]"
  by (simp add: wf_alist_def)

lemma wf_alist_put [simp, intro]: "wf_alist xs \<Longrightarrow> wf_alist (alist_put k v xs)"
  by (auto simp: wf_alist_def map_fst_alist_put)

lemma wf_alist_del [simp, intro]: "wf_alist xs \<Longrightarrow> wf_alist (alist_del k xs)"
  by (induction xs) (auto simp: wf_alist_def alist_del_def)

lemma alist_del_notin: "k \<notin> fst ` set xs \<Longrightarrow> alist_del k xs = xs"
  by (force simp: alist_del_def filter_id_conv)

section \<open>Sums\<close>

lemma sum_list_mset_cong:
  fixes f :: "'a \<Rightarrow> 'b :: comm_monoid_add"
  assumes "mset xs = mset ys"
  shows "sum_list (map f xs) = sum_list (map f ys)"
proof -
  have "mset (map f xs) = mset (map f ys)" using assms by simp
  then show ?thesis by (metis sum_mset_sum_list)
qed

section \<open>Invariants of runs\<close>

text \<open>An invariant of each step of a left fold is an invariant of the fold.\<close>

lemma foldl_invariant:
  assumes "P s" and "\<And>s x. P s \<Longrightarrow> x \<in> set xs \<Longrightarrow> P (f s x)"
  shows "P (foldl f s xs)"
  using assms by (induction xs arbitrary: s) auto

text \<open>
  A component that reacts to events is a relation between states, labelled by the event; an
  invariant that the initial states have and every step keeps holds in every reachable state.
\<close>

inductive reachable :: "('s \<Rightarrow> bool) \<Rightarrow> ('s \<Rightarrow> 'l \<Rightarrow> 's \<Rightarrow> bool) \<Rightarrow> 's \<Rightarrow> bool"
  for init :: "'s \<Rightarrow> bool" and step :: "'s \<Rightarrow> 'l \<Rightarrow> 's \<Rightarrow> bool" where
  start: "init s \<Longrightarrow> reachable init step s"
| move: "reachable init step s \<Longrightarrow> step s l s' \<Longrightarrow> reachable init step s'"

locale step_invariant =
  fixes init :: "'s \<Rightarrow> bool" and step :: "'s \<Rightarrow> 'l \<Rightarrow> 's \<Rightarrow> bool" and inv :: "'s \<Rightarrow> bool"
  assumes inv_init: "init s \<Longrightarrow> inv s"
    and inv_step: "inv s \<Longrightarrow> step s l s' \<Longrightarrow> inv s'"
begin

lemma reachable_inv: "reachable init step s \<Longrightarrow> inv s"
  by (induction rule: reachable.induct) (auto intro: inv_init inv_step)

lemma reachable_step: "reachable init step s \<Longrightarrow> step s l s' \<Longrightarrow> inv s \<and> inv s'"
  using reachable_inv inv_step by blast

end

end
