(* ===== verification/Pct.thy ===== *)
theory Pct
  imports Qan_Prelude
begin

text \<open>
  The package \<open>pct\<close>: the status table every component reports through
  (\<open>pct/status.go\<close>), the start/stop handshake of the long-running goroutines
  (\<open>pct/sync.go\<close>), the connection backoff (\<open>pct/backoff.go\<close>) and the small helpers of
  \<open>pct/sys.go\<close>. The mutexes are not modelled: each method is one atomic step.
\<close>

section \<open>Status\<close>

type_synonym status = "string \<rightharpoonup> string"

definition NewStatus :: "string list \<Rightarrow> status" where
  "NewStatus procs = (\<lambda>p. if p \<in> set procs then Some '''' else None)"

definition status_Update :: "string \<Rightarrow> string \<Rightarrow> status \<Rightarrow> status" where
  "status_Update proc st s = (case s proc of None \<Rightarrow> s | Some _ \<Rightarrow> s(proc \<mapsto> st))"

text \<open>The command argument is the text its \<open>String\<close> method gives.\<close>

definition status_UpdateRe :: "string \<Rightarrow> string \<Rightarrow> string \<Rightarrow> status \<Rightarrow> status" where
  "status_UpdateRe proc st cmd s =
     (case s proc of None \<Rightarrow> s | Some _ \<Rightarrow> s(proc \<mapsto> st @ '' '' @ cmd))"

definition status_Get :: "status \<Rightarrow> string \<Rightarrow> string" where
  "status_Get s proc =
     (case s proc of None \<Rightarrow> ''ERROR: '' @ proc @ '' status not found'' | Some st \<Rightarrow> st)"

definition status_All :: "status \<Rightarrow> status" where
  "status_All s = s"

definition status_Merge :: "status \<Rightarrow> status list \<Rightarrow> status" where
  "status_Merge s others = foldl (++) (status_All s) others"

lemma dom_status_Update [simp]: "dom (status_Update p st s) = dom s"
  by (auto simp: status_Update_def split: option.splits)

lemma dom_status_UpdateRe [simp]: "dom (status_UpdateRe p st c s) = dom s"
  by (auto simp: status_UpdateRe_def split: option.splits)

lemma status_Update_apply:
  "status_Update p st s q = (if q = p \<and> s p \<noteq> None then Some st else s q)"
  by (auto simp: status_Update_def split: option.splits)

section \<open>SyncChan\<close>

text \<open>
  The done and crash channels hold one element each; \<open>Done\<close> on a full channel blocks, which
  is the value \<open>None\<close> of \<open>sync_Done\<close>. The unbuffered start and stop channels are
  rendezvous of the two goroutines and have no state of their own.
\<close>

record SyncChan =
  DoneChan :: nat
  CrashChan :: nat
  Crash :: bool

definition NewSyncChan :: SyncChan where
  "NewSyncChan = \<lparr>DoneChan = 0, CrashChan = 0, Crash = True\<rparr>"

definition sync_Graceful :: "SyncChan \<Rightarrow> SyncChan" where
  "sync_Graceful s = s\<lparr>Crash := False\<rparr>"

definition sync_IsGraceful :: "SyncChan \<Rightarrow> bool" where
  "sync_IsGraceful s \<longleftrightarrow> \<not> Crash s"

definition sync_Done :: "SyncChan \<Rightarrow> SyncChan option" where
  "sync_Done s =
     (if Crash s then (if CrashChan s < 1 then Some (s\<lparr>CrashChan := CrashChan s + 1\<rparr>) else None)
      else (if DoneChan s < 1 then Some (s\<lparr>DoneChan := DoneChan s + 1\<rparr>) else None))"

text \<open>\<open>Wait\<close> takes from whichever channel has an element; the argument is the choice
  \<open>select\<close> makes when both have one.\<close>

definition sync_Wait :: "bool \<Rightarrow> SyncChan \<Rightarrow> SyncChan option" where
  "sync_Wait preferCrash s =
     (if CrashChan s > 0 \<and> (preferCrash \<or> DoneChan s = 0)
        then Some (s\<lparr>CrashChan := CrashChan s - 1\<rparr>)
      else if DoneChan s > 0 then Some (s\<lparr>DoneChan := DoneChan s - 1\<rparr>)
      else None)"

text \<open>
  One life of a goroutine that owns the handshake: it runs until it is told to stop, when it
  calls \<open>Graceful\<close>, or until it panics, and then its deferred function calls \<open>Done\<close>.
\<close>

datatype exit_cause = Stopped | Panicked

definition sync_run :: "exit_cause \<Rightarrow> SyncChan \<Rightarrow> SyncChan option" where
  "sync_run c s = sync_Done (case c of Stopped \<Rightarrow> sync_Graceful s | Panicked \<Rightarrow> s)"

text \<open>
  Stopping a component: \<open>Stop\<close> wakes its goroutine, which exits gracefully, and \<open>Wait\<close> takes
  the announcement. \<open>None\<close> means that the caller blocks.
\<close>

definition sync_stop :: "SyncChan \<Rightarrow> SyncChan option" where
  "sync_stop s = Option.bind (sync_run Stopped s) (sync_Wait False)"

section \<open>Backoff\<close>

record Backoff =
  bo_maxWait :: int
  bo_resetAfter :: int
  bo_try :: int
  bo_lastSuccess :: "int option"

definition NewBackoff :: "int \<Rightarrow> int \<Rightarrow> Backoff" where
  "NewBackoff maxWait resetAfter =
     \<lparr>bo_maxWait = maxWait, bo_resetAfter = resetAfter, bo_try = 0, bo_lastSuccess = None\<rparr>"

text \<open>
  The argument \<open>jitter\<close> is the value of \<open>int(90 + (90 * rand.Float64()))\<close>; the result is in
  seconds. A zero \<open>time.Time\<close> is \<open>None\<close>.
\<close>

definition backoff_Wait :: "int \<Rightarrow> Backoff \<Rightarrow> Backoff \<times> int" where
  "backoff_Wait jitter b =
     (let (b', t) =
            (if bo_try b = 0 then (b\<lparr>bo_try := bo_try b + 1\<rparr>, 0)
             else if bo_try b < 7 then (b\<lparr>bo_try := bo_try b + 1\<rparr>, 2 ^ nat (bo_try b) - 1)
             else (b, jitter))
      in (b', if t > bo_maxWait b then bo_maxWait b else t))"

definition backoff_Success :: "int \<Rightarrow> int \<Rightarrow> Backoff \<Rightarrow> Backoff" where
  "backoff_Success timeNow nowFunc b =
     (case bo_lastSuccess b of
        None \<Rightarrow> b\<lparr>bo_lastSuccess := Some timeNow\<rparr>
      | Some lastSuccess \<Rightarrow>
          (let b' = (if nowFunc - lastSuccess > bo_resetAfter b then b\<lparr>bo_try := 0\<rparr> else b)
           in b'\<lparr>bo_lastSuccess := Some timeNow\<rparr>))"

text \<open>The waits of a run of failed connection attempts.\<close>

fun backoff_waits :: "int list \<Rightarrow> Backoff \<Rightarrow> int list" where
  "backoff_waits [] b = []"
| "backoff_waits (j # js) b = (case backoff_Wait j b of (b', t) \<Rightarrow> t # backoff_waits js b')"

definition backoff_ok :: "Backoff \<Rightarrow> bool" where
  "backoff_ok b \<longleftrightarrow> 0 \<le> bo_try b \<and> bo_try b \<le> 7 \<and> 0 \<le> bo_maxWait b"

section \<open>sys.go\<close>

definition ToBool :: "string \<Rightarrow> bool" where
  "ToBool s = (let s = ToLower s in s = ''yes'' \<or> s = ''true'' \<or> s = ''on'' \<or> s = ''1'')"

definition bytes_prefix :: "u64 \<Rightarrow> string" where
  "bytes_prefix n =
     (if n \<ge> 1000000000000 then ''T'' else if n \<ge> 1000000000 then ''G''
      else if n \<ge> 1000000 then ''M'' else if n \<ge> 1000 then ''k'' else '''')"

section \<open>Properties\<close>

lemma backoff_Wait_maxWait [simp]: "bo_maxWait (fst (backoff_Wait j b)) = bo_maxWait b"
  by (simp add: backoff_Wait_def Let_def)

lemma backoff_Wait_ok: "backoff_ok b \<Longrightarrow> backoff_ok (fst (backoff_Wait j b))"
  by (auto simp: backoff_ok_def backoff_Wait_def Let_def)

lemma backoff_Wait_bounds:
  "backoff_ok b \<Longrightarrow> 0 \<le> j \<Longrightarrow> 0 \<le> snd (backoff_Wait j b) \<and> snd (backoff_Wait j b) \<le> bo_maxWait b"
  by (auto simp: backoff_ok_def backoff_Wait_def Let_def)

lemma backoff_waits_range:
  "backoff_ok b \<Longrightarrow> \<forall>j \<in> set js. 0 \<le> j \<Longrightarrow>
   t \<in> set (backoff_waits js b) \<Longrightarrow> 0 \<le> t \<and> t \<le> bo_maxWait b"
proof (induction js arbitrary: b)
  case Nil
  then show ?case by simp
next
  case (Cons j js)
  then show ?case
    using backoff_Wait_bounds [of b j] backoff_Wait_ok [of b j]
    by (cases "backoff_Wait j b") (fastforce simp: backoff_Wait_maxWait [of j b, symmetric])
qed

lemma backoff_waits_nth:
  assumes "bo_try b = int k" and "k + i < 7" and "i < length js" and "0 \<le> bo_maxWait b"
  shows "backoff_waits js b ! i = min (bo_maxWait b) (2 ^ (k + i) - 1)"
  using assms
proof (induction js arbitrary: b k i)
  case Nil
  then show ?case by simp
next
  case (Cons j js)
  obtain b' t where w: "backoff_Wait j b = (b', t)" by fastforce
  from w Cons.prems have b': "bo_try b' = int (Suc k)" "bo_maxWait b' = bo_maxWait b"
    and t: "t = min (bo_maxWait b) (2 ^ k - 1)"
    by (auto simp: backoff_Wait_def Let_def min_def split: if_splits)
  show ?case
  proof (cases i)
    case 0
    with w t show ?thesis by simp
  next
    case (Suc i')
    with Cons.IH [OF b'(1), of i'] Cons.prems w b'(2) show ?thesis by simp
  qed
qed

text \<open>
  C23: whatever the number of failed attempts and whatever the random jitter, every wait of the
  connection backoff lies between zero and the configured maximum, and of the first seven
  waits of a fresh backoff the one after \<open>i\<close> failures is \<open>2 ^ i - 1\<close> seconds (0, 1, 3, 7, 15,
  31, 63), cut off at that maximum.
\<close>

theorem backoff_waits_bounded:
  assumes "0 \<le> maxWait" and "\<forall>j \<in> set js. 0 \<le> j"
  shows "(\<forall>t \<in> set (backoff_waits js (NewBackoff maxWait reset)). 0 \<le> t \<and> t \<le> maxWait)
    \<and> (\<forall>i < min 7 (length js).
         backoff_waits js (NewBackoff maxWait reset) ! i = min maxWait (2 ^ i - 1))"
proof -
  let ?b = "NewBackoff maxWait reset"
  have ok: "backoff_ok ?b" and mw: "bo_maxWait ?b = maxWait" and k: "bo_try ?b = int 0"
    using assms by (simp_all add: NewBackoff_def backoff_ok_def)
  show ?thesis
    using backoff_waits_range [OF ok assms(2)] backoff_waits_nth [OF k, of _ js] assms(1)
    by (auto simp: mw)
qed

theorem backoff_waits_bounded_witness:
  "backoff_waits [100, 100, 100, 100, 100, 100, 100, 100, 177] (NewBackoff 60 300)
     = [0, 1, 3, 7, 15, 31, 60, 60, 60]
   \<and> backoff_waits [100, 100, 100, 100, 100, 100, 100, 100, 177] (NewBackoff 60 300) ! 6
     = min 60 (2 ^ 6 - 1)"
proof -
  have "\<forall>j \<in> set [100, 100, 100, 100, 100, 100, 100, 100, 177 :: int]. 0 \<le> j" by simp
  from backoff_waits_bounded [OF _ this, of 60 300] show ?thesis
    by (simp add: backoff_Wait_def NewBackoff_def)
qed

text \<open>
  The handshake reports the cause of the first exit of a goroutine correctly, but
  \<open>Graceful\<close> is never undone: once a component has been stopped and started again with the
  same \<open>SyncChan\<close>, a later panic is announced on the done channel, as a graceful stop.
\<close>

theorem sync_crash_after_restart_looks_graceful:
  "map_option (\<lambda>s. (CrashChan s, DoneChan s)) (sync_run Panicked NewSyncChan) = Some (1, 0)
   \<and> Option.bind (Option.bind (sync_run Stopped NewSyncChan) (sync_Wait p))
       (\<lambda>s. map_option (\<lambda>s'. (CrashChan s', DoneChan s', sync_IsGraceful s')) (sync_run Panicked s))
     = Some (0, 1, True)"
  by (simp add: sync_run_def sync_Done_def sync_Wait_def sync_Graceful_def sync_IsGraceful_def
      NewSyncChan_def)

end
