(* ===== verification/Spooler.thy ===== *)
theory Spooler
  imports Pct "HOL-Library.List_Lexorder" "HOL-Library.Char_ord"
begin

text \<open>
  The data spooler, \<open>data/spooler.go\<close>: a disk-backed queue of encoded reports on top of the
  vendored key-value store \<open>diskv\<close>. The store is modelled by the directory it manages; the
  in-memory read cache of \<open>diskv\<close> is transparent to the operations modelled here. Clock
  readings and the outcome of system calls are arguments. Logging is not modelled.
\<close>

section \<open>The key-value store\<close>

datatype os_error = NotExist | IOError

text \<open>
  \<open>dv_files\<close> is the directory in the lexical order in which \<open>filepath.Walk\<close> visits it;
  the three lists say for which keys the operating system fails.
\<close>

record diskv =
  dv_files :: "(string \<times> bytes) list"
  dv_readErr :: "string list"
  dv_eraseErr :: "string list"
  dv_writeErr :: "string list"

definition files_put :: "string \<Rightarrow> bytes \<Rightarrow> (string \<times> bytes) list \<Rightarrow> (string \<times> bytes) list" where
  "files_put k v fs = insort_key fst (k, v) (alist_del k fs)"

definition diskv_Keys :: "diskv \<Rightarrow> string list" where
  "diskv_Keys d = map fst (dv_files d)"

definition diskv_Read :: "diskv \<Rightarrow> string \<Rightarrow> os_error + bytes" where
  "diskv_Read d k =
     (case map_of (dv_files d) k of
        None \<Rightarrow> Inl NotExist
      | Some v \<Rightarrow> if k \<in> set (dv_readErr d) then Inl IOError else Inr v)"

definition diskv_Write :: "diskv \<Rightarrow> string \<Rightarrow> bytes \<Rightarrow> os_error option \<times> diskv" where
  "diskv_Write d k v =
     (if k \<in> set (dv_writeErr d) then (Some IOError, d)
      else (None, d\<lparr>dv_files := files_put k v (dv_files d)\<rparr>))"

definition diskv_Erase :: "diskv \<Rightarrow> string \<Rightarrow> os_error option \<times> diskv" where
  "diskv_Erase d k =
     (case map_of (dv_files d) k of
        None \<Rightarrow> (Some NotExist, d)
      | Some v \<Rightarrow>
          if k \<in> set (dv_eraseErr d) then (Some IOError, d)
          else (None, d\<lparr>dv_files := alist_del k (dv_files d)\<rparr>))"

section \<open>State\<close>

definition WRITE_BUFFER :: nat where "WRITE_BUFFER = 100"

record limits =
  MaxAge :: u64
  MaxSize :: u64
  MaxFiles :: u64

record proto_data =
  pd_Created :: int
  pd_Hostname :: string
  pd_Service :: string
  pd_ContentEncoding :: string
  pd_Data :: bytes

record serializer =
  sz_Encoding :: string
  sz_Concurrent :: bool

datatype chan_state = NilChan | OpenChan | ClosedChan

record spooler =
  sp_hostname :: string
  sp_limits :: limits
  sp_sz :: "serializer option"
  sp_dataChan :: "proto_data list"
  sp_sync :: SyncChan
  sp_cache :: diskv
  sp_status :: status
  sp_count :: u64
  sp_size :: u64
  sp_oldest :: i64
  sp_fileSize :: "string \<rightharpoonup> nat"
  sp_cancelChan :: chan_state
  sp_crashed :: bool

definition NewDiskvSpooler :: "string \<Rightarrow> limits \<Rightarrow> diskv \<Rightarrow> spooler" where
  "NewDiskvSpooler hostname lims dir =
     \<lparr>sp_hostname = hostname, sp_limits = lims, sp_sz = None, sp_dataChan = [],
      sp_sync = NewSyncChan, sp_cache = dir,
      sp_status = NewStatus [''data-spooler'', ''data-spooler-count'', ''data-spooler-size'',
        ''data-spooler-oldest''],
      sp_count = 0, sp_size = 0, sp_oldest = 0, sp_fileSize = Map.empty,
      sp_cancelChan = NilChan, sp_crashed = False\<rparr>"

abbreviation set_spool_status :: "string \<Rightarrow> spooler \<Rightarrow> spooler" where
  "set_spool_status st s \<equiv> s\<lparr>sp_status := status_Update ''data-spooler'' st (sp_status s)\<rparr>"

section \<open>Files, reading and removing\<close>

definition spooler_Files :: "spooler \<Rightarrow> spooler \<times> string list" where
  "spooler_Files s = (s\<lparr>sp_cancelChan := OpenChan\<rparr>, diskv_Keys (sp_cache s))"

text \<open>Closing a closed channel panics.\<close>

definition spooler_CancelFiles :: "spooler \<Rightarrow> spooler" where
  "spooler_CancelFiles s =
     (case sp_cancelChan s of
        NilChan \<Rightarrow> s
      | OpenChan \<Rightarrow> s\<lparr>sp_cancelChan := ClosedChan\<rparr>
      | ClosedChan \<Rightarrow> s\<lparr>sp_crashed := True\<rparr>)"

definition spooler_Read :: "string \<Rightarrow> spooler \<Rightarrow> spooler \<times> (os_error + bytes)" where
  "spooler_Read file s =
     (let r = diskv_Read (sp_cache s) file;
          n = (case r of Inl _ \<Rightarrow> 0 | Inr data \<Rightarrow> length data)
      in (s\<lparr>sp_fileSize := (sp_fileSize s)(file \<mapsto> n)\<rparr>, r))"

text \<open>The flag says whether the method takes the mutex itself; it has no effect on the result.\<close>

definition spooler_remove :: "string \<Rightarrow> bool \<Rightarrow> spooler \<Rightarrow> spooler \<times> os_error option" where
  "spooler_remove file lock s =
     (let ok = (sp_fileSize s file \<noteq> None);
          (s, size) =
            (case sp_fileSize s file of
               Some n \<Rightarrow> (s, n)
             | None \<Rightarrow>
                 (case spooler_Read file s of
                    (s', Inl _) \<Rightarrow> (s', 0)
                  | (s', Inr data) \<Rightarrow> (s', length data)));
          (err, d) = diskv_Erase (sp_cache s) file;
          s = s\<lparr>sp_cache := d\<rparr>
      in if err \<noteq> None \<and> err \<noteq> Some NotExist then (s, err)
         else
           (let s = s\<lparr>sp_count := sp_count s - 1, sp_size := sp_size s - of_nat size\<rparr>
            in (if ok then s\<lparr>sp_fileSize := (sp_fileSize s)(file := None)\<rparr> else s, None)))"

definition spooler_Remove :: "string \<Rightarrow> spooler \<Rightarrow> spooler \<times> os_error option" where
  "spooler_Remove file s = spooler_remove file True s"

text \<open>
  \<open>Reject\<close> moves the file to the trash directory and then removes it from the store. The
  argument \<open>cached\<close> says whether the memory cache of the store still holds the file: only then
  does the read of \<open>Remove\<close> find its content. \<open>renameErr\<close> is the failure of \<open>os.Rename\<close>, which
  the method reports as success.
\<close>

definition spooler_Reject :: "bool \<Rightarrow> bool \<Rightarrow> string \<Rightarrow> spooler \<Rightarrow> spooler \<times> os_error option" where
  "spooler_Reject renameErr cached file s =
     (if renameErr then (s, None)
      else
        (let content = map_of (dv_files (sp_cache s)) file;
             s = s\<lparr>sp_cache := (sp_cache s)\<lparr>dv_files := alist_del file (dv_files (sp_cache s))\<rparr>\<rparr>;
             ok = (sp_fileSize s file \<noteq> None);
             size = (case sp_fileSize s file of
                       Some n \<Rightarrow> n
                     | None \<Rightarrow> if cached then (case content of None \<Rightarrow> 0 | Some v \<Rightarrow> length v) else 0);
             s = (if ok then s else s\<lparr>sp_fileSize := (sp_fileSize s)(file \<mapsto> size)\<rparr>);
             s = s\<lparr>sp_count := sp_count s - 1, sp_size := sp_size s - of_nat size\<rparr>
         in (if ok then s\<lparr>sp_fileSize := (sp_fileSize s)(file := None)\<rparr> else s, None)))"

text \<open>\<open>bytesStr\<close> is \<open>pct.Bytes\<close> and \<open>timeStr\<close> the formatting of a Unix time.\<close>

definition spooler_Status :: "(u64 \<Rightarrow> string) \<Rightarrow> (i64 \<Rightarrow> string) \<Rightarrow> spooler \<Rightarrow> spooler \<times> status" where
  "spooler_Status bytesStr timeStr s =
     (let st = sp_status s;
          st = status_Update ''data-spooler-count'' (string_of_nat (unat (sp_count s))) st;
          st = status_Update ''data-spooler-size'' (bytesStr (sp_size s)) st;
          st = status_Update ''data-spooler-oldest'' (timeStr (sp_oldest s)) st
      in (s\<lparr>sp_status := st\<rparr>, status_All st))"

section \<open>Names, statistics and purging\<close>

datatype name_error = InvalidName | BadTimestamp parse_error

definition spooler_ts :: "string \<Rightarrow> name_error + int" where
  "spooler_ts key =
     (let parts = split_on CHR ''_'' key
      in if length parts \<noteq> 2 then Inl InvalidName
         else case ParseInt (parts ! 1) of Inl e \<Rightarrow> Inl (BadTimestamp e) | Inr ts \<Rightarrow> Inr ts)"

definition spool_key :: "string \<Rightarrow> int \<Rightarrow> string" where
  "spool_key service ts = service @ ''_'' @ string_of_int ts"

definition cache_erase :: "string \<Rightarrow> spooler \<Rightarrow> spooler" where
  "cache_erase key s = s\<lparr>sp_cache := snd (diskv_Erase (sp_cache s) key)\<rparr>"

text \<open>The body of the loops of \<open>Start\<close> and \<open>updateStats\<close>: account for one file.\<close>

definition spool_account :: "spooler \<Rightarrow> string \<Rightarrow> spooler" where
  "spool_account s key =
     (case diskv_Read (sp_cache s) key of
        Inl _ \<Rightarrow> cache_erase key s
      | Inr data \<Rightarrow>
          (case spooler_ts key of
             Inl _ \<Rightarrow> cache_erase key s
           | Inr ts \<Rightarrow>
               s\<lparr>sp_oldest := (if ts < sint (sp_oldest s) then word_of_int ts else sp_oldest s),
                 sp_count := sp_count s + 1,
                 sp_size := sp_size s + of_nat (length data)\<rparr>))"

definition spooler_updateStats :: "i64 \<Rightarrow> spooler \<Rightarrow> spooler" where
  "spooler_updateStats nowNano s =
     (let s = s\<lparr>sp_count := 0, sp_size := 0, sp_oldest := nowNano\<rparr>;
          (s, keys) = spooler_Files s
      in foldl spool_account s keys)"

datatype reason = Age | Size | Files | Purged

text \<open>The deadline tests of \<open>purge\<close>; the age is an unsigned conversion of a signed quotient.\<close>

definition file_age :: "i64 \<Rightarrow> int \<Rightarrow> u64" where
  "file_age nowNano ts = go_sdiv (nowNano - word_of_int ts) 1000000000"

definition purge_reason :: "bool \<Rightarrow> limits \<Rightarrow> u64 \<Rightarrow> spooler \<Rightarrow> reason option" where
  "purge_reason purge lims age s =
     (if purge then Some Purged
      else if age > MaxAge lims then Some Age
      else if sp_size s > MaxSize lims then Some Size
      else if sp_count s > MaxFiles lims then Some Files
      else None)"

fun purge_loop :: "i64 \<Rightarrow> bool \<Rightarrow> limits \<Rightarrow> string list \<Rightarrow> spooler \<Rightarrow> (reason \<times> string) list
    \<Rightarrow> spooler \<times> (reason \<times> string) list" where
  "purge_loop nowNano purge lims [] s removed = (s, removed)"
| "purge_loop nowNano purge lims (file # files) s removed =
     (case spooler_ts file of
        Inl _ \<Rightarrow> purge_loop nowNano purge lims files (fst (spooler_remove file False s)) removed
      | Inr ts \<Rightarrow>
          (case purge_reason purge lims (file_age nowNano ts) s of
             None \<Rightarrow> purge_loop nowNano purge lims files s removed
           | Some r \<Rightarrow>
               purge_loop nowNano purge lims files (fst (spooler_remove file False s))
                 (removed @ [(r, file)])))"

definition purge_all :: "limits \<Rightarrow> bool" where
  "purge_all lims \<longleftrightarrow> MaxAge lims = 0 \<or> MaxSize lims = 0 \<or> MaxFiles lims = 0"

text \<open>
  \<open>purge\<close> returns the number of files removed and, per reason, their names, in one list. The
  deferred calls run in reverse order: cancel the walk, refresh the statistics, set the status.
\<close>

definition spooler_purge ::
  "i64 \<Rightarrow> i64 \<Rightarrow> limits \<Rightarrow> spooler \<Rightarrow> spooler \<times> nat \<times> (reason \<times> string) list" where
  "spooler_purge nowNano statsNow lims s =
     (let s = set_spool_status ''Purging'' s;
          (s, files) = spooler_Files s;
          (s, removed) = purge_loop nowNano (purge_all lims) lims files s [];
          s = spooler_CancelFiles s;
          s = spooler_updateStats statsNow s;
          s = set_spool_status ''Idle'' s
      in (s, length removed, removed))"

section \<open>Start, stop, write and the run loop\<close>

text \<open>\<open>mk1\<close> and \<open>mk2\<close> are the results of the two calls of \<open>MakeDir\<close>; the loop body is that of
  \<open>updateStats\<close> but, unlike it, \<open>Start\<close> does not reset the counters first.\<close>

definition spooler_Start ::
  "os_error option \<Rightarrow> os_error option \<Rightarrow> serializer \<Rightarrow> i64 \<Rightarrow> spooler \<Rightarrow> spooler \<times> os_error option" where
  "spooler_Start mk1 mk2 sz nowNano s =
     (let s = set_spool_status ''Starting'' s
      in if mk1 \<noteq> None then (s, mk1)
         else if mk2 \<noteq> None then (s, mk2)
         else
           (let s = s\<lparr>sp_sz := Some sz, sp_oldest := nowNano\<rparr>;
                (s, keys) = spooler_Files s
            in (foldl spool_account s keys, None)))"

text \<open>\<open>Stop\<close> drops the store's handle; the directory stays as it is.\<close>

definition spooler_Stop :: "spooler \<Rightarrow> spooler" where
  "spooler_Stop s =
     (case sync_stop (sp_sync s) of
        None \<Rightarrow> s
      | Some sy \<Rightarrow> (set_spool_status ''Stopped'' s)\<lparr>sp_sync := sy, sp_sz := None\<rparr>)"

lemma spooler_Stop_frame [frame]:
  "sp_cache (spooler_Stop s) = sp_cache s" "sp_count (spooler_Stop s) = sp_count s"
  "sp_size (spooler_Stop s) = sp_size s"
  by (simp_all add: spooler_Stop_def split: option.split)

datatype write_error = SerializeError | ErrSpoolTimeout | NilSerializer

text \<open>
  \<open>encode\<close> is the serializer's \<open>ToBytes\<close>. The send on the data channel times out when the
  buffer stays full for one second: the step is taken when that second has passed.
\<close>

definition spooler_Write ::
  "('d \<Rightarrow> bytes option) \<Rightarrow> int \<Rightarrow> string \<Rightarrow> 'd \<Rightarrow> spooler \<Rightarrow> spooler \<times> write_error option" where
  "spooler_Write encode now service data s =
     (case sp_sz s of
        None \<Rightarrow> (s, Some NilSerializer)
      | Some sz \<Rightarrow>
          (case encode data of
             None \<Rightarrow> (s, Some SerializeError)
           | Some enc \<Rightarrow>
               (let pd = \<lparr>pd_Created = now, pd_Hostname = sp_hostname s, pd_Service = service,
                          pd_ContentEncoding = sz_Encoding sz, pd_Data = enc\<rparr>
                in if length (sp_dataChan s) < WRITE_BUFFER
                   then (s\<lparr>sp_dataChan := sp_dataChan s @ [pd]\<rparr>, None)
                   else (s, Some ErrSpoolTimeout))))"

text \<open>One report received from the data channel; \<open>marshal\<close> is \<open>json.Marshal\<close>.\<close>

definition spool_one :: "(proto_data \<Rightarrow> bytes option) \<Rightarrow> proto_data \<Rightarrow> spooler \<Rightarrow> spooler" where
  "spool_one marshal pd s =
     (let ts = pd_Created pd;
          key = spool_key (pd_Service pd) ts;
          s = set_spool_status (''Spooling '' @ key) s
      in case marshal pd of
           None \<Rightarrow> s
         | Some data \<Rightarrow>
             (let s = s\<lparr>sp_cache := snd (diskv_Write (sp_cache s) key data)\<rparr>
              in s\<lparr>sp_count := sp_count s + 1,
                   sp_size := sp_size s + of_nat (length data),
                   sp_oldest := (if ts < sint (sp_oldest s) then word_of_int ts else sp_oldest s)\<rparr>))"

datatype spool_event = RecvData | PurgeTick i64 i64 | StopSignal | RunPanic

text \<open>
  One iteration of \<open>run\<close>, from the head of the loop (status Idle) to the next; the result
  \<open>True\<close> says that the goroutine has returned. Receiving from an empty channel blocks: no step.
\<close>

definition spooler_run_step ::
  "(proto_data \<Rightarrow> bytes option) \<Rightarrow> spool_event \<Rightarrow> spooler \<Rightarrow> (spooler \<times> bool) option" where
  "spooler_run_step marshal ev s =
     (case ev of
        RecvData \<Rightarrow>
          (case sp_dataChan s of
             [] \<Rightarrow> None
           | pd # rest \<Rightarrow>
               Some (set_spool_status ''Idle'' (spool_one marshal pd (s\<lparr>sp_dataChan := rest\<rparr>)), False))
      | PurgeTick now statsNow \<Rightarrow>
          Some (set_spool_status ''Idle'' (fst (spooler_purge now statsNow (sp_limits s) s)), False)
      | StopSignal \<Rightarrow>
          (let s = s\<lparr>sp_sync := sync_Graceful (sp_sync s)\<rparr>
           in map_option (\<lambda>sy. (set_spool_status ''Stopped'' (s\<lparr>sp_sync := sy\<rparr>), True))
                (sync_Done (sp_sync s)))
      | RunPanic \<Rightarrow>
          map_option
            (\<lambda>sy. (set_spool_status (if sync_IsGraceful (sp_sync s) then ''Stopped'' else ''Crashed'')
                      (s\<lparr>sp_sync := sy\<rparr>), True))
            (sync_Done (sp_sync s)))"

section \<open>The contract of the store\<close>

text \<open>
  What the spooler relies on: a failed read or erase leaves the directory alone, a successful
  erase removes exactly one file, and the listing names exactly the files there are.
\<close>

locale kv_store =
  fixes keys :: "'d \<Rightarrow> 'k list"
    and read :: "'d \<Rightarrow> 'k \<Rightarrow> os_error + 'v"
    and erase :: "'d \<Rightarrow> 'k \<Rightarrow> os_error option \<times> 'd"
    and contents :: "'d \<Rightarrow> ('k \<rightharpoonup> 'v)"
  assumes keys_contents: "set (keys d) = dom (contents d)"
    and read_contents: "read d k = Inr v \<Longrightarrow> contents d k = Some v"
    and read_missing: "contents d k = None \<Longrightarrow> read d k = Inl NotExist"
    and erase_ok: "erase d k = (None, d') \<Longrightarrow> contents d' = (contents d)(k := None)"
    and erase_failed: "erase d k = (Some e, d') \<Longrightarrow> d' = d"
    and erase_missing: "contents d k = None \<Longrightarrow> erase d k = (Some NotExist, d)"
begin

lemma erase_contents:
  "contents (snd (erase d k)) = contents d
   \<or> contents (snd (erase d k)) = (contents d)(k := None)"
  using erase_ok [of d k] erase_failed [of d k] by (cases "erase d k"; cases "fst (erase d k)") auto

lemma erase_frame: "k' \<noteq> k \<Longrightarrow> contents (snd (erase d k)) k' = contents d k'"
  using erase_contents [of d k] by auto

lemma keys_erase: "set (keys (snd (erase d k))) \<subseteq> set (keys d)"
  using erase_contents [of d k] by (auto simp: keys_contents split: if_splits)

lemma read_erased: "erase d k = (None, d') \<Longrightarrow> read d' k = Inl NotExist"
  by (rule read_missing) (simp add: erase_ok)

end

definition dv_contents :: "diskv \<Rightarrow> (string \<rightharpoonup> bytes)" where
  "dv_contents d = map_of (dv_files d)"

interpretation dv: kv_store diskv_Keys diskv_Read diskv_Erase dv_contents
  by unfold_locales
    (auto simp: diskv_Keys_def diskv_Read_def diskv_Erase_def dv_contents_def dom_map_of_conv_image_fst
      split: option.splits if_splits)

section \<open>The spool and its statistics\<close>

abbreviation sp_files :: "spooler \<Rightarrow> (string \<times> bytes) list" where
  "sp_files s \<equiv> dv_files (sp_cache s)"

definition total_size :: "(string \<times> bytes) list \<Rightarrow> nat" where
  "total_size fs = sum_list (map (\<lambda>(k, v). length v) fs)"

definition no_faults :: "diskv \<Rightarrow> bool" where
  "no_faults d \<longleftrightarrow> dv_readErr d = [] \<and> dv_eraseErr d = [] \<and> dv_writeErr d = []"

definition stats_ok :: "spooler \<Rightarrow> bool" where
  "stats_ok s \<longleftrightarrow> sp_count s = of_nat (length (sp_files s)) \<and> sp_size s = of_nat (total_size (sp_files s))"

definition sizes_ok :: "spooler \<Rightarrow> bool" where
  "sizes_ok s \<longleftrightarrow> (\<forall>k n v. sp_fileSize s k = Some n \<longrightarrow> map_of (sp_files s) k = Some v \<longrightarrow> n = length v)"

definition spool_inv :: "spooler \<Rightarrow> bool" where
  "spool_inv s \<longleftrightarrow>
     wf_alist (sp_files s) \<and> no_faults (sp_cache s) \<and> sizes_ok s \<and> stats_ok s
     \<and> length (sp_files s) < 2 ^ 64 \<and> total_size (sp_files s) < 2 ^ 64"

lemma total_size_simps [simp]:
  "total_size [] = 0" "total_size (kv # fs) = length (snd kv) + total_size fs"
  by (auto simp: total_size_def split: prod.splits)

lemma alist_del_Cons:
  "alist_del k ((k', v) # xs) = (if k' = k then alist_del k xs else (k', v) # alist_del k xs)"
  by (simp add: alist_del_def)

lemma alist_del_measure:
  assumes "wf_alist xs" and "map_of xs k = Some v"
  shows "length xs = Suc (length (alist_del k xs)) \<and>
    total_size xs = length v + total_size (alist_del k xs)"
  using assms
proof (induction xs)
  case Nil
  then show ?case by simp
next
  case (Cons kv xs)
  then show ?case
    by (cases kv) (auto simp: wf_alist_def alist_del_Cons alist_del_notin simp del: alist_del_def)
qed

text \<open>Removing a file that is there, with nothing failing, keeps the statistics exact.\<close>

lemma spooler_remove_inv:
  fixes lock :: bool
  assumes inv: "spool_inv s" and there: "file \<in> fst ` set (sp_files s)"
  defines "s' \<equiv> fst (spooler_remove file lock s)"
  shows "sp_files s' = alist_del file (sp_files s)" and "spool_inv s'"
    and "sp_cancelChan s' = sp_cancelChan s" and "sp_crashed s' = sp_crashed s"
    and "sp_status s' = sp_status s"
proof -
  from inv have wf: "wf_alist (sp_files s)" and nf: "no_faults (sp_cache s)"
    by (simp_all add: spool_inv_def)
  from there obtain v where v: "map_of (sp_files s) file = Some v"
    by (metis map_of_eq_None_iff option.exhaust_sel)
  note m = alist_del_measure [OF wf v]
  have s': "s' = s\<lparr>sp_cache := sp_cache s\<lparr>dv_files := alist_del file (sp_files s)\<rparr>,
      sp_count := sp_count s - 1, sp_size := sp_size s - of_nat (length v),
      sp_fileSize := (sp_fileSize s)(file := (if sp_fileSize s file = None then Some (length v) else None))\<rparr>"
    using nf v inv
    by (auto simp: s'_def spooler_remove_def spooler_Read_def diskv_Read_def diskv_Erase_def
        no_faults_def spool_inv_def sizes_ok_def Let_def fun_eq_iff split: option.splits)
  then show "sp_files s' = alist_del file (sp_files s)"
    and "sp_cancelChan s' = sp_cancelChan s" and "sp_crashed s' = sp_crashed s"
    and "sp_status s' = sp_status s" by simp_all
  show "spool_inv s'"
    using inv m by (auto simp: s' spool_inv_def no_faults_def sizes_ok_def stats_ok_def split: if_splits)
qed

lemma spool_inv_mono:
  assumes "spool_inv s" and "spool_inv s'" and "length (sp_files s') \<le> length (sp_files s)"
    and "total_size (sp_files s') \<le> total_size (sp_files s)"
  shows "sp_count s' \<le> sp_count s" and "sp_size s' \<le> sp_size s"
  using assms by (simp_all add: spool_inv_def stats_ok_def word_le_nat_alt go_word)

lemma alist_del_le:
  "length (alist_del k xs) \<le> length xs" "total_size (alist_del k xs) \<le> total_size xs"
  "set (alist_del k xs) \<subseteq> set xs"
proof -
  show "length (alist_del k xs) \<le> length xs" by (simp add: alist_del_def)
  show "total_size (alist_del k xs) \<le> total_size xs"
    by (induction xs) (auto simp: alist_del_def)
  show "set (alist_del k xs) \<subseteq> set xs" by (auto simp: alist_del_def)
qed

text \<open>What one run of the purge loop guarantees about the files it was given.\<close>

definition purge_post :: "i64 \<Rightarrow> bool \<Rightarrow> limits \<Rightarrow> string set \<Rightarrow> spooler \<Rightarrow> spooler \<Rightarrow> bool" where
  "purge_post now p lims fs s s' \<longleftrightarrow>
     spool_inv s' \<and> set (sp_files s') \<subseteq> set (sp_files s)
     \<and> length (sp_files s') \<le> length (sp_files s) \<and> total_size (sp_files s') \<le> total_size (sp_files s)
     \<and> sp_cancelChan s' = sp_cancelChan s \<and> sp_crashed s' = sp_crashed s
     \<and> (\<forall>k \<in> fs \<inter> fst ` set (sp_files s').
          \<not> p \<and> sp_count s' \<le> MaxFiles lims \<and> sp_size s' \<le> MaxSize lims
          \<and> (\<exists>ts. spooler_ts k = Inr ts \<and> file_age now ts \<le> MaxAge lims))"

lemma purge_post_remove:
  assumes "spool_inv s" and "f \<in> fst ` set (sp_files s)" and "f \<notin> fs"
    and "purge_post now p lims fs (fst (spooler_remove f False s)) s'"
  shows "purge_post now p lims (insert f fs) s s'"
proof -
  note r = spooler_remove_inv [OF assms(1,2), of False]
  have "f \<notin> fst ` set (sp_files s')"
    using assms(4) fst_alist_del [of f "sp_files s"] unfolding purge_post_def r(1) by blast
  then show ?thesis
    using assms(4) alist_del_le [of f "sp_files s"]
    unfolding purge_post_def r(1) r(3) r(4) by (auto intro: order_trans)
qed

lemma purge_post_keep:
  assumes "spool_inv s" and "purge_reason p lims (file_age now ts) s = None"
    and "spooler_ts f = Inr ts" and "purge_post now p lims fs s s'"
  shows "purge_post now p lims (insert f fs) s s'"
proof -
  from assms(2) have "\<not> p" "file_age now ts \<le> MaxAge lims" "sp_size s \<le> MaxSize lims"
    "sp_count s \<le> MaxFiles lims"
    by (auto simp: purge_reason_def not_less split: if_splits)
  moreover have "sp_count s' \<le> sp_count s" "sp_size s' \<le> sp_size s"
    using assms(1,4) by (auto simp: purge_post_def intro: spool_inv_mono)
  ultimately show ?thesis
    using assms(3,4) by (auto simp: purge_post_def)
qed

lemma purge_loop_post:
  assumes "spool_inv s" and "distinct fs" and "set fs \<subseteq> fst ` set (sp_files s)"
    and "purge_loop now p lims fs s acc = (s', acc')"
  shows "purge_post now p lims (set fs) s s'"
  using assms
proof (induction fs arbitrary: s acc)
  case Nil
  then show ?case by (simp add: purge_post_def)
next
  case (Cons f fs)
  let ?r = "fst (spooler_remove f False s)"
  have f: "f \<in> fst ` set (sp_files s)" "f \<notin> set fs" using Cons.prems by auto
  note r = spooler_remove_inv [OF Cons.prems(1) f(1), of False]
  have sub: "set fs \<subseteq> fst ` set (sp_files ?r)"
    using Cons.prems(3) f(2) unfolding r(1) fst_alist_del by auto
  have rem: "purge_post now p lims (insert f (set fs)) s s'"
    if "purge_loop now p lims fs ?r acc'' = (s', acc')" for acc''
    using purge_post_remove [OF Cons.prems(1) f Cons.IH [OF r(2) _ sub that]] Cons.prems(2) by simp
  show ?case
  proof (cases "spooler_ts f")
    case (Inl e)
    with Cons.prems(4) rem show ?thesis by simp
  next
    case (Inr ts)
    show ?thesis
    proof (cases "purge_reason p lims (file_age now ts) s")
      case None
      with Inr Cons.prems have "purge_post now p lims (set fs) s s'"
        by (auto intro!: Cons.IH [of s acc])
      with purge_post_keep [OF Cons.prems(1) None Inr] show ?thesis by simp
    next
      case (Some x)
      with Inr Cons.prems(4) rem show ?thesis by simp
    qed
  qed
qed

lemma spool_account_frame [frame]:
  "sp_fileSize (spool_account s k) = sp_fileSize s"
  "sp_fileSize (foldl spool_account s ks) = sp_fileSize s"
proof -
  show "sp_fileSize (spool_account s k) = sp_fileSize s" for s k
    by (simp add: spool_account_def cache_erase_def split: sum.split)
  then show "sp_fileSize (foldl spool_account s ks) = sp_fileSize s"
    by (induction ks arbitrary: s) simp_all
qed

text \<open>With every remaining name well formed and readable, the refresh leaves the directory alone
  and its counters are exact.\<close>

lemma foldl_spool_account:
  assumes "\<forall>(k, v) \<in> set fs. diskv_Read (sp_cache s) k = Inr v \<and> (\<exists>ts. spooler_ts k = Inr ts)"
  shows "sp_cache (foldl spool_account s (map fst fs)) = sp_cache s
    \<and> sp_count (foldl spool_account s (map fst fs)) = sp_count s + of_nat (length fs)
    \<and> sp_size (foldl spool_account s (map fst fs)) = sp_size s + of_nat (total_size fs)
    \<and> sp_fileSize (foldl spool_account s (map fst fs)) = sp_fileSize s
    \<and> sp_crashed (foldl spool_account s (map fst fs)) = sp_crashed s
    \<and> sp_cancelChan (foldl spool_account s (map fst fs)) = sp_cancelChan s"
  using assms
proof (induction fs arbitrary: s)
  case Nil
  then show ?case by simp
next
  case (Cons kv fs)
  obtain k v ts where kv: "kv = (k, v)" "diskv_Read (sp_cache s) k = Inr v" "spooler_ts k = Inr ts"
    using Cons.prems by (cases kv) auto
  then have step: "sp_cache (spool_account s k) = sp_cache s"
    "sp_count (spool_account s k) = sp_count s + 1"
    "sp_size (spool_account s k) = sp_size s + of_nat (length v)"
    "sp_fileSize (spool_account s k) = sp_fileSize s"
    "sp_crashed (spool_account s k) = sp_crashed s"
    "sp_cancelChan (spool_account s k) = sp_cancelChan s"
    by (simp_all add: spool_account_def)
  show ?case
    using Cons.IH [of "spool_account s k"] Cons.prems kv(1) step by simp
qed

lemma read_all:
  "wf_alist (dv_files d) \<Longrightarrow> no_faults d \<Longrightarrow> (k, v) \<in> set (dv_files d) \<Longrightarrow> diskv_Read d k = Inr v"
  by (simp add: diskv_Read_def no_faults_def wf_alist_def)

lemma spooler_updateStats_exact:
  assumes "wf_alist (sp_files s)" and "no_faults (sp_cache s)"
    and "\<forall>k \<in> fst ` set (sp_files s). \<exists>ts. spooler_ts k = Inr ts"
  shows "sp_cache (spooler_updateStats now s) = sp_cache s
    \<and> stats_ok (spooler_updateStats now s)
    \<and> sp_fileSize (spooler_updateStats now s) = sp_fileSize s
    \<and> sp_crashed (spooler_updateStats now s) = sp_crashed s"
proof -
  let ?s0 = "s\<lparr>sp_count := 0, sp_size := 0, sp_oldest := now, sp_cancelChan := OpenChan\<rparr>"
  have "\<forall>(k, v) \<in> set (sp_files s). diskv_Read (sp_cache ?s0) k = Inr v \<and> (\<exists>ts. spooler_ts k = Inr ts)"
    using assms read_all [of "sp_cache s"] by force
  from foldl_spool_account [OF this] show ?thesis
    by (simp add: spooler_updateStats_def spooler_Files_def diskv_Keys_def stats_ok_def)
qed

text \<open>
  C12: a purge, started with exact statistics and with no failing system call, leaves only
  files with a well-formed name that are no older than the age limit, and leaves the spool
  within the file and size limits with exact statistics; it never changes a file's content,
  it empties the spool when a limit is zero, and it does not panic.
\<close>

theorem spooler_purge_correct:
  assumes inv: "spool_inv s" and alive: "\<not> sp_crashed s"
    and purge: "spooler_purge now statsNow lims s = (s', n, removed)"
  shows "spool_inv s' \<and> set (sp_files s') \<subseteq> set (sp_files s)
    \<and> sp_count s' \<le> MaxFiles lims \<and> sp_size s' \<le> MaxSize lims
    \<and> (\<forall>k \<in> fst ` set (sp_files s').
         \<exists>ts. spooler_ts k = Inr ts \<and> file_age now ts \<le> MaxAge lims)
    \<and> (MaxAge lims = 0 \<or> MaxSize lims = 0 \<or> MaxFiles lims = 0 \<longrightarrow> sp_files s' = [])
    \<and> n = length removed \<and> \<not> sp_crashed s'"
proof -
  let ?s0 = "(set_spool_status ''Purging'' s)\<lparr>sp_cancelChan := OpenChan\<rparr>"
  let ?fs = "map fst (sp_files s)"
  obtain s1 rem1 where loop: "purge_loop now (purge_all lims) lims ?fs ?s0 [] = (s1, rem1)"
    by fastforce
  have inv0: "spool_inv ?s0" using inv by (simp add: spool_inv_def sizes_ok_def stats_ok_def)
  have dist: "distinct ?fs" using inv by (simp add: spool_inv_def wf_alist_def)
  have post: "purge_post now (purge_all lims) lims (set ?fs) ?s0 s1"
    by (rule purge_loop_post [OF inv0 dist _ loop]) simp
  then have inv1: "spool_inv s1" and sub: "set (sp_files s1) \<subseteq> set (sp_files s)"
    and chan: "sp_cancelChan s1 = OpenChan" and al: "\<not> sp_crashed s1"
    and kept: "\<forall>k \<in> fst ` set (sp_files s1). \<not> purge_all lims \<and> sp_count s1 \<le> MaxFiles lims
      \<and> sp_size s1 \<le> MaxSize lims \<and> (\<exists>ts. spooler_ts k = Inr ts \<and> file_age now ts \<le> MaxAge lims)"
    using alive unfolding purge_post_def by auto
  let ?s2 = "spooler_CancelFiles s1"
  have s2: "sp_cache ?s2 = sp_cache s1" "sp_fileSize ?s2 = sp_fileSize s1" "\<not> sp_crashed ?s2"
    using chan al by (simp_all add: spooler_CancelFiles_def)
  have upd: "sp_cache (spooler_updateStats statsNow ?s2) = sp_cache s1
      \<and> stats_ok (spooler_updateStats statsNow ?s2)
      \<and> sp_fileSize (spooler_updateStats statsNow ?s2) = sp_fileSize s1
      \<and> \<not> sp_crashed (spooler_updateStats statsNow ?s2)"
    using spooler_updateStats_exact [of ?s2 statsNow] inv1 kept s2
    by (fastforce simp: spool_inv_def)
  have s': "s' = set_spool_status ''Idle'' (spooler_updateStats statsNow ?s2)"
    and n: "n = length removed"
    using purge loop
    by (auto simp: spooler_purge_def spooler_Files_def diskv_Keys_def Let_def)
  have inv': "spool_inv s'" and f': "sp_files s' = sp_files s1" and "\<not> sp_crashed s'"
    using upd inv1 by (simp_all add: s' spool_inv_def sizes_ok_def stats_ok_def)
  have eq: "sp_count s' = sp_count s1" "sp_size s' = sp_size s1"
    using inv' inv1 f' by (simp_all add: spool_inv_def stats_ok_def)
  have "sp_count s1 \<le> MaxFiles lims \<and> sp_size s1 \<le> MaxSize lims"
  proof (cases "sp_files s1")
    case Nil
    with inv1 show ?thesis by (simp add: spool_inv_def stats_ok_def)
  next
    case (Cons kv fs)
    with kept show ?thesis by auto
  qed
  moreover have "purge_all lims \<longrightarrow> sp_files s1 = []"
    using kept by (cases "sp_files s1") auto
  moreover have "\<forall>k \<in> fst ` set (sp_files s1).
      \<exists>ts. spooler_ts k = Inr ts \<and> file_age now ts \<le> MaxAge lims"
    using kept by blast
  ultimately show ?thesis
    unfolding f' eq purge_all_def using inv' sub n \<open>\<not> sp_crashed s'\<close> by simp
qed

theorem spooler_purge_correct_witness:
  "let s = fst (spooler_Start None None \<lparr>sz_Encoding = ''gzip'', sz_Concurrent = False\<rparr> 100
             (NewDiskvSpooler ''h'' \<lparr>MaxAge = 5, MaxSize = 100, MaxFiles = 1\<rparr>
               \<lparr>dv_files = [(''qan_10'', ''ab''), (''qan_90'', ''cde'')],
                dv_readErr = [], dv_eraseErr = [], dv_writeErr = []\<rparr>));
       (s', n, removed) = spooler_purge 100 100 (sp_limits s) s
   in spool_inv s \<and> spool_inv s' \<and> map fst (sp_files s') = [''qan_90'']
      \<and> n = 1 \<and> removed = [(Files, ''qan_10'')]"
proof -
  define s where "s = fst (spooler_Start None None \<lparr>sz_Encoding = ''gzip'', sz_Concurrent = False\<rparr> 100
             (NewDiskvSpooler ''h'' \<lparr>MaxAge = 5, MaxSize = 100, MaxFiles = 1\<rparr>
               \<lparr>dv_files = [(''qan_10'', ''ab''), (''qan_90'', ''cde'')],
                dv_readErr = [], dv_eraseErr = [], dv_writeErr = []\<rparr>))"
  have files: "sp_cache s = \<lparr>dv_files = [(''qan_10'', ''ab''), (''qan_90'', ''cde'')],
       dv_readErr = [], dv_eraseErr = [], dv_writeErr = []\<rparr>"
    and stats: "sp_count s = 2" "sp_size s = 5" "\<not> sp_crashed s"
    unfolding s_def by code_simp+
  have "sp_fileSize s = Map.empty"
    by (simp add: s_def spooler_Start_def spooler_Files_def NewDiskvSpooler_def frame Let_def)
  have inv: "spool_inv s"
    using stats \<open>sp_fileSize s = Map.empty\<close>
    by (simp add: spool_inv_def files wf_alist_def no_faults_def sizes_ok_def stats_ok_def)
  obtain s' n removed where p: "spooler_purge 100 100 (sp_limits s) s = (s', n, removed)"
    by (cases "spooler_purge 100 100 (sp_limits s) s") auto
  have "(map fst (sp_files (fst (spooler_purge 100 100 (sp_limits s) s))),
         snd (spooler_purge 100 100 (sp_limits s) s))
      = ([''qan_90''], 1, [(Files, ''qan_10'')])"
    unfolding s_def by code_simp
  with spooler_purge_correct [OF inv stats(3) p] inv p show ?thesis
    by (simp add: s_def [symmetric])
qed

section \<open>File names\<close>

text \<open>
  The file name the spooler gives a report determines its timestamp: reading it back from
  the name gives the timestamp the report was created at. A service name that itself holds an
  underscore makes a name that every later reader rejects as invalid.
\<close>

theorem spool_key_roundtrip:
  assumes "in_int64 t"
  shows "spooler_ts (spool_key service t)
    = (if CHR ''_'' \<in> set service then Inl InvalidName else Inr t)"
proof (cases "CHR ''_'' \<in> set service")
  case True
  then have "count_list (spool_key service t) CHR ''_'' \<noteq> 1"
    using count_list_0_iff [of service "CHR ''_''"] by (simp add: spool_key_def)
  then show ?thesis
    using True split_on_two_iff [of "CHR ''_''" "spool_key service t"]
    by (simp add: spooler_ts_def Let_def)
next
  case False
  then have "split_on CHR ''_'' (spool_key service t) = [service, string_of_int t]"
    by (simp add: spool_key_def split_on_append_sep)
  then show ?thesis
    using False ParseInt_string_of_int [OF assms] by (simp add: spooler_ts_def Let_def)
qed

theorem spool_key_roundtrip_witness:
  "spooler_ts (spool_key ''qan'' 1500000000123456789) = Inr 1500000000123456789
   \<and> spooler_ts (spool_key ''q_n'' 1500000000123456789) = Inl InvalidName"
  using spool_key_roundtrip [of 1500000000123456789 "''qan''"]
    spool_key_roundtrip [of 1500000000123456789 "''q_n''"]
  by (simp add: in_int64_def int64_min_def int64_max_def)

section \<open>Spooling a report\<close>

lemma map_of_insort_fresh:
  "k \<notin> fst ` set fs \<Longrightarrow> map_of (insort_key fst (k, v) fs) = (map_of fs)(k \<mapsto> v)"
  by (induction fs) (auto simp: fun_eq_iff)

lemma map_of_files_put [simp]: "map_of (files_put k v fs) = (map_of fs)(k \<mapsto> v)"
  by (simp add: files_put_def map_of_insort_fresh)

lemma map_fst_insort: "map fst (insort_key fst kv fs) = insort (fst kv) (map fst fs)"
  by (induction fs) auto

lemma wf_files_put: "wf_alist fs \<Longrightarrow> wf_alist (files_put k v fs)"
  using wf_alist_del [of fs k] fst_alist_del [of k fs]
  by (simp add: wf_alist_def files_put_def map_fst_insort distinct_insort)

lemma total_size_insort: "total_size (insort_key fst kv fs) = length (snd kv) + total_size fs"
  by (induction fs) auto

lemma files_put_fresh:
  "k \<notin> fst ` set fs \<Longrightarrow>
   length (files_put k v fs) = Suc (length fs) \<and> total_size (files_put k v fs) = length v + total_size fs"
  by (simp add: files_put_def alist_del_notin total_size_insort)

text \<open>
  C18: when the run loop takes a report from the data channel and nothing fails, the report is
  on disk under its key, every other file is unchanged, and the statistics stay exact, provided
  the key is new: no other report of the service was created in the same nanosecond. The report
  leaves the channel and the loop goes on.
\<close>

theorem spooler_run_spools:
  fixes s :: spooler
  assumes inv: "spool_inv s" and chan: "sp_dataChan s = pd # rest" and m: "marshal pd = Some data"
    and fresh: "diskv_Read (sp_cache s) (spool_key (pd_Service pd) (pd_Created pd)) = Inl NotExist"
    and unread: "sp_fileSize s (spool_key (pd_Service pd) (pd_Created pd)) = None"
    and room: "length (sp_files s) + 1 < 2 ^ 64" "total_size (sp_files s) + length data < 2 ^ 64"
  shows "\<exists>s'. spooler_run_step marshal RecvData s = Some (s', False)
    \<and> spool_inv s' \<and> sp_dataChan s' = rest
    \<and> (\<forall>k. diskv_Read (sp_cache s') k =
          (if k = spool_key (pd_Service pd) (pd_Created pd) then Inr data else diskv_Read (sp_cache s) k))"
proof -
  let ?k = "spool_key (pd_Service pd) (pd_Created pd)"
  let ?s' = "set_spool_status ''Idle'' (spool_one marshal pd (s\<lparr>sp_dataChan := rest\<rparr>))"
  have nf: "dv_readErr (sp_cache s) = []" "dv_writeErr (sp_cache s) = []"
    using inv by (simp_all add: spool_inv_def no_faults_def)
  have "?k \<notin> fst ` set (sp_files s)"
    using fresh nf by (auto simp: diskv_Read_def map_of_eq_None_iff split: option.splits)
  note size = files_put_fresh [OF this, of data]
  have s': "sp_cache ?s' = (sp_cache s)\<lparr>dv_files := files_put ?k data (sp_files s)\<rparr>"
    "sp_count ?s' = sp_count s + 1" "sp_size ?s' = sp_size s + of_nat (length data)"
    "sp_fileSize ?s' = sp_fileSize s" "sp_dataChan ?s' = rest"
    using m nf by (simp_all add: spool_one_def diskv_Write_def Let_def)
  have "spool_inv ?s'"
    using inv size room unread wf_files_put [of "sp_files s" ?k data]
    unfolding spool_inv_def sizes_ok_def stats_ok_def no_faults_def s' by (auto simp: ac_simps)
  moreover have "spooler_run_step marshal RecvData s = Some (?s', False)"
    using chan by (simp add: spooler_run_step_def)
  ultimately show ?thesis
    using nf s' by (auto simp: diskv_Read_def split: option.split)
qed

theorem spooler_run_spools_witness:
  "let pd = \<lparr>pd_Created = 7, pd_Hostname = ''h'', pd_Service = ''qan'', pd_ContentEncoding = ''gzip'',
             pd_Data = ''x''\<rparr>;
       s = (NewDiskvSpooler ''h'' \<lparr>MaxAge = 5, MaxSize = 100, MaxFiles = 10\<rparr>
             \<lparr>dv_files = [], dv_readErr = [], dv_eraseErr = [], dv_writeErr = []\<rparr>)
            \<lparr>sp_dataChan := [pd]\<rparr>
   in \<exists>s'. spooler_run_step (\<lambda>pd. Some (pd_Data pd)) RecvData s = Some (s', False)
        \<and> spool_inv s' \<and> sp_dataChan s' = []
        \<and> (\<forall>k. diskv_Read (sp_cache s') k =
             (if k = spool_key ''qan'' 7 then Inr ''x'' else Inl NotExist))"
proof -
  define pd where "pd = \<lparr>pd_Created = 7, pd_Hostname = ''h'', pd_Service = ''qan'',
    pd_ContentEncoding = ''gzip'', pd_Data = ''x''\<rparr>"
  define s where "s = (NewDiskvSpooler ''h'' \<lparr>MaxAge = 5, MaxSize = 100, MaxFiles = 10\<rparr>
    \<lparr>dv_files = [], dv_readErr = [], dv_eraseErr = [], dv_writeErr = []\<rparr>)\<lparr>sp_dataChan := [pd]\<rparr>"
  have "spool_inv s"
    by (simp add: s_def NewDiskvSpooler_def spool_inv_def wf_alist_def no_faults_def sizes_ok_def stats_ok_def)
  moreover have len: "length (pd_Data pd) < 2 ^ 64" by (simp add: pd_def)
  moreover have chan: "sp_dataChan s = [pd]" and files: "sp_files s = []" "sp_fileSize s = Map.empty"
    and read: "diskv_Read (sp_cache s) k = Inl NotExist" for k
    by (simp_all add: s_def NewDiskvSpooler_def diskv_Read_def)
  ultimately have "\<exists>s'. spooler_run_step (\<lambda>pd. Some (pd_Data pd)) RecvData s = Some (s', False)
    \<and> spool_inv s' \<and> sp_dataChan s' = []
    \<and> (\<forall>k. diskv_Read (sp_cache s') k =
          (if k = spool_key (pd_Service pd) (pd_Created pd) then Inr (pd_Data pd) else Inl NotExist))"
    using spooler_run_spools [of s pd "[]" "\<lambda>pd. Some (pd_Data pd)" "pd_Data pd"]
    unfolding read files chan by (simp add: len split del: if_split)
  moreover have "pd_Service pd = ''qan''" "pd_Created pd = 7" "pd_Data pd = ''x''"
    by (simp_all add: pd_def)
  ultimately show ?thesis
    by (simp only: Let_def s_def [symmetric] pd_def [symmetric])
qed

section \<open>Clocks that go backwards, restarts and concurrent walks\<close>

lemma go_sdiv_value:
  assumes "in_int64 a" and "in_int64 b" and "0 < b"
  shows "sint (go_sdiv (word_of_int a) (word_of_int b)) = a sdiv b"
proof -
  have "\<bar>a\<bar> div b \<le> \<bar>a\<bar>" using assms(3) int_div_le_self [of "\<bar>a\<bar>" b] by (cases "a = 0") simp_all
  moreover have "0 \<le> \<bar>a\<bar> div b" using assms(3) by (simp add: pos_imp_zdiv_nonneg_iff)
  ultimately have "in_int64 (a sdiv b)"
    using assms by (auto simp: in_int64_def int64_min_def int64_max_def signed_divide_int_def sgn_if)
  then show ?thesis using assms by (simp add: go_sdiv_def go_word)
qed

text \<open>
  The age of a file that carries a timestamp of a second or more in the future is negative
  and its conversion to an unsigned number is at least \<open>2 ^ 63\<close> seconds, so that the next purge
  removes it as too old under every age limit below \<open>2 ^ 63\<close>: when the system clock is set
  back, reports that were never sent are lost.
\<close>

theorem purge_future_file:
  assumes "in_int64 now" and "in_int64 t" and "in_int64 (now - t)" and "now + 1000000000 \<le> t"
    and "MaxAge lims < 2 ^ 63" and "\<not> purge_all lims"
  shows "2 ^ 63 \<le> unat (file_age (word_of_int now) t)
    \<and> purge_reason (purge_all lims) lims (file_age (word_of_int now) t) s = Some Age"
proof -
  have "sint (file_age (word_of_int now) t) = (now - t) sdiv 1000000000"
    using go_sdiv_value [of "now - t" 1000000000] assms(3)
    by (simp add: file_age_def in_int64_def int64_min_def int64_max_def)
  also have "\<dots> < 0"
    using assms(4) by (simp add: signed_divide_int_def sgn_if)
  finally have neg: "sint (file_age (word_of_int now) t) < 0" .
  then have "2 ^ 63 \<le> uint (file_age (word_of_int now) t)"
    by (rule sint_neg_uint)
  then have big: "2 ^ 63 \<le> unat (file_age (word_of_int now) t)"
    by (simp add: le_nat_iff flip: nat_uint_eq)
  then have "MaxAge lims < file_age (word_of_int now) t"
    using assms(5) by (simp add: word_less_nat_alt)
  with big assms(6) show ?thesis by (simp add: purge_reason_def)
qed

theorem purge_future_file_witness:
  "2 ^ 63 \<le> unat (file_age (word_of_int 100) 5000000000)
   \<and> purge_reason False \<lparr>MaxAge = 86400, MaxSize = 1000, MaxFiles = 10\<rparr>
        (file_age (word_of_int 100) 5000000000)
        (NewDiskvSpooler ''h'' \<lparr>MaxAge = 86400, MaxSize = 1000, MaxFiles = 10\<rparr>
           \<lparr>dv_files = [], dv_readErr = [], dv_eraseErr = [], dv_writeErr = []\<rparr>) = Some Age"
  using purge_future_file [of 100 5000000000 "\<lparr>MaxAge = 86400, MaxSize = 1000, MaxFiles = 10\<rparr>"]
  by (simp add: purge_all_def in_int64_def int64_min_def int64_max_def)

text \<open>
  A restart: \<open>Start\<close> adds the files it finds to the counters instead of setting them, so that a spooler
  that is stopped and started again counts every file and every byte twice, until the next purge.
\<close>

theorem spooler_restart_counts_twice:
  assumes "wf_alist (sp_files s)" and "no_faults (sp_cache s)" and "stats_ok s"
    and "\<forall>k \<in> fst ` set (sp_files s). \<exists>ts. spooler_ts k = Inr ts"
  shows "sp_count (fst (spooler_Start None None sz now (spooler_Stop s)))
      = 2 * of_nat (length (sp_files s))
    \<and> sp_size (fst (spooler_Start None None sz now (spooler_Stop s)))
      = 2 * of_nat (total_size (sp_files s))"
proof -
  let ?s0 = "(set_spool_status ''Starting'' (spooler_Stop s))
    \<lparr>sp_sz := Some sz, sp_oldest := now, sp_cancelChan := OpenChan\<rparr>"
  have "\<forall>(k, v) \<in> set (sp_files s). diskv_Read (sp_cache ?s0) k = Inr v \<and> (\<exists>ts. spooler_ts k = Inr ts)"
    using assms read_all [of "sp_cache s"] by (force simp: frame)
  from foldl_spool_account [OF this] show ?thesis
    using assms(3)
    by (simp add: spooler_Start_def frame spooler_Files_def diskv_Keys_def stats_ok_def Let_def)
qed

theorem spooler_restart_counts_twice_witness:
  "sp_count (fst (spooler_Start None None \<lparr>sz_Encoding = ''gzip'', sz_Concurrent = False\<rparr> 9
     (spooler_Stop (fst (spooler_Start None None \<lparr>sz_Encoding = ''gzip'', sz_Concurrent = False\<rparr> 9
       (NewDiskvSpooler ''h'' \<lparr>MaxAge = 5, MaxSize = 100, MaxFiles = 10\<rparr>
         \<lparr>dv_files = [(''qan_1'', ''ab'')], dv_readErr = [], dv_eraseErr = [], dv_writeErr = []\<rparr>)))))) = 2"
proof -
  define s where "s = fst (spooler_Start None None \<lparr>sz_Encoding = ''gzip'', sz_Concurrent = False\<rparr> 9
    (NewDiskvSpooler ''h'' \<lparr>MaxAge = 5, MaxSize = 100, MaxFiles = 10\<rparr>
      \<lparr>dv_files = [(''qan_1'', ''ab'')], dv_readErr = [], dv_eraseErr = [], dv_writeErr = []\<rparr>))"
  have cache: "sp_cache s = \<lparr>dv_files = [(''qan_1'', ''ab'')], dv_readErr = [], dv_eraseErr = [], dv_writeErr = []\<rparr>"
    and stats: "sp_count s = 1" "sp_size s = 2" "spooler_ts ''qan_1'' = Inr 1"
    unfolding s_def by code_simp+
  show ?thesis
    using spooler_restart_counts_twice [of s "\<lparr>sz_Encoding = ''gzip'', sz_Concurrent = False\<rparr>" 9] stats
    by (simp add: cache stats_ok_def no_faults_def wf_alist_def flip: s_def)
qed

text \<open>
  The sender and the purge both walk the spool with \<open>Files\<close> and \<open>CancelFiles\<close>, which share
  one cancel channel. A walk alone closes its own channel; when the two walks overlap, the second
  \<open>CancelFiles\<close> closes a closed channel, which is a panic.
\<close>

theorem spooler_overlapping_walks_panic:
  "sp_crashed (spooler_CancelFiles (fst (spooler_Files s))) = sp_crashed s
   \<and> sp_crashed (spooler_CancelFiles (spooler_CancelFiles (fst (spooler_Files (fst (spooler_Files s))))))"
  by (simp add: spooler_CancelFiles_def spooler_Files_def)

end
