(* ===== verification/Sender.thy ===== *)
theory Sender
  imports Spooler
begin

text \<open>
  The data sender, \<open>data/sender.go\<close>, and its statistics, \<open>data/stats.go\<close>. The sender works on
  the \<open>Spooler\<close> interface and on the \<open>pct.WebsocketClient\<close> interface; both are records of
  operations here. The spooler's contract is the locale \<open>spool_iface\<close>, which the disk spooler
  satisfies. Times are nanoseconds; a zero \<open>time.Time\<close> is \<open>None\<close>.
\<close>

section \<open>Statistics\<close>

record SentInfo =
  si_Begin :: int
  si_End :: int
  si_SendTime :: float64
  si_Files :: u64
  si_Bytes :: u64
  si_Errs :: u64
  si_ApiErrs :: u64
  si_Timeouts :: u64
  si_BadFiles :: u64

record SentReport =
  sr_Begin :: "int option"
  sr_End :: "int option"
  sr_Bytes :: string
  sr_Duration :: string
  sr_Utilization :: string
  sr_Throughput :: string
  sr_Files :: u64
  sr_Errs :: u64
  sr_ApiErrs :: u64
  sr_Timeouts :: u64
  sr_BadFiles :: u64

text \<open>\<open>ss_sent\<close> is the linked list from its front (the newest) to its back.\<close>

record SenderStats =
  ss_d :: int
  ss_begin :: "int option"
  ss_end :: "int option"
  ss_sent :: "SentInfo list"
  ss_full :: bool

definition NewSenderStats :: "int \<Rightarrow> SenderStats" where
  "NewSenderStats d = \<lparr>ss_d = d, ss_begin = None, ss_end = None, ss_sent = [], ss_full = False\<rparr>"

text \<open>The loop of \<open>Sent\<close> over the list from its back: which elements stay.\<close>

fun stats_drop_old :: "int \<Rightarrow> int \<Rightarrow> SentInfo list \<Rightarrow> SentInfo list" where
  "stats_drop_old d end (e # prev # es) =
     (if end - si_Begin prev < d then e # prev # es else stats_drop_old d end (prev # es))"
| "stats_drop_old d end es = es"

text \<open>
  The difference to a zero \<open>time.Time\<close> saturates at the largest duration, so that it is never
  below \<open>d\<close>.
\<close>

definition stats_Sent :: "SenderStats \<Rightarrow> SentInfo \<Rightarrow> SenderStats" where
  "stats_Sent s info =
     (let s = s\<lparr>ss_sent := info # ss_sent s, ss_end := Some (si_End info)\<rparr>;
          s = (if ss_full s
               then s\<lparr>ss_sent := rev (stats_drop_old (ss_d s) (si_End info) (rev (ss_sent s)))\<rparr>
               else if (case ss_begin s of None \<Rightarrow> True | Some b \<Rightarrow> si_End info - b \<ge> ss_d s)
               then s\<lparr>ss_full := True\<rparr>
               else s)
      in s\<lparr>ss_begin := Some (si_Begin (last (ss_sent s)))\<rparr>)"

text \<open>The number formats of \<open>pct.Bytes\<close>, \<open>pct.Duration\<close>, \<open>pct.Mbps\<close> and \<open>pct.TimeString\<close>.\<close>

record formats =
  fmt_Bytes :: "u64 \<Rightarrow> string"
  fmt_Duration :: "float64 \<Rightarrow> string"
  fmt_Mbps :: "u64 \<Rightarrow> float64 \<Rightarrow> string"
  fmt_Time :: "int option \<Rightarrow> string"

definition stats_seconds :: "SenderStats \<Rightarrow> float64" where
  "stats_seconds s =
     (case (ss_begin s, ss_end s) of (Some b, Some e) \<Rightarrow> of_int (e - b) / 1000000000 | _ \<Rightarrow> 0)"

definition stats_Report :: "formats \<Rightarrow> SenderStats \<Rightarrow> SentReport" where
  "stats_Report f s =
     (let infos = rev (ss_sent s);
          bytes = sum_list (map si_Bytes infos);
          sendTime = sum_list (map si_SendTime infos)
      in \<lparr>sr_Begin = ss_begin s, sr_End = ss_end s,
          sr_Bytes = fmt_Bytes f bytes,
          sr_Duration = fmt_Duration f (stats_seconds s),
          sr_Utilization = fmt_Mbps f bytes (stats_seconds s) @ '' Mbps'',
          sr_Throughput = fmt_Mbps f bytes sendTime @ '' Mbps'',
          sr_Files = sum_list (map si_Files infos),
          sr_Errs = sum_list (map si_Errs infos),
          sr_ApiErrs = sum_list (map si_ApiErrs infos),
          sr_Timeouts = sum_list (map si_Timeouts infos),
          sr_BadFiles = sum_list (map si_BadFiles infos)\<rparr>)"

abbreviation dec :: "u64 \<Rightarrow> string" where
  "dec n \<equiv> string_of_nat (unat n)"

definition FormatSentReport :: "SentReport \<Rightarrow> string" where
  "FormatSentReport r =
     dec (sr_Files r) @ '' files, '' @ sr_Bytes r @ '', '' @ sr_Duration r @ '', ''
     @ sr_Utilization r @ '' net util, '' @ sr_Throughput r @ '' net speed''
     @ (if sr_Errs r + sr_BadFiles r + sr_ApiErrs r + sr_Timeouts r > 0
        then '', '' @ dec (sr_Errs r) @ '' errors, '' @ dec (sr_ApiErrs r) @ '' API errors, ''
          @ dec (sr_Timeouts r) @ '' timeouts, '' @ dec (sr_BadFiles r) @ '' bad files''
        else '''')"

definition stats_Dump :: "SenderStats \<Rightarrow> SentInfo list" where
  "stats_Dump s = rev (ss_sent s)"

section \<open>Statistics: the window\<close>

definition stats_run :: "int \<Rightarrow> SentInfo list \<Rightarrow> SenderStats" where
  "stats_run d infos = foldl stats_Sent (NewSenderStats d) infos"

definition stats_window :: "int \<Rightarrow> int \<Rightarrow> SentInfo list \<Rightarrow> nat \<Rightarrow> bool" where
  "stats_window d end h k \<longleftrightarrow>
     k < length h
     \<and> (k = 0 \<or> d \<le> end - si_Begin (h ! k))
     \<and> (Suc k < length h \<longrightarrow> end - si_Begin (h ! Suc k) < d)"

lemma stats_drop_old_window:
  "xs \<noteq> [] \<Longrightarrow> \<exists>k. stats_drop_old d end xs = drop k xs \<and> stats_window d end xs k"
proof (induction d "end" xs rule: stats_drop_old.induct)
  case (1 d e a b es)
  show ?case
  proof (cases "e - si_Begin b < d")
    case True
    then show ?thesis by (intro exI [of _ 0]) (simp add: stats_window_def)
  next
    case False
    with "1.IH" obtain k where k: "stats_drop_old d e (b # es) = drop k (b # es)"
      "stats_window d e (b # es) k" by auto
    with False show ?thesis
      by (intro exI [of _ "Suc k"]) (cases k, auto simp: stats_window_def)
  qed
qed (auto simp: stats_window_def)

lemma stats_run_window:
  assumes "infos \<noteq> []" and "sorted (map si_End infos)"
  shows "\<exists>k. stats_Dump (stats_run d infos) = drop k infos
    \<and> stats_window d (si_End (last infos)) infos k \<and> ss_full (stats_run d infos)
    \<and> ss_d (stats_run d infos) = d"
  using assms
proof (induction infos rule: rev_induct)
  case Nil
  then show ?case by simp
next
  case (snoc i h)
  show ?case
  proof (cases "h = []")
    case True
    then show ?thesis
      by (intro exI [of _ 0])
        (simp add: stats_run_def stats_Sent_def NewSenderStats_def stats_Dump_def stats_window_def)
  next
    case False
    let ?s = "stats_run d h"
    from snoc False obtain k where k: "rev (ss_sent ?s) = drop k h"
      "stats_window d (si_End (last h)) h k" "ss_full ?s" "ss_d ?s = d"
      by (auto simp: sorted_append stats_Dump_def)
    obtain j where j: "stats_drop_old d (si_End i) (drop k h @ [i]) = drop j (drop k h @ [i])"
      "stats_window d (si_End i) (drop k h @ [i]) j"
      using stats_drop_old_window [of "drop k h @ [i]" d "si_End i"] by auto
    have kl: "k < length h" using k(2) by (simp add: stats_window_def)
    then have dr: "drop k h @ [i] = drop k (h @ [i])" by simp
    have mono: "si_End (last h) \<le> si_End i"
      using snoc.prems(2) False by (simp add: sorted_append)
    have "stats_window d (si_End i) (h @ [i]) (j + k)"
      using j(2) k(2) kl mono unfolding dr stats_window_def
      by (auto simp: nth_append add.commute split: if_splits)
    moreover have "stats_Dump (stats_run d (h @ [i])) = drop (j + k) (h @ [i])"
      using k j(1) drop_drop [of j k "h @ [i]"] unfolding dr [symmetric]
      by (simp add: stats_run_def stats_Sent_def stats_Dump_def Let_def del: drop_append drop_drop)
    moreover have "ss_full (stats_run d (h @ [i]))" "ss_d (stats_run d (h @ [i])) = d"
      using k by (simp_all add: stats_run_def stats_Sent_def Let_def)
    ultimately show ?thesis by auto
  qed
qed

text \<open>
  The window of the sender's statistics. After any history of sends in time order, the
  infos kept are a suffix of the history, the shortest one that still spans the duration \<open>d\<close> up
  to the last send (or the whole history when that is too short), and the counters the report
  gives are the sums over exactly that suffix.
\<close>

theorem sender_stats_window:
  assumes "infos \<noteq> []" and "sorted (map si_End infos)"
  shows "\<exists>k. stats_Dump (stats_run d infos) = drop k infos
    \<and> stats_window d (si_End (last infos)) infos k
    \<and> sr_Files (stats_Report f (stats_run d infos)) = sum_list (map si_Files (drop k infos))
    \<and> sr_Errs (stats_Report f (stats_run d infos)) = sum_list (map si_Errs (drop k infos))
    \<and> sr_BadFiles (stats_Report f (stats_run d infos)) = sum_list (map si_BadFiles (drop k infos))"
proof -
  from stats_run_window [OF assms] obtain k where "stats_Dump (stats_run d infos) = drop k infos"
    "stats_window d (si_End (last infos)) infos k" by auto
  then show ?thesis
    by (intro exI [of _ k]) (simp add: stats_Report_def stats_Dump_def Let_def)
qed

definition demo_info :: "int \<Rightarrow> u64 \<Rightarrow> SentInfo" where
  "demo_info t n = \<lparr>si_Begin = t, si_End = t + 1, si_SendTime = 0, si_Files = n, si_Bytes = 0,
     si_Errs = 0, si_ApiErrs = 0, si_Timeouts = 0, si_BadFiles = 0\<rparr>"

theorem sender_stats_window_witness:
  "\<exists>k. stats_Dump (stats_run 10 [demo_info 0 1, demo_info 5 2, demo_info 12 4, demo_info 20 8])
      = drop k [demo_info 0 1, demo_info 5 2, demo_info 12 4, demo_info 20 8]
    \<and> stats_window 10 21 [demo_info 0 1, demo_info 5 2, demo_info 12 4, demo_info 20 8] k"
  using sender_stats_window [of "[demo_info 0 1, demo_info 5 2, demo_info 12 4, demo_info 20 8]" 10]
  by (auto simp: demo_info_def)

section \<open>The sender\<close>

definition MAX_SEND_ERRORS :: u64 where "MAX_SEND_ERRORS = 3"

text \<open>The spooler as the sender uses it.\<close>

record 's spool_ops =
  so_Files :: "'s \<Rightarrow> 's \<times> string list"
  so_CancelFiles :: "'s \<Rightarrow> 's"
  so_Read :: "string \<Rightarrow> 's \<Rightarrow> 's \<times> (os_error + bytes)"
  so_Remove :: "string \<Rightarrow> 's \<Rightarrow> 's \<times> os_error option"

text \<open>
  The websocket client and the clock, acting on a state \<open>'w\<close> of the outside world. \<open>wc_Recv\<close>
  gives the code of the response, or \<open>None\<close> on an error.
\<close>

record 'w ws_ops =
  wc_ConnectOnce :: "'w \<Rightarrow> 'w \<times> bool"
  wc_DisconnectOnce :: "'w \<Rightarrow> 'w"
  wc_SendBytes :: "bytes \<Rightarrow> 'w \<Rightarrow> 'w \<times> bool"
  wc_Recv :: "'w \<Rightarrow> 'w \<times> int option"
  wc_Now :: "'w \<Rightarrow> 'w \<times> int"

record sender =
  sd_timeout :: u64
  sd_blackhole :: bool
  sd_sync :: SyncChan
  sd_status :: status
  sd_lastStats :: SenderStats
  sd_dailyStats :: SenderStats
  sd_weeklyStats :: SenderStats

text \<open>Everything one run of \<open>send\<close> touches: the sender, the spooler, the counters, the world.\<close>

record ('s, 'w) send_state =
  ts_sender :: sender
  ts_spool :: 's
  ts_sent :: SentInfo
  ts_world :: 'w

definition NewSender :: sender where
  "NewSender =
     \<lparr>sd_timeout = 0, sd_blackhole = False, sd_sync = NewSyncChan,
      sd_status = NewStatus [''data-sender'', ''data-sender-last'', ''data-sender-1d'', ''data-sender-7d''],
      sd_lastStats = NewSenderStats 0,
      sd_dailyStats = NewSenderStats (24 * 3600 * 1000000000),
      sd_weeklyStats = NewSenderStats (7 * 24 * 3600 * 1000000000)\<rparr>"

definition sender_Start :: "u64 \<Rightarrow> bool \<Rightarrow> sender \<Rightarrow> sender" where
  "sender_Start timeout blackhole s = s\<lparr>sd_timeout := timeout, sd_blackhole := blackhole\<rparr>"

definition sender_Stop :: "sender \<Rightarrow> sender" where
  "sender_Stop s =
     (case sync_stop (sd_sync s) of
        None \<Rightarrow> s
      | Some sy \<Rightarrow> s\<lparr>sd_sync := sy, sd_status := status_Update ''data-sender'' ''Stopped'' (sd_status s)\<rparr>)"

definition send_status :: "string \<Rightarrow> ('s, 'w) send_state \<Rightarrow> ('s, 'w) send_state" where
  "send_status st t =
     t\<lparr>ts_sender := (ts_sender t)\<lparr>sd_status := status_Update ''data-sender'' st (sd_status (ts_sender t))\<rparr>\<rparr>"

text \<open>\<open>time.Now\<close>.\<close>

definition send_now :: "'w ws_ops \<Rightarrow> ('s, 'w) send_state \<Rightarrow> ('s, 'w) send_state \<times> int" where
  "send_now c t = (case wc_Now c (ts_world t) of (w, now) \<Rightarrow> (t\<lparr>ts_world := w\<rparr>, now))"

text \<open>The runtime check: \<open>uint(runTime) > s.timeout\<close>, with the runtime in whole seconds.\<close>

definition send_timed_out :: "sender \<Rightarrow> int \<Rightarrow> int \<Rightarrow> bool" where
  "send_timed_out s start now \<longleftrightarrow>
     (word_of_int ((now - start) sdiv 1000000000) :: u64) > sd_timeout s"

definition send_remove :: "'s spool_ops \<Rightarrow> string \<Rightarrow> ('s, 'w) send_state \<Rightarrow> ('s, 'w) send_state" where
  "send_remove so file t = t\<lparr>ts_spool := fst (so_Remove so file (ts_spool t))\<rparr>"

text \<open>
  What became of a file the sender looked at; the first four are what the sender logs or counts
  when it removes it. \<open>result_stops\<close> says whether the loop ends: \<open>None\<close> to go on, \<open>Some True\<close> for
  a return with an error, \<open>Some False\<close> for a return of nil.
\<close>

datatype file_result =
    Blackholed | Empty | Acked int | BadFile int
  | TimedOut | ReadFailed | SendFailed | RecvFailed | ApiError int | Unhandled int

fun result_stops :: "file_result \<Rightarrow> bool option" where
  "result_stops TimedOut = Some False"
| "result_stops (ApiError _) = Some False"
| "result_stops ReadFailed = Some True"
| "result_stops SendFailed = Some True"
| "result_stops RecvFailed = Some True"
| "result_stops (Unhandled _) = Some True"
| "result_stops (Acked code) = (if code = 299 then Some False else None)"
| "result_stops _ = None"

fun result_removes :: "file_result \<Rightarrow> bool" where
  "result_removes Blackholed = True"
| "result_removes Empty = True"
| "result_removes (Acked code) = (200 \<le> code \<and> code < 300)"
| "result_removes (BadFile code) = (400 \<le> code \<and> code < 500)"
| "result_removes _ = False"

text \<open>The switch on the response code.\<close>

definition send_response ::
  "'s spool_ops \<Rightarrow> string \<Rightarrow> int \<Rightarrow> ('s, 'w) send_state \<Rightarrow> ('s, 'w) send_state \<times> file_result" where
  "send_response so file code t =
     (if code \<ge> 500 then
        (t\<lparr>ts_sent := (ts_sent t)\<lparr>si_ApiErrs := si_ApiErrs (ts_sent t) + 1\<rparr>\<rparr>, ApiError code)
      else if code \<ge> 400 then
        (let t = send_remove so file (send_status (''Removing '' @ file) t)
         in (t\<lparr>ts_sent := (ts_sent t)\<lparr>si_Files := si_Files (ts_sent t) + 1,
                                        si_BadFiles := si_BadFiles (ts_sent t) + 1\<rparr>\<rparr>, BadFile code))
      else if code \<ge> 300 then (t, Unhandled code)
      else if code \<ge> 200 then
        (let t = send_remove so file (send_status (''Removing '' @ file) t)
         in (t\<lparr>ts_sent := (ts_sent t)\<lparr>si_Files := si_Files (ts_sent t) + 1\<rparr>\<rparr>, Acked code))
      else (t, Unhandled code))"

text \<open>The transmission of one file: send it, then wait for the acknowledgement.\<close>

definition send_transmit ::
  "'w ws_ops \<Rightarrow> 's spool_ops \<Rightarrow> string \<Rightarrow> bytes \<Rightarrow> ('s, 'w) send_state \<Rightarrow> ('s, 'w) send_state \<times> file_result" where
  "send_transmit c so file data t =
     (let t = send_status (''Sending '' @ file) t;
          (t, t0) = send_now c t;
          (w, ok) = wc_SendBytes c data (ts_world t);
          t = t\<lparr>ts_world := w\<rparr>
      in if \<not> ok then (t, SendFailed)
         else
           (let (t, t1) = send_now c t;
                t = t\<lparr>ts_sent := (ts_sent t)
                        \<lparr>si_SendTime := si_SendTime (ts_sent t) + of_int (t1 - t0) / 1000000000,
                         si_Bytes := si_Bytes (ts_sent t) + of_nat (length data)\<rparr>\<rparr>;
                t = send_status (''Waiting for API to ack '' @ file) t;
                (w, resp) = wc_Recv c (ts_world t);
                t = t\<lparr>ts_world := w\<rparr>
            in case resp of
                 None \<Rightarrow> (t, RecvFailed)
               | Some code \<Rightarrow> send_response so file code t))"

text \<open>The body of the loop of \<open>sendAllFiles\<close>.\<close>

definition send_file ::
  "'w ws_ops \<Rightarrow> 's spool_ops \<Rightarrow> int \<Rightarrow> string \<Rightarrow> ('s, 'w) send_state \<Rightarrow> ('s, 'w) send_state \<times> file_result" where
  "send_file c so start file t =
     (let (t, now) = send_now c t
      in if send_timed_out (ts_sender t) start now then
           (t\<lparr>ts_sent := (ts_sent t)\<lparr>si_Timeouts := si_Timeouts (ts_sent t) + 1\<rparr>\<rparr>, TimedOut)
         else
           (let t = send_status (''Reading '' @ file) t;
                (sp, r) = so_Read so file (ts_spool t);
                t = t\<lparr>ts_spool := sp\<rparr>
            in case r of
                 Inl _ \<Rightarrow> (t, ReadFailed)
               | Inr data \<Rightarrow>
                   if sd_blackhole (ts_sender t) then
                     (send_remove so file (send_status (''Removing '' @ file @ '' (blackhole)'') t), Blackholed)
                   else if data = [] then (send_remove so file t, Empty)
                   else send_transmit c so file data t))"

text \<open>The loop, with the list of what happened to each file it came to.\<close>

fun send_files ::
  "'w ws_ops \<Rightarrow> 's spool_ops \<Rightarrow> int \<Rightarrow> string list \<Rightarrow> ('s, 'w) send_state
     \<Rightarrow> ('s, 'w) send_state \<times> bool \<times> (string \<times> file_result) list" where
  "send_files c so start [] t = (t, False, [])"
| "send_files c so start (file # files) t =
     (let (t, r) = send_file c so start file t
      in case result_stops r of
           Some err \<Rightarrow> (t, err, [(file, r)])
         | None \<Rightarrow>
             (let (t, err, log) = send_files c so start files t in (t, err, (file, r) # log)))"

definition sendAllFiles ::
  "'w ws_ops \<Rightarrow> 's spool_ops \<Rightarrow> int \<Rightarrow> ('s, 'w) send_state
     \<Rightarrow> ('s, 'w) send_state \<times> bool \<times> (string \<times> file_result) list" where
  "sendAllFiles c so start t =
     (let (sp, files) = so_Files so (ts_spool t);
          (t, err, log) = send_files c so start files (t\<lparr>ts_spool := sp\<rparr>)
      in (t\<lparr>ts_spool := so_CancelFiles so (ts_spool t)\<rparr>, err, log))"

lemmas send_defs = send_file_def send_transmit_def send_response_def send_remove_def send_status_def
  send_now_def

lemma send_file_Errs: "si_Errs (ts_sent (fst (send_file c so start file t))) = si_Errs (ts_sent t)"
  by (simp add: send_defs Let_def split_beta split: sum.split option.split)

lemma send_files_Errs:
  "si_Errs (ts_sent (fst (send_files c so start files t))) = si_Errs (ts_sent t)"
proof (induction files arbitrary: t)
  case Nil
  then show ?case by simp
next
  case (Cons f fs)
  then show ?case
    using send_file_Errs [of c so start f t] by (simp add: Let_def split_beta split: option.split)
qed

lemma sendAllFiles_Errs:
  "si_Errs (ts_sent (fst (sendAllFiles c so start t))) = si_Errs (ts_sent t)"
  by (simp add: sendAllFiles_def Let_def split_beta send_files_Errs)

text \<open>
  The loop of \<open>send\<close>: connect and send files until it succeeds or too many errors occur. The
  sleep between attempts has no effect on the state.
\<close>

abbreviation add_Errs :: "('s, 'w) send_state \<Rightarrow> ('s, 'w) send_state" where
  "add_Errs t \<equiv> t\<lparr>ts_sent := (ts_sent t)\<lparr>si_Errs := si_Errs (ts_sent t) + 1\<rparr>\<rparr>"

definition send_go_on :: "SentInfo \<Rightarrow> bool" where
  "send_go_on i \<longleftrightarrow> si_ApiErrs i = 0 \<and> si_Errs i < MAX_SEND_ERRORS \<and> si_Timeouts i = 0"

lemma add_Errs_measure:
  assumes "send_go_on i" and "e = si_Errs i + 1"
  shows "3 - unat e < 3 - unat (si_Errs i)"
proof -
  from assms(1) have "unat (si_Errs i) < 3"
    by (simp add: send_go_on_def MAX_SEND_ERRORS_def word_less_nat_alt)
  moreover from this have "unat (si_Errs i + 1) = unat (si_Errs i) + 1"
    by (simp add: go_word)
  ultimately show ?thesis using assms(2) by simp
qed

lemma send_now_sent: "(t', n) = send_now c t \<Longrightarrow> ts_sent t' = ts_sent t"
  by (simp add: send_now_def split_beta)

lemma send_status_sent: "ts_sent (send_status st t) = ts_sent t"
  by (simp add: send_status_def)

lemma send_status_frame [frame]:
  "ts_spool (send_status st t) = ts_spool t" "ts_world (send_status st t) = ts_world t"
  "send_timed_out (ts_sender (send_status st t)) = send_timed_out (ts_sender t)"
  by (simp_all add: send_status_def send_timed_out_def fun_eq_iff)

lemma sendAllFiles_sent: "(t', r) = sendAllFiles c so start t \<Longrightarrow> si_Errs (ts_sent t') = si_Errs (ts_sent t)"
  using sendAllFiles_Errs [of c so start t] by (metis fst_conv)

function send_loop ::
  "'w ws_ops \<Rightarrow> 's spool_ops \<Rightarrow> int \<Rightarrow> ('s, 'w) send_state
     \<Rightarrow> ('s, 'w) send_state \<times> (string \<times> file_result) list" where
  "send_loop c so start t =
     (if send_go_on (ts_sent t) then
        (let (t1, now) = send_now c t
         in if send_timed_out (ts_sender t1) start now then
              (t1\<lparr>ts_sent := (ts_sent t1)\<lparr>si_Timeouts := si_Timeouts (ts_sent t1) + 1\<rparr>\<rparr>, [])
            else
              (let t2 = send_status ''Connecting'' t1;
                   (w, ok) = wc_ConnectOnce c (ts_world t2);
                   t3 = t2\<lparr>ts_world := w\<rparr>
               in if \<not> ok then send_loop c so start (add_Errs t3)
                  else
                    (let (t4, err, log) = sendAllFiles c so start t3
                     in if err then
                          (let t5 = add_Errs t4;
                               t6 = t5\<lparr>ts_world := wc_DisconnectOnce c (ts_world t5)\<rparr>;
                               (t7, log') = send_loop c so start t6
                           in (t7, log @ log'))
                        else (t4, log))))
      else (t, []))"
  by pat_completeness auto

termination
  by (relation "measure (\<lambda>(c, so, start, t). 3 - unat (si_Errs (ts_sent t)))")
    (auto simp: send_status_sent dest!: send_now_sent sendAllFiles_sent intro!: add_Errs_measure)

declare send_loop.simps [simp del]

text \<open>One statistics window of the deferred function: record the run and publish the report.\<close>

definition send_stats ::
  "formats \<Rightarrow> string \<Rightarrow> string \<Rightarrow> SentInfo \<Rightarrow> SenderStats \<Rightarrow> status \<Rightarrow> SenderStats \<times> status" where
  "send_stats f proc prefix sent ss st =
     (let ss = stats_Sent ss sent;
          r = stats_Report f ss
      in (ss, status_Update proc (prefix @ fmt_Time f (sr_Begin r) @ '': '' @ FormatSentReport r) st))"

definition send_deferred :: "formats \<Rightarrow> 'w ws_ops \<Rightarrow> ('s, 'w) send_state \<Rightarrow> ('s, 'w) send_state" where
  "send_deferred f c t =
     (let (t, now) = send_now c t;
          t = t\<lparr>ts_sent := (ts_sent t)\<lparr>si_End := now\<rparr>\<rparr>;
          t = send_status ''Disconnecting'' t;
          t = t\<lparr>ts_world := wc_DisconnectOnce c (ts_world t)\<rparr>;
          sd = ts_sender t;
          (l, st) = send_stats f ''data-sender-last'' ''at '' (ts_sent t) (sd_lastStats sd) (sd_status sd);
          (d, st) = send_stats f ''data-sender-1d'' ''since '' (ts_sent t) (sd_dailyStats sd) st;
          (k, st) = send_stats f ''data-sender-7d'' ''since '' (ts_sent t) (sd_weeklyStats sd) st
      in t\<lparr>ts_sender := sd\<lparr>sd_lastStats := l, sd_dailyStats := d, sd_weeklyStats := k, sd_status := st\<rparr>\<rparr>)"

definition new_sent :: SentInfo where
  "new_sent = \<lparr>si_Begin = 0, si_End = 0, si_SendTime = 0, si_Files = 0, si_Bytes = 0,
     si_Errs = 0, si_ApiErrs = 0, si_Timeouts = 0, si_BadFiles = 0\<rparr>"

definition sender_send ::
  "formats \<Rightarrow> 'w ws_ops \<Rightarrow> 's spool_ops \<Rightarrow> sender \<Rightarrow> 's \<Rightarrow> 'w
     \<Rightarrow> ('s, 'w) send_state \<times> (string \<times> file_result) list" where
  "sender_send f c so sd sp w =
     (let t = \<lparr>ts_sender = sd, ts_spool = sp, ts_sent = new_sent, ts_world = w\<rparr>;
          (t, start) = send_now c t;
          t = t\<lparr>ts_sent := (ts_sent t)\<lparr>si_Begin := start\<rparr>\<rparr>;
          (t, log) = send_loop c so start t
      in (send_deferred f c t, log))"

lemma send_deferred_spool: "ts_spool (send_deferred f c t) = ts_spool t"
  by (simp add: send_deferred_def send_now_def send_status_def Let_def split_beta)

lemma sender_send_eq:
  "sender_send f c so sd sp w =
     (let r = send_loop c so (snd (wc_Now c w))
            \<lparr>ts_sender = sd, ts_spool = sp, ts_sent = new_sent\<lparr>si_Begin := snd (wc_Now c w)\<rparr>,
             ts_world = fst (wc_Now c w)\<rparr>
      in (send_deferred f c (fst r), snd r))"
  by (simp add: sender_send_def send_now_def Let_def split_beta)

datatype sender_event = SendTick | SendStop

text \<open>One iteration of \<open>run\<close>; the flag says that the goroutine has returned.\<close>

definition sender_run_step ::
  "formats \<Rightarrow> 'w ws_ops \<Rightarrow> 's spool_ops \<Rightarrow> sender_event \<Rightarrow> sender \<times> 's \<times> 'w \<Rightarrow> ((sender \<times> 's \<times> 'w) \<times> bool) option" where
  "sender_run_step f c so ev st =
     (case st of (sd, sp, w) \<Rightarrow>
        (let sd = sd\<lparr>sd_status := status_Update ''data-sender'' ''Idle'' (sd_status sd)\<rparr>
         in case ev of
              SendTick \<Rightarrow>
                (case sender_send f c so sd sp w of
                   (t, _) \<Rightarrow> Some ((ts_sender t, ts_spool t, ts_world t), False))
            | SendStop \<Rightarrow>
                map_option
                  (\<lambda>sy. ((sd\<lparr>sd_sync := sy, sd_status := status_Update ''data-sender'' ''Stopped'' (sd_status sd)\<rparr>,
                          sp, w), True))
                  (sync_Done (sync_Graceful (sd_sync sd)))))"

section \<open>The spooler's contract\<close>

text \<open>
  \<open>view\<close> is the content of the spool. Listing, cancelling and reading leave it alone, a
  successful read gives the content, and removing a file touches no other file.
\<close>

locale spool_iface =
  fixes so :: "'s spool_ops" and view :: "'s \<Rightarrow> (string \<rightharpoonup> bytes)"
  assumes files_view: "view (fst (so_Files so s)) = view s"
    and files_dom: "set (snd (so_Files so s)) = dom (view s)"
    and cancel_view: "view (so_CancelFiles so s) = view s"
    and read_view: "view (fst (so_Read so f s)) = view s"
    and read_content: "snd (so_Read so f s) = Inr d \<Longrightarrow> view s f = Some d"
    and remove_view: "view (fst (so_Remove so f s)) = view s \<or> view (fst (so_Remove so f s)) = (view s)(f := None)"
begin

lemma send_file_view:
  "view (ts_spool (fst (send_file c so start nm t))) = view (ts_spool t)
   \<or> result_removes (snd (send_file c so start nm t))
     \<and> view (ts_spool (fst (send_file c so start nm t))) = (view (ts_spool t))(nm := None)"
  using remove_view [where f = nm and s = "fst (so_Read so nm (ts_spool t))"]
  by (simp add: send_defs Let_def split_beta read_view split: sum.split option.split)

lemma send_files_view:
  assumes "send_files c so start files t = (t', err, lg)"
  shows "view (ts_spool t') f = view (ts_spool t) f
    \<or> view (ts_spool t') f = None \<and> (\<exists>r. (f, r) \<in> set lg \<and> result_removes r)"
  using assms
proof (induction files arbitrary: t lg)
  case Nil
  then show ?case by simp
next
  case (Cons nm files)
  obtain t1 r where f: "send_file c so start nm t = (t1, r)" by fastforce
  have v: "view (ts_spool t1) = view (ts_spool t)
    \<or> result_removes r \<and> view (ts_spool t1) = (view (ts_spool t))(nm := None)"
    using send_file_view [of c start nm t] f by simp
  show ?case
  proof (cases "result_stops r")
    case None
    with f Cons.prems obtain l where "send_files c so start files t1 = (t', err, l)" "lg = (nm, r) # l"
      by (cases "send_files c so start files t1") auto
    with Cons.IH [of t1 l] v show ?thesis by (cases "f = nm") auto
  next
    case (Some e)
    with f Cons.prems v show ?thesis by (cases "f = nm") (auto simp: Let_def)
  qed
qed

lemma sendAllFiles_view:
  assumes "sendAllFiles c so start t = (t', err, lg)"
  shows "view (ts_spool t') f = view (ts_spool t) f
    \<or> view (ts_spool t') f = None \<and> (\<exists>r. (f, r) \<in> set lg \<and> result_removes r)"
proof -
  let ?t = "t\<lparr>ts_spool := fst (so_Files so (ts_spool t))\<rparr>"
  obtain t1 where "send_files c so start (snd (so_Files so (ts_spool t))) ?t = (t1, err, lg)"
    and "ts_spool t' = so_CancelFiles so (ts_spool t1)"
    using assms by (auto simp: sendAllFiles_def Let_def split: prod.splits)
  with send_files_view [of c start _ ?t t1 err lg f] show ?thesis
    by (simp add: cancel_view files_view)
qed

lemma send_loop_view:
  assumes "send_loop c so start t = (t', lg)"
  shows "view (ts_spool t') f = view (ts_spool t) f
    \<or> view (ts_spool t') f = None \<and> (\<exists>r. (f, r) \<in> set lg \<and> result_removes r)"
  using assms
proof (induction "3 - unat (si_Errs (ts_sent t))" arbitrary: t lg rule: less_induct)
  case less
  obtain t1 now where t1: "send_now c t = (t1, now)" by fastforce
  define t2 where "t2 = send_status ''Connecting'' t1"
  obtain w ok where w: "wc_ConnectOnce c (ts_world t2) = (w, ok)" by fastforce
  define t3 where "t3 = t2\<lparr>ts_world := w\<rparr>"
  obtain t4 err lg1 where t4: "sendAllFiles c so start t3 = (t4, err, lg1)"
    by (cases "sendAllFiles c so start t3") auto
  define t6 where "t6 = (add_Errs t4)\<lparr>ts_world := wc_DisconnectOnce c (ts_world t4)\<rparr>"
  obtain t7 lg2 where t7: "send_loop c so start t6 = (t7, lg2)" by fastforce
  have sp: "ts_spool t3 = ts_spool t" "ts_sent t3 = ts_sent t" "ts_spool t1 = ts_spool t"
    using t1 by (auto simp: t3_def t2_def send_status_def send_now_def split_beta)
  have errs4: "si_Errs (ts_sent t4) = si_Errs (ts_sent t)"
    using sendAllFiles_sent [OF t4 [symmetric]] sp by simp
  show ?case
  proof (cases "send_go_on (ts_sent t) \<and> \<not> send_timed_out (ts_sender t1) start now")
    case False
    with less.prems t1 sp(3) show ?thesis
      by (subst (asm) send_loop.simps) (auto simp: Let_def split: if_splits)
  next
    case True
    have smaller: "3 - unat (si_Errs (ts_sent (add_Errs t3))) < 3 - unat (si_Errs (ts_sent t))"
      "3 - unat (si_Errs (ts_sent t6)) < 3 - unat (si_Errs (ts_sent t))"
      using True by (auto simp: t6_def sp errs4 intro!: add_Errs_measure)
    have unfold: "(t', lg) = (if \<not> ok then send_loop c so start (add_Errs t3)
        else if err then (t7, lg1 @ lg2) else (t4, lg1))"
      unfolding less.prems [symmetric] using True t1 w t4 t7
      by (subst send_loop.simps) (simp add: t2_def t3_def t6_def)
    note v4 = sendAllFiles_view [OF t4, of f]
    show ?thesis
    proof (cases "ok \<and> err")
      case True
      with less.hyps [OF smaller(2), of lg2] t7 unfold v4 show ?thesis
        by (auto simp: t6_def sp)
    next
      case False
      with less.hyps [OF smaller(1), of lg] unfold v4 sp show ?thesis
        by (auto split: if_splits)
    qed
  qed
qed

lemma sender_send_view:
  assumes "sender_send fm c so sd sp w = (t', lg)"
  shows "view (ts_spool t') f = view sp f
    \<or> view (ts_spool t') f = None \<and> (\<exists>r. (f, r) \<in> set lg \<and> result_removes r)"
proof -
  let ?t = "\<lparr>ts_sender = sd, ts_spool = sp, ts_sent = new_sent\<lparr>si_Begin := snd (wc_Now c w)\<rparr>,
             ts_world = fst (wc_Now c w)\<rparr>"
  obtain t1 where "send_loop c so (snd (wc_Now c w)) ?t = (t1, lg)" "t' = send_deferred fm c t1"
    using assms by (cases "send_loop c so (snd (wc_Now c w)) ?t") (simp add: sender_send_eq)
  with send_loop_view [of c "snd (wc_Now c w)" ?t t1 lg f] show ?thesis
    by (simp add: send_deferred_spool)
qed

end

text \<open>
  A spool on which nothing fails: every listed file can be read and removed. With an API that
  accepts everything in time, one run of \<open>send\<close> empties it.
\<close>

locale spool_reliable = spool_iface so view
  for so :: "'s spool_ops" and view :: "'s \<Rightarrow> (string \<rightharpoonup> bytes)" +
  fixes ok :: "'s \<Rightarrow> bool"
  assumes files_ok: "ok s \<Longrightarrow> ok (fst (so_Files so s))"
    and cancel_ok: "ok s \<Longrightarrow> ok (so_CancelFiles so s)"
    and read_ok: "ok s \<Longrightarrow> ok (fst (so_Read so f s))"
    and read_all: "ok s \<Longrightarrow> view s f = Some d \<Longrightarrow> snd (so_Read so f s) = Inr d"
    and remove_ok: "ok s \<Longrightarrow> ok (fst (so_Remove so f s))"
    and remove_done: "ok s \<Longrightarrow> view (fst (so_Remove so f s)) = (view s)(f := None)"
    and files_distinct: "ok s \<Longrightarrow> distinct (snd (so_Files so s))"
begin

lemma send_file_done:
  assumes ok: "ok (ts_spool t)" and d: "view (ts_spool t) nm = Some d"
    and c: "\<And>w. \<not> send_timed_out (ts_sender t) start (snd (wc_Now c w))"
      "\<And>b w. snd (wc_SendBytes c b w)" "\<And>w. snd (wc_Recv c w) = Some 200"
  shows "ok (ts_spool (fst (send_file c so start nm t)))"
    and "view (ts_spool (fst (send_file c so start nm t))) = (view (ts_spool t))(nm := None)"
    and "result_stops (snd (send_file c so start nm t)) = None"
    and "sd_timeout (ts_sender (fst (send_file c so start nm t))) = sd_timeout (ts_sender t)"
  using ok d c read_all [OF ok d]
  by (simp_all add: send_defs Let_def split_beta read_ok remove_ok remove_done read_view)

lemma send_files_done:
  assumes "ok (ts_spool t)" and "distinct files" and "set files \<subseteq> dom (view (ts_spool t))"
    and "\<And>w. \<not> send_timed_out (ts_sender t) start (snd (wc_Now c w))"
    and c: "\<And>b w. snd (wc_SendBytes c b w)" "\<And>w. snd (wc_Recv c w) = Some 200"
  shows "ok (ts_spool (fst (send_files c so start files t)))
    \<and> view (ts_spool (fst (send_files c so start files t))) = view (ts_spool t) |` (- set files)
    \<and> fst (snd (send_files c so start files t)) = False"
  using assms(1-4)
proof (induction files arbitrary: t)
  case Nil
  then show ?case by simp
next
  case (Cons nm files)
  let ?t1 = "fst (send_file c so start nm t)"
  obtain d where d: "view (ts_spool t) nm = Some d" using Cons.prems(3) by auto
  note f = send_file_done [OF Cons.prems(1) d Cons.prems(4) c]
  have "send_timed_out (ts_sender ?t1) = send_timed_out (ts_sender t)"
    using f(4) by (simp add: send_timed_out_def fun_eq_iff)
  then have "ok (ts_spool (fst (send_files c so start files ?t1)))
    \<and> view (ts_spool (fst (send_files c so start files ?t1))) = view (ts_spool ?t1) |` (- set files)
    \<and> fst (snd (send_files c so start files ?t1)) = False"
    using Cons.prems f by (intro Cons.IH) (auto simp: subset_iff)
  then show ?case
    using f(2,3) Cons.prems(2)
    by (auto simp: Let_def split_beta restrict_map_def fun_eq_iff)
qed

lemma sendAllFiles_done:
  assumes "ok (ts_spool t)" and "\<And>w. \<not> send_timed_out (ts_sender t) start (snd (wc_Now c w))"
    and "\<And>b w. snd (wc_SendBytes c b w)" "\<And>w. snd (wc_Recv c w) = Some 200"
  shows "view (ts_spool (fst (sendAllFiles c so start t))) = Map.empty
    \<and> fst (snd (sendAllFiles c so start t)) = False"
  using send_files_done [of "t\<lparr>ts_spool := fst (so_Files so (ts_spool t))\<rparr>"
      "snd (so_Files so (ts_spool t))" start c] assms
  by (auto simp: sendAllFiles_def Let_def split_beta files_ok files_distinct files_dom files_view
      cancel_view restrict_map_def fun_eq_iff)

lemma sender_send_done:
  assumes "ok sp" and "\<And>w'. \<not> send_timed_out sd (snd (wc_Now c w)) (snd (wc_Now c w'))"
    and "\<And>w. snd (wc_ConnectOnce c w)"
    and "\<And>b w. snd (wc_SendBytes c b w)" "\<And>w. snd (wc_Recv c w) = Some 200"
  shows "view (ts_spool (fst (sender_send fm c so sd sp w))) = Map.empty"
proof -
  have "send_go_on (new_sent\<lparr>si_Begin := b\<rparr>)" for b
    by (simp add: send_go_on_def new_sent_def MAX_SEND_ERRORS_def)
  then show ?thesis
    using assms sendAllFiles_done [of "_\<lparr>ts_world := _\<rparr>" "snd (wc_Now c w)" c]
    by (subst sender_send_eq, subst send_loop.simps)
      (simp add: Let_def split_beta send_now_def send_deferred_spool frame)
qed

end

section \<open>The disk spooler as the sender's spooler\<close>

definition diskv_spool :: "spooler spool_ops" where
  "diskv_spool =
     \<lparr>so_Files = spooler_Files, so_CancelFiles = spooler_CancelFiles,
      so_Read = spooler_Read, so_Remove = spooler_Remove\<rparr>"

definition spool_view :: "spooler \<Rightarrow> (string \<rightharpoonup> bytes)" where
  "spool_view s = dv_contents (sp_cache s)"

definition spool_healthy :: "spooler \<Rightarrow> bool" where
  "spool_healthy s \<longleftrightarrow> no_faults (sp_cache s) \<and> wf_alist (sp_files s)"

lemma spooler_Remove_cache:
  "sp_cache (fst (spooler_Remove f s)) = snd (diskv_Erase (sp_cache s) f)"
  by (simp add: spooler_Remove_def spooler_remove_def spooler_Read_def Let_def split_beta
      split: option.split sum.split)

lemma spooler_CancelFiles_cache [frame]: "sp_cache (spooler_CancelFiles s) = sp_cache s"
  by (simp add: spooler_CancelFiles_def split: chan_state.split)

interpretation ds: spool_iface diskv_spool spool_view
  using dv.erase_contents
  by unfold_locales
    (auto simp: diskv_spool_def spool_view_def spooler_Files_def frame spooler_Read_def Let_def
      dv.keys_contents spooler_Remove_cache dv.read_contents)

interpretation ds: spool_reliable diskv_spool spool_view spool_healthy
  by unfold_locales
    (auto simp: diskv_spool_def spool_view_def spool_healthy_def spooler_Files_def frame spooler_Read_def
      Let_def spooler_Remove_cache diskv_Erase_def diskv_Read_def diskv_Keys_def no_faults_def
      dv_contents_def wf_alist_def fun_upd_idem_iff intro: wf_alist_del [unfolded wf_alist_def]
      split: option.split)

text \<open>
  C2: no report is lost by the sender. Whatever the network, the API and the clock do and
  however often the sender reconnects, a report that was in the disk spool before a run of \<open>send\<close>
  is there afterwards with the same content, unless the API acknowledged it with a code from 200
  to 299, refused it as bad with a code from 400 to 499, it was empty, or the sender runs as a
  black hole; and \<open>send\<close> always returns.
\<close>

theorem sender_loses_nothing:
  fixes c :: "'w ws_ops"
  assumes "sender_send fm c diskv_spool sd sp w = (t', results)"
  shows "spool_view (ts_spool t') f = spool_view sp f
    \<or> spool_view (ts_spool t') f = None
      \<and> (\<exists>code. (f, Acked code) \<in> set results \<and> 200 \<le> code \<and> code < 300
            \<or> (f, BadFile code) \<in> set results \<and> 400 \<le> code \<and> code < 500
            \<or> (f, Empty) \<in> set results \<or> (f, Blackholed) \<in> set results)"
proof -
  have "\<exists>code. (f, Acked code) \<in> set results \<and> 200 \<le> code \<and> code < 300
            \<or> (f, BadFile code) \<in> set results \<and> 400 \<le> code \<and> code < 500
            \<or> (f, Empty) \<in> set results \<or> (f, Blackholed) \<in> set results"
    if "(f, r) \<in> set results" "result_removes r" for r
    using that by (cases r) auto
  with ds.sender_send_view [OF assms, of f] show ?thesis by blast
qed

text \<open>
  With a healthy disk, an API that accepts every report and a run within the send timeout,
  one run of \<open>send\<close> empties the spool.
\<close>

theorem sender_empties_spool:
  fixes c :: "'w ws_ops"
  assumes "spool_healthy sp"
    and "\<And>w'. \<not> send_timed_out sd (snd (wc_Now c w)) (snd (wc_Now c w'))"
    and "\<And>w'. snd (wc_ConnectOnce c w')"
    and "\<And>b w'. snd (wc_SendBytes c b w')" and "\<And>w'. snd (wc_Recv c w') = Some 200"
  shows "spool_view (ts_spool (fst (sender_send fm c diskv_spool sd sp w))) = Map.empty"
  by (rule ds.sender_send_done [OF assms])

text \<open>A scripted world: the responses the API will give, and a clock that stands still.\<close>

definition script_client :: "int option list ws_ops" where
  "script_client =
     \<lparr>wc_ConnectOnce = (\<lambda>w. (w, True)), wc_DisconnectOnce = (\<lambda>w. w),
      wc_SendBytes = (\<lambda>b w. (w, True)),
      wc_Recv = (\<lambda>w. case w of [] \<Rightarrow> ([], Some 200) | r # rs \<Rightarrow> (rs, r)),
      wc_Now = (\<lambda>w. (w, 0))\<rparr>"

definition demo_formats :: formats where
  "demo_formats = \<lparr>fmt_Bytes = (\<lambda>_. ''''), fmt_Duration = (\<lambda>_. ''''), fmt_Mbps = (\<lambda>_ _. ''''),
     fmt_Time = (\<lambda>_. '''')\<rparr>"

definition demo_spool :: spooler where
  "demo_spool = NewDiskvSpooler ''h'' \<lparr>MaxAge = 5, MaxSize = 100, MaxFiles = 10\<rparr>
     \<lparr>dv_files = [(''qan_1'', ''ab''), (''qan_2'', ''c''), (''qan_3'', ''d'')],
      dv_readErr = [], dv_eraseErr = [], dv_writeErr = []\<rparr>"

theorem sender_loses_nothing_witness:
  "let r = sender_send demo_formats script_client diskv_spool (sender_Start 10 False NewSender)
             demo_spool [Some 200, None, Some 503]
   in snd r = [(''qan_1'', Acked 200), (''qan_2'', RecvFailed), (''qan_2'', ApiError 503)]
      \<and> spool_view (ts_spool (fst r)) ''qan_3'' = Some ''d''"
proof -
  define r where "r = sender_send demo_formats script_client diskv_spool (sender_Start 10 False NewSender)
             demo_spool [Some 200, None, Some 503]"
  have "snd r = [(''qan_1'', Acked 200), (''qan_2'', RecvFailed), (''qan_2'', ApiError 503)]"
    unfolding r_def by code_simp
  moreover have "spool_view demo_spool ''qan_3'' = Some ''d''" by code_simp
  ultimately show ?thesis
    using sender_loses_nothing [OF prod.collapse [symmetric],
        of demo_formats script_client "sender_Start 10 False NewSender" demo_spool
           "[Some 200, None, Some 503]" "''qan_3''"]
    by (simp add: r_def [symmetric] Let_def)
qed

theorem sender_empties_spool_witness:
  "spool_view (ts_spool (fst (sender_send demo_formats (script_client\<lparr>wc_Recv := (\<lambda>w. (w, Some 200))\<rparr>)
     diskv_spool (sender_Start 10 False NewSender) demo_spool []))) = Map.empty"
proof -
  have "spool_healthy demo_spool"
    by (simp add: spool_healthy_def demo_spool_def NewDiskvSpooler_def no_faults_def wf_alist_def)
  then show ?thesis
    by (rule sender_empties_spool)
      (simp_all add: script_client_def send_timed_out_def sender_Start_def signed_divide_int_def)
qed

end
