(* ===== verification/DataManager.thy ===== *)
theory DataManager
  imports Sender
begin

text \<open>
  The data service, \<open>data/manager.go\<close>: it validates the configuration, starts the spooler and
  the sender, and applies configuration changes while they run. Reading and writing the
  configuration file, making directories and decoding JSON are arguments.
\<close>

section \<open>Configuration\<close>

definition DEFAULT_DATA_ENCODING :: string where "DEFAULT_DATA_ENCODING = ''gzip''"
definition DEFAULT_DATA_SEND_INTERVAL :: u64 where "DEFAULT_DATA_SEND_INTERVAL = 63"
definition DEFAULT_DATA_MAX_AGE :: u64 where "DEFAULT_DATA_MAX_AGE = 3600 * 24"
definition DEFAULT_DATA_MAX_SIZE :: u64 where "DEFAULT_DATA_MAX_SIZE = 1024 * 1024 * 100"
definition DEFAULT_DATA_MAX_FILES :: u64 where "DEFAULT_DATA_MAX_FILES = 1000"

lemmas data_defaults = DEFAULT_DATA_ENCODING_def DEFAULT_DATA_SEND_INTERVAL_def DEFAULT_DATA_MAX_AGE_def
  DEFAULT_DATA_MAX_SIZE_def DEFAULT_DATA_MAX_FILES_def

record data_config =
  dc_Encoding :: string
  dc_SendInterval :: u64
  dc_Blackhole :: string
  dc_Limits :: limits

datatype data_error =
    ServiceIsRunningError | OsError os_error | InvalidEncoding string | SendIntervalTooLarge
  | UnknownEncoding string | JsonError | UnknownCmdError string | WriteConfigError os_error

text \<open>\<open>SendInterval\<close> is unsigned: the test for a negative value is never true.\<close>

definition data_validateConfig :: "data_config \<Rightarrow> data_error + data_config" where
  "data_validateConfig config =
     (if dc_Encoding config \<noteq> '''' \<and> dc_Encoding config \<noteq> ''none'' \<and> dc_Encoding config \<noteq> ''gzip''
      then Inl (InvalidEncoding (dc_Encoding config))
      else
        (let config = (if dc_Encoding config = '''' then config\<lparr>dc_Encoding := DEFAULT_DATA_ENCODING\<rparr> else config)
         in if dc_SendInterval config > 3600 then Inl SendIntervalTooLarge
            else
              (let config = (if dc_SendInterval config = 0
                             then config\<lparr>dc_SendInterval := DEFAULT_DATA_SEND_INTERVAL\<rparr> else config);
                   l = dc_Limits config;
                   l = (if MaxAge l = 0 then l\<lparr>MaxAge := DEFAULT_DATA_MAX_AGE\<rparr> else l);
                   l = (if MaxSize l = 0 then l\<lparr>MaxSize := DEFAULT_DATA_MAX_SIZE\<rparr> else l);
                   l = (if MaxFiles l = 0 then l\<lparr>MaxFiles := DEFAULT_DATA_MAX_FILES\<rparr> else l)
               in Inr (config\<lparr>dc_Limits := l\<rparr>))))"

definition makeSerializer :: "string \<Rightarrow> data_error + serializer" where
  "makeSerializer encoding =
     (if encoding = ''none'' then Inr \<lparr>sz_Encoding = '''', sz_Concurrent = True\<rparr>
      else if encoding = ''gzip'' then Inr \<lparr>sz_Encoding = ''gzip'', sz_Concurrent = False\<rparr>
      else Inl (UnknownEncoding encoding))"

section \<open>The manager\<close>

record data_manager =
  dm_hostname :: string
  dm_setConfig :: string
  dm_config :: "data_config option"
  dm_running :: bool
  dm_spooler :: "spooler option"
  dm_sender :: "sender option"
  dm_status :: status

definition NewDataManager :: "string \<Rightarrow> data_manager" where
  "NewDataManager hostname =
     \<lparr>dm_hostname = hostname, dm_setConfig = '''', dm_config = None, dm_running = False,
      dm_spooler = None, dm_sender = None, dm_status = NewStatus [''data'']\<rparr>"

abbreviation set_data_status :: "string \<Rightarrow> data_manager \<Rightarrow> data_manager" where
  "set_data_status st m \<equiv> m\<lparr>dm_status := status_Update ''data'' st (dm_status m)\<rparr>"

text \<open>
  What the environment gives \<open>Start\<close>: the result of reading the configuration file, the results
  of the calls of \<open>MakeDir\<close> by the manager and by the spooler, the data directory, the clock.
\<close>

record data_env =
  de_readConfig :: "os_error + (string \<times> data_config)"
  de_mkData :: "os_error option"
  de_mkTrash :: "os_error option"
  de_spoolMk1 :: "os_error option"
  de_spoolMk2 :: "os_error option"
  de_dir :: diskv
  de_now :: i64

definition zero_config :: data_config where
  "zero_config = \<lparr>dc_Encoding = '''', dc_SendInterval = 0, dc_Blackhole = '''',
     dc_Limits = \<lparr>MaxAge = 0, MaxSize = 0, MaxFiles = 0\<rparr>\<rparr>"

text \<open>A missing configuration file is not an error: the zero configuration is used.\<close>

definition data_load :: "data_env \<Rightarrow> data_error + (string \<times> data_config)" where
  "data_load env =
     (case de_readConfig env of
        Inl NotExist \<Rightarrow> Inr ('''', zero_config)
      | Inl e \<Rightarrow> Inl (OsError e)
      | Inr r \<Rightarrow> Inr r)"

definition data_Start :: "data_env \<Rightarrow> data_manager \<Rightarrow> data_manager \<times> data_error option" where
  "data_Start env m =
     (if dm_config m \<noteq> None then (m, Some ServiceIsRunningError)
      else
        (let m = set_data_status ''Starting'' m
         in case data_load env of
              Inl e \<Rightarrow> (m, Some e)
            | Inr (set', config) \<Rightarrow>
                (case data_validateConfig config of
                   Inl e \<Rightarrow> (m, Some e)
                 | Inr config \<Rightarrow>
                     (let m = m\<lparr>dm_setConfig := set'\<rparr>
                      in case (de_mkData env, de_mkTrash env) of
                           (Some e, _) \<Rightarrow> (m, Some (OsError e))
                         | (None, Some e) \<Rightarrow> (m, Some (OsError e))
                         | (None, None) \<Rightarrow>
                             (case makeSerializer (dc_Encoding config) of
                                Inl e \<Rightarrow> (m, Some e)
                              | Inr sz \<Rightarrow>
                                  (let m = set_data_status ''Starting spooler'' m;
                                       (sp, err) = spooler_Start (de_spoolMk1 env) (de_spoolMk2 env) sz (de_now env)
                                          (NewDiskvSpooler (dm_hostname m) (dc_Limits config) (de_dir env))
                                   in case err of
                                        Some e \<Rightarrow> (m, Some (OsError e))
                                      | None \<Rightarrow>
                                          (let m = set_data_status ''Starting sender'' (m\<lparr>dm_spooler := Some sp\<rparr>);
                                               sd = sender_Start (dc_SendInterval config)
                                                      (ToBool (dc_Blackhole config)) NewSender;
                                               m = m\<lparr>dm_sender := Some sd, dm_config := Some config, dm_running := True\<rparr>
                                           in (set_data_status ''Running'' m, None))))))))"

text \<open>Stopping before a successful start dereferences a nil sender; the value \<open>None\<close> is that panic.\<close>

definition data_Stop :: "data_manager \<Rightarrow> data_manager option" where
  "data_Stop m =
     (case (dm_sender m, dm_spooler m) of
        (Some sd, Some sp) \<Rightarrow>
          (let m = set_data_status ''Stopping sender'' m;
               m = m\<lparr>dm_sender := Some (sender_Stop sd)\<rparr>;
               m = set_data_status ''Stopping spooler'' m;
               m = m\<lparr>dm_spooler := Some (spooler_Stop sp)\<rparr>;
               m = set_data_status ''Stopped'' m
           in Some (m\<lparr>dm_running := False\<rparr>))
      | _ \<Rightarrow> None)"

text \<open>
  \<open>handleSetConfig\<close>. \<open>json\<close> decodes the command's data; \<open>mk1\<close>, \<open>mk2\<close>, \<open>now\<close> are what the
  restart of the spooler meets; \<open>werr\<close> is the result of writing the configuration file.
\<close>

definition data_set_sender :: "data_config \<Rightarrow> data_config \<Rightarrow> sender \<Rightarrow> sender \<times> data_config" where
  "data_set_sender newConfig final sd =
     (if dc_SendInterval newConfig \<noteq> dc_SendInterval final
      then (sender_Start (dc_SendInterval newConfig) (ToBool (dc_Blackhole newConfig)) (sender_Stop sd),
            final\<lparr>dc_SendInterval := dc_SendInterval newConfig\<rparr>)
      else (sd, final))"

definition data_set_spooler ::
  "os_error option \<Rightarrow> os_error option \<Rightarrow> i64 \<Rightarrow> data_config \<Rightarrow> data_config \<Rightarrow> spooler
     \<Rightarrow> spooler \<times> data_config \<times> data_error list" where
  "data_set_spooler mk1 mk2 now newConfig final sp =
     (if dc_Encoding newConfig \<noteq> dc_Encoding final then
        (case makeSerializer (dc_Encoding newConfig) of
           Inl e \<Rightarrow> (sp, final, [e])
         | Inr sz \<Rightarrow>
             (case spooler_Start mk1 mk2 sz now (spooler_Stop sp) of
                (sp', Some e) \<Rightarrow> (sp', final, [OsError e])
              | (sp', None) \<Rightarrow> (sp', final\<lparr>dc_Encoding := dc_Encoding newConfig\<rparr>, [])))
      else (sp, final, []))"

text \<open>
  A manager that never started has no configuration to copy; that panic is the result \<open>None\<close>.
\<close>

definition data_handleSetConfig ::
  "(bytes \<Rightarrow> data_config option) \<Rightarrow> os_error option \<Rightarrow> os_error option \<Rightarrow> i64 \<Rightarrow> os_error option
     \<Rightarrow> bytes \<Rightarrow> data_manager \<Rightarrow> (data_manager \<times> data_config option \<times> data_error list) option" where
  "data_handleSetConfig json mk1 mk2 now werr data m =
     (case json data of
        None \<Rightarrow> Some (m, None, [JsonError])
      | Some newConfig \<Rightarrow>
          (case data_validateConfig newConfig of
             Inl e \<Rightarrow> Some (m, None, [e])
           | Inr newConfig \<Rightarrow>
               (case (dm_config m, dm_sender m, dm_spooler m) of
                  (Some final, Some sd, Some sp) \<Rightarrow>
                    (let (sd, final) = data_set_sender newConfig final sd;
                         (sp, final, errs) = data_set_spooler mk1 mk2 now newConfig final sp;
                         errs = errs @ (case werr of None \<Rightarrow> [] | Some e \<Rightarrow> [WriteConfigError e]);
                         m = m\<lparr>dm_sender := Some sd, dm_spooler := Some sp, dm_setConfig := data,
                               dm_config := Some final\<rparr>
                     in Some (m, Some final, errs))
                | _ \<Rightarrow> None)))"

text \<open>The running configuration, as \<open>GetConfig\<close> returns it before it is encoded as JSON.\<close>

definition data_GetConfig :: "data_manager \<Rightarrow> string \<times> data_config option" where
  "data_GetConfig m = (dm_setConfig m, dm_config m)"

datatype data_reply =
    ConfigReply string "data_config option"
  | SetReply "data_config option" "data_error list"
  | ErrorReply data_error

definition data_Handle ::
  "(bytes \<Rightarrow> data_config option) \<Rightarrow> os_error option \<Rightarrow> os_error option \<Rightarrow> i64 \<Rightarrow> os_error option
     \<Rightarrow> string \<Rightarrow> bytes \<Rightarrow> data_manager \<Rightarrow> (data_manager \<times> data_reply) option" where
  "data_Handle json mk1 mk2 now werr cmd data m =
     (let m = m\<lparr>dm_status := status_UpdateRe ''data'' ''Handling'' cmd (dm_status m)\<rparr>
      in if cmd = ''GetConfig'' then
           (case data_GetConfig m of (s, c) \<Rightarrow> Some (set_data_status ''Running'' m, ConfigReply s c))
         else if cmd = ''SetConfig'' then
           map_option (\<lambda>(m, c, errs). (set_data_status ''Running'' m, SetReply c errs))
             (data_handleSetConfig json mk1 mk2 now werr data m)
         else Some (set_data_status ''Running'' m, ErrorReply (UnknownCmdError cmd)))"

definition data_Status ::
  "(u64 \<Rightarrow> string) \<Rightarrow> (i64 \<Rightarrow> string) \<Rightarrow> status \<Rightarrow> data_manager \<Rightarrow> (data_manager \<times> status) option" where
  "data_Status bytesStr timeStr client m =
     (case (dm_spooler m, dm_sender m) of
        (Some sp, Some sd) \<Rightarrow>
          (let (sp, st) = spooler_Status bytesStr timeStr sp
           in Some (m\<lparr>dm_spooler := Some sp\<rparr>,
                    status_Merge (dm_status m) [client, st, status_Merge (sd_status sd) [client]]))
      | _ \<Rightarrow> None)"

section \<open>Properties\<close>

definition valid_data_config :: "data_config \<Rightarrow> bool" where
  "valid_data_config c \<longleftrightarrow>
     dc_Encoding c \<in> {''none'', ''gzip''} \<and> 1 \<le> dc_SendInterval c \<and> dc_SendInterval c \<le> 3600
     \<and> \<not> purge_all (dc_Limits c)"

definition filled_config :: "data_config \<Rightarrow> data_config" where
  "filled_config c =
     \<lparr>dc_Encoding = (if dc_Encoding c = '''' then DEFAULT_DATA_ENCODING else dc_Encoding c),
      dc_SendInterval = (if dc_SendInterval c = 0 then DEFAULT_DATA_SEND_INTERVAL else dc_SendInterval c),
      dc_Blackhole = dc_Blackhole c,
      dc_Limits =
        \<lparr>MaxAge = (if MaxAge (dc_Limits c) = 0 then DEFAULT_DATA_MAX_AGE else MaxAge (dc_Limits c)),
         MaxSize = (if MaxSize (dc_Limits c) = 0 then DEFAULT_DATA_MAX_SIZE else MaxSize (dc_Limits c)),
         MaxFiles = (if MaxFiles (dc_Limits c) = 0 then DEFAULT_DATA_MAX_FILES else MaxFiles (dc_Limits c))\<rparr>\<rparr>"

lemma data_validateConfig_eq:
  "data_validateConfig c =
     (if dc_Encoding c \<notin> {'''', ''none'', ''gzip''} then Inl (InvalidEncoding (dc_Encoding c))
      else if dc_SendInterval c > 3600 then Inl SendIntervalTooLarge
      else Inr (filled_config c))"
  by (simp add: data_validateConfig_def filled_config_def Let_def)

lemma validate_valid: "data_validateConfig c = Inr c' \<Longrightarrow> valid_data_config c'"
proof -
  assume "data_validateConfig c = Inr c'"
  then have e: "dc_Encoding c \<in> {'''', ''none'', ''gzip''}" and i: "dc_SendInterval c \<le> 3600"
    and c': "c' = filled_config c"
    by (auto simp: data_validateConfig_eq not_less split: if_splits)
  have "1 \<le> dc_SendInterval c'" "dc_SendInterval c' \<le> 3600"
    using i by (auto simp: c' filled_config_def data_defaults word_le_nat_alt Suc_le_eq unat_gt_0)
  moreover have "dc_Encoding c' \<in> {''none'', ''gzip''}"
    using e by (auto simp: c' filled_config_def data_defaults)
  ultimately show ?thesis
    by (simp add: valid_data_config_def purge_all_def c' filled_config_def data_defaults)
qed

lemma validate_idem: "valid_data_config c \<Longrightarrow> data_validateConfig c = Inr c"
  by (auto simp: data_validateConfig_eq filled_config_def valid_data_config_def purge_all_def not_less)

text \<open>
  Validation of the data configuration. It fails exactly on an unknown encoding or a send
  interval above one hour; otherwise the result has a known encoding, an interval from 1 to 3600
  seconds and no zero limit (so that no purge is a purge of everything), validating it again
  changes nothing, and every value that was set is kept.
\<close>

theorem data_validateConfig_correct:
  "(isl (data_validateConfig c) \<longleftrightarrow>
      dc_Encoding c \<notin> {'''', ''none'', ''gzip''} \<or> dc_SendInterval c > 3600)
   \<and> (data_validateConfig c = Inr c' \<longrightarrow>
        valid_data_config c' \<and> data_validateConfig c' = Inr c'
        \<and> dc_Blackhole c' = dc_Blackhole c
        \<and> (dc_Encoding c \<noteq> '''' \<longrightarrow> dc_Encoding c' = dc_Encoding c)
        \<and> (dc_SendInterval c \<noteq> 0 \<longrightarrow> dc_SendInterval c' = dc_SendInterval c)
        \<and> (MaxSize (dc_Limits c) \<noteq> 0 \<longrightarrow> MaxSize (dc_Limits c') = MaxSize (dc_Limits c)))"
  using validate_valid [of c c'] validate_idem [of c']
  by (auto simp: data_validateConfig_eq filled_config_def split: if_splits)

theorem data_validateConfig_correct_witness:
  "data_validateConfig zero_config =
     Inr \<lparr>dc_Encoding = ''gzip'', dc_SendInterval = 63, dc_Blackhole = '''',
          dc_Limits = \<lparr>MaxAge = 86400, MaxSize = 104857600, MaxFiles = 1000\<rparr>\<rparr>
   \<and> valid_data_config \<lparr>dc_Encoding = ''gzip'', dc_SendInterval = 63, dc_Blackhole = '''',
          dc_Limits = \<lparr>MaxAge = 86400, MaxSize = 104857600, MaxFiles = 1000\<rparr>\<rparr>"
proof -
  have "data_validateConfig zero_config =
     Inr \<lparr>dc_Encoding = ''gzip'', dc_SendInterval = 63, dc_Blackhole = '''',
          dc_Limits = \<lparr>MaxAge = 86400, MaxSize = 104857600, MaxFiles = 1000\<rparr>\<rparr>"
    by (simp add: data_validateConfig_eq filled_config_def zero_config_def data_defaults)
  with data_validateConfig_correct [of zero_config] show ?thesis by blast
qed

lemma spool_account_limits [frame]: "sp_limits (foldl spool_account s ks) = sp_limits s"
proof (induction ks arbitrary: s)
  case Nil
  then show ?case by simp
next
  case (Cons k ks)
  then show ?case by (simp add: spool_account_def cache_erase_def split: sum.split)
qed

lemma spooler_restart_limits [frame]:
  "sp_limits (fst (spooler_Start mk1 mk2 sz now (spooler_Stop s))) = sp_limits s"
  by (simp add: spooler_Start_def spooler_Stop_def spooler_Files_def frame Let_def split: option.split)

lemma spooler_Start_ok: "snd (spooler_Start None None sz now s) = None"
  by (simp add: spooler_Start_def Let_def split_beta)

text \<open>
  A valid \<open>SetConfig\<close> on a running data service with nothing failing applies the send
  interval and the encoding and nothing else: the spool limits and the black hole setting of the
  request are dropped without an error, the spooler goes on with the old limits, and only the
  reported \<open>Set\<close> configuration shows the request.
\<close>

theorem data_SetConfig_applies:
  assumes "dm_config m = Some old" and "dm_sender m = Some sd" and "dm_spooler m = Some sp"
    and "json data = Some req" and "data_validateConfig req = Inr new"
  shows "\<exists>m' sp'. data_handleSetConfig json None None now None data m =
      Some (m', Some (old\<lparr>dc_SendInterval := dc_SendInterval new, dc_Encoding := dc_Encoding new\<rparr>), [])
    \<and> dm_config m' = Some (old\<lparr>dc_SendInterval := dc_SendInterval new, dc_Encoding := dc_Encoding new\<rparr>)
    \<and> dm_setConfig m' = data
    \<and> dm_spooler m' = Some sp' \<and> sp_limits sp' = sp_limits sp"
proof -
  from validate_valid [OF assms(5)] obtain sz where sz: "makeSerializer (dc_Encoding new) = Inr sz"
    by (auto simp: valid_data_config_def makeSerializer_def)
  obtain sp1 where st: "spooler_Start None None sz now (spooler_Stop sp) = (sp1, None)"
    and "sp_limits sp1 = sp_limits sp"
    using spooler_Start_ok [of sz now "spooler_Stop sp"] spooler_restart_limits [of None None sz now sp]
    by (metis prod.collapse)
  then show ?thesis
    using assms sz
    by (simp add: data_handleSetConfig_def data_set_sender_def data_set_spooler_def)
qed

definition demo_data_env :: data_env where
  "demo_data_env = \<lparr>de_readConfig = Inl NotExist, de_mkData = None, de_mkTrash = None,
     de_spoolMk1 = None, de_spoolMk2 = None,
     de_dir = \<lparr>dv_files = [], dv_readErr = [], dv_eraseErr = [], dv_writeErr = []\<rparr>, de_now = 0\<rparr>"

theorem data_SetConfig_applies_witness:
  "case data_handleSetConfig (\<lambda>_. Some (zero_config\<lparr>dc_SendInterval := 5, dc_Encoding := ''none'',
        dc_Limits := \<lparr>MaxAge = 1, MaxSize = 1, MaxFiles = 1\<rparr>\<rparr>)) None None 0 None ''{}''
        (fst (data_Start demo_data_env (NewDataManager ''h'')))
   of Some (m', Some c, errs) \<Rightarrow>
        dc_SendInterval c = 5 \<and> dc_Encoding c = ''none'' \<and> MaxAge (dc_Limits c) = 86400 \<and> errs = []
    | _ \<Rightarrow> False"
proof -
  let ?m = "fst (data_Start demo_data_env (NewDataManager ''h''))"
  let ?req = "zero_config\<lparr>dc_SendInterval := 5, dc_Encoding := ''none'',
        dc_Limits := \<lparr>MaxAge = 1, MaxSize = 1, MaxFiles = 1\<rparr>\<rparr>"
  have "dm_config ?m = Some (filled_config zero_config)" by code_simp
  moreover have "Option.is_none (dm_sender ?m) = False" by code_simp
  moreover have "Option.is_none (dm_spooler ?m) = False" by code_simp
  ultimately obtain sd sp where m: "dm_config ?m = Some (filled_config zero_config)"
    "dm_sender ?m = Some sd" "dm_spooler ?m = Some sp"
    by (auto simp: Option.is_none_def)
  have "data_validateConfig ?req = Inr ?req"
    by (rule validate_idem) (simp add: valid_data_config_def purge_all_def)
  then have "\<exists>m' sp'. data_handleSetConfig (\<lambda>_. Some ?req) None None 0 None ''{}'' ?m =
      Some (m', Some ((filled_config zero_config)\<lparr>dc_SendInterval := 5, dc_Encoding := ''none''\<rparr>), [])"
    using data_SetConfig_applies [OF m, of "\<lambda>_. Some ?req" "''{}''" ?req ?req 0] by auto
  then show ?thesis
    by (auto simp: filled_config_def zero_config_def data_defaults)
qed

text \<open>
  The data service cannot be started again: \<open>Start\<close> takes a set configuration for a sign
  that the service runs and \<open>Stop\<close> does not clear it, so that after a successful \<open>Start\<close> and a
  \<open>Stop\<close> every further \<open>Start\<close> fails with a service-is-running error and changes nothing.
\<close>

theorem data_no_restart:
  assumes "data_Start env m = (m1, None)"
  shows "\<exists>m2. data_Stop m1 = Some m2 \<and> \<not> dm_running m2
    \<and> data_Start env' m2 = (m2, Some ServiceIsRunningError)"
proof -
  have "dm_config m1 \<noteq> None \<and> dm_sender m1 \<noteq> None \<and> dm_spooler m1 \<noteq> None"
    using assms
    by (auto simp: data_Start_def Let_def split: if_splits sum.splits prod.splits option.splits)
  then show ?thesis by (auto simp: data_Stop_def data_Start_def Let_def)
qed

theorem data_no_restart_witness:
  "\<exists>m2. data_Stop (fst (data_Start demo_data_env (NewDataManager ''h''))) = Some m2 \<and> \<not> dm_running m2
    \<and> data_Start demo_data_env m2 = (m2, Some ServiceIsRunningError)"
proof -
  have "snd (data_Start demo_data_env (NewDataManager ''h'')) = None" by code_simp
  then show ?thesis
    by (intro data_no_restart [of demo_data_env "NewDataManager ''h''"]) (metis prod.collapse)
qed

end
