(* ===== verification/LogRelay.thy ===== *)
theory LogRelay
  imports Pct
begin

text \<open>
  The log relay, \<open>log/relay.go\<close>: it prints log entries, sends them to the API while it is
  connected, and keeps them in two buffers while it is not. The second part is the log service,
  \<open>log/manager.go\<close>. The websocket client is modelled by the script of the results its next
  sends will have and by the entries it has delivered.
\<close>

section \<open>State\<close>

definition BUFFER_SIZE :: nat where "BUFFER_SIZE = 50"

definition LOG_EMERGENCY :: nat where "LOG_EMERGENCY = 0"
definition LOG_WARNING :: nat where "LOG_WARNING = 4"
definition LOG_INFO :: nat where "LOG_INFO = 6"
definition LOG_DEBUG :: nat where "LOG_DEBUG = 7"

lemmas log_levels = LOG_EMERGENCY_def LOG_WARNING_def LOG_INFO_def LOG_DEBUG_def

definition LogLevelName :: "string list" where
  "LogLevelName =
     [''emergency'', ''alert'', ''critical'', ''error'', ''warning'', ''notice'', ''info'', ''debug'']"

record log_entry =
  le_Ts :: int
  le_Level :: nat
  le_Service :: string
  le_Msg :: string
  le_Offline :: bool

record relay =
  rl_logLevel :: nat
  rl_offline :: bool
  rl_connected :: bool
  rl_firstBuf :: "log_entry option list"
  rl_firstBufSize :: nat
  rl_secondBuf :: "log_entry option list"
  rl_secondBufSize :: nat
  rl_lost :: nat
  rl_status :: status
  rl_logChan :: "log_entry list"
  rl_logCap :: nat
  rl_stdout :: "string list"
  rl_stderr :: "string list"
  rl_delivered :: "log_entry list"
  rl_script :: "bool list"

definition NewRelay :: "nat \<Rightarrow> nat \<Rightarrow> bool \<Rightarrow> relay" where
  "NewRelay logCap logLevel offline =
     \<lparr>rl_logLevel = logLevel, rl_offline = offline, rl_connected = False,
      rl_firstBuf = replicate BUFFER_SIZE None, rl_firstBufSize = 0,
      rl_secondBuf = replicate BUFFER_SIZE None, rl_secondBufSize = 0, rl_lost = 0,
      rl_status = NewStatus [''log-relay'', ''log-level'', ''log-chan'', ''log-buf1'', ''log-buf2''],
      rl_logChan = [], rl_logCap = logCap, rl_stdout = [], rl_stderr = [],
      rl_delivered = [], rl_script = []\<rparr>"

definition set_relay_status :: "string \<Rightarrow> string \<Rightarrow> relay \<Rightarrow> relay" where
  "set_relay_status proc st r = r\<lparr>rl_status := status_Update proc st (rl_status r)\<rparr>"

section \<open>Buffering and sending\<close>

definition relay_buf_status :: "relay \<Rightarrow> relay" where
  "relay_buf_status r =
     set_relay_status ''log-buf2'' (string_of_nat (rl_secondBufSize r))
       (set_relay_status ''log-buf1'' (string_of_nat (rl_firstBufSize r)) r)"

definition relay_buffer :: "log_entry \<Rightarrow> relay \<Rightarrow> relay" where
  "relay_buffer e r =
     (let r = set_relay_status ''log-relay'' ''Buffering'' r;
          r = (if rl_firstBufSize r < BUFFER_SIZE then
                 r\<lparr>rl_firstBuf := (rl_firstBuf r)[rl_firstBufSize r := Some e],
                   rl_firstBufSize := rl_firstBufSize r + 1\<rparr>
               else if rl_secondBufSize r < BUFFER_SIZE then
                 r\<lparr>rl_secondBuf := (rl_secondBuf r)[rl_secondBufSize r := Some e],
                   rl_secondBufSize := rl_secondBufSize r + 1\<rparr>
               else
                 r\<lparr>rl_lost := rl_lost r + rl_secondBufSize r,
                   rl_secondBuf := (replicate BUFFER_SIZE None)[0 := Some e],
                   rl_secondBufSize := 1\<rparr>)
      in relay_buf_status r)"

text \<open>\<open>client.Send\<close>: the next result of the script, success when there is none.\<close>

definition client_Send :: "log_entry \<Rightarrow> relay \<Rightarrow> relay \<times> bool" where
  "client_Send e r =
     (case rl_script r of
        [] \<Rightarrow> (r\<lparr>rl_delivered := rl_delivered r @ [e]\<rparr>, True)
      | ok # rest \<Rightarrow>
          (if ok then (r\<lparr>rl_script := rest, rl_delivered := rl_delivered r @ [e]\<rparr>, True)
           else (r\<lparr>rl_script := rest\<rparr>, False)))"

text \<open>
  The result says whether \<open>err == nil\<close>; the client's \<open>Disconnect\<close> after a failed send shows
  in the relay only as a later event of the connect channel.
\<close>

definition relay_send :: "log_entry \<Rightarrow> bool \<Rightarrow> relay \<Rightarrow> relay \<times> bool" where
  "relay_send e bufferOnErr r =
     (if rl_connected r then
        (let r = set_relay_status ''log-relay'' ''Sending'' r;
             (r, ok) = client_Send e r
         in if ok then (r, True)
            else (if bufferOnErr then relay_buffer e r else r, False))
      else (relay_buffer e r, True))"

text \<open>One pass of the loops of \<open>resend\<close> over the first and the second buffer.\<close>

definition resend_first :: "relay \<Rightarrow> nat \<Rightarrow> relay" where
  "resend_first r i =
     (case rl_firstBuf r ! i of
        None \<Rightarrow> r
      | Some e \<Rightarrow>
          (case relay_send e False r of
             (r, ok) \<Rightarrow>
               if ok then r\<lparr>rl_firstBuf := (rl_firstBuf r)[i := None], rl_firstBufSize := rl_firstBufSize r - 1\<rparr>
               else r))"

definition resend_second :: "relay \<Rightarrow> nat \<Rightarrow> relay" where
  "resend_second r i =
     (case rl_secondBuf r ! i of
        None \<Rightarrow> r
      | Some e \<Rightarrow>
          (case relay_send e False r of
             (r, ok) \<Rightarrow>
               if ok then r\<lparr>rl_secondBuf := (rl_secondBuf r)[i := None], rl_secondBufSize := rl_secondBufSize r - 1\<rparr>
               else r))"

definition lost_entry :: "int \<Rightarrow> nat \<Rightarrow> log_entry" where
  "lost_entry now n =
     \<lparr>le_Ts = now, le_Level = LOG_WARNING, le_Service = ''log'',
      le_Msg = ''Lost '' @ string_of_nat n @ '' log entries'', le_Offline = False\<rparr>"

definition relay_resend :: "int \<Rightarrow> relay \<Rightarrow> relay" where
  "relay_resend now r =
     (let r = set_relay_status ''log-relay'' ''Resending buf1'' r;
          r = foldl resend_first r [0..<BUFFER_SIZE];
          r = (if rl_lost r > 0
               then (fst (relay_send (lost_entry now (rl_lost r)) False r))\<lparr>rl_lost := 0\<rparr> else r);
          r = set_relay_status ''log-relay'' ''Resending buf2'' r;
          r = foldl resend_second r [0..<BUFFER_SIZE]
      in relay_buf_status r)"

section \<open>The run loop\<close>

text \<open>
  \<open>internal\<close> sends on the log channel that the loop itself reads: on a full channel the relay
  blocks for ever, which is the value \<open>None\<close>.
\<close>

definition relay_internal :: "int \<Rightarrow> string \<Rightarrow> nat \<Rightarrow> relay \<Rightarrow> relay option" where
  "relay_internal now msg level r =
     (if length (rl_logChan r) < rl_logCap r
      then Some (r\<lparr>rl_logChan := rl_logChan r @
             [\<lparr>le_Ts = now, le_Level = level, le_Service = ''log'', le_Msg = msg, le_Offline = False\<rparr>]\<rparr>)
      else None)"

definition relay_setLogLevel :: "int \<Rightarrow> nat \<Rightarrow> relay \<Rightarrow> relay option" where
  "relay_setLogLevel now level r =
     (let r = set_relay_status ''log-relay'' (''Setting log level: '' @ string_of_nat level) r
      in if level < LOG_EMERGENCY \<or> level > LOG_DEBUG
         then relay_internal now (''Invalid log level: '' @ string_of_nat level @ [CHR 0x0A]) LOG_WARNING r
         else Some (set_relay_status ''log-level'' (LogLevelName ! level) (r\<lparr>rl_logLevel := level\<rparr>)))"

definition relay_print :: "log_entry \<Rightarrow> relay \<Rightarrow> relay" where
  "relay_print e r =
     (if le_Level e \<le> rl_logLevel r then
        (let msg = ToUpper (LogLevelName ! le_Level e) @ '' '' @ le_Service e @ '' '' @ le_Msg e
         in if le_Level e \<le> LOG_WARNING then r\<lparr>rl_stderr := rl_stderr r @ [msg]\<rparr>
            else r\<lparr>rl_stdout := rl_stdout r @ [msg]\<rparr>)
      else r)"

definition relay_entry :: "log_entry \<Rightarrow> relay \<Rightarrow> relay" where
  "relay_entry e r =
     (let r = relay_print e r;
          r = (if \<not> rl_offline r \<and> \<not> le_Offline e \<and> le_Level e \<noteq> LOG_DEBUG
               then fst (relay_send e True r) else r)
      in set_relay_status ''log-chan'' (string_of_nat (length (rl_logChan r))) r)"

datatype relay_event = RecvEntry | ConnEvent int bool | LevelEvent int nat

text \<open>One iteration of \<open>Run\<close>; receiving from an empty channel is not possible. The test of the
  buffer's length is a test of its capacity and always true.\<close>

definition relay_step :: "relay_event \<Rightarrow> relay \<Rightarrow> relay option" where
  "relay_step ev r =
     (let r = set_relay_status ''log-relay'' ''Idle'' r
      in case ev of
           RecvEntry \<Rightarrow>
             (case rl_logChan r of
                [] \<Rightarrow> None
              | e # rest \<Rightarrow> Some (relay_entry e (r\<lparr>rl_logChan := rest\<rparr>)))
         | ConnEvent now conn \<Rightarrow>
             (let r = r\<lparr>rl_connected := conn\<rparr>
              in if conn then
                   (case relay_internal now ''Connected to API'' LOG_INFO r of
                      None \<Rightarrow> None
                    | Some r \<Rightarrow> Some (if length (rl_firstBuf r) > 0 then relay_resend now r else r))
                 else relay_internal now ''Lost connection to API'' LOG_WARNING r)
         | LevelEvent now level \<Rightarrow> relay_setLogLevel now level r)"

section \<open>The buffers stay within bounds\<close>

definition occupied :: "log_entry option list \<Rightarrow> nat" where
  "occupied b = length (filter (\<lambda>e. e \<noteq> None) b)"

definition relay_inv :: "relay \<Rightarrow> bool" where
  "relay_inv r \<longleftrightarrow>
     length (rl_firstBuf r) = BUFFER_SIZE \<and> length (rl_secondBuf r) = BUFFER_SIZE
     \<and> rl_firstBufSize r \<le> BUFFER_SIZE \<and> rl_secondBufSize r \<le> BUFFER_SIZE
     \<and> occupied (rl_firstBuf r) \<le> rl_firstBufSize r \<and> occupied (rl_secondBuf r) \<le> rl_secondBufSize r
     \<and> rl_logLevel r \<le> LOG_DEBUG"

lemma occupied_simps [simp]:
  "occupied [] = 0" "occupied (None # b) = occupied b" "occupied (Some e # b) = Suc (occupied b)"
  "occupied (replicate n None) = 0"
  by (simp_all add: occupied_def)

lemma occupied_set: "i < length b \<Longrightarrow> occupied (b[i := Some e]) \<le> Suc (occupied b)"
proof (induction b arbitrary: i)
  case Nil
  then show ?case by simp
next
  case (Cons x b)
  then show ?case by (cases i; cases x) (auto simp: le_SucI)
qed

lemma occupied_clear:
  "i < length b \<Longrightarrow> b ! i = Some e \<Longrightarrow> Suc (occupied (b[i := None])) = occupied b"
proof (induction b arbitrary: i)
  case Nil
  then show ?case by simp
next
  case (Cons x b)
  then show ?case by (cases i; cases x) auto
qed

lemma relay_status_frame [simp]:
  "rl_firstBuf (set_relay_status p st r) = rl_firstBuf r"
  "rl_firstBufSize (set_relay_status p st r) = rl_firstBufSize r"
  "rl_secondBuf (set_relay_status p st r) = rl_secondBuf r"
  "rl_secondBufSize (set_relay_status p st r) = rl_secondBufSize r"
  "rl_lost (set_relay_status p st r) = rl_lost r"
  "rl_logLevel (set_relay_status p st r) = rl_logLevel r"
  "rl_logChan (set_relay_status p st r) = rl_logChan r"
  "rl_logCap (set_relay_status p st r) = rl_logCap r"
  "rl_connected (set_relay_status p st r) = rl_connected r"
  "rl_offline (set_relay_status p st r) = rl_offline r"
  "rl_script (set_relay_status p st r) = rl_script r"
  "rl_delivered (set_relay_status p st r) = rl_delivered r"
  by (simp_all add: set_relay_status_def)

lemma relay_inv_status [simp]: "relay_inv (set_relay_status p st r) = relay_inv r"
  by (simp add: relay_inv_def)

lemma relay_inv_upd [simp]:
  "relay_inv (r\<lparr>rl_logChan := c\<rparr>) = relay_inv r" "relay_inv (r\<lparr>rl_connected := b\<rparr>) = relay_inv r"
  "relay_inv (r\<lparr>rl_script := s\<rparr>) = relay_inv r" "relay_inv (r\<lparr>rl_delivered := d\<rparr>) = relay_inv r"
  "relay_inv (r\<lparr>rl_lost := n\<rparr>) = relay_inv r"
  "relay_inv (r\<lparr>rl_stdout := o1\<rparr>) = relay_inv r" "relay_inv (r\<lparr>rl_stderr := o1\<rparr>) = relay_inv r"
  by (simp_all add: relay_inv_def)

lemma relay_buffer_inv: "relay_inv r \<Longrightarrow> relay_inv (relay_buffer e r)"
  using occupied_set [of "rl_firstBufSize r" "rl_firstBuf r" e]
    occupied_set [of "rl_secondBufSize r" "rl_secondBuf r" e]
    occupied_set [of 0 "replicate BUFFER_SIZE None" e]
  by (auto simp: relay_buffer_def relay_buf_status_def relay_inv_def Let_def BUFFER_SIZE_def)

lemma client_Send_inv [simp]: "relay_inv (fst (client_Send e r)) = relay_inv r"
  by (simp add: client_Send_def split: list.split)

lemma relay_send_inv: "relay_inv r \<Longrightarrow> relay_inv (fst (relay_send e b r))"
  using relay_buffer_inv [of r e]
    relay_buffer_inv [of "fst (client_Send e (set_relay_status ''log-relay'' ''Sending'' r))" e]
  by (simp add: relay_send_def Let_def split_beta)

lemma resend_first_inv:
  assumes "relay_inv r" and "rl_connected r" and "i < BUFFER_SIZE"
  shows "relay_inv (resend_first r i) \<and> rl_connected (resend_first r i)"
proof (cases "rl_firstBuf r ! i")
  case None
  with assms show ?thesis by (simp add: resend_first_def)
next
  case (Some e)
  with assms occupied_clear [of i "rl_firstBuf r" e] show ?thesis
    by (auto simp: resend_first_def relay_send_def client_Send_def relay_inv_def Let_def split: list.split)
qed

lemma resend_second_inv:
  assumes "relay_inv r" and "rl_connected r" and "i < BUFFER_SIZE"
  shows "relay_inv (resend_second r i) \<and> rl_connected (resend_second r i)"
proof (cases "rl_secondBuf r ! i")
  case None
  with assms show ?thesis by (simp add: resend_second_def)
next
  case (Some e)
  with assms occupied_clear [of i "rl_secondBuf r" e] show ?thesis
    by (auto simp: resend_second_def relay_send_def client_Send_def relay_inv_def Let_def split: list.split)
qed

lemma relay_send_connected: "rl_connected r \<Longrightarrow> rl_connected (fst (relay_send e False r))"
  by (simp add: relay_send_def client_Send_def Let_def split: list.split)

lemma relay_resend_inv:
  assumes "relay_inv r" and "rl_connected r"
  shows "relay_inv (relay_resend now r)"
proof -
  let ?P = "\<lambda>r. relay_inv r \<and> rl_connected r"
  let ?r1 = "foldl resend_first (set_relay_status ''log-relay'' ''Resending buf1'' r) [0..<BUFFER_SIZE]"
  have 1: "?P ?r1"
    by (rule foldl_invariant [where P = ?P]) (use assms resend_first_inv in auto)
  define r2 where "r2 = (if rl_lost ?r1 > 0
    then (fst (relay_send (lost_entry now (rl_lost ?r1)) False ?r1))\<lparr>rl_lost := 0\<rparr> else ?r1)"
  have 2: "?P r2"
    using 1 relay_send_inv [of ?r1] relay_send_connected [of ?r1] by (simp add: r2_def)
  have "?P (foldl resend_second (set_relay_status ''log-relay'' ''Resending buf2'' r2) [0..<BUFFER_SIZE])"
    by (rule foldl_invariant [where P = ?P]) (use 2 resend_second_inv in auto)
  then show ?thesis
    by (simp add: relay_resend_def relay_buf_status_def r2_def Let_def)
qed

lemma relay_internal_inv: "relay_internal now msg l r = Some r' \<Longrightarrow> relay_inv r' = relay_inv r"
  by (auto simp: relay_internal_def split: if_splits)

lemma relay_print_inv [simp]: "relay_inv (relay_print e r) = relay_inv r"
  by (simp add: relay_print_def Let_def)

lemma relay_entry_inv: "relay_inv r \<Longrightarrow> relay_inv (relay_entry e r)"
  by (simp add: relay_entry_def relay_send_inv Let_def)

lemma relay_step_inv: "relay_inv r \<Longrightarrow> relay_step ev r = Some r' \<Longrightarrow> relay_inv r'"
proof (cases ev)
  case RecvEntry
  assume "relay_inv r" "relay_step ev r = Some r'"
  with RecvEntry show ?thesis
    by (auto simp: relay_step_def Let_def relay_entry_inv split: list.splits)
next
  case (ConnEvent now conn)
  assume inv: "relay_inv r" "relay_step ev r = Some r'"
  show ?thesis
  proof (cases conn)
    case True
    with inv ConnEvent obtain r1 where "relay_internal now ''Connected to API'' LOG_INFO
        ((set_relay_status ''log-relay'' ''Idle'' r)\<lparr>rl_connected := True\<rparr>) = Some r1"
      and r': "r' = relay_resend now r1 \<or> r' = r1"
      by (auto simp: relay_step_def Let_def split: option.splits if_splits)
    with inv(1) have "relay_inv r1" "rl_connected r1"
      by (auto simp: relay_internal_def split: if_splits)
    with r' relay_resend_inv show ?thesis by blast
  next
    case False
    with inv ConnEvent show ?thesis
      by (auto simp: relay_step_def Let_def dest: relay_internal_inv)
  qed
next
  case (LevelEvent now level)
  assume "relay_inv r" "relay_step ev r = Some r'"
  with LevelEvent show ?thesis
    by (auto simp: relay_step_def relay_setLogLevel_def Let_def relay_inv_def dest: relay_internal_inv
        split: if_splits)
qed

text \<open>The relay's runs: the sequences of events that do not block.\<close>

fun relay_run :: "relay_event list \<Rightarrow> relay \<Rightarrow> relay option" where
  "relay_run [] r = Some r"
| "relay_run (ev # evs) r = Option.bind (relay_step ev r) (relay_run evs)"


definition demo_entry :: "nat \<Rightarrow> string \<Rightarrow> log_entry" where
  "demo_entry level msg =
     \<lparr>le_Ts = 0, le_Level = level, le_Service = ''qan'', le_Msg = msg, le_Offline = False\<rparr>"


section \<open>An outage and the reconnect after it\<close>

definition padded :: "log_entry list \<Rightarrow> log_entry option list" where
  "padded xs = map Some xs @ replicate (BUFFER_SIZE - length xs) None"

text \<open>What the relay holds after the entries \<open>es\<close> arrived while it was not connected; \<open>s\<close> of them
  are in the second buffer.\<close>

definition outage :: "log_entry list \<Rightarrow> nat \<Rightarrow> relay \<Rightarrow> bool" where
  "outage es s r \<longleftrightarrow>
     \<not> rl_connected r \<and> \<not> rl_offline r \<and> rl_script r = [] \<and> rl_delivered r = [] \<and> rl_logChan r = []
     \<and> rl_firstBuf r = padded (take BUFFER_SIZE es) \<and> rl_firstBufSize r = min BUFFER_SIZE (length es)
     \<and> rl_secondBuf r = padded (drop (length es - s) es) \<and> rl_secondBufSize r = s
     \<and> s \<le> BUFFER_SIZE \<and> (length es \<le> BUFFER_SIZE \<longrightarrow> s = 0) \<and> (BUFFER_SIZE < length es \<longrightarrow> 0 < s)
     \<and> rl_lost r + min BUFFER_SIZE (length es) + s = length es \<and> BUFFER_SIZE dvd rl_lost r"

lemma padded_snoc: "length xs < BUFFER_SIZE \<Longrightarrow> (padded xs)[length xs := Some e] = padded (xs @ [e])"
  by (simp add: padded_def list_update_append Suc_diff_Suc [symmetric])

lemma relay_print_frame [simp]:
  "rl_firstBuf (relay_print e r) = rl_firstBuf r" "rl_firstBufSize (relay_print e r) = rl_firstBufSize r"
  "rl_secondBuf (relay_print e r) = rl_secondBuf r" "rl_secondBufSize (relay_print e r) = rl_secondBufSize r"
  "rl_lost (relay_print e r) = rl_lost r" "rl_logChan (relay_print e r) = rl_logChan r"
  "rl_connected (relay_print e r) = rl_connected r" "rl_offline (relay_print e r) = rl_offline r"
  "rl_script (relay_print e r) = rl_script r" "rl_delivered (relay_print e r) = rl_delivered r"
  "rl_logCap (relay_print e r) = rl_logCap r"
  by (simp_all add: relay_print_def Let_def)

lemma relay_entry_outage:
  assumes "outage es s r" and "\<not> le_Offline e" and "le_Level e \<noteq> LOG_DEBUG"
  shows "\<exists>s'. outage (es @ [e]) s' (relay_entry e r)"
proof -
  consider (first) "length es < BUFFER_SIZE" | (second) "length es \<ge> BUFFER_SIZE" "s < BUFFER_SIZE"
    | (full) "length es \<ge> BUFFER_SIZE" "s = BUFFER_SIZE"
    using assms(1) by (force simp: outage_def)
  then show ?thesis
  proof cases
    case first
    with assms show ?thesis
      by (intro exI [of _ 0])
        (auto simp: outage_def relay_entry_def relay_send_def relay_buffer_def relay_buf_status_def Let_def padded_snoc)
  next
    case second
    with assms padded_snoc [of "drop (length es - s) es" e] show ?thesis
      by (intro exI [of _ "Suc s"])
        (auto simp: outage_def relay_entry_def relay_send_def relay_buffer_def relay_buf_status_def Let_def
          Suc_diff_le min_def)
  next
    case full
    with assms padded_snoc [of "[]" e] show ?thesis
      by (intro exI [of _ 1])
        (auto simp: outage_def relay_entry_def relay_send_def relay_buffer_def relay_buf_status_def Let_def
          padded_def BUFFER_SIZE_def)
  qed
qed

lemma relay_outage_run:
  assumes "\<forall>e \<in> set es. \<not> le_Offline e \<and> le_Level e \<noteq> LOG_DEBUG"
  shows "\<exists>s. outage es s (foldl (\<lambda>r e. relay_entry e r) (NewRelay cap level False) es)
    \<and> rl_logCap (foldl (\<lambda>r e. relay_entry e r) (NewRelay cap level False) es) = cap"
  using assms
proof (induction es rule: rev_induct)
  case Nil
  then show ?case by (auto simp: outage_def NewRelay_def padded_def)
next
  case (snoc e es)
  then obtain s where "outage es s (foldl (\<lambda>r e. relay_entry e r) (NewRelay cap level False) es)"
    and "rl_logCap (foldl (\<lambda>r e. relay_entry e r) (NewRelay cap level False) es) = cap" by auto
  moreover have "rl_logCap (relay_entry e r) = rl_logCap r" if "\<not> rl_connected r" for r
    using that by (simp add: relay_entry_def relay_send_def relay_buffer_def relay_buf_status_def Let_def)
  ultimately show ?case
    using relay_entry_outage [of es s _ e] snoc.prems by (force simp: outage_def)
qed

lemma resend_first_ok:
  assumes "rl_connected r" and "rl_script r = []" and "rl_firstBuf r ! i = Some e"
  shows "\<exists>st. resend_first r i = r\<lparr>rl_status := st, rl_delivered := rl_delivered r @ [e],
      rl_firstBuf := (rl_firstBuf r)[i := None], rl_firstBufSize := rl_firstBufSize r - 1\<rparr>"
  using assms by (simp add: resend_first_def relay_send_def client_Send_def set_relay_status_def Let_def)
    (metis (no_types))

lemma resend_second_ok:
  assumes "rl_connected r" and "rl_script r = []" and "rl_secondBuf r ! i = Some e"
  shows "\<exists>st. resend_second r i = r\<lparr>rl_status := st, rl_delivered := rl_delivered r @ [e],
      rl_secondBuf := (rl_secondBuf r)[i := None], rl_secondBufSize := rl_secondBufSize r - 1\<rparr>"
  using assms by (simp add: resend_second_def relay_send_def client_Send_def set_relay_status_def Let_def)
    (metis (no_types))

lemma resend_first_nones:
  "\<forall>i \<in> set is. rl_firstBuf r ! i = None \<Longrightarrow> foldl resend_first r is = r"
  by (induction "is") (auto simp: resend_first_def)

lemma resend_second_nones:
  "\<forall>i \<in> set is. rl_secondBuf r ! i = None \<Longrightarrow> foldl resend_second r is = r"
  by (induction "is") (auto simp: resend_second_def)

lemma resend_first_all:
  assumes "rl_connected r" and "rl_script r = []"
    and "rl_firstBuf r = replicate i None @ map Some xs @ replicate k None"
  shows "\<exists>st. foldl resend_first r [i..<i + length xs + k] =
    r\<lparr>rl_status := st, rl_delivered := rl_delivered r @ xs,
      rl_firstBuf := replicate (i + length xs + k) None, rl_firstBufSize := rl_firstBufSize r - length xs\<rparr>"
  using assms
proof (induction xs arbitrary: i r)
  case Nil
  then have "foldl resend_first r [i..<i + k] = r"
    by (intro resend_first_nones) (auto simp: nth_append)
  with Nil show ?case by (intro exI [of _ "rl_status r"]) (simp add: replicate_add)
next
  case (Cons x xs)
  have "rl_firstBuf r ! i = Some x" using Cons.prems(3) by (simp add: nth_append)
  from resend_first_ok [OF Cons.prems(1,2) this] obtain st where
    st: "resend_first r i = r\<lparr>rl_status := st, rl_delivered := rl_delivered r @ [x],
      rl_firstBuf := replicate (Suc i) None @ map Some xs @ replicate k None,
      rl_firstBufSize := rl_firstBufSize r - 1\<rparr>"
    using Cons.prems(3) by (auto simp: list_update_append replicate_append_same [symmetric])
  have "[i..<i + length (x # xs) + k] = i # [Suc i..<Suc i + length xs + k]"
    by (simp add: upt_rec)
  with Cons.IH [of "resend_first r i" "Suc i"] Cons.prems st show ?case by auto
qed

lemma resend_second_all:
  assumes "rl_connected r" and "rl_script r = []"
    and "rl_secondBuf r = replicate i None @ map Some xs @ replicate k None"
  shows "\<exists>st. foldl resend_second r [i..<i + length xs + k] =
    r\<lparr>rl_status := st, rl_delivered := rl_delivered r @ xs,
      rl_secondBuf := replicate (i + length xs + k) None, rl_secondBufSize := rl_secondBufSize r - length xs\<rparr>"
  using assms
proof (induction xs arbitrary: i r)
  case Nil
  then have "foldl resend_second r [i..<i + k] = r"
    by (intro resend_second_nones) (auto simp: nth_append)
  with Nil show ?case by (intro exI [of _ "rl_status r"]) (simp add: replicate_add)
next
  case (Cons x xs)
  have "rl_secondBuf r ! i = Some x" using Cons.prems(3) by (simp add: nth_append)
  from resend_second_ok [OF Cons.prems(1,2) this] obtain st where
    st: "resend_second r i = r\<lparr>rl_status := st, rl_delivered := rl_delivered r @ [x],
      rl_secondBuf := replicate (Suc i) None @ map Some xs @ replicate k None,
      rl_secondBufSize := rl_secondBufSize r - 1\<rparr>"
    using Cons.prems(3) by (auto simp: list_update_append replicate_append_same [symmetric])
  have "[i..<i + length (x # xs) + k] = i # [Suc i..<Suc i + length xs + k]"
    by (simp add: upt_rec)
  with Cons.IH [of "resend_second r i" "Suc i"] Cons.prems st show ?case by auto
qed

lemma relay_resend_all:
  assumes "rl_connected r" and "rl_script r = []" and "length xs \<le> BUFFER_SIZE" and "length ys \<le> BUFFER_SIZE"
    and "rl_firstBuf r = padded xs" and "rl_secondBuf r = padded ys"
    and "rl_firstBufSize r = length xs" and "rl_secondBufSize r = length ys"
  shows "rl_delivered (relay_resend now r) = rl_delivered r @ xs
      @ (if rl_lost r > 0 then [lost_entry now (rl_lost r)] else []) @ ys
    \<and> rl_firstBufSize (relay_resend now r) = 0 \<and> rl_secondBufSize (relay_resend now r) = 0
    \<and> rl_lost (relay_resend now r) = 0"
proof -
  let ?r0 = "set_relay_status ''log-relay'' ''Resending buf1'' r"
  obtain st where r1: "foldl resend_first ?r0 [0..<BUFFER_SIZE] =
      ?r0\<lparr>rl_status := st, rl_delivered := rl_delivered r @ xs,
        rl_firstBuf := replicate BUFFER_SIZE None, rl_firstBufSize := 0\<rparr>" (is "?r1 = ?e1")
    using resend_first_all [of ?r0 0 xs "BUFFER_SIZE - length xs"] assms by (auto simp: padded_def)
  define r2 where "r2 = (if rl_lost ?e1 > 0
    then (fst (relay_send (lost_entry now (rl_lost ?e1)) False ?e1))\<lparr>rl_lost := 0\<rparr> else ?e1)"
  have r2: "rl_connected r2" "rl_script r2 = []" "rl_secondBuf r2 = padded ys" "rl_secondBufSize r2 = length ys"
    "rl_firstBufSize r2 = 0" "rl_lost r2 = 0"
    "rl_delivered r2 = rl_delivered r @ xs @ (if rl_lost r > 0 then [lost_entry now (rl_lost r)] else [])"
    using assms by (auto simp: r2_def relay_send_def client_Send_def set_relay_status_def Let_def)
  let ?r3 = "set_relay_status ''log-relay'' ''Resending buf2'' r2"
  obtain st' where r4: "foldl resend_second ?r3 [0..<BUFFER_SIZE] =
      ?r3\<lparr>rl_status := st', rl_delivered := rl_delivered r2 @ ys,
        rl_secondBuf := replicate BUFFER_SIZE None, rl_secondBufSize := 0\<rparr>"
    using resend_second_all [of ?r3 0 ys "BUFFER_SIZE - length ys"] assms r2 by (auto simp: padded_def)
  have "relay_resend now r = relay_buf_status (?r3\<lparr>rl_status := st', rl_delivered := rl_delivered r2 @ ys,
        rl_secondBuf := replicate BUFFER_SIZE None, rl_secondBufSize := 0\<rparr>)"
    unfolding relay_resend_def Let_def r1 r2_def [symmetric] r4 ..
  with r2 show ?thesis by (simp add: relay_buf_status_def)
qed

text \<open>
  C15: an outage. When entries arrive while the relay is not connected and the connection then
  comes back for good, the API receives the first fifty of them, then, if any were dropped, one
  warning with their exact number, then the latest ones, at least one and at most fifty, all in
  their order; nothing is dropped from up to a hundred entries, and the buffers are empty again.
\<close>

theorem relay_outage_roundtrip:
  assumes "\<forall>e \<in> set es. \<not> le_Offline e \<and> le_Level e \<noteq> LOG_DEBUG" and "0 < cap"
  shows "\<exists>s lost r'.
      relay_step (ConnEvent now True) (foldl (\<lambda>r e. relay_entry e r) (NewRelay cap level False) es) = Some r'
    \<and> rl_delivered r' = take 50 es @ (if lost > 0 then [lost_entry now lost] else []) @ drop (length es - s) es
    \<and> lost + min 50 (length es) + s = length es \<and> s \<le> 50 \<and> (50 < length es \<longrightarrow> 0 < s)
    \<and> (length es \<le> 100 \<longrightarrow> lost = 0)
    \<and> rl_firstBufSize r' = 0 \<and> rl_secondBufSize r' = 0 \<and> rl_lost r' = 0"
proof -
  define r where "r = foldl (\<lambda>r e. relay_entry e r) (NewRelay cap level False) es"
  obtain s where o: "outage es s r" and cap: "rl_logCap r = cap"
    using relay_outage_run [OF assms(1), of cap level] by (auto simp: r_def)
  obtain r1 where r1: "relay_internal now ''Connected to API'' LOG_INFO
      ((set_relay_status ''log-relay'' ''Idle'' r)\<lparr>rl_connected := True\<rparr>) = Some r1"
    using o cap assms(2) by (auto simp: relay_internal_def outage_def)
  then have f1: "rl_connected r1" "rl_script r1 = []" "rl_delivered r1 = []" "rl_lost r1 = rl_lost r"
    "rl_firstBuf r1 = padded (take 50 es)" "rl_firstBufSize r1 = min 50 (length es)"
    "rl_secondBuf r1 = padded (drop (length es - s) es)" "rl_secondBufSize r1 = s"
    using o by (auto simp: relay_internal_def outage_def BUFFER_SIZE_def split: if_splits)
  have s: "s \<le> 50" "50 < length es \<longrightarrow> 0 < s" "rl_lost r + min 50 (length es) + s = length es"
    "length es \<le> 50 \<longrightarrow> s = 0" "50 dvd rl_lost r"
    using o by (auto simp: outage_def BUFFER_SIZE_def)
  have small: "length es \<le> 100 \<longrightarrow> rl_lost r = 0"
  proof
    assume "length es \<le> 100"
    with s(2,3,4) have "rl_lost r < 50" by (cases "length es \<le> 50") auto
    with s(5) show "rl_lost r = 0" by auto
  qed
  have "relay_step (ConnEvent now True) r = Some (relay_resend now r1)"
    using r1 f1(5) by (simp add: relay_step_def padded_def BUFFER_SIZE_def)
  moreover have "rl_delivered (relay_resend now r1) = take 50 es
      @ (if rl_lost r > 0 then [lost_entry now (rl_lost r)] else []) @ drop (length es - s) es
    \<and> rl_firstBufSize (relay_resend now r1) = 0 \<and> rl_secondBufSize (relay_resend now r1) = 0
    \<and> rl_lost (relay_resend now r1) = 0"
    using relay_resend_all [OF f1(1,2), of "take 50 es" "drop (length es - s) es" now] f1 s
    by (simp add: BUFFER_SIZE_def)
  ultimately show ?thesis
    unfolding r_def [symmetric] using s small by blast
qed

theorem relay_outage_roundtrip_witness:
  "\<exists>r'. relay_step (ConnEvent 7 True)
      (foldl (\<lambda>r e. relay_entry e r) (NewRelay 10 4 False) [demo_entry 4 ''a'', demo_entry 6 ''b'']) = Some r'
    \<and> rl_delivered r' = [demo_entry 4 ''a'', demo_entry 6 ''b''] \<and> rl_firstBufSize r' = 0"
  using relay_outage_roundtrip [of "[demo_entry 4 ''a'', demo_entry 6 ''b'']" 10 7 4]
  by (auto simp: demo_entry_def log_levels)

text \<open>
  A resend that fails part of the way makes the relay lose an entry it still had to send.
  Two entries are buffered, the connection comes back, the first entry is sent and the second
  fails and is kept in its slot; the size counter is now one, so that the next entry buffered is
  written over the kept one. It is then in neither buffer, was never delivered, and is not
  counted as lost.
\<close>

theorem relay_partial_resend_loses:
  fixes a b c :: log_entry and cap level :: nat and now :: int
  assumes "b \<noteq> c"
  defines "r0 \<equiv> relay_buffer b (relay_buffer a (NewRelay cap level False))"
  defines "r1 \<equiv> relay_resend now (r0\<lparr>rl_connected := True, rl_script := [True, False]\<rparr>)"
  defines "r2 \<equiv> relay_buffer c r1"
  shows "Some b \<in> set (rl_firstBuf r1) \<and> Some b \<notin> set (rl_firstBuf r2) \<union> set (rl_secondBuf r2)
    \<and> rl_delivered r2 = [a] \<and> rl_lost r2 = 0"
proof -
  have r0: "rl_firstBuf r0 = [Some a, Some b] @ replicate 48 None" "rl_firstBufSize r0 = 2"
    "rl_secondBuf r0 = replicate 50 None" "rl_secondBufSize r0 = 0" "rl_lost r0 = 0" "rl_delivered r0 = []"
    by (simp_all add: r0_def relay_buffer_def NewRelay_def relay_buf_status_def BUFFER_SIZE_def
        numeral_eq_Suc Let_def)
  let ?s = "set_relay_status ''log-relay'' ''Resending buf1'' (r0\<lparr>rl_connected := True, rl_script := [True, False]\<rparr>)"
  have upt: "[0..<BUFFER_SIZE] = 0 # 1 # [2..<50]"
    by (simp add: BUFFER_SIZE_def upt_rec)
  define r3 where "r3 = resend_first (resend_first ?s 0) 1"
  have r3: "rl_firstBuf r3 = [None, Some b] @ replicate 48 None" "rl_firstBufSize r3 = 1"
    "rl_secondBuf r3 = replicate 50 None" "rl_secondBufSize r3 = 0" "rl_lost r3 = 0" "rl_delivered r3 = [a]"
    by (simp_all add: r3_def resend_first_def relay_send_def client_Send_def r0 set_relay_status_def Let_def)
  have none: "rl_firstBuf r3 ! i = None" if "2 \<le> i" "i < 50" for i
    using that by (simp add: r3 nth_Cons' )
  have f: "foldl resend_first ?s [0..<BUFFER_SIZE] = r3"
    unfolding upt foldl_Cons r3_def [symmetric] by (rule resend_first_nones) (simp add: none)
  have g: "foldl resend_second r [0..<BUFFER_SIZE] = r" if "rl_secondBuf r = replicate 50 None" for r
    by (rule resend_second_nones) (simp add: that BUFFER_SIZE_def)
  have "r1 = relay_buf_status (set_relay_status ''log-relay'' ''Resending buf2'' r3)"
    unfolding r1_def relay_resend_def Let_def f using r3 g by simp
  with r3 assms(1) show ?thesis
    by (auto simp: r2_def relay_buffer_def relay_buf_status_def BUFFER_SIZE_def Let_def)
qed

theorem relay_partial_resend_loses_witness:
  "Some (demo_entry 4 ''b'') \<notin> set (rl_firstBuf
      (relay_buffer (demo_entry 4 ''c'') (relay_resend 0
        ((relay_buffer (demo_entry 4 ''b'') (relay_buffer (demo_entry 4 ''a'') (NewRelay 10 4 False)))
          \<lparr>rl_connected := True, rl_script := [True, False]\<rparr>))))"
  using relay_partial_resend_loses [of "demo_entry 4 ''b''" "demo_entry 4 ''c''" 0 "demo_entry 4 ''a''" 10 4]
  by (simp add: demo_entry_def)

text \<open>
  The relay logs its own connection events through the channel it alone reads. When the
  channel is full at the moment the connection state changes, the relay blocks for ever, and
  with it every component that logs; with room for one entry it never blocks there.
\<close>

theorem relay_connect_deadlock:
  "relay_step (ConnEvent now conn) r = None \<longleftrightarrow> rl_logCap r \<le> length (rl_logChan r)"
  by (auto simp: relay_step_def relay_internal_def Let_def)

section \<open>The log service\<close>

definition DEFAULT_LOG_LEVEL :: string where "DEFAULT_LOG_LEVEL = ''warning''"

text \<open>\<open>proto.LogLevelNumber\<close>: the position of the name.\<close>

definition LogLevelNumber :: "string \<Rightarrow> nat option" where
  "LogLevelNumber name = map_of (zip LogLevelName [0..<8]) name"

record log_config =
  lc_Level :: string
  lc_Offline :: string

datatype log_error =
    LogIsRunning | LogReadError | InvalidLogLevel string | LogJsonError | LevelTimeout | LogWriteError
  | LogUnknownCmd string

definition log_validateConfig :: "log_config \<Rightarrow> log_error + log_config" where
  "log_validateConfig config =
     (if lc_Level config = '''' then Inr (config\<lparr>lc_Level := DEFAULT_LOG_LEVEL\<rparr>)
      else case LogLevelNumber (lc_Level config) of
             None \<Rightarrow> Inl (InvalidLogLevel (lc_Level config))
           | Some _ \<Rightarrow> Inr config)"

record log_manager =
  lm_setConfig :: string
  lm_config :: "log_config option"
  lm_running :: bool
  lm_relay :: "relay option"
  lm_status :: status

definition NewLogManager :: log_manager where
  "NewLogManager = \<lparr>lm_setConfig = '''', lm_config = None, lm_running = False, lm_relay = None,
     lm_status = NewStatus [''log'']\<rparr>"

text \<open>\<open>readConfig\<close> is \<open>None\<close> for a failure other than a missing file; a missing file reads as the
  empty string and the zero configuration. A missing key of the level table reads as zero.\<close>

definition log_Start :: "nat \<Rightarrow> (string \<times> log_config) option \<Rightarrow> log_manager \<Rightarrow> log_manager \<times> log_error option" where
  "log_Start cap readConfig m =
     (if lm_config m \<noteq> None then (m, Some LogIsRunning)
      else case readConfig of
             None \<Rightarrow> (m, Some LogReadError)
           | Some (set', config) \<Rightarrow>
               (case log_validateConfig config of
                  Inl e \<Rightarrow> (m, Some e)
                | Inr config \<Rightarrow>
                    (let level = (case LogLevelNumber (lc_Level config) of None \<Rightarrow> 0 | Some n \<Rightarrow> n)
                     in (m\<lparr>lm_setConfig := set', lm_relay := Some (NewRelay cap level (ToBool (lc_Offline config))),
                           lm_config := Some config, lm_running := True,
                           lm_status := status_Update ''log'' ''Running'' (lm_status m)\<rparr>, None))))"

text \<open>
  The \<open>SetConfig\<close> branch of \<open>Handle\<close>. \<open>accepts\<close> says whether the relay takes the new level
  within three seconds; it then handles it as its next event, at the time \<open>now\<close>.
\<close>

definition log_SetConfig ::
  "(bytes \<Rightarrow> log_config option) \<Rightarrow> bool \<Rightarrow> int \<Rightarrow> bool \<Rightarrow> bytes \<Rightarrow> log_manager
     \<Rightarrow> (log_manager \<times> log_config option \<times> log_error list) option" where
  "log_SetConfig json accepts now writeFails data m =
     (case json data of
        None \<Rightarrow> Some (m, None, [LogJsonError])
      | Some newConfig \<Rightarrow>
          (case log_validateConfig newConfig of
             Inl e \<Rightarrow> Some (m, None, [e])
           | Inr newConfig \<Rightarrow>
               (case (lm_config m, lm_relay m) of
                  (Some config, Some relay) \<Rightarrow>
                    (let m = m\<lparr>lm_setConfig := data\<rparr>;
                         level = (case LogLevelNumber (lc_Level newConfig) of None \<Rightarrow> 0 | Some n \<Rightarrow> n);
                         (relay', config', errs) =
                           (if lc_Level config \<noteq> lc_Level newConfig then
                              (if accepts
                               then (relay_step (LevelEvent now level) relay, config\<lparr>lc_Level := lc_Level newConfig\<rparr>, [])
                               else (Some relay, config, [LevelTimeout]))
                            else (Some relay, config, []));
                         errs = errs @ (if writeFails then [LogWriteError] else [])
                     in Some (m\<lparr>lm_relay := relay', lm_config := Some config'\<rparr>, Some config', errs))
                | _ \<Rightarrow> None)))"

datatype log_reply = LogConfigReply string "log_config option" | LogSetReply "log_config option" "log_error list"
  | LogOkReply | LogErrorReply log_error

text \<open>\<open>Reconnect\<close> disconnects the client, which the relay sees later as an event.\<close>

definition log_Handle ::
  "(bytes \<Rightarrow> log_config option) \<Rightarrow> bool \<Rightarrow> int \<Rightarrow> bool \<Rightarrow> string \<Rightarrow> bytes \<Rightarrow> log_manager
     \<Rightarrow> (log_manager \<times> log_reply) option" where
  "log_Handle json accepts now writeFails cmd data m =
     (let m = m\<lparr>lm_status := status_UpdateRe ''log'' ''Handling'' cmd (lm_status m)\<rparr>;
          done = (\<lambda>m. m\<lparr>lm_status := status_Update ''log'' ''Running'' (lm_status m)\<rparr>)
      in if cmd = ''SetConfig'' then
           map_option (\<lambda>(m, c, errs). (done m, LogSetReply c errs))
             (log_SetConfig json accepts now writeFails data m)
         else if cmd = ''GetConfig'' then Some (done m, LogConfigReply (lm_setConfig m) (lm_config m))
         else if cmd = ''Reconnect'' then Some (done m, LogOkReply)
         else Some (done m, LogErrorReply (LogUnknownCmd cmd)))"

definition log_level_ok :: "log_manager \<Rightarrow> bool" where
  "log_level_ok m \<longleftrightarrow>
     (case (lm_config m, lm_relay m) of
        (Some c, Some r) \<Rightarrow> LogLevelNumber (lc_Level c) = Some (rl_logLevel r)
      | _ \<Rightarrow> lm_config m = None)"

lemma LogLevelNumber_bound: "LogLevelNumber name = Some n \<Longrightarrow> n < 8"
  unfolding LogLevelNumber_def by (drule map_of_SomeD, drule set_zip_rightD) simp

lemma LogLevelNumber_default: "LogLevelNumber DEFAULT_LOG_LEVEL = Some 4"
  by code_simp

lemma log_validate_level:
  "log_validateConfig c = Inr c' \<Longrightarrow> \<exists>n. LogLevelNumber (lc_Level c') = Some n \<and> n < 8"
  using LogLevelNumber_bound LogLevelNumber_default
  by (auto simp: log_validateConfig_def split: if_splits option.splits)

lemma relay_set_level: "n < 8 \<Longrightarrow> \<exists>r'. relay_step (LevelEvent now n) r = Some r' \<and> rl_logLevel r' = n"
  by (auto simp: relay_step_def relay_setLogLevel_def log_levels Let_def)

lemma log_SetConfig_level:
  assumes "log_level_ok m" and "log_SetConfig json accepts now wfail data m = Some (m', c, errs)"
  shows "log_level_ok m'"
proof (cases "log_validateConfig (the (json data))")
  case (Inl e)
  with assms show ?thesis by (auto simp: log_SetConfig_def split: option.splits)
next
  case (Inr new)
  from log_validate_level [OF this] obtain n where n: "LogLevelNumber (lc_Level new) = Some n" "n < 8" by auto
  show ?thesis
  proof (cases "json data = None \<or> lm_config m = None \<or> lm_relay m = None")
    case True
    with assms Inr show ?thesis by (auto simp: log_SetConfig_def split: option.splits)
  next
    case False
    then obtain cfg r j where "lm_config m = Some cfg" "lm_relay m = Some r" and j: "json data = Some j"
      by auto
    moreover from Inr j have "log_validateConfig j = Inr new" by simp
    moreover obtain r' where "relay_step (LevelEvent now n) r = Some r'" "rl_logLevel r' = n"
      using relay_set_level [OF n(2)] by blast
    ultimately show ?thesis
      using assms n by (auto simp: log_SetConfig_def log_level_ok_def Let_def split: if_splits option.splits)
  qed
qed

text \<open>
  The level the log service reports in its configuration is the level the relay filters by:
  it holds when the service has started, and every command keeps it, the failing ones included.
\<close>

theorem log_level_consistent:
  "(lm_config m = None \<longrightarrow> log_level_ok (fst (log_Start cap cfg m)))
   \<and> (log_level_ok m \<longrightarrow> log_Handle json accepts now writeFails cmd data m = Some (m', reply) \<longrightarrow> log_level_ok m')"
proof (intro conjI impI)
  assume none: "lm_config m = None"
  show "log_level_ok (fst (log_Start cap cfg m))"
    using log_validate_level none
    by (fastforce simp: log_Start_def log_level_ok_def NewRelay_def Let_def split: option.splits sum.splits)
next
  let ?m = "m\<lparr>lm_status := status_UpdateRe ''log'' ''Handling'' cmd (lm_status m)\<rparr>"
  assume ok: "log_level_ok m" and h: "log_Handle json accepts now writeFails cmd data m = Some (m', reply)"
  have fr: "log_level_ok (x\<lparr>lm_status := st\<rparr>) = log_level_ok x" for x st
    by (simp add: log_level_ok_def split: option.split)
  show "log_level_ok m'"
  proof (cases "cmd = ''SetConfig''")
    case True
    with h obtain m1 c errs where "log_SetConfig json accepts now writeFails data ?m = Some (m1, c, errs)"
      and "m' = m1\<lparr>lm_status := status_Update ''log'' ''Running'' (lm_status m1)\<rparr>"
      by (auto simp: log_Handle_def)
    with log_SetConfig_level [of ?m] ok show ?thesis by (simp add: fr)
  next
    case False
    with h ok show ?thesis by (auto simp: log_Handle_def fr Let_def split: if_splits)
  qed
qed

theorem log_level_consistent_witness:
  "\<exists>m' reply. log_Handle (\<lambda>_. Some \<lparr>lc_Level = ''debug'', lc_Offline = ''''\<rparr>) True 0 False ''SetConfig'' ''{}''
      (fst (log_Start 10 (Some ('''', \<lparr>lc_Level = '''', lc_Offline = ''''\<rparr>)) NewLogManager)) = Some (m', reply)
    \<and> log_level_ok m'"
proof -
  let ?m = "fst (log_Start 10 (Some ('''', \<lparr>lc_Level = '''', lc_Offline = ''''\<rparr>)) NewLogManager)"
  let ?h = "log_Handle (\<lambda>_. Some \<lparr>lc_Level = ''debug'', lc_Offline = ''''\<rparr>) True 0 False ''SetConfig'' ''{}'' ?m"
  have "\<not> Option.is_none ?h" by code_simp
  then obtain m' reply where "?h = Some (m', reply)" by (auto simp: Option.is_none_def)
  moreover have "log_level_ok ?m"
    using log_level_consistent [of NewLogManager 10 "Some ('''', \<lparr>lc_Level = '''', lc_Offline = ''''\<rparr>)"]
    by (auto simp: NewLogManager_def)
  ultimately show ?thesis using log_level_consistent [of ?m] by blast
qed

section \<open>The logger\<close>

text \<open>
  \<open>pct/logger.go\<close>: every component logs through a logger with its own name, which sends to the channel
  of the relay without waiting. The parts of an entry are texts.
\<close>

definition LOG_CRITICAL :: nat where "LOG_CRITICAL = 2"
definition LOG_ERROR :: nat where "LOG_ERROR = 3"

record Logger =
  lg_service :: string

definition NewLogger :: "string \<Rightarrow> Logger" where "NewLogger service = \<lparr>lg_service = service\<rparr>"

definition logger_log :: "Logger \<Rightarrow> bool \<Rightarrow> nat \<Rightarrow> int \<Rightarrow> string list \<Rightarrow> relay \<Rightarrow> relay" where
  "logger_log l offline level now entry r =
     (let logEntry = \<lparr>le_Ts = now, le_Level = level, le_Service = lg_service l, le_Msg = join_with '' '' entry, le_Offline = offline\<rparr>
      in if length (rl_logChan r) < rl_logCap r then r\<lparr>rl_logChan := rl_logChan r @ [logEntry]\<rparr> else r)"

definition logger_Debug :: "Logger \<Rightarrow> int \<Rightarrow> string list \<Rightarrow> relay \<Rightarrow> relay" where
  "logger_Debug l = logger_log l False LOG_DEBUG"

definition logger_DebugOffline :: "Logger \<Rightarrow> int \<Rightarrow> string list \<Rightarrow> relay \<Rightarrow> relay" where
  "logger_DebugOffline l = logger_log l True LOG_DEBUG"

definition logger_Info :: "Logger \<Rightarrow> int \<Rightarrow> string list \<Rightarrow> relay \<Rightarrow> relay" where
  "logger_Info l = logger_log l False LOG_INFO"

definition logger_Warn :: "Logger \<Rightarrow> int \<Rightarrow> string list \<Rightarrow> relay \<Rightarrow> relay" where
  "logger_Warn l = logger_log l False LOG_WARNING"

definition logger_Error :: "Logger \<Rightarrow> int \<Rightarrow> string list \<Rightarrow> relay \<Rightarrow> relay" where
  "logger_Error l = logger_log l False LOG_ERROR"

definition logger_Fatal :: "Logger \<Rightarrow> int \<Rightarrow> string list \<Rightarrow> relay \<Rightarrow> relay" where
  "logger_Fatal l = logger_log l False LOG_CRITICAL"

text \<open>
  A burst of entries while the relay does not read: the channel keeps the first ones that fit, in order,
  and the rest are dropped without a trace; the count of lost entries does not change.
\<close>

lemma logger_burst:
  assumes "length (rl_logChan r) \<le> rl_logCap r"
  shows "\<exists>es. length es = length msgs
    \<and> map le_Msg es = map (\<lambda>m. join_with '' '' m) msgs
    \<and> fold (logger_log l offline level now) msgs r =
        r\<lparr>rl_logChan := rl_logChan r @ take (rl_logCap r - length (rl_logChan r)) es\<rparr>"
  using assms
proof (induction msgs arbitrary: r)
  case (Cons m msgs)
  let ?e = "\<lparr>le_Ts = now, le_Level = level, le_Service = lg_service l, le_Msg = join_with '' '' m, le_Offline = offline\<rparr>"
  let ?r = "logger_log l offline level now m r"
  have "length (rl_logChan ?r) \<le> rl_logCap ?r" using Cons.prems by (auto simp: logger_log_def Let_def)
  from Cons.IH [OF this] obtain es where es: "length es = length msgs" "map le_Msg es = map (\<lambda>m. join_with '' '' m) msgs"
    "fold (logger_log l offline level now) msgs ?r = ?r\<lparr>rl_logChan := rl_logChan ?r @ take (rl_logCap ?r - length (rl_logChan ?r)) es\<rparr>"
    by blast
  have "fold (logger_log l offline level now) (m # msgs) r
      = r\<lparr>rl_logChan := rl_logChan r @ take (rl_logCap r - length (rl_logChan r)) (?e # es)\<rparr>"
    using Cons.prems es(3) by (auto simp: logger_log_def Let_def take_Cons' Suc_diff_le)
  then show ?case using es(1, 2) by (intro exI [of _ "?e # es"]) simp
qed simp

section \<open>Stopping the log service\<close>

text \<open>
  \<open>Stop\<close> closes the stop channel of the relay; the flag says whether it is closed already. A panic, of a
  manager without a relay or of closing the channel again, is \<open>None\<close>.
\<close>

definition log_Stop :: "log_manager \<Rightarrow> bool \<Rightarrow> (log_manager \<times> bool) option" where
  "log_Stop m isClosed =
     (case lm_relay m of None \<Rightarrow> None | Some r \<Rightarrow> if isClosed then None else Some (m, True))"

definition log_Status :: "status \<Rightarrow> log_manager \<Rightarrow> status option" where
  "log_Status client m = map_option (\<lambda>r. status_Merge (lm_status m) [client, rl_status r]) (lm_relay m)"

definition log_GetConfig :: "(log_config option \<Rightarrow> bytes option) \<Rightarrow> log_manager \<Rightarrow> (string \<times> string \<times> bytes) list option" where
  "log_GetConfig marshal m = map_option (\<lambda>running. [(''log'', lm_setConfig m, running)]) (marshal (lm_config m))"

definition log_GetDefaults :: "string \<Rightarrow> (string \<times> string) list" where
  "log_GetDefaults uuid = [(''LogLevel'', DEFAULT_LOG_LEVEL)]"

text \<open>
  The log service can be stopped once: it then counts as running for ever, so that it cannot be started
  again, and a second stop panics, as does a stop before the first start.
\<close>

lemma log_no_restart:
  assumes "log_Start cap readConfig m = (m', None)"
  shows "log_Stop m' False = Some (m', True) \<and> log_Stop m' True = None
    \<and> log_Start cap' readConfig' m' = (m', Some LogIsRunning) \<and> log_Stop NewLogManager b = None"
  using assms
  by (auto simp: log_Start_def log_Stop_def NewLogManager_def Let_def split: if_splits option.splits prod.splits sum.splits)

end
