(* ===== verification/InstanceRepo.thy ===== *)
theory InstanceRepo
  imports Pct "HOL-Library.List_Lexorder" "HOL-Library.Char_ord"
begin

text \<open>
  The instance repository, \<open>instance/repo.go\<close>, with the commands of \<open>instance/manager.go\<close>. The
  instance files are a map from UUIDs to their decoded content, \<open>None\<close> standing for a file that
  is not valid JSON; failing system calls are arguments.
\<close>

section \<open>The repository\<close>

record inst =
  in_UUID :: string
  in_Subsystem :: string
  in_Name :: string
  in_DSN :: string
  in_Distro :: string
  in_Version :: string

datatype repo_error =
    ErrDuplicateInstance | ErrInstanceNotFound | ReadFailed | InvalidFile | WriteFailed | RemoveFailed
  | AddFailed repo_error | ErrCmdNotSupport | ErrNoLink | InfoFailed | PutFailed | UnknownCmd string

record repo =
  rp_instances :: "(string \<times> inst) list"
  rp_files :: "string \<rightharpoonup> inst option"

definition NewRepo :: "(string \<rightharpoonup> inst option) \<Rightarrow> repo" where
  "NewRepo files = \<lparr>rp_instances = [], rp_files = files\<rparr>"

abbreviation rp_inst :: "repo \<Rightarrow> string \<rightharpoonup> inst" where
  "rp_inst r \<equiv> map_of (rp_instances r)"

definition repo_add :: "bool \<Rightarrow> inst \<Rightarrow> bool \<Rightarrow> repo \<Rightarrow> repo \<times> repo_error option" where
  "repo_add writeErr i writeToDisk r =
     (if rp_inst r (in_UUID i) \<noteq> None then (r, Some ErrDuplicateInstance)
      else if writeToDisk \<and> writeErr then (r, Some WriteFailed)
      else
        (let r = (if writeToDisk then r\<lparr>rp_files := (rp_files r)(in_UUID i \<mapsto> Some i)\<rparr> else r)
         in (r\<lparr>rp_instances := alist_put (in_UUID i) i (rp_instances r)\<rparr>, None)))"

definition repo_Add :: "bool \<Rightarrow> inst \<Rightarrow> bool \<Rightarrow> repo \<Rightarrow> repo \<times> repo_error option" where
  "repo_Add writeErr i writeToDisk r = repo_add writeErr i writeToDisk r"

text \<open>\<open>keys\<close> are the instance files in the order of \<open>filepath.Glob\<close>; \<open>readErr\<close> says which cannot
  be read.\<close>

fun repo_Init :: "(string \<Rightarrow> bool) \<Rightarrow> string list \<Rightarrow> repo \<Rightarrow> repo \<times> repo_error option" where
  "repo_Init readErr [] r = (r, None)"
| "repo_Init readErr (k # ks) r =
     (if readErr k then (r, Some ReadFailed)
      else case rp_files r k of
             None \<Rightarrow> (r, Some ReadFailed)
           | Some None \<Rightarrow> (r, Some InvalidFile)
           | Some (Some i) \<Rightarrow>
               (case repo_add False i False r of
                  (r, Some e) \<Rightarrow> (r, Some (AddFailed e))
                | (r, None) \<Rightarrow> repo_Init readErr ks r))"

definition repo_List :: "string \<Rightarrow> repo \<Rightarrow> inst list" where
  "repo_List subsystem r =
     sort_key in_UUID (filter (\<lambda>i. in_Subsystem i = subsystem) (map snd (rp_instances r)))"

definition repo_Get :: "bool \<Rightarrow> bool \<Rightarrow> string \<Rightarrow> bool \<Rightarrow> repo \<Rightarrow> repo \<times> (repo_error + inst)" where
  "repo_Get readErr writeErr uuid cache r =
     (case rp_inst r uuid of
        Some i \<Rightarrow> (r, Inr i)
      | None \<Rightarrow>
          if readErr then (r, Inl ErrInstanceNotFound)
          else case rp_files r uuid of
                 None \<Rightarrow> (r, Inl ErrInstanceNotFound)
               | Some None \<Rightarrow> (r, Inl ErrInstanceNotFound)
               | Some (Some i) \<Rightarrow>
                   (case repo_add writeErr i cache r of
                      (r, Some e) \<Rightarrow> (r, Inl (AddFailed e))
                    | (r, None) \<Rightarrow> (r, Inr i)))"

text \<open>An update of an instance that is not there reports a duplicate, as the source does.\<close>

definition repo_Update :: "bool \<Rightarrow> inst \<Rightarrow> bool \<Rightarrow> repo \<Rightarrow> repo \<times> repo_error option" where
  "repo_Update writeErr i writeToDisk r =
     (if rp_inst r (in_UUID i) = None then (r, Some ErrDuplicateInstance)
      else if writeToDisk \<and> writeErr then (r, Some WriteFailed)
      else
        (let r = (if writeToDisk then r\<lparr>rp_files := (rp_files r)(in_UUID i \<mapsto> Some i)\<rparr> else r)
         in (r\<lparr>rp_instances := alist_put (in_UUID i) i (rp_instances r)\<rparr>, None)))"

definition repo_Remove :: "bool \<Rightarrow> string \<Rightarrow> repo \<Rightarrow> repo \<times> repo_error option" where
  "repo_Remove removeErr uuid r =
     (if removeErr then (r, Some RemoveFailed)
      else (r\<lparr>rp_files := (rp_files r)(uuid := None), rp_instances := alist_del uuid (rp_instances r)\<rparr>, None))"

section \<open>The manager's commands\<close>

text \<open>\<open>info\<close> is the query of \<open>GetMySQLInfo\<close>: the distribution and the version, or a failure.\<close>

definition GetMySQLInfo :: "(string \<Rightarrow> (string \<times> string) option) \<Rightarrow> inst \<Rightarrow> repo_error + inst" where
  "GetMySQLInfo info i =
     (case info (in_DSN i) of
        None \<Rightarrow> Inl InfoFailed
      | Some (distro, version) \<Rightarrow> Inr (i\<lparr>in_Distro := distro, in_Version := version\<rparr>))"

definition instance_Handle ::
  "bool \<Rightarrow> (bytes \<Rightarrow> inst option) \<Rightarrow> (string \<Rightarrow> (string \<times> string) option) \<Rightarrow> string \<Rightarrow> bytes \<Rightarrow> repo
     \<Rightarrow> repo \<times> (repo_error option \<times> inst option)" where
  "instance_Handle removeErr json info cmd data r =
     (if cmd = ''RemoveInstance'' then
        (case repo_Remove removeErr data r of (r, e) \<Rightarrow> (r, e, None))
      else if cmd = ''GetInfo'' then
        (case json data of
           None \<Rightarrow> (r, Some InvalidFile, None)
         | Some i \<Rightarrow>
             if in_Subsystem i \<noteq> ''mysql'' then (r, Some ErrCmdNotSupport, None)
             else case GetMySQLInfo info i of
                    Inl e \<Rightarrow> (r, Some e, Some i)
                  | Inr i \<Rightarrow> (r, None, Some i))
      else (r, Some (UnknownCmd cmd), None))"

text \<open>
  What \<open>updateInstance\<close> sends: \<open>hide\<close> is \<open>dsn.HidePassword\<close>; \<open>link\<close> the API's link for
  instances; \<open>put\<close> the status code of the request, \<open>None\<close> when it fails. The result is the body
  and the URL of the request that was made.
\<close>

definition updateInstance ::
  "(string \<Rightarrow> string) \<Rightarrow> string \<Rightarrow> int option \<Rightarrow> inst \<Rightarrow> (string \<times> inst) option \<times> repo_error option" where
  "updateInstance hide link put i =
     (let i = i\<lparr>in_DSN := hide (in_DSN i)\<rparr>
      in if link = '''' then (None, Some ErrNoLink)
         else (Some (link @ ''/'' @ in_UUID i, i),
               case put of
                 None \<Rightarrow> Some PutFailed
               | Some code \<Rightarrow> if code \<ge> 400 then Some PutFailed else None))"

section \<open>Properties\<close>

definition repo_inv :: "repo \<Rightarrow> bool" where
  "repo_inv r \<longleftrightarrow>
     wf_alist (rp_instances r) \<and> (\<forall>k i. (k, i) \<in> set (rp_instances r) \<longrightarrow> in_UUID i = k)"

lemma set_alist_put:
  "wf_alist xs \<Longrightarrow> set (alist_put k v xs) = insert (k, v) {p \<in> set xs. fst p \<noteq> k}"
  by (induction xs) (force simp: wf_alist_def)+

lemma repo_inv_put: "repo_inv r \<Longrightarrow> repo_inv (r\<lparr>rp_instances := alist_put (in_UUID i) i (rp_instances r)\<rparr>)"
  by (auto simp: repo_inv_def set_alist_put)

lemma repo_inv_files [simp]: "repo_inv (r\<lparr>rp_files := f\<rparr>) = repo_inv r"
  by (simp add: repo_inv_def)

lemma repo_add_inv: "repo_inv r \<Longrightarrow> repo_inv (fst (repo_add w i d r))"
  using repo_inv_put [of r i] repo_inv_put [of "r\<lparr>rp_files := (rp_files r)(in_UUID i \<mapsto> Some i)\<rparr>" i]
  by (simp add: repo_add_def Let_def)

lemma repo_ops_inv:
  assumes "repo_inv r"
  shows "repo_inv (fst (repo_Get e w u c r))" "repo_inv (fst (repo_Update w i d r))"
    "repo_inv (fst (repo_Remove e u r))"
proof -
  show "repo_inv (fst (repo_Get e w u c r))"
    using assms repo_add_inv [OF assms] by (auto simp: repo_Get_def split: option.splits prod.splits)
      (metis fst_conv)+
  show "repo_inv (fst (repo_Update w i d r))"
    using assms repo_inv_put [of r i] repo_inv_put [of "r\<lparr>rp_files := (rp_files r)(in_UUID i \<mapsto> Some i)\<rparr>" i]
    by (simp add: repo_Update_def Let_def)
  show "repo_inv (fst (repo_Remove e u r))"
    using assms by (auto simp: repo_Remove_def repo_inv_def alist_del_def wf_alist_del [unfolded alist_del_def])
qed

text \<open>
  The contract the services rely on: what a lookup finds after each operation. A failed operation
  changes nothing a lookup sees.
\<close>

locale uuid_store =
  fixes lookup :: "'r \<Rightarrow> 'k \<rightharpoonup> 'v" and key :: "'v \<Rightarrow> 'k"
    and add update :: "'v \<Rightarrow> 'r \<Rightarrow> 'r \<times> 'e option" and remove :: "'k \<Rightarrow> 'r \<Rightarrow> 'r \<times> 'e option"
  assumes add_ok: "add v r = (r', None) \<Longrightarrow> lookup r (key v) = None \<and> lookup r' = (lookup r)(key v \<mapsto> v)"
    and add_err: "add v r = (r', Some e) \<Longrightarrow> r' = r"
    and add_dup: "lookup r (key v) \<noteq> None \<Longrightarrow> snd (add v r) \<noteq> None"
    and update_ok: "update v r = (r', None) \<Longrightarrow> lookup r (key v) \<noteq> None \<and> lookup r' = (lookup r)(key v \<mapsto> v)"
    and update_err: "update v r = (r', Some e) \<Longrightarrow> r' = r"
    and remove_ok: "remove k r = (r', None) \<Longrightarrow> lookup r' = (lookup r)(k := None)"
    and remove_err: "remove k r = (r', Some e) \<Longrightarrow> r' = r"
begin

lemma add_remove:
  assumes "add v r = (r1, None)" and "remove (key v) r1 = (r2, None)"
  shows "lookup r2 = lookup r"
  using add_ok [OF assms(1)] remove_ok [OF assms(2)] by (simp add: fun_upd_idem)

lemma add_twice:
  assumes "add v r = (r1, None)" and "key w = key v"
  shows "\<exists>e. add w r1 = (r1, Some e)"
proof -
  have "snd (add w r1) \<noteq> None" using add_ok [OF assms(1)] assms(2) by (intro add_dup) simp
  then obtain e where "snd (add w r1) = Some e" by auto
  with add_err [of w r1 "fst (add w r1)" e] show ?thesis by (metis prod.collapse)
qed

lemma frame: "k \<noteq> key v \<Longrightarrow> lookup (fst (add v r)) k = lookup r k"
    "k \<noteq> key v \<Longrightarrow> lookup (fst (update v r)) k = lookup r k"
    "k \<noteq> k' \<Longrightarrow> lookup (fst (remove k' r)) k = lookup r k"
proof -
  show "k \<noteq> key v \<Longrightarrow> lookup (fst (add v r)) k = lookup r k"
    using add_ok [of v r] add_err [of v r] by (cases "add v r"; cases "snd (add v r)") auto
  show "k \<noteq> key v \<Longrightarrow> lookup (fst (update v r)) k = lookup r k"
    using update_ok [of v r] update_err [of v r] by (cases "update v r"; cases "snd (update v r)") auto
  show "k \<noteq> k' \<Longrightarrow> lookup (fst (remove k' r)) k = lookup r k"
    using remove_ok [of k' r] remove_err [of k' r] by (cases "remove k' r"; cases "snd (remove k' r)") auto
qed

end

interpretation rs: uuid_store rp_inst in_UUID "\<lambda>i. repo_Add w i d" "\<lambda>i. repo_Update w' i d'" "repo_Remove e"
  by unfold_locales
    (auto simp: repo_Add_def repo_add_def repo_Update_def repo_Remove_def Let_def split: if_splits)

text \<open>
  The repository is a map from UUIDs to instances. A successful \<open>Add\<close> is of a new UUID and
  makes exactly that instance available, also to a \<open>Get\<close>; adding the same UUID again fails and
  changes nothing; a \<open>Remove\<close> undoes it and a following \<open>Get\<close> does not find it, because the file is
  gone too; no operation changes what is known of another UUID.
\<close>

theorem repo_map_laws:
  assumes "repo_Add w i d r = (r1, None)"
  shows "rp_inst r1 = (rp_inst r)(in_UUID i \<mapsto> i)
    \<and> repo_Get re we (in_UUID i) c r1 = (r1, Inr i)
    \<and> (\<exists>e. repo_Add w (i\<lparr>in_Name := n\<rparr>) d r1 = (r1, Some e))
    \<and> (\<exists>r2. repo_Remove False (in_UUID i) r1 = (r2, None) \<and> rp_inst r2 = rp_inst r
         \<and> repo_Get re we (in_UUID i) c r2 = (r2, Inl ErrInstanceNotFound))
    \<and> (k \<noteq> in_UUID i \<longrightarrow> rp_inst (fst (repo_Update w' i d' r1)) k = rp_inst r1 k)"
proof -
  have lk: "rp_inst r (in_UUID i) = None" "rp_inst r1 = (rp_inst r)(in_UUID i \<mapsto> i)"
    using rs.add_ok [OF assms] by auto
  obtain r2 where r2: "repo_Remove False (in_UUID i) r1 = (r2, None)"
    by (simp add: repo_Remove_def)
  have "repo_Get re we (in_UUID i) c r2 = (r2, Inl ErrInstanceNotFound)"
    using r2 by (auto simp: repo_Remove_def repo_Get_def)
  moreover have "rp_inst r2 = rp_inst r" by (rule rs.add_remove [OF assms r2])
  moreover have "\<exists>e. repo_Add w (i\<lparr>in_Name := n\<rparr>) d r1 = (r1, Some e)"
    by (rule rs.add_twice [OF assms]) simp
  moreover have "repo_Get re we (in_UUID i) c r1 = (r1, Inr i)" by (simp add: repo_Get_def lk)
  ultimately show ?thesis using lk(2) r2 rs.frame(2) [of k i w' d' r1] by simp
qed

definition demo_inst :: "string \<Rightarrow> inst" where
  "demo_inst u = \<lparr>in_UUID = u, in_Subsystem = ''mysql'', in_Name = '''', in_DSN = '''',
     in_Distro = '''', in_Version = ''''\<rparr>"

theorem repo_map_laws_witness:
  "rp_inst (fst (repo_Add False (demo_inst ''u1'') True (NewRepo Map.empty))) = [''u1'' \<mapsto> demo_inst ''u1'']"
  using repo_map_laws [of False "demo_inst ''u1''" True "NewRepo Map.empty"]
  by (auto simp: repo_Add_def repo_add_def NewRepo_def demo_inst_def)

text \<open>
  \<open>List\<close> returns exactly the instances of the subsystem, ordered by UUID, each once, and its
  result does not depend on the order in which the map of instances is traversed.
\<close>

theorem repo_List_exact:
  assumes inv: "repo_inv r" and perm: "mset (rp_instances r') = mset (rp_instances r)"
  shows "repo_List s r' = repo_List s r
    \<and> sorted (map in_UUID (repo_List s r)) \<and> distinct (map in_UUID (repo_List s r))
    \<and> set (repo_List s r) = {i. rp_inst r (in_UUID i) = Some i \<and> in_Subsystem i = s}"
proof -
  have wf: "wf_alist x" if "mset x = mset (rp_instances r)" for x
  proof -
    have "mset (map fst x) = mset (map fst (rp_instances r))" using that by simp
    with inv show ?thesis
      by (simp add: repo_inv_def wf_alist_def mset_eq_imp_distinct_iff [of "map fst x" "map fst (rp_instances r)"])
  qed
  have key: "in_UUID i = k" if "mset x = mset (rp_instances r)" "(k, i) \<in> set x" for x k i
    using inv that(2) unfolding mset_eq_setD [OF that(1)] repo_inv_def by blast
  have uuid: "map in_UUID (map snd x) = map fst x" if "mset x = mset (rp_instances r)" for x
    using key [OF that] by (auto simp: map_eq_conv)
  have dist: "distinct (map in_UUID (filter P (map snd x)))" if "mset x = mset (rp_instances r)" for x P
    by (rule distinct_map_filter) (simp only: uuid [OF that] wf [OF that, unfolded wf_alist_def])
  have props: "sorted (map in_UUID (repo_List s q))" "distinct (map in_UUID (repo_List s q))"
    "set (repo_List s q) = {i. \<exists>k. (k, i) \<in> set (rp_instances q) \<and> in_Subsystem i = s}"
    if "mset (rp_instances q) = mset (rp_instances r)" for q
  proof -
    show "sorted (map in_UUID (repo_List s q))" by (simp add: repo_List_def)
    show "distinct (map in_UUID (repo_List s q))"
      using dist [OF that, of "\<lambda>i. in_Subsystem i = s"] by (simp add: repo_List_def distinct_map)
    show "set (repo_List s q) = {i. \<exists>k. (k, i) \<in> set (rp_instances q) \<and> in_Subsystem i = s}"
      by (force simp: repo_List_def)
  qed
  have "set (rp_instances r') = set (rp_instances r)" using perm by (rule mset_eq_setD)
  then have sets: "set (repo_List s r') = set (repo_List s r)" using props(3) [OF perm] props(3) [of r] by simp
  have "repo_List s r' = repo_List s r"
  proof (rule map_sorted_distinct_set_unique [of in_UUID])
    show "inj_on in_UUID (set (repo_List s r') \<union> set (repo_List s r))"
      using props(2) [of r] sets by (simp add: distinct_map)
  qed (use props [OF perm] props [of r] sets in simp_all)
  moreover have "(\<exists>k. (k, i) \<in> set (rp_instances r)) \<longleftrightarrow> rp_inst r (in_UUID i) = Some i" for i
    using wf [of "rp_instances r"] key [of "rp_instances r"] by (force simp: wf_alist_def map_of_eq_Some_iff)
  ultimately show ?thesis using props [of r] by auto
qed

theorem repo_List_exact_witness:
  "repo_List ''mysql'' \<lparr>rp_instances = [(''b'', demo_inst ''b''), (''a'', demo_inst ''a'')], rp_files = Map.empty\<rparr>
     = [demo_inst ''a'', demo_inst ''b'']
   \<and> repo_List ''mysql'' \<lparr>rp_instances = [(''a'', demo_inst ''a''), (''b'', demo_inst ''b'')], rp_files = Map.empty\<rparr>
     = repo_List ''mysql'' \<lparr>rp_instances = [(''b'', demo_inst ''b''), (''a'', demo_inst ''a'')], rp_files = Map.empty\<rparr>"
proof -
  let ?r = "\<lparr>rp_instances = [(''b'', demo_inst ''b''), (''a'', demo_inst ''a'')], rp_files = Map.empty\<rparr>"
  let ?r' = "\<lparr>rp_instances = [(''a'', demo_inst ''a''), (''b'', demo_inst ''b'')], rp_files = Map.empty\<rparr>"
  have "repo_inv ?r" by (auto simp: repo_inv_def wf_alist_def demo_inst_def)
  moreover have "repo_List ''mysql'' ?r = [demo_inst ''a'', demo_inst ''b'']" by code_simp
  ultimately show ?thesis using repo_List_exact [of ?r ?r' "''mysql''"] by simp
qed

end
