(* ===== verification/Report.thy ===== *)
theory Report
  imports Qan_Prelude
begin

text \<open>
  Query classes and reports: the part of the vendored package \<open>go-mysql/event\<close> that merges
  pre-aggregated classes (\<open>Class.AddClass\<close>), and \<open>qan/analyzer/report/report.go\<close>, which turns
  the result of one interval into a report of the top classes and one class of low-ranking
  queries. Times are rationals: floating-point rounding is not modelled.
\<close>

section \<open>Query classes\<close>

record TimeStats =
  ts_Sum :: float64
  ts_Min :: "float64 option"
  ts_Avg :: "float64 option"
  ts_Max :: "float64 option"

record NumberStats =
  ns_Sum :: u64
  ns_Min :: "u64 option"
  ns_Avg :: "u64 option"
  ns_Max :: "u64 option"

record example =
  ex_QueryTime :: float64
  ex_Db :: string
  ex_Query :: string

text \<open>The statistics of a boolean metric are its sum.\<close>

record qclass =
  qc_Id :: string
  qc_Fingerprint :: string
  qc_Time :: "string \<rightharpoonup> TimeStats"
  qc_Number :: "string \<rightharpoonup> NumberStats"
  qc_Bool :: "string \<rightharpoonup> u64"
  qc_TotalQueries :: u64
  qc_UniqueQueries :: u64
  qc_Example :: "example option"

definition NewClass :: "string \<Rightarrow> string \<Rightarrow> qclass" where
  "NewClass ident fingerprint =
     \<lparr>qc_Id = ident, qc_Fingerprint = fingerprint, qc_Time = Map.empty, qc_Number = Map.empty,
      qc_Bool = Map.empty, qc_TotalQueries = 0, qc_UniqueQueries = 0,
      qc_Example = Some \<lparr>ex_QueryTime = 0, ex_Db = '''', ex_Query = ''''\<rparr>\<rparr>"

text \<open>\<open>Float64Value\<close> and \<open>Uint64Value\<close>: a nil pointer counts as zero.\<close>

definition Value :: "'a option \<Rightarrow> 'a :: zero" where
  "Value v = (case v of None \<Rightarrow> 0 | Some x \<Rightarrow> x)"

definition add_time :: "u64 \<Rightarrow> TimeStats option \<Rightarrow> TimeStats \<Rightarrow> TimeStats" where
  "add_time tot old new =
     (case old of
        None \<Rightarrow> new
      | Some stats \<Rightarrow>
          (let sum = ts_Sum stats + ts_Sum new
           in \<lparr>ts_Sum = sum,
               ts_Min = (if Value (ts_Min new) < Value (ts_Min stats) \<or> ts_Min stats = None
                         then ts_Min new else ts_Min stats),
               ts_Avg = Some (sum / of_nat (unat tot)),
               ts_Max = (if Value (ts_Max new) > Value (ts_Max stats) \<or> ts_Max stats = None
                         then ts_Max new else ts_Max stats)\<rparr>))"

definition add_number :: "u64 \<Rightarrow> NumberStats option \<Rightarrow> NumberStats \<Rightarrow> NumberStats" where
  "add_number tot old new =
     (case old of
        None \<Rightarrow> new
      | Some stats \<Rightarrow>
          (let sum = ns_Sum stats + ns_Sum new
           in \<lparr>ns_Sum = sum,
               ns_Min = (if Value (ns_Min new) < Value (ns_Min stats) \<or> ns_Min stats = None
                         then ns_Min new else ns_Min stats),
               ns_Avg = Some (sum div tot),
               ns_Max = (if Value (ns_Max new) > Value (ns_Max stats) \<or> ns_Max stats = None
                         then ns_Max new else ns_Max stats)\<rparr>))"

definition merge_metrics :: "('v option \<Rightarrow> 'v \<Rightarrow> 'v) \<Rightarrow> (string \<rightharpoonup> 'v) \<Rightarrow> (string \<rightharpoonup> 'v) \<Rightarrow> (string \<rightharpoonup> 'v)" where
  "merge_metrics f old new = (\<lambda>k. case new k of None \<Rightarrow> old k | Some v \<Rightarrow> Some (f (old k) v))"

text \<open>
  \<open>AddClass\<close>. Each loop writes only the entry of the metric it looks at, so that the order of
  the traversal does not matter. The averages divide by the number of queries, which is positive
  for the classes the agent adds.
\<close>

definition AddClass :: "qclass \<Rightarrow> qclass \<Rightarrow> qclass" where
  "AddClass c new =
     (let tot = qc_TotalQueries c + qc_TotalQueries new
      in c\<lparr>qc_UniqueQueries := qc_UniqueQueries c + 1,
           qc_TotalQueries := tot,
           qc_Example := None,
           qc_Time := merge_metrics (add_time tot) (qc_Time c) (qc_Time new),
           qc_Number := merge_metrics (add_number tot) (qc_Number c) (qc_Number new),
           qc_Bool := merge_metrics (\<lambda>old s. case old of None \<Rightarrow> s | Some x \<Rightarrow> x + s) (qc_Bool c) (qc_Bool new)\<rparr>)"

definition Query_time :: "qclass \<Rightarrow> float64" where
  "Query_time c = (case qc_Time c ''Query_time'' of None \<Rightarrow> 0 | Some s \<Rightarrow> ts_Sum s)"

lemma AddClass_counts [simp]:
  "qc_TotalQueries (AddClass c d) = qc_TotalQueries c + qc_TotalQueries d"
  "qc_UniqueQueries (AddClass c d) = qc_UniqueQueries c + 1"
  "qc_Id (AddClass c d) = qc_Id c"
  by (simp_all add: AddClass_def Let_def)

lemma Query_time_AddClass [simp]: "Query_time (AddClass c d) = Query_time c + Query_time d"
  by (simp add: Query_time_def AddClass_def merge_metrics_def add_time_def Let_def split: option.split)

lemma foldl_AddClass:
  "qc_TotalQueries (foldl AddClass c ds) = qc_TotalQueries c + sum_list (map qc_TotalQueries ds)"
  "qc_UniqueQueries (foldl AddClass c ds) = qc_UniqueQueries c + of_nat (length ds)"
  "Query_time (foldl AddClass c ds) = Query_time c + sum_list (map Query_time ds)"
  "qc_Id (foldl AddClass c ds) = qc_Id c"
  by (induction ds arbitrary: c) (simp_all add: ac_simps)

section \<open>Reports\<close>

record result =
  rs_Global :: qclass
  rs_Class :: "qclass list"
  rs_RateLimit :: u64
  rs_RunTime :: float64
  rs_StopOffset :: int
  rs_Error :: string

record interval =
  iv_Number :: int
  iv_StartTime :: int
  iv_StopTime :: int
  iv_Filename :: string
  iv_StartOffset :: int
  iv_EndOffset :: int

record report =
  rt_UUID :: string
  rt_StartTs :: int
  rt_EndTs :: int
  rt_RunTime :: float64
  rt_Global :: qclass
  rt_Class :: "qclass list"
  rt_SlowLogFile :: string
  rt_SlowLogFileSize :: int
  rt_StartOffset :: int
  rt_EndOffset :: int
  rt_StopOffset :: int
  rt_RateLimit :: u64

text \<open>
  \<open>srt\<close> is the call of \<open>sort.Sort\<close> with the order \<open>ByQueryTime\<close>, which is not stable: any
  permutation in that order may come out. \<open>fileSize\<close> is \<open>pct.FileSize\<close>. The limit is the \<open>uint\<close>
  \<open>ReportLimit\<close> and is compared as an \<open>int\<close>.
\<close>

definition MakeReport ::
  "(qclass list \<Rightarrow> qclass list) \<Rightarrow> (string \<Rightarrow> int option) \<Rightarrow> string \<Rightarrow> u64 \<Rightarrow> int \<Rightarrow> int
     \<Rightarrow> interval option \<Rightarrow> result \<Rightarrow> report" where
  "MakeReport srt fileSize uuid reportLimit startTime endTime interval result =
     (let classes = srt (rs_Class result);
          r = \<lparr>rt_UUID = uuid, rt_StartTs = startTime, rt_EndTs = endTime, rt_RunTime = rs_RunTime result,
               rt_Global = rs_Global result, rt_Class = classes, rt_SlowLogFile = '''', rt_SlowLogFileSize = 0,
               rt_StartOffset = 0, rt_EndOffset = 0, rt_StopOffset = 0, rt_RateLimit = 0\<rparr>;
          r = (case interval of
                 None \<Rightarrow> r
               | Some i \<Rightarrow>
                   r\<lparr>rt_SlowLogFile := iv_Filename i,
                     rt_SlowLogFileSize := (case fileSize (iv_Filename i) of None \<Rightarrow> 0 | Some n \<Rightarrow> n),
                     rt_StartOffset := iv_StartOffset i, rt_EndOffset := iv_EndOffset i,
                     rt_StopOffset := rs_StopOffset result, rt_RateLimit := rs_RateLimit result\<rparr>)
      in if reportLimit = 0 \<or> int (length classes) \<le> sint reportLimit then r
         else
           (let top = take (unat reportLimit) classes;
                lrq = foldl AddClass (NewClass ''lrq'' ''/* low-ranking queries */'')
                        (drop (unat reportLimit) classes)
            in r\<lparr>rt_Class := top @ [lrq]\<rparr>))"

text \<open>The contract of the sort: it rearranges the classes and puts the slowest first.\<close>

locale by_query_time =
  fixes srt :: "qclass list \<Rightarrow> qclass list"
  assumes perm: "mset (srt cs) = mset cs"
    and descending: "sorted_wrt (\<lambda>c d. Query_time c \<ge> Query_time d) (srt cs)"
begin

lemma srt_sums:
  "length (srt cs) = length cs"
  "sum_list (map f (srt cs)) = sum_list (map (f :: qclass \<Rightarrow> 'a :: comm_monoid_add) cs)"
  "set (srt cs) = set cs"
proof -
  show "length (srt cs) = length cs" using perm [of cs] by (metis size_mset)
  show "set (srt cs) = set cs" using perm [of cs] by (rule mset_eq_setD)
  show "sum_list (map f (srt cs)) = sum_list (map f cs)"
    by (rule sum_list_mset_cong [OF perm])
qed

lemma top_is_top:
  assumes "c \<in> set (take n (srt cs))" and "d \<in> set (drop n (srt cs))"
  shows "Query_time d \<le> Query_time c"
proof -
  have "sorted_wrt (\<lambda>c d. Query_time c \<ge> Query_time d) (take n (srt cs) @ drop n (srt cs))"
    using descending [of cs] by simp
  with assms show ?thesis unfolding sorted_wrt_append by blast
qed

lemma top_sorted: "sorted_wrt (\<lambda>c d. Query_time c \<ge> Query_time d) (take n (srt cs))"
  using descending [of cs] by (rule sorted_wrt_take)

end

definition query_time_sort :: "qclass list \<Rightarrow> qclass list" where
  "query_time_sort cs = sort_key (\<lambda>c. - Query_time c) cs"

interpretation qs: by_query_time query_time_sort
proof
  show "mset (query_time_sort cs) = mset cs" for cs by (simp add: query_time_sort_def)
  have "sorted_wrt (\<lambda>c d. - Query_time c \<le> - Query_time d) (query_time_sort cs)" for cs
    using sorted_sort_key [of "\<lambda>c. - Query_time c" cs] by (simp add: query_time_sort_def sorted_map)
  then show "sorted_wrt (\<lambda>c d. Query_time c \<ge> Query_time d) (query_time_sort cs)" for cs by simp
qed

text \<open>
  C14: a report loses nothing. Whatever order the sort gives equal classes, the report has at
  most the limit's number of classes and one more; without a limit, or with few classes, they are
  all the classes of the interval; otherwise the classes shown are the slowest ones, in descending
  order, and one class of low-ranking queries stands for the rest: the number of queries and the
  query time, summed over the report, are those of the interval, and the low-ranking class counts
  the classes it replaces.
\<close>

theorem MakeReport_conserves:
  fixes lm :: u64 and res :: result and iv :: "interval option" and t0 t1 :: int and uuid :: string
    and fileSize :: "string \<Rightarrow> int option"
  assumes sort: "\<And>cs. mset (srt cs) = mset cs"
      "\<And>cs. sorted_wrt (\<lambda>c d. Query_time c \<ge> Query_time d) (srt cs)"
    and "sint lm \<ge> 0"
  defines "r \<equiv> MakeReport srt fileSize uuid lm t0 t1 iv res"
  shows "sum_list (map qc_TotalQueries (rt_Class r)) = sum_list (map qc_TotalQueries (rs_Class res))
    \<and> sum_list (map Query_time (rt_Class r)) = sum_list (map Query_time (rs_Class res))
    \<and> (lm = 0 \<or> length (rs_Class res) \<le> unat lm \<longrightarrow> mset (rt_Class r) = mset (rs_Class res))
    \<and> (lm \<noteq> 0 \<and> unat lm < length (rs_Class res) \<longrightarrow>
         (\<exists>top lrq. rt_Class r = top @ [lrq] \<and> length top = unat lm \<and> set top \<subseteq> set (rs_Class res)
            \<and> sorted_wrt (\<lambda>c d. Query_time c \<ge> Query_time d) top
            \<and> (\<forall>c \<in> set top. \<forall>d \<in># mset (rs_Class res) - mset top. Query_time d \<le> Query_time c)
            \<and> qc_Id lrq = ''lrq''
            \<and> qc_UniqueQueries lrq = of_nat (length (rs_Class res) - unat lm)))"
proof -
  have q: "by_query_time srt" by (rule by_query_time.intro) (fact sort)+
  note sums = by_query_time.srt_sums [OF q]
  let ?cs = "srt (rs_Class res)"
  let ?lrq = "foldl AddClass (NewClass ''lrq'' ''/* low-ranking queries */'') (drop (unat lm) ?cs)"
  have s: "sint lm = int (unat lm)"
    using assms(3) by (simp add: sint_nonneg_uint)
  have cmp: "int n \<le> sint lm \<longleftrightarrow> n \<le> unat lm" for n
    unfolding s by (rule of_nat_le_iff)
  have few: "rt_Class r = ?cs" if "lm = 0 \<or> length (rs_Class res) \<le> unat lm"
    using that by (auto simp: r_def MakeReport_def cmp sums(1) Let_def split: option.split)
  have many: "rt_Class r = take (unat lm) ?cs @ [?lrq]" if "\<not> (lm = 0 \<or> length (rs_Class res) \<le> unat lm)"
    using that by (auto simp: r_def MakeReport_def cmp sums(1) Let_def)
  have new: "qc_TotalQueries (NewClass a b) = 0" "Query_time (NewClass a b) = 0"
    "qc_UniqueQueries (NewClass a b) = 0" "qc_Id (NewClass a b) = a" for a b
    by (simp_all add: NewClass_def Query_time_def)
  have split: "sum_list (map f (take n ?cs)) + sum_list (map f (drop n ?cs)) = sum_list (map f (rs_Class res))"
    for f :: "qclass \<Rightarrow> 'a :: comm_monoid_add" and n
    using sums(2) [of f "rs_Class res"] by (metis append_take_drop_id map_append sum_list_append)
  have rest: "mset (rs_Class res) - mset (take n ?cs) = mset (drop n ?cs)" for n
    unfolding sort(1) [of "rs_Class res", symmetric]
    by (metis add_diff_cancel_left' append_take_drop_id mset_append)
  show ?thesis
  proof (cases "lm = 0 \<or> length (rs_Class res) \<le> unat lm")
    case True
    with few sort(1) sums(2) [of Query_time "rs_Class res"] sums(2) [of qc_TotalQueries "rs_Class res"]
    show ?thesis by auto
  next
    case False
    have "set (take (unat lm) ?cs) \<subseteq> set (rs_Class res)" using sums(3) by (metis set_take_subset)
    with False show ?thesis
      unfolding many [OF False]
      by (simp add: foldl_AddClass new split sums(1) by_query_time.top_sorted [OF q] rest)
        (metis by_query_time.top_is_top [OF q])
  qed
qed

definition demo_class :: "string \<Rightarrow> u64 \<Rightarrow> float64 \<Rightarrow> qclass" where
  "demo_class ident n t = (NewClass ident '''')\<lparr>qc_TotalQueries := n,
     qc_Time := [''Query_time'' \<mapsto> \<lparr>ts_Sum = t, ts_Min = None, ts_Avg = None, ts_Max = None\<rparr>]\<rparr>"

theorem MakeReport_conserves_witness:
  "let res = \<lparr>rs_Global = NewClass '''' '''', rs_Class = [demo_class ''a'' 1 2, demo_class ''b'' 2 5, demo_class ''c'' 4 3],
             rs_RateLimit = 0, rs_RunTime = 0, rs_StopOffset = 0, rs_Error = ''''\<rparr>;
       r = MakeReport query_time_sort (\<lambda>_. None) ''u'' 1 0 0 None res
   in map qc_Id (rt_Class r) = [''b'', ''lrq''] \<and> map qc_TotalQueries (rt_Class r) = [2, 5]
      \<and> sum_list (map Query_time (rt_Class r)) = 10"
proof -
  let ?res = "\<lparr>rs_Global = NewClass '''' '''', rs_Class = [demo_class ''a'' 1 2, demo_class ''b'' 2 5, demo_class ''c'' 4 3],
             rs_RateLimit = 0, rs_RunTime = 0, rs_StopOffset = 0, rs_Error = ''''\<rparr>"
  let ?r = "MakeReport query_time_sort (\<lambda>_. None) ''u'' 1 0 0 None ?res"
  have qt: "Query_time (demo_class i n t) = t" for i n t by (simp add: demo_class_def Query_time_def)
  have "sum_list (map Query_time (rt_Class ?r)) = sum_list (map Query_time (rs_Class ?res))"
    using MakeReport_conserves [of query_time_sort 1 "\<lambda>_. None" "''u''" 0 0 None ?res] qs.perm qs.descending by simp
  moreover have "map qc_Id (rt_Class ?r) = [''b'', ''lrq'']" "map qc_TotalQueries (rt_Class ?r) = [2, 5]"
    by (simp_all add: MakeReport_def query_time_sort_def qt foldl_AddClass Let_def numeral_eq_Suc)
      (simp_all add: demo_class_def NewClass_def)
  ultimately show ?thesis by (simp add: qt Let_def)
qed

end
