(* ===== verification/PerfSchema.thy ===== *)
theory PerfSchema
  imports Report Pct
begin

text \<open>
  The performance schema worker, \<open>qan/analyzer/mysql/worker/perfschema\<close>: snapshots of the table
  \<open>events_statements_summary_by_digest\<close>, the digests kept between them (\<open>digests.go\<close>), and the
  result of an interval as the difference of two snapshots (\<open>worker.go\<close>). The Go maps are
  association lists, in the order in which this execution ranges over them. The SQL query itself
  and the collection of query examples are arguments.
\<close>

section \<open>Rows and snapshots\<close>

text \<open>The columns that only grow while the server runs: the fields of \<open>DigestRow\<close> named \<open>Sum...\<close>.\<close>

datatype sum_col =
    SumTimerWait | SumLockTime | SumErrors | SumWarnings | SumRowsAffected | SumRowsSent
  | SumRowsExamined | SumCreatedTmpDiskTables | SumCreatedTmpTables | SumSelectFullJoin
  | SumSelectFullRangeJoin | SumSelectRange | SumSelectRangeCheck | SumSelectScan
  | SumSortMergePasses | SumSortRange | SumSortRows | SumSortScan | SumNoIndexUsed | SumNoGoodIndexUsed

record DigestRow =
  dr_Schema :: string
  dr_Digest :: string
  dr_DigestText :: string
  dr_CountStar :: u64
  dr_Sum :: "sum_col \<Rightarrow> u64"
  dr_MinTimerWait :: u64
  dr_AvgTimerWait :: u64
  dr_MaxTimerWait :: u64

definition zero_row :: DigestRow where
  "zero_row = \<lparr>dr_Schema = '''', dr_Digest = '''', dr_DigestText = '''', dr_CountStar = 0, dr_Sum = (\<lambda>_. 0),
     dr_MinTimerWait = 0, dr_AvgTimerWait = 0, dr_MaxTimerWait = 0\<rparr>"

record pclass =
  pc_DigestText :: string
  pc_Rows :: "(string \<times> DigestRow) list"

type_synonym snapshot = "(string \<times> pclass) list"

text \<open>\<open>classId\<close>: the last sixteen digits of the digest, or "2" for the summary row of a full table.\<close>

definition class_id :: "DigestRow \<Rightarrow> string" where
  "class_id row =
     (if length (dr_Digest row) \<ge> 32 then ToUpper (take 16 (drop 16 (dr_Digest row))) else ''2'')"

definition full_text :: string where
  "full_text = ''-- performance_schema.events_statements_summary_by_digest is full''"

text \<open>One row received by \<open>getSnapshot\<close>; a second row of the same class and schema is dropped.\<close>

definition snapshot_row :: "snapshot \<Rightarrow> DigestRow \<Rightarrow> snapshot" where
  "snapshot_row cur row =
     (let classId = class_id row
      in case map_of cur classId of
           Some class \<Rightarrow>
             (case map_of (pc_Rows class) (dr_Schema row) of
                Some _ \<Rightarrow> cur
              | None \<Rightarrow>
                  alist_put classId (class\<lparr>pc_Rows := alist_put (dr_Schema row) row (pc_Rows class)\<rparr>) cur)
         | None \<Rightarrow>
             (let digestText = (if classId = ''2'' \<and> dr_DigestText row = '''' then full_text else dr_DigestText row)
              in alist_put classId \<lparr>pc_DigestText = digestText, pc_Rows = [(dr_Schema row, row)]\<rparr> cur))"

definition snapshot_of :: "DigestRow list \<Rightarrow> snapshot" where
  "snapshot_of rows = foldl snapshot_row [] rows"

section \<open>Digests\<close>

record Digests =
  dg_All :: snapshot
  dg_Curr :: snapshot

text \<open>\<open>Reset\<close> assigns \<open>All\<close> twice and leaves \<open>Curr\<close> as it is.\<close>

definition digests_Reset :: "Digests \<Rightarrow> Digests" where
  "digests_Reset d = d\<lparr>dg_All := []\<rparr>"

definition NewDigests :: Digests where
  "NewDigests = digests_Reset \<lparr>dg_All = [], dg_Curr = []\<rparr>"

definition merge_class :: "snapshot \<Rightarrow> string \<times> pclass \<Rightarrow> snapshot" where
  "merge_class all ic =
     (case ic of (i, c) \<Rightarrow>
        (case map_of all i of
           None \<Rightarrow> alist_put i c all
         | Some a \<Rightarrow>
             alist_put i (a\<lparr>pc_Rows := foldl (\<lambda>rows (j, r). alist_put j r rows) (pc_Rows a) (pc_Rows c)\<rparr>) all))"

definition digests_MergeCurr :: "Digests \<Rightarrow> Digests" where
  "digests_MergeCurr d = d\<lparr>dg_All := foldl merge_class (dg_All d) (dg_Curr d)\<rparr>"

section \<open>The difference of two snapshots\<close>

definition start_row :: DigestRow where
  "start_row = zero_row\<lparr>dr_MinTimerWait := 0xFFFFFFFF\<rparr>"

text \<open>
  The body of \<open>RowLoop\<close> for a row that executed. The test whether this is the first row comes
  after the counter has been raised, as in the source.
\<close>

definition add_row :: "DigestRow \<Rightarrow> DigestRow \<Rightarrow> DigestRow \<Rightarrow> DigestRow" where
  "add_row d row prevRow =
     (let d = d\<lparr>dr_CountStar := dr_CountStar d + (dr_CountStar row - dr_CountStar prevRow),
                dr_Sum := (\<lambda>c. dr_Sum d c + (dr_Sum row c - dr_Sum prevRow c))\<rparr>;
          d = (if dr_CountStar d = 0 then d\<lparr>dr_MinTimerWait := dr_MinTimerWait row\<rparr> else d);
          d = (if dr_MinTimerWait row < dr_MinTimerWait d then d\<lparr>dr_MinTimerWait := dr_MinTimerWait row\<rparr> else d);
          d = (if dr_MaxTimerWait row > dr_MaxTimerWait d then d\<lparr>dr_MaxTimerWait := dr_MaxTimerWait row\<rparr> else d)
      in d\<lparr>dr_AvgTimerWait := dr_AvgTimerWait d + dr_AvgTimerWait row\<rparr>)"

definition prev_row :: "snapshot \<Rightarrow> string \<Rightarrow> string \<Rightarrow> DigestRow" where
  "prev_row prev classId schema =
     (case map_of prev classId of
        None \<Rightarrow> zero_row
      | Some c \<Rightarrow> (case map_of (pc_Rows c) schema of None \<Rightarrow> zero_row | Some r \<Rightarrow> r))"

text \<open>\<open>RowLoop\<close>; the value \<open>None\<close> is the return after a counter went down.\<close>

fun row_loop :: "(string \<Rightarrow> DigestRow) \<Rightarrow> (string \<times> DigestRow) list \<Rightarrow> DigestRow \<times> u64 \<Rightarrow> (DigestRow \<times> u64) option" where
  "row_loop prevRows [] dn = Some dn"
| "row_loop prevRows ((schema, row) # rows) (d, n) =
     (let prevRow = prevRows schema
      in if dr_CountStar row = dr_CountStar prevRow then row_loop prevRows rows (d, n)
         else if dr_CountStar row < dr_CountStar prevRow then None
         else row_loop prevRows rows (add_row d row prevRow, n + 1))"

definition seconds :: "u64 \<Rightarrow> float64" where
  "seconds ps = of_nat (unat ps) / 1000000000000"

definition num :: "u64 \<Rightarrow> NumberStats" where
  "num s = \<lparr>ns_Sum = s, ns_Min = None, ns_Avg = None, ns_Max = None\<rparr>"

text \<open>The class metrics made from a class aggregate.\<close>

definition row_class :: "(string \<rightharpoonup> example) \<Rightarrow> string \<Rightarrow> string \<Rightarrow> DigestRow \<Rightarrow> qclass" where
  "row_class examples classId digestText d =
     (NewClass classId digestText)
       \<lparr>qc_Example := (case examples classId of Some e \<Rightarrow> Some e | None \<Rightarrow> qc_Example (NewClass classId digestText)),
        qc_TotalQueries := dr_CountStar d,
        qc_Time :=
          [''Query_time'' \<mapsto> \<lparr>ts_Sum = seconds (dr_Sum d SumTimerWait), ts_Min = Some (seconds (dr_MinTimerWait d)),
              ts_Avg = Some (seconds (dr_AvgTimerWait d)), ts_Max = Some (seconds (dr_MaxTimerWait d))\<rparr>,
           ''Lock_time'' \<mapsto> \<lparr>ts_Sum = seconds (dr_Sum d SumLockTime), ts_Min = None, ts_Avg = None, ts_Max = None\<rparr>],
        qc_Number :=
          [''Errors'' \<mapsto> num (dr_Sum d SumErrors), ''Warnings'' \<mapsto> num (dr_Sum d SumWarnings),
           ''Rows_affected'' \<mapsto> num (dr_Sum d SumRowsAffected), ''Rows_sent'' \<mapsto> num (dr_Sum d SumRowsSent),
           ''Rows_examined'' \<mapsto> num (dr_Sum d SumRowsExamined),
           ''Select_full_range_join'' \<mapsto> num (dr_Sum d SumSelectFullRangeJoin),
           ''Select_range'' \<mapsto> num (dr_Sum d SumSelectRange),
           ''Select_range_check'' \<mapsto> num (dr_Sum d SumSelectRangeCheck),
           ''Merge_passes'' \<mapsto> num (dr_Sum d SumSortMergePasses), ''Sort_range'' \<mapsto> num (dr_Sum d SumSortRange),
           ''Sort_rows'' \<mapsto> num (dr_Sum d SumSortRows), ''Sort_scan'' \<mapsto> num (dr_Sum d SumSortScan),
           ''No_index_used'' \<mapsto> num (dr_Sum d SumNoIndexUsed),
           ''No_good_index_used'' \<mapsto> num (dr_Sum d SumNoGoodIndexUsed)],
        qc_Bool :=
          [''Tmp_table_on_disk'' \<mapsto> dr_Sum d SumCreatedTmpDiskTables, ''Tmp_table'' \<mapsto> dr_Sum d SumCreatedTmpTables,
           ''Full_join'' \<mapsto> dr_Sum d SumSelectFullJoin, ''Full_scan'' \<mapsto> dr_Sum d SumSelectScan]\<rparr>"

text \<open>\<open>ClassLoop\<close>: the classes in the order of the snapshot, and the global class.\<close>

fun class_loop ::
  "(string \<rightharpoonup> example) \<Rightarrow> snapshot \<Rightarrow> snapshot \<Rightarrow> qclass list \<times> qclass \<Rightarrow> (qclass list \<times> qclass) option" where
  "class_loop examples prev [] acc = Some acc"
| "class_loop examples prev ((classId, class) # rest) (classes, global) =
     (case row_loop (prev_row prev classId) (pc_Rows class) (start_row, 0) of
        None \<Rightarrow> None
      | Some (d, n) \<Rightarrow>
          if n = 0 then class_loop examples prev rest (classes, global)
          else
            (let d = d\<lparr>dr_AvgTimerWait := dr_AvgTimerWait d div n\<rparr>;
                 c = row_class examples classId (pc_DigestText class) d
             in class_loop examples prev rest (classes @ [c], AddClass global c)))"

section \<open>The worker\<close>

record pworker =
  pw_digests :: Digests
  pw_iter :: "interval option"
  pw_lastErr :: bool
  pw_lastRowCnt :: u64
  pw_lastFetchTime :: "int option"
  pw_lastPrepTime :: float64
  pw_examples :: "string \<rightharpoonup> example"
  pw_status :: status
  pw_name :: string

definition NewPWorker :: "string \<Rightarrow> pworker" where
  "NewPWorker name =
     \<lparr>pw_digests = NewDigests, pw_iter = None, pw_lastErr = False, pw_lastRowCnt = 0, pw_lastFetchTime = None,
      pw_lastPrepTime = 0, pw_examples = Map.empty,
      pw_status = NewStatus [name, name @ ''-last'', name @ ''-digests''], pw_name = name\<rparr>"

abbreviation set_pw_status :: "string \<Rightarrow> pworker \<Rightarrow> pworker" where
  "set_pw_status st w \<equiv> w\<lparr>pw_status := status_Update (pw_name w) st (pw_status w)\<rparr>"

definition pworker_reset :: "pworker \<Rightarrow> pworker" where
  "pworker_reset w =
     w\<lparr>pw_iter := None, pw_digests := digests_Reset (pw_digests w), pw_lastErr := False,
       pw_lastRowCnt := 0, pw_lastFetchTime := None, pw_lastPrepTime := 0\<rparr>"

definition pworker_Setup :: "interval \<Rightarrow> pworker \<Rightarrow> pworker" where
  "pworker_Setup interval w =
     (let w = (case pw_iter w of
                 None \<Rightarrow> w
               | Some prv \<Rightarrow>
                   if iv_Number interval \<noteq> iv_Number prv + 1 then pworker_reset w
                   else if iv_StartTime interval < iv_StartTime prv then pworker_reset w
                   else w)
      in w\<lparr>pw_iter := Some interval, pw_lastRowCnt := 0, pw_lastPrepTime := 0\<rparr>)"

text \<open>
  \<open>getRows\<close> gives, for the argument \<open>lastFetchSeconds\<close>, the rows received before the query
  ended and whether it ended with an error; \<open>NoRows\<close> is \<open>sql.ErrNoRows\<close> and \<open>QueryError\<close> another
  error of the query itself. The readings of the clock, in nanoseconds since Go's zero time, are
  \<open>now\<close> (before) and \<open>done\<close>; the saturation of \<open>Sub\<close> after 292 years is left out.
\<close>

datatype rows_result = NoRows | QueryError | Rows "DigestRow list" bool

definition fetch_seconds :: "int \<Rightarrow> pworker \<Rightarrow> float64" where
  "fetch_seconds now w =
     (if dg_All (pw_digests w) = [] then - 1
      else of_int (now - (case pw_lastFetchTime w of None \<Rightarrow> 0 | Some t \<Rightarrow> t)) / 1000000000)"

definition getSnapshot ::
  "(float64 \<Rightarrow> rows_result) \<Rightarrow> int \<Rightarrow> int \<Rightarrow> pworker \<Rightarrow> pworker \<times> snapshot \<times> bool" where
  "getSnapshot getRows now done w =
     (let w = set_pw_status ''Processing rows'' w;
          (w, cur, err) =
            (case getRows (fetch_seconds now w) of
               NoRows \<Rightarrow> (w, [], False)
             | QueryError \<Rightarrow> (w, [], True)
             | Rows rows err \<Rightarrow>
                 (w\<lparr>pw_lastRowCnt := pw_lastRowCnt w + of_nat (length rows)\<rparr>, snapshot_of rows, err));
          w = w\<lparr>pw_lastFetchTime := Some done\<rparr>
      in (set_pw_status ''Idle'' w, cur, err))"

definition prepareResult :: "float64 \<Rightarrow> snapshot \<Rightarrow> snapshot \<Rightarrow> pworker \<Rightarrow> pworker \<times> result option" where
  "prepareResult prepTime prev cur w =
     (let w = set_pw_status ''Preparing result'' w;
          finish = (\<lambda>w. (set_pw_status ''Idle'' w)\<lparr>pw_lastPrepTime := prepTime\<rparr>)
      in case class_loop (pw_examples w) prev cur ([], NewClass '''' '''') of
           None \<Rightarrow> (finish (pworker_reset w), None)
         | Some (classes, global) \<Rightarrow>
             if classes = [] then (finish w, None)
             else (finish w,
               Some \<lparr>rs_Global = global, rs_Class = classes, rs_RateLimit = 0, rs_RunTime = 0,
                     rs_StopOffset = 0, rs_Error = ''''\<rparr>))"

record pworker_env =
  pe_connectErr :: bool
  pe_getRows :: "float64 \<Rightarrow> rows_result"
  pe_now :: int
  pe_done :: int
  pe_prepTime :: float64

text \<open>\<open>Run\<close>: the new worker, the result, and whether an error is returned.\<close>

definition pworker_Run :: "pworker_env \<Rightarrow> pworker \<Rightarrow> pworker \<times> result option \<times> bool" where
  "pworker_Run env w =
     (let w = set_pw_status ''Connecting to MySQL'' w
      in if pe_connectErr env then (set_pw_status ''Idle'' (w\<lparr>pw_lastErr := True\<rparr>), None, False)
         else
           (let (w, cur, err) = getSnapshot (pe_getRows env) (pe_now env) (pe_done env) w;
                w = w\<lparr>pw_digests := (pw_digests w)\<lparr>dg_Curr := cur\<rparr>\<rparr>
            in if err then (set_pw_status ''Idle'' (w\<lparr>pw_lastErr := True\<rparr>), None, True)
               else if dg_All (pw_digests w) = [] then (set_pw_status ''Idle'' w, None, False)
               else
                 (let (w, res) = prepareResult (pe_prepTime env) (dg_All (pw_digests w)) cur w
                  in (set_pw_status ''Idle'' w, res, False))))"

text \<open>
  \<open>Cleanup\<close> reads the interval's number first: after a reset the interval is nil, and the value
  \<open>None\<close> is the panic. \<open>last\<close> and \<open>digests\<close> are the two status texts.
\<close>

definition pworker_Cleanup :: "string \<Rightarrow> string \<Rightarrow> pworker \<Rightarrow> pworker option" where
  "pworker_Cleanup lastText digestsText w =
     (case pw_iter w of
        None \<Rightarrow> None
      | Some _ \<Rightarrow>
          (let w = w\<lparr>pw_digests := digests_MergeCurr (pw_digests w)\<rparr>;
               st = status_Update (pw_name w @ ''-last'') lastText (pw_status w);
               st = status_Update (pw_name w @ ''-digest'') digestsText st
           in Some (w\<lparr>pw_status := st\<rparr>)))"

section \<open>Counting\<close>

definition rows_count :: "(string \<times> DigestRow) list \<Rightarrow> u64" where
  "rows_count rows = sum_list (map (\<lambda>(s, r). dr_CountStar r) rows)"

definition class_count :: "snapshot \<Rightarrow> string \<Rightarrow> u64" where
  "class_count s i = (case map_of s i of None \<Rightarrow> 0 | Some c \<Rightarrow> rows_count (pc_Rows c))"

definition snapshot_inv :: "snapshot \<Rightarrow> bool" where
  "snapshot_inv s \<longleftrightarrow> wf_alist s \<and> (\<forall>(i, c) \<in> set s. wf_alist (pc_Rows c))"

definition prev_rows :: "snapshot \<Rightarrow> string \<Rightarrow> (string \<times> DigestRow) list" where
  "prev_rows prev i = (case map_of prev i of None \<Rightarrow> [] | Some c \<Rightarrow> pc_Rows c)"

definition truncated :: "snapshot \<Rightarrow> snapshot \<Rightarrow> bool" where
  "truncated prev cur \<longleftrightarrow>
     (\<exists>(i, c) \<in> set cur. \<exists>(s, r) \<in> set (pc_Rows c). dr_CountStar r < dr_CountStar (prev_row prev i s))"

text \<open>The executions of a list of rows since the previous ones, and whether there were any.\<close>

definition rows_delta :: "(string \<Rightarrow> DigestRow) \<Rightarrow> (string \<times> DigestRow) list \<Rightarrow> u64" where
  "rows_delta prev rows = sum_list (map (\<lambda>(s, r). dr_CountStar r - dr_CountStar (prev s)) rows)"

definition row_executed :: "(string \<Rightarrow> DigestRow) \<Rightarrow> string \<times> DigestRow \<Rightarrow> bool" where
  "row_executed prev = (\<lambda>(s, r). dr_CountStar r \<noteq> dr_CountStar (prev s))"

definition class_executed :: "snapshot \<Rightarrow> string \<times> pclass \<Rightarrow> bool" where
  "class_executed prev = (\<lambda>(i, c). list_ex (row_executed (prev_row prev i)) (pc_Rows c))"

lemma rows_delta_Cons [simp]:
  "rows_delta prev ((s, r) # rows) = dr_CountStar r - dr_CountStar (prev s) + rows_delta prev rows"
  by (simp add: rows_delta_def)

lemma rows_delta_Nil [simp]: "rows_delta prev [] = 0"
  by (simp add: rows_delta_def)

lemma rows_delta_quiet: "\<not> list_ex (row_executed prev) rows \<Longrightarrow> rows_delta prev rows = 0"
  by (induction rows) (auto simp: row_executed_def)

lemma add_row_count [simp]:
  "dr_CountStar (add_row d r p) = dr_CountStar d + (dr_CountStar r - dr_CountStar p)"
  "dr_Sum (add_row d r p) c = dr_Sum d c + (dr_Sum r c - dr_Sum p c)"
  by (simp_all add: add_row_def Let_def)

lemma row_loop_None_iff:
  "row_loop prev rows dn = None \<longleftrightarrow> (\<exists>(s, r) \<in> set rows. dr_CountStar r < dr_CountStar (prev s))"
proof (induction rows arbitrary: dn)
  case Nil
  then show ?case by simp
next
  case (Cons sr rows)
  then show ?case by (cases sr; cases dn) (auto simp: Let_def)
qed

lemma row_loop_Some:
  assumes "row_loop prev rows (d, n) = Some (d', n')"
  shows "dr_CountStar d' = dr_CountStar d + rows_delta prev rows"
    and "n' = n + of_nat (length (filter (row_executed prev) rows))"
    and "dr_Sum d' c = dr_Sum d c
      + sum_list (map (\<lambda>(s, r). dr_Sum r c - dr_Sum (prev s) c) (filter (row_executed prev) rows))"
proof -
  have "dr_CountStar d' = dr_CountStar d + rows_delta prev rows
    \<and> n' = n + of_nat (length (filter (row_executed prev) rows))
    \<and> dr_Sum d' c = dr_Sum d c
      + sum_list (map (\<lambda>(s, r). dr_Sum r c - dr_Sum (prev s) c) (filter (row_executed prev) rows))"
    using assms
  proof (induction rows arbitrary: d n)
    case Nil
    then show ?case by simp
  next
    case (Cons sr rows)
    obtain s r where sr: "sr = (s, r)" by fastforce
    show ?case
    proof (cases "dr_CountStar r = dr_CountStar (prev s)")
      case True
      with Cons.IH [of d n] Cons.prems sr show ?thesis by (simp add: row_executed_def)
    next
      case False
      with Cons.prems sr have "row_loop prev rows (add_row d r (prev s), n + 1) = Some (d', n')"
        by (simp add: Let_def split: if_splits)
      from Cons.IH [OF this] False sr show ?thesis by (simp add: row_executed_def ac_simps)
    qed
  qed
  then show "dr_CountStar d' = dr_CountStar d + rows_delta prev rows"
    and "n' = n + of_nat (length (filter (row_executed prev) rows))"
    and "dr_Sum d' c = dr_Sum d c
      + sum_list (map (\<lambda>(s, r). dr_Sum r c - dr_Sum (prev s) c) (filter (row_executed prev) rows))"
    by auto
qed

lemma class_loop_None_iff: "class_loop ex prev cur acc = None \<longleftrightarrow> truncated prev cur"
proof (induction cur arbitrary: acc)
  case Nil
  then show ?case by (simp add: truncated_def)
next
  case (Cons ic cur)
  obtain i c where ic: "ic = (i, c)" by fastforce
  have split: "truncated prev (ic # cur) \<longleftrightarrow>
      row_loop (prev_row prev i) (pc_Rows c) (start_row, 0) = None \<or> truncated prev cur"
    by (simp add: truncated_def ic row_loop_None_iff)
  show ?case
    unfolding split using Cons.IH by (cases acc) (auto simp: ic Let_def split: option.splits if_splits)
qed

definition rows_fit :: "snapshot \<Rightarrow> bool" where
  "rows_fit s \<longleftrightarrow> (\<forall>(i, c) \<in> set s. length (pc_Rows c) < 2 ^ 64)"

lemma executed_n:
  assumes "length rows < 2 ^ 64"
  shows "(of_nat (length (filter P rows)) :: u64) = 0 \<longleftrightarrow> \<not> list_ex P rows"
proof -
  have "length (filter P rows) \<le> length rows" by simp
  with assms have "unat (of_nat (length (filter P rows)) :: u64) = length (filter P rows)"
    by (intro unat_of_nat_small) linarith
  then show ?thesis by (auto simp: list_ex_iff filter_empty_conv unat_eq_0 [symmetric])
qed

text \<open>What the loop makes of each class that executed.\<close>

lemma class_loop_Some:
  assumes "class_loop ex prev cur (cs, g) = Some (cs', g')" and "rows_fit cur"
  shows "\<exists>ks. cs' = cs @ ks
    \<and> map (\<lambda>k. (qc_Id k, qc_TotalQueries k)) ks
        = map (\<lambda>(i, c). (i, rows_delta (prev_row prev i) (pc_Rows c))) (filter (class_executed prev) cur)
    \<and> qc_TotalQueries g' = qc_TotalQueries g + sum_list (map qc_TotalQueries ks)
    \<and> Query_time g' = Query_time g + sum_list (map Query_time ks)"
  using assms
proof (induction cur arbitrary: cs g)
  case Nil
  then show ?case by simp
next
  case (Cons ic cur)
  obtain i c where ic: "ic = (i, c)" by fastforce
  obtain d n where rl: "row_loop (prev_row prev i) (pc_Rows c) (start_row, 0) = Some (d, n)"
    using Cons.prems(1) by (cases "row_loop (prev_row prev i) (pc_Rows c) (start_row, 0)") (auto simp: ic)
  note d = row_loop_Some [OF rl]
  have fit: "rows_fit cur" "length (pc_Rows c) < 2 ^ 64" using Cons.prems(2) by (auto simp: rows_fit_def ic)
  have n0: "n = 0 \<longleftrightarrow> \<not> class_executed prev ic"
    using d(2) executed_n [OF fit(2), of "row_executed (prev_row prev i)"] by (simp add: class_executed_def ic)
  show ?case
  proof (cases "n = 0")
    case True
    with Cons.IH [of cs g] Cons.prems rl fit(1) n0 show ?thesis by (simp add: ic)
  next
    case False
    let ?k = "row_class ex i (pc_DigestText c) (d\<lparr>dr_AvgTimerWait := dr_AvgTimerWait d div n\<rparr>)"
    have "class_loop ex prev cur (cs @ [?k], AddClass g ?k) = Some (cs', g')"
      using Cons.prems(1) rl False by (simp add: ic Let_def)
    from Cons.IH [OF this fit(1)] obtain ks where ks: "cs' = (cs @ [?k]) @ ks"
      "map (\<lambda>k. (qc_Id k, qc_TotalQueries k)) ks
        = map (\<lambda>(i, c). (i, rows_delta (prev_row prev i) (pc_Rows c))) (filter (class_executed prev) cur)"
      "qc_TotalQueries g' = qc_TotalQueries (AddClass g ?k) + sum_list (map qc_TotalQueries ks)"
      "Query_time g' = Query_time (AddClass g ?k) + sum_list (map Query_time ks)" by blast
    have "(qc_Id ?k, qc_TotalQueries ?k) = (i, rows_delta (prev_row prev i) (pc_Rows c))"
      using d(1) by (simp add: row_class_def NewClass_def start_row_def zero_row_def)
    with ks False n0 show ?thesis by (intro exI [of _ "?k # ks"]) (simp add: ic ac_simps)
  qed
qed

text \<open>
  The result of an interval is the difference of the snapshots: exactly one class for every class
  of the current snapshot that executed, in order, whose number of queries is the sum over its
  schemas of the growth of the counters.
\<close>

lemma prepareResult_delta:
  assumes "\<not> truncated prev cur" and "rows_fit cur"
    and "prepareResult t prev cur w = (w', res)"
  shows "pw_digests w' = pw_digests w
    \<and> (case res of
        None \<Rightarrow> filter (class_executed prev) cur = []
      | Some r \<Rightarrow>
          map (\<lambda>k. (qc_Id k, qc_TotalQueries k)) (rs_Class r)
            = map (\<lambda>(i, c). (i, rows_delta (prev_row prev i) (pc_Rows c))) (filter (class_executed prev) cur)
          \<and> qc_TotalQueries (rs_Global r) = sum_list (map qc_TotalQueries (rs_Class r))
          \<and> Query_time (rs_Global r) = sum_list (map Query_time (rs_Class r)))"
proof -
  obtain cs g where cl: "class_loop (pw_examples w) prev cur ([], NewClass '''' '''') = Some (cs, g)"
    using assms(1) class_loop_None_iff [of "pw_examples w" prev cur "([], NewClass '''' '''')"] by auto
  note c = class_loop_Some [OF cl assms(2)]
  have "cs = [] \<longleftrightarrow> filter (class_executed prev) cur = []" using c by auto
  then show ?thesis
    using assms(3) cl c by (auto simp: prepareResult_def Query_time_def NewClass_def Let_def)
qed

text \<open>
  A truncated table is noticed. The worker is reset, with no result and with an empty history,
  exactly when some row of the current snapshot counts fewer executions than before; the reset
  clears the interval, so that the \<open>Cleanup\<close> that follows every run panics.
\<close>

theorem prepareResult_truncated:
  assumes "dg_All (pw_digests w) \<noteq> []" and "pw_iter w = Some iv"
  shows "(truncated prev cur \<longleftrightarrow> dg_All (pw_digests (fst (prepareResult t prev cur w))) = [])
    \<and> (truncated prev cur \<longrightarrow> snd (prepareResult t prev cur w) = None
         \<and> pworker_Cleanup a b (fst (prepareResult t prev cur w)) = None)"
proof (cases "truncated prev cur")
  case True
  then have "class_loop (pw_examples w) prev cur ([], NewClass '''' '''') = None"
    by (simp add: class_loop_None_iff)
  with True show ?thesis
    by (simp add: prepareResult_def pworker_reset_def digests_Reset_def pworker_Cleanup_def Let_def)
next
  case False
  then obtain acc where "class_loop (pw_examples w) prev cur ([], NewClass '''' '''') = Some acc"
    using class_loop_None_iff [of "pw_examples w" prev cur "([], NewClass '''' '''')"] by auto
  with False assms show ?thesis
    by (cases acc) (simp add: prepareResult_def Let_def)
qed

section \<open>No execution is lost or counted twice\<close>

definition lookup_row :: "(string \<times> DigestRow) list \<Rightarrow> string \<Rightarrow> DigestRow" where
  "lookup_row rows s = (case map_of rows s of None \<Rightarrow> zero_row | Some r \<Rightarrow> r)"

lemma rows_count_put:
  "wf_alist rows \<Longrightarrow>
   rows_count (alist_put s r rows) = rows_count rows + (dr_CountStar r - dr_CountStar (lookup_row rows s))"
proof (induction rows)
  case Nil
  then show ?case by (simp add: rows_count_def lookup_row_def zero_row_def)
next
  case (Cons x rows)
  then show ?case
    by (cases x) (auto simp: rows_count_def lookup_row_def wf_alist_def zero_row_def algebra_simps)
qed

lemma foldl_put:
  assumes "wf_alist rows" and "wf_alist new"
  defines "put \<equiv> (\<lambda>rows (j, r). alist_put j r rows)"
  shows "wf_alist (foldl put rows new)
    \<and> rows_count (foldl put rows new) = rows_count rows + rows_delta (lookup_row rows) new"
  using assms(1,2)
proof (induction new arbitrary: rows)
  case Nil
  then show ?case by simp
next
  case (Cons x new)
  obtain s r where x: "x = (s, r)" by fastforce
  have "s \<notin> fst ` set new" "wf_alist new" using Cons.prems(2) by (auto simp: x wf_alist_def)
  then have "rows_delta (lookup_row (alist_put s r rows)) new = rows_delta (lookup_row rows) new"
    unfolding rows_delta_def
    by (intro arg_cong [where f = sum_list] map_cong refl) (force simp: lookup_row_def)
  with Cons.IH [of "alist_put s r rows"] Cons.prems(1) \<open>wf_alist new\<close> show ?case
    by (simp add: x put_def rows_count_put algebra_simps)
qed

lemma prev_row_lookup: "prev_row prev i = lookup_row (prev_rows prev i)"
  by (auto simp: prev_row_def lookup_row_def prev_rows_def fun_eq_iff split: option.split)

lemma snapshot_inv_rows: "snapshot_inv s \<Longrightarrow> map_of s i = Some c \<Longrightarrow> wf_alist (pc_Rows c)"
  unfolding snapshot_inv_def by (auto dest: map_of_SomeD)

lemma snapshot_inv_put:
  "snapshot_inv s \<Longrightarrow> wf_alist (pc_Rows c) \<Longrightarrow> snapshot_inv (alist_put i c s)"
  unfolding snapshot_inv_def using set_alist_put_subset [of i c s] by auto

lemma merge_class_spec:
  assumes "snapshot_inv all" and "wf_alist (pc_Rows c)"
  shows "snapshot_inv (merge_class all (i, c))"
    and "class_count (merge_class all (i, c)) i = class_count all i + rows_delta (prev_row all i) (pc_Rows c)"
    and "j \<noteq> i \<Longrightarrow> map_of (merge_class all (i, c)) j = map_of all j"
    and "all \<noteq> [] \<Longrightarrow> merge_class all (i, c) \<noteq> []"
proof -
  have delta0: "rows_delta (lookup_row []) rows = rows_count rows" for rows
    by (simp add: rows_delta_def rows_count_def lookup_row_def zero_row_def)
  show "snapshot_inv (merge_class all (i, c))"
    and "class_count (merge_class all (i, c)) i = class_count all i + rows_delta (prev_row all i) (pc_Rows c)"
    using assms foldl_put [OF snapshot_inv_rows [OF assms(1)] assms(2), of i]
    by (auto simp: merge_class_def class_count_def prev_row_lookup prev_rows_def delta0
        intro!: snapshot_inv_put split: option.split)
  show "j \<noteq> i \<Longrightarrow> map_of (merge_class all (i, c)) j = map_of all j"
    by (simp add: merge_class_def split: option.split)
  show "all \<noteq> [] \<Longrightarrow> merge_class all (i, c) \<noteq> []"
    by (simp add: merge_class_def split: option.split)
qed

lemma foldl_merge:
  assumes "snapshot_inv all" and "snapshot_inv cur"
  shows "snapshot_inv (foldl merge_class all cur) \<and>
    class_count (foldl merge_class all cur) i = class_count all i
      + (case map_of cur i of None \<Rightarrow> 0 | Some c \<Rightarrow> rows_delta (prev_row all i) (pc_Rows c))
    \<and> (all \<noteq> [] \<longrightarrow> foldl merge_class all cur \<noteq> [])"
  using assms
proof (induction cur arbitrary: all)
  case Nil
  then show ?case by simp
next
  case (Cons jc cur)
  obtain j c where jc: "jc = (j, c)" by fastforce
  have c: "wf_alist (pc_Rows c)" and inv: "snapshot_inv cur" and j: "map_of cur j = None"
    using Cons.prems(2) by (auto simp: jc snapshot_inv_def wf_alist_def map_of_eq_None_iff)
  note m = merge_class_spec [OF Cons.prems(1) c, where i = j]
  have "class_count (merge_class all jc) i = class_count all i" "prev_row (merge_class all jc) i = prev_row all i"
    if "i \<noteq> j"
    using m(3) [where j = i] that by (simp_all add: jc class_count_def prev_row_def fun_eq_iff)
  with Cons.IH [OF m(1) inv] m j show ?case
    by (cases "i = j"; cases "map_of cur i") (simp_all add: jc)
qed

text \<open>The executions a result reports for a class.\<close>

definition reported :: "string \<Rightarrow> result option \<Rightarrow> u64" where
  "reported i res =
     (case res of None \<Rightarrow> 0 | Some r \<Rightarrow> sum_list (map qc_TotalQueries (filter (\<lambda>k. qc_Id k = i) (rs_Class r))))"

lemma reported_delta:
  assumes "\<not> truncated prev cur" and "rows_fit cur" and "snapshot_inv cur"
    and "prepareResult t prev cur w = (w', res)"
  shows "reported i res = (case map_of cur i of None \<Rightarrow> 0 | Some c \<Rightarrow> rows_delta (prev_row prev i) (pc_Rows c))"
proof -
  let ?ex = "filter (class_executed prev) cur"
  let ?pairs = "map (\<lambda>(i, c). (i, rows_delta (prev_row prev i) (pc_Rows c)))"
  have sum: "sum_list (map snd (filter (\<lambda>p. fst p = i) (?pairs (filter (class_executed prev) xs))))
      = (case map_of xs i of None \<Rightarrow> 0 | Some c \<Rightarrow> rows_delta (prev_row prev i) (pc_Rows c))"
    if "wf_alist xs" for xs
    using that
  proof (induction xs)
    case Nil
    then show ?case by simp
  next
    case (Cons x xs)
    obtain j c where x: "x = (j, c)" by fastforce
    have "rows_delta (prev_row prev j) (pc_Rows c) = 0" if "\<not> class_executed prev x"
      using that by (intro rows_delta_quiet) (simp add: class_executed_def x)
    moreover have "map_of xs j = None" using Cons.prems by (simp add: x wf_alist_def map_of_eq_None_iff)
    ultimately show ?case using Cons by (auto simp: x wf_alist_def)
  qed
  have "reported i res = sum_list (map snd (filter (\<lambda>p. fst p = i) (?pairs ?ex)))"
  proof (cases res)
    case None
    with prepareResult_delta [OF assms(1,2,4)] show ?thesis by (simp add: reported_def)
  next
    case (Some r)
    with prepareResult_delta [OF assms(1,2,4)]
    have "?pairs ?ex = map (\<lambda>k. (qc_Id k, qc_TotalQueries k)) (rs_Class r)" by simp
    then show ?thesis by (simp add: reported_def Some filter_map o_def)
  qed
  with sum [of cur] assms(3) show ?thesis by (simp add: snapshot_inv_def)
qed

lemma map_of_foldl_put:
  "wf_alist new \<Longrightarrow> map_of (foldl (\<lambda>rows (j, r). alist_put j r rows) rows new) = map_of rows ++ map_of new"
proof (induction new arbitrary: rows)
  case Nil
  then show ?case by simp
next
  case (Cons x new)
  obtain s r where x: "x = (s, r)" by fastforce
  have "map_of new s = None" "wf_alist new" using Cons.prems by (auto simp: x wf_alist_def map_of_eq_None_iff)
  with Cons.IH show ?case by (auto simp: x map_add_def fun_eq_iff split: option.split)
qed

text \<open>A merge overwrites the rows of the current snapshot and keeps every other row.\<close>

definition overlay_row :: "snapshot \<Rightarrow> snapshot \<Rightarrow> string \<Rightarrow> string \<Rightarrow> DigestRow" where
  "overlay_row all cur i s =
     (case map_of (prev_rows cur i) s of Some r \<Rightarrow> r | None \<Rightarrow> prev_row all i s)"

lemma merge_class_row:
  assumes "wf_alist (pc_Rows c)"
  shows "prev_row (merge_class all (i, c)) i s
    = (case map_of (pc_Rows c) s of Some r \<Rightarrow> r | None \<Rightarrow> prev_row all i s)"
    and "j \<noteq> i \<Longrightarrow> prev_row (merge_class all (i, c)) j s = prev_row all j s"
  using assms
  by (auto simp: merge_class_def prev_row_def map_of_foldl_put map_add_def split: option.split)

lemma foldl_merge_row:
  assumes "snapshot_inv cur"
  shows "prev_row (foldl merge_class all cur) i s = overlay_row all cur i s"
  using assms
proof (induction cur arbitrary: all)
  case Nil
  then show ?case by (simp add: overlay_row_def prev_rows_def)
next
  case (Cons jc cur)
  obtain j c where jc: "jc = (j, c)" by fastforce
  have c: "wf_alist (pc_Rows c)" and inv: "snapshot_inv cur" and j: "map_of cur j = None"
    using Cons.prems by (auto simp: jc snapshot_inv_def wf_alist_def map_of_eq_None_iff)
  note m = merge_class_row [OF c, where all = all and i = j]
  show ?case
    using Cons.IH [OF inv, of "merge_class all jc"] m(1) m(2) [where j = i] j
    by (cases "i = j") (simp_all add: jc overlay_row_def prev_rows_def split: option.split)
qed

text \<open>A snapshot whose rows are already in the history.\<close>

definition absorbed :: "snapshot \<Rightarrow> snapshot \<Rightarrow> bool" where
  "absorbed all cur \<longleftrightarrow> (\<forall>(i, c) \<in> set cur. \<forall>(s, r) \<in> set (pc_Rows c). prev_row all i s = r)"

lemma absorbed_merge:
  assumes "snapshot_inv cur"
  shows "absorbed (foldl merge_class all cur) cur"
proof -
  have "overlay_row all cur i s = r" if "(i, c) \<in> set cur" "(s, r) \<in> set (pc_Rows c)" for i c s r
  proof -
    have "map_of cur i = Some c" "wf_alist (pc_Rows c)"
      using assms that(1) by (auto simp: snapshot_inv_def wf_alist_def)
    then show ?thesis using that(2) by (simp add: overlay_row_def prev_rows_def wf_alist_def)
  qed
  then show ?thesis by (auto simp: absorbed_def foldl_merge_row [OF assms])
qed

lemma absorbed_delta:
  assumes "absorbed all cur" and "map_of cur i = Some c"
  shows "rows_delta (prev_row all i) (pc_Rows c) = 0"
  using assms map_of_SomeD [OF assms(2)]
  by (intro rows_delta_quiet) (force simp: list_ex_iff row_executed_def absorbed_def)

lemma snapshot_row_inv:
  assumes "snapshot_inv s"
  shows "snapshot_inv (snapshot_row s row)"
  using snapshot_inv_rows [OF assms, of "class_id row"] assms
  by (auto simp: snapshot_row_def Let_def intro!: snapshot_inv_put split: option.split)

lemma snapshot_of_inv: "snapshot_inv (snapshot_of rows)"
  unfolding snapshot_of_def
  by (rule foldl_invariant) (simp_all add: snapshot_row_inv, simp add: snapshot_inv_def)

definition schemas_in :: "string set \<Rightarrow> snapshot \<Rightarrow> bool" where
  "schemas_in S s \<longleftrightarrow> (\<forall>p \<in> set s. fst ` set (pc_Rows (snd p)) \<subseteq> S)"

lemma schemas_in_put:
  "schemas_in S s \<Longrightarrow> fst ` set (pc_Rows c) \<subseteq> S \<Longrightarrow> schemas_in S (alist_put k c s)"
  unfolding schemas_in_def
proof
  fix p
  assume old: "\<forall>p \<in> set s. fst ` set (pc_Rows (snd p)) \<subseteq> S" "fst ` set (pc_Rows c) \<subseteq> S" and "p \<in> set (alist_put k c s)"
  then have "p = (k, c) \<or> p \<in> set s" using set_alist_put_subset [of k c s] by blast
  then show "fst ` set (pc_Rows (snd p)) \<subseteq> S" using old by (elim disjE) simp_all
qed

lemma snapshot_row_schemas:
  assumes "schemas_in S s" and "dr_Schema row \<in> S"
  shows "schemas_in S (snapshot_row s row)"
proof (cases "map_of s (class_id row)")
  case None
  with assms show ?thesis by (simp add: snapshot_row_def Let_def schemas_in_put)
next
  case (Some c)
  with assms(1) have "fst ` set (pc_Rows c) \<subseteq> S" by (force simp: schemas_in_def dest: map_of_SomeD)
  with Some assms show ?thesis
    by (simp add: snapshot_row_def Let_def schemas_in_put split: option.split)
qed

lemma snapshot_of_fit:
  assumes "length rows < 2 ^ 64"
  shows "rows_fit (snapshot_of rows)"
proof -
  have sub: "schemas_in (dr_Schema ` set rows) (snapshot_of rows)"
    unfolding snapshot_of_def
    by (rule foldl_invariant) (simp add: schemas_in_def, simp add: snapshot_row_schemas)
  have "length (pc_Rows c) < 2 ^ 64" if "(i, c) \<in> set (snapshot_of rows)" for i c
  proof -
    have "wf_alist (pc_Rows c)" using snapshot_of_inv [of rows] that by (auto simp: snapshot_inv_def)
    then have "length (pc_Rows c) = card (fst ` set (pc_Rows c))"
      using distinct_card [of "map fst (pc_Rows c)"] by (simp add: wf_alist_def)
    also have "\<dots> \<le> card (dr_Schema ` set rows)"
      using sub that by (intro card_mono) (force simp: schemas_in_def)+
    also have "\<dots> \<le> card (set rows)" by (rule card_image_le) simp
    also have "\<dots> \<le> length rows" by (rule card_length)
    finally show ?thesis using assms by simp
  qed
  then show ?thesis by (auto simp: rows_fit_def)
qed

section \<open>Cycles of the worker\<close>

text \<open>What the analyzer does for an interval: set up, run, clean up.\<close>

definition pworker_cycle ::
  "string \<times> string \<Rightarrow> interval \<times> pworker_env \<Rightarrow> pworker \<Rightarrow> (pworker \<times> result option) option" where
  "pworker_cycle texts ie w =
     (let (w, res, err) = pworker_Run (snd ie) (pworker_Setup (fst ie) w)
      in map_option (\<lambda>w. (w, res)) (pworker_Cleanup (fst texts) (snd texts) w))"

definition in_sequence :: "interval \<Rightarrow> pworker \<Rightarrow> bool" where
  "in_sequence iv w \<longleftrightarrow>
     (case pw_iter w of None \<Rightarrow> True
      | Some prv \<Rightarrow> iv_Number iv = iv_Number prv + 1 \<and> \<not> iv_StartTime iv < iv_StartTime prv)"

text \<open>
  A cycle that may fail to connect or fail to query, but neither breaks off in the middle of the
  rows nor finds a counter that went down.
\<close>

definition clean_cycle :: "interval \<times> pworker_env \<Rightarrow> pworker \<Rightarrow> bool" where
  "clean_cycle ie w \<longleftrightarrow>
     in_sequence (fst ie) w
     \<and> (pe_connectErr (snd ie)
        \<or> (case pe_getRows (snd ie) (fetch_seconds (pe_now (snd ie)) w) of
             Rows rows err \<Rightarrow> \<not> err \<and> length rows < 2 ^ 64 \<and> \<not> truncated (dg_All (pw_digests w)) (snapshot_of rows)
           | _ \<Rightarrow> True))"

definition history_inv :: "pworker \<Rightarrow> bool" where
  "history_inv w \<longleftrightarrow>
     dg_All (pw_digests w) \<noteq> [] \<and> snapshot_inv (dg_All (pw_digests w)) \<and> snapshot_inv (dg_Curr (pw_digests w))
     \<and> absorbed (dg_All (pw_digests w)) (dg_Curr (pw_digests w))"

lemma pworker_Setup_in_sequence:
  "in_sequence iv w \<Longrightarrow> pworker_Setup iv w = w\<lparr>pw_iter := Some iv, pw_lastRowCnt := 0, pw_lastPrepTime := 0\<rparr>"
  by (auto simp: pworker_Setup_def in_sequence_def Let_def split: option.splits)

lemma prepareResult_iter:
  "\<not> truncated prev cur \<Longrightarrow> pw_iter (fst (prepareResult t prev cur w)) = pw_iter w"
  using class_loop_None_iff [of "pw_examples w" prev cur "([], NewClass '''' '''')"]
  by (auto simp: prepareResult_def Let_def split: option.split)

text \<open>One fetch, seen from the digests: the current snapshot is replaced and reported as growth.\<close>

lemma pworker_Run_fetch:
  assumes "dg_All (pw_digests w) \<noteq> []" and "\<not> pe_connectErr env"
    and "getSnapshot (pe_getRows env) (pe_now env) (pe_done env) (set_pw_status ''Connecting to MySQL'' w) = (v, cur, False)"
    and "\<not> truncated (dg_All (pw_digests w)) cur" and "rows_fit cur" and "snapshot_inv cur"
    and "pworker_Run env w = (w', res, err)"
  shows "pw_digests w' = (pw_digests w)\<lparr>dg_Curr := cur\<rparr>"
    and "pw_iter w' = pw_iter w"
    and "reported i res
      = (case map_of cur i of None \<Rightarrow> 0 | Some c \<Rightarrow> rows_delta (prev_row (dg_All (pw_digests w)) i) (pc_Rows c))"
proof -
  have v: "pw_digests v = pw_digests w" "pw_iter v = pw_iter w"
    using assms(3) by (auto simp: getSnapshot_def Let_def split: rows_result.splits prod.splits)
  let ?v = "v\<lparr>pw_digests := (pw_digests w)\<lparr>dg_Curr := cur\<rparr>\<rparr>"
  obtain u r where p: "prepareResult (pe_prepTime env) (dg_All (pw_digests w)) cur ?v = (u, r)" by fastforce
  have "w' = set_pw_status ''Idle'' u" "res = r"
    using assms(1-3,7) v p by (auto simp: pworker_Run_def Let_def)
  with prepareResult_delta [OF assms(4,5) p] prepareResult_iter [OF assms(4), of "pe_prepTime env" ?v] p v
    reported_delta [OF assms(4-6) p]
  show "pw_digests w' = (pw_digests w)\<lparr>dg_Curr := cur\<rparr>" and "pw_iter w' = pw_iter w"
    and "reported i res
      = (case map_of cur i of None \<Rightarrow> 0 | Some c \<Rightarrow> rows_delta (prev_row (dg_All (pw_digests w)) i) (pc_Rows c))"
    by simp_all
qed

lemma pworker_Cleanup_merge:
  assumes "pw_iter w = Some iv" and "snapshot_inv (dg_All (pw_digests w))" and "snapshot_inv (dg_Curr (pw_digests w))"
    and "dg_All (pw_digests w) \<noteq> []"
  obtains w' where "pworker_Cleanup a b w = Some w'" and "history_inv w'" and "pw_iter w' = Some iv"
    and "\<And>i. class_count (dg_All (pw_digests w')) i = class_count (dg_All (pw_digests w)) i
      + (case map_of (dg_Curr (pw_digests w)) i of None \<Rightarrow> 0
         | Some c \<Rightarrow> rows_delta (prev_row (dg_All (pw_digests w)) i) (pc_Rows c))"
proof -
  obtain w' where w': "pworker_Cleanup a b w = Some w'" using assms(1) by (simp add: pworker_Cleanup_def Let_def)
  then have "pw_digests w' = digests_MergeCurr (pw_digests w)" "pw_iter w' = Some iv"
    using assms(1) by (auto simp: pworker_Cleanup_def Let_def)
  with w' that foldl_merge [OF assms(2,3)] absorbed_merge [OF assms(3)] assms(3,4) show ?thesis
    by (auto simp: digests_MergeCurr_def history_inv_def)
qed

lemma fetch_seconds_cong:
  "pw_digests w = pw_digests v \<Longrightarrow> pw_lastFetchTime w = pw_lastFetchTime v \<Longrightarrow> fetch_seconds t w = fetch_seconds t v"
  by (simp add: fetch_seconds_def)

lemma getSnapshot_clean:
  assumes "clean_cycle (iv, env) w" and "\<not> pe_connectErr env"
    and "pw_digests u = pw_digests w" and "pw_lastFetchTime u = pw_lastFetchTime w"
    and "getSnapshot (pe_getRows env) (pe_now env) (pe_done env) u = (v, cur, e)"
  shows "e \<and> cur = [] \<or> \<not> e \<and> rows_fit cur \<and> snapshot_inv cur \<and> \<not> truncated (dg_All (pw_digests w)) cur"
proof -
  have "fetch_seconds (pe_now env) (set_pw_status ''Processing rows'' u) = fetch_seconds (pe_now env) w"
    using assms(3,4) by (intro fetch_seconds_cong) simp_all
  moreover have "rows_fit []" "snapshot_inv []" "\<not> truncated all []" for all
    by (simp_all add: rows_fit_def snapshot_inv_def truncated_def)
  ultimately show ?thesis
    using assms(1,2,5) snapshot_of_inv snapshot_of_fit
    by (cases "pe_getRows env (fetch_seconds (pe_now env) w)")
       (auto simp: clean_cycle_def getSnapshot_def Let_def)
qed

lemma pworker_cycle_conserves:
  assumes "history_inv w" and "clean_cycle (iv, env) w"
  shows "\<exists>w' res. pworker_cycle texts (iv, env) w = Some (w', res) \<and> history_inv w' \<and> pw_iter w' = Some iv
    \<and> (\<forall>i. class_count (dg_All (pw_digests w')) i = class_count (dg_All (pw_digests w)) i + reported i res)"
proof -
  have seq: "in_sequence iv w" using assms(2) by (simp add: clean_cycle_def)
  let ?w = "pworker_Setup iv w"
  note s = pworker_Setup_in_sequence [OF seq]
  obtain w' res err where run: "pworker_Run env ?w = (w', res, err)" by (metis prod_cases3)
  have "pw_iter w' = Some iv \<and> dg_All (pw_digests w') = dg_All (pw_digests w) \<and> snapshot_inv (dg_Curr (pw_digests w'))
    \<and> (\<forall>i. reported i res = (case map_of (dg_Curr (pw_digests w')) i of None \<Rightarrow> 0
         | Some c \<Rightarrow> rows_delta (prev_row (dg_All (pw_digests w)) i) (pc_Rows c)))"
  proof (cases "pe_connectErr env")
    case True
    then have "w' = set_pw_status ''Idle'' ((set_pw_status ''Connecting to MySQL'' ?w)\<lparr>pw_lastErr := True\<rparr>)" "res = None"
      using run by (auto simp: pworker_Run_def Let_def)
    with assms(1) absorbed_delta [of "dg_All (pw_digests w)" "dg_Curr (pw_digests w)"] show ?thesis
      by (auto simp: s history_inv_def reported_def split: option.split)
  next
    case False
    obtain v cur e where snap: "getSnapshot (pe_getRows env) (pe_now env) (pe_done env)
        (set_pw_status ''Connecting to MySQL'' ?w) = (v, cur, e)" by (metis prod_cases3)
    have cases: "e \<and> cur = [] \<or> \<not> e \<and> rows_fit cur \<and> snapshot_inv cur \<and> \<not> truncated (dg_All (pw_digests w)) cur"
      using assms(2) False _ _ snap by (rule getSnapshot_clean) (simp_all add: s)
    show ?thesis
    proof (cases e)
      case True
      with cases snap run False assms(1) show ?thesis
        by (auto simp: pworker_Run_def getSnapshot_def s Let_def reported_def snapshot_inv_def split: rows_result.splits)
    next
      case F: False
      have "dg_All (pw_digests ?w) \<noteq> []" using assms(1) by (simp add: s history_inv_def)
      moreover have "getSnapshot (pe_getRows env) (pe_now env) (pe_done env)
          (set_pw_status ''Connecting to MySQL'' ?w) = (v, cur, False)" using snap F by simp
      moreover have "\<not> truncated (dg_All (pw_digests ?w)) cur" "rows_fit cur" "snapshot_inv cur"
        using cases F by (simp_all add: s)
      ultimately have "pw_digests w' = (pw_digests ?w)\<lparr>dg_Curr := cur\<rparr>" "pw_iter w' = pw_iter ?w"
        "\<And>i. reported i res = (case map_of cur i of None \<Rightarrow> 0
           | Some c \<Rightarrow> rows_delta (prev_row (dg_All (pw_digests ?w)) i) (pc_Rows c))"
        using pworker_Run_fetch [OF _ False _ _ _ _ run] by blast+
      then show ?thesis using \<open>snapshot_inv cur\<close> by (simp add: s cong: option.case_cong)
    qed
  qed
  then have r: "pw_iter w' = Some iv" "dg_All (pw_digests w') = dg_All (pw_digests w)" "snapshot_inv (dg_Curr (pw_digests w'))"
    "\<And>i. reported i res = (case map_of (dg_Curr (pw_digests w')) i of None \<Rightarrow> 0
         | Some c \<Rightarrow> rows_delta (prev_row (dg_All (pw_digests w')) i) (pc_Rows c))" by (simp_all cong: option.case_cong)
  obtain v where "pworker_Cleanup (fst texts) (snd texts) w' = Some v" "history_inv v" "pw_iter v = Some iv"
    "\<And>i. class_count (dg_All (pw_digests v)) i = class_count (dg_All (pw_digests w')) i + reported i res"
    using assms(1) r pworker_Cleanup_merge [of w' iv "fst texts" "snd texts"] by (auto simp: history_inv_def)
  with run r(2) show ?thesis by (simp add: pworker_cycle_def)
qed

fun pworker_cycles ::
  "string \<times> string \<Rightarrow> (interval \<times> pworker_env) list \<Rightarrow> pworker \<Rightarrow> (pworker \<times> result option list) option" where
  "pworker_cycles texts [] w = Some (w, [])"
| "pworker_cycles texts (ie # ies) w =
     (case pworker_cycle texts ie w of
        None \<Rightarrow> None
      | Some (w', res) \<Rightarrow> map_option (\<lambda>(v, rs). (v, res # rs)) (pworker_cycles texts ies w'))"

fun clean_cycles :: "string \<times> string \<Rightarrow> (interval \<times> pworker_env) list \<Rightarrow> pworker \<Rightarrow> bool" where
  "clean_cycles texts [] w = True"
| "clean_cycles texts (ie # ies) w =
     (clean_cycle ie w \<and> (case pworker_cycle texts ie w of None \<Rightarrow> True | Some (w', _) \<Rightarrow> clean_cycles texts ies w'))"

text \<open>
  C6: over any sequence of clean cycles the worker reports every execution exactly once. Each
  cycle ends (no \<open>Cleanup\<close> panics), also one that cannot connect or query, and for every class the
  executions in all reports together are the growth of the class counter kept in the digests.
\<close>

theorem pworker_cycles_conserve:
  assumes "history_inv w" and "clean_cycles texts ies w"
  shows "\<exists>w' rs. pworker_cycles texts ies w = Some (w', rs) \<and> length rs = length ies \<and> history_inv w'
    \<and> (\<forall>i. class_count (dg_All (pw_digests w')) i
          = class_count (dg_All (pw_digests w)) i + sum_list (map (reported i) rs))"
  using assms
proof (induction ies arbitrary: w)
  case Nil
  then show ?case by simp
next
  case (Cons ie ies)
  obtain iv env where ie: "ie = (iv, env)" by fastforce
  obtain w' res where c: "pworker_cycle texts (iv, env) w = Some (w', res)" "history_inv w'"
    "\<forall>i. class_count (dg_All (pw_digests w')) i = class_count (dg_All (pw_digests w)) i + reported i res"
    using pworker_cycle_conserves [OF Cons.prems(1), of iv env texts] Cons.prems(2) by (auto simp: ie)
  moreover have "clean_cycles texts ies w'" using Cons.prems(2) c(1) by (simp add: ie)
  from Cons.IH [OF c(2) this] obtain v rs where "pworker_cycles texts ies w' = Some (v, rs)"
    "length rs = length ies" "history_inv v"
    "\<forall>i. class_count (dg_All (pw_digests v)) i
       = class_count (dg_All (pw_digests w')) i + sum_list (map (reported i) rs)" by blast
  ultimately show ?case by (simp add: ie add.assoc)
qed

section \<open>The minimum of a class\<close>

text \<open>
  The shortest time of a class is the least of its rows' only while that is below 0xFFFFFFFF
  picoseconds (4.3 ms), because the test for the first row never succeeds as long as the class
  counter does not wrap: a class whose rows are all slower is reported with 0xFFFFFFFF picoseconds.
\<close>

theorem row_loop_min:
  assumes "row_loop prev rows (start_row, 0) = Some (d, n)"
    and "sum_list (map (\<lambda>(s, r). unat (dr_CountStar r - dr_CountStar (prev s))) rows) < 2 ^ 64"
  shows "dr_MinTimerWait d
    = fold min (map (dr_MinTimerWait \<circ> snd) (filter (row_executed prev) rows)) 0xFFFFFFFF"
proof -
  have min: "dr_MinTimerWait d' = fold min (map (dr_MinTimerWait \<circ> snd) (filter (row_executed prev) rows)) (dr_MinTimerWait d)"
    if "row_loop prev rows (d, n) = Some (d', n')"
      "unat (dr_CountStar d) + sum_list (map (\<lambda>(s, r). unat (dr_CountStar r - dr_CountStar (prev s))) rows) < 2 ^ 64"
    for d n d' n'
    using that
  proof (induction rows arbitrary: d n)
    case Nil
    then show ?case by simp
  next
    case (Cons sr rows)
    obtain s r where sr: "sr = (s, r)" by fastforce
    show ?case
    proof (cases "dr_CountStar r = dr_CountStar (prev s)")
      case True
      with Cons.IH [of d n] Cons.prems sr show ?thesis by (simp add: row_executed_def)
    next
      case False
      with Cons.prems(1) sr have rl: "row_loop prev rows (add_row d r (prev s), n + 1) = Some (d', n')"
        by (simp add: Let_def split: if_splits)
      let ?inc = "dr_CountStar r - dr_CountStar (prev s)"
      have inc: "unat (dr_CountStar d + ?inc) = unat (dr_CountStar d) + unat ?inc"
        using Cons.prems(2) by (intro unat_add_no_wrap) (simp add: sr)
      moreover have "0 < unat ?inc" using False by (simp add: unat_gt_0)
      ultimately have "dr_CountStar d + ?inc \<noteq> 0" by (metis add_gr_0 less_irrefl unat_0)
      then have "dr_MinTimerWait (add_row d r (prev s)) = min (dr_MinTimerWait r) (dr_MinTimerWait d)"
        by (auto simp: add_row_def Let_def min_def)
      with Cons.IH [OF rl] Cons.prems(2) inc False show ?thesis by (simp add: sr row_executed_def)
    qed
  qed
  have "dr_CountStar start_row = 0" "dr_MinTimerWait start_row = 0xFFFFFFFF"
    by (simp_all add: start_row_def zero_row_def)
  with min [OF assms(1)] assms(2) show ?thesis by simp
qed

section \<open>Concrete instances\<close>

definition sample_row :: "u64 \<Rightarrow> u64 \<Rightarrow> DigestRow" where
  "sample_row k t = zero_row\<lparr>dr_Schema := ''db'', dr_Digest := ''00000000000000000123456789012345'',
     dr_CountStar := k, dr_MinTimerWait := t\<rparr>"

definition sample_interval :: "int \<Rightarrow> interval" where
  "sample_interval n = \<lparr>iv_Number = n, iv_StartTime = n, iv_StopTime = n + 1, iv_Filename = '''', iv_StartOffset = 0, iv_EndOffset = 0\<rparr>"

definition sample_worker :: pworker where
  "sample_worker = (NewPWorker ''w'')\<lparr>pw_digests := \<lparr>dg_All = snapshot_of [sample_row 5 7], dg_Curr = []\<rparr>,
     pw_iter := Some (sample_interval 1)\<rparr>"

definition sample_env :: "bool \<Rightarrow> u64 \<Rightarrow> pworker_env" where
  "sample_env e k = \<lparr>pe_connectErr = e, pe_getRows = (\<lambda>_. Rows [sample_row k 7] False), pe_now = 0, pe_done = 1, pe_prepTime = 0\<rparr>"

lemma sample_row_sel [simp]: "dr_CountStar (sample_row k t) = k" "dr_MinTimerWait (sample_row k t) = t"
  by (simp_all add: sample_row_def)

lemma sample_snapshot:
  "snapshot_of [sample_row k t]
   = [(''0123456789012345'', \<lparr>pc_DigestText = '''', pc_Rows = [(''db'', sample_row k t)]\<rparr>)]"
  by (simp add: snapshot_of_def snapshot_row_def class_id_def sample_row_def zero_row_def ToUpper_def to_upper_char_def Let_def)

lemma sample_history: "history_inv sample_worker"
  by (simp add: history_inv_def sample_worker_def sample_snapshot snapshot_inv_def absorbed_def)

lemma sample_clean:
  "clean_cycles ('''', '''')
     [(sample_interval 2, sample_env True 0), (sample_interval 3, sample_env False 9)] sample_worker"
  by (simp add: clean_cycle_def in_sequence_def sample_worker_def sample_interval_def sample_env_def
      sample_snapshot pworker_cycle_def pworker_Run_def pworker_Setup_def pworker_Cleanup_def Let_def truncated_def
      digests_MergeCurr_def prev_row_def split: option.split)

theorem pworker_cycles_conserve_witness:
  "\<exists>w' rs. pworker_cycles ('''', '''')
      [(sample_interval 2, sample_env True 0), (sample_interval 3, sample_env False 9)] sample_worker = Some (w', rs)
    \<and> length rs = 2
    \<and> class_count (dg_All (pw_digests w')) ''0123456789012345'' = 5 + sum_list (map (reported ''0123456789012345'') rs)"
proof -
  have "class_count (dg_All (pw_digests sample_worker)) ''0123456789012345'' = 5"
    by (simp add: sample_worker_def sample_snapshot class_count_def rows_count_def)
  then show ?thesis using pworker_cycles_conserve [OF sample_history sample_clean] by auto
qed

theorem prepareResult_truncated_witness:
  "truncated (snapshot_of [sample_row 5 7]) (snapshot_of [sample_row 2 7])
   \<and> snd (prepareResult 0 (snapshot_of [sample_row 5 7]) (snapshot_of [sample_row 2 7]) sample_worker) = None
   \<and> pworker_Cleanup '''' ''''
       (fst (prepareResult 0 (snapshot_of [sample_row 5 7]) (snapshot_of [sample_row 2 7]) sample_worker)) = None"
proof -
  have "truncated (snapshot_of [sample_row 5 7]) (snapshot_of [sample_row 2 7])"
    by (simp add: sample_snapshot truncated_def prev_row_def)
  moreover have "dg_All (pw_digests sample_worker) \<noteq> []" "pw_iter sample_worker = Some (sample_interval 1)"
    by (simp_all add: sample_worker_def sample_snapshot)
  ultimately show ?thesis using prepareResult_truncated by blast
qed

theorem row_loop_min_witness:
  "row_loop (\<lambda>_. zero_row) [(''db'', sample_row 5 0x200000000)] (start_row, 0)
     = Some (add_row start_row (sample_row 5 0x200000000) zero_row, 1)
   \<and> dr_MinTimerWait (add_row start_row (sample_row 5 0x200000000) zero_row) = 0xFFFFFFFF"
proof -
  have "row_loop (\<lambda>_. zero_row) [(''db'', sample_row 5 0x200000000)] (start_row, 0)
     = Some (add_row start_row (sample_row 5 0x200000000) zero_row, 1)"
    by (simp add: sample_row_def zero_row_def)
  then show ?thesis using row_loop_min [of "\<lambda>_. zero_row" "[(''db'', sample_row 5 0x200000000)]"]
    by (simp add: sample_row_def zero_row_def row_executed_def)
qed

end
