(* ===== verification/Ticker.thy ===== *)
theory Ticker
  imports Pct "HOL-Library.Log_Nat"
begin

text \<open>
  The tickers, \<open>ticker/ticker.go\<close> and \<open>ticker/wait.go\<close>, and the clock that shares them between
  watchers, \<open>ticker/manager.go\<close>. The alignment arithmetic is done in \<open>float64\<close> on nanosecond
  timestamps, which do not fit in 53 bits: the conversion rounds, and is modelled bit by bit.
\<close>

section \<open>Rounding to 53 bits\<close>

text \<open>\<open>float64(n)\<close> for an integer: round to nearest, ties to even, at 53 significant bits.\<close>

definition ulp53 :: "int \<Rightarrow> int" where
  "ulp53 n = 2 ^ nat (bitlen \<bar>n\<bar> - 53)"

definition fl53 :: "int \<Rightarrow> int" where
  "fl53 n =
     (let u = ulp53 n; q = n div u; r = n mod u
      in if 2 * r < u \<or> 2 * r = u \<and> even q then q * u else (q + 1) * u)"

lemma ulp53_pos: "0 < ulp53 n"
  by (simp add: ulp53_def)

lemma fl53_error: "2 * \<bar>fl53 n - n\<bar> \<le> ulp53 n"
proof -
  let ?u = "ulp53 n"
  have n: "n = n div ?u * ?u + n mod ?u" by simp
  have r: "0 \<le> n mod ?u" "n mod ?u < ?u" using ulp53_pos [of n] by simp_all
  show ?thesis
  proof (cases "2 * (n mod ?u) < ?u \<or> 2 * (n mod ?u) = ?u \<and> even (n div ?u)")
    case True
    then have "fl53 n = n div ?u * ?u" by (simp add: fl53_def Let_def)
    then have "fl53 n - n = - (n mod ?u)" using n by linarith
    with True r show ?thesis by auto
  next
    case False
    then have "fl53 n = n div ?u * ?u + ?u" by (auto simp: fl53_def Let_def algebra_simps)
    then have "fl53 n - n = ?u - n mod ?u" using n by linarith
    with False r show ?thesis by auto
  qed
qed

lemma ulp53_bound:
  assumes "\<bar>n\<bar> < 2 ^ b" and "53 \<le> b"
  shows "ulp53 n \<le> 2 ^ (b - 53)"
proof -
  have "bitlen \<bar>n\<bar> \<le> int b"
    using assms(1) by (simp add: bitlen_le_iff_power)
  then have "nat (bitlen \<bar>n\<bar> - 53) \<le> b - 53" using assms(2) by linarith
  then show ?thesis unfolding ulp53_def by (rule power_increasing) simp
qed

lemma fl53_exact:
  assumes "\<bar>n\<bar> < 2 ^ 53"
  shows "fl53 n = n"
proof -
  have "2 * \<bar>fl53 n - n\<bar> \<le> 1" using ulp53_bound [OF assms] fl53_error [of n] by simp
  then have "\<bar>fl53 n - n\<bar> = 0" by presburger
  then show ?thesis by simp
qed

lemma fl53_rest:
  assumes "0 < i" and "i < 2 ^ 53"
  shows "fl53 (i - t mod i) = i - t mod i"
proof -
  have "0 \<le> t mod i" "t mod i < i" using assms by simp_all
  then have "\<bar>i - t mod i\<bar> \<le> i" by linarith
  with assms show ?thesis by (intro fl53_exact) simp
qed

section \<open>The even ticker\<close>

text \<open>
  The delay until the first tick, in nanoseconds, as \<open>Run\<close> and \<open>ETA\<close> compute it: every
  conversion and the subtraction round; \<open>math.Mod\<close> is exact.
\<close>

definition even_delay :: "int \<Rightarrow> int \<Rightarrow> int" where
  "even_delay atInterval nowNanosecond =
     (let i = fl53 (atInterval * 1000000000)
      in fl53 (i - fl53 nowNanosecond mod i))"

type_synonym chan = nat

datatype ticker = EvenTicker int "chan set" | WaitTicker int "chan option"

fun ticker_Add :: "chan \<Rightarrow> ticker \<Rightarrow> ticker" where
  "ticker_Add c (EvenTicker i w) = EvenTicker i (insert c w)"
| "ticker_Add c (WaitTicker i w) = WaitTicker i (Some c)"

fun ticker_Remove :: "chan \<Rightarrow> ticker \<Rightarrow> ticker" where
  "ticker_Remove c (EvenTicker i w) = EvenTicker i (w - {c})"
| "ticker_Remove c (WaitTicker i w) = WaitTicker i None"

text \<open>The ETA in seconds; the wait ticker's is not implemented and is zero.\<close>

fun ticker_ETA :: "int \<Rightarrow> ticker \<Rightarrow> float64" where
  "ticker_ETA now (EvenTicker i w) = of_int (even_delay i now) / 1000000000"
| "ticker_ETA now (WaitTicker i w) = 0"

text \<open>A tick reaches the watchers that are ready within their 20 milliseconds.\<close>

fun ticker_tick :: "(chan \<Rightarrow> bool) \<Rightarrow> ticker \<Rightarrow> chan set" where
  "ticker_tick ready (EvenTicker i w) = {c \<in> w. ready c}"
| "ticker_tick ready (WaitTicker i w) = (case w of None \<Rightarrow> {} | Some c \<Rightarrow> if ready c then {c} else {})"

fun watches :: "ticker \<Rightarrow> chan \<Rightarrow> bool" where
  "watches (EvenTicker i w) c \<longleftrightarrow> c \<in> w"
| "watches (WaitTicker i w) c \<longleftrightarrow> w = Some c"

definition ticker_Make :: "int \<Rightarrow> bool \<Rightarrow> ticker" where
  "ticker_Make atInterval sync = (if sync then EvenTicker atInterval {} else WaitTicker atInterval None)"

text \<open>
  C24: the even ticker starts on the interval. For an interval of up to a hundred days and a
  nanosecond clock below \<open>2 ^ 61\<close> (the year 2043), the delay until the first tick is positive and at
  most one interval, and the tick comes within 128 nanoseconds of a multiple of the interval,
  although the timestamp is rounded to 53 bits on the way.
\<close>

theorem even_ticker_aligned:
  assumes "0 < atInterval" and "atInterval \<le> 8640000" and "0 \<le> now" and "now < 2 ^ 61"
  shows "0 < even_delay atInterval now
    \<and> even_delay atInterval now \<le> atInterval * 1000000000
    \<and> (\<exists>k. \<bar>now + even_delay atInterval now - k * (atInterval * 1000000000)\<bar> \<le> 128)"
proof -
  let ?i = "atInterval * 1000000000"
  let ?m = "fl53 now mod ?i"
  have i: "fl53 ?i = ?i" using assms by (intro fl53_exact) simp
  have m: "0 \<le> ?m" "?m < ?i" using assms by simp_all
  have "fl53 (?i - ?m) = ?i - ?m" using assms by (intro fl53_rest) simp_all
  then have d: "even_delay atInterval now = ?i - ?m" by (simp add: even_delay_def i Let_def)
  have "ulp53 now \<le> 256" using ulp53_bound [of now 61] assms by simp
  with fl53_error [of now] have "2 * \<bar>fl53 now - now\<bar> \<le> 256" by (rule order_trans)
  then have err: "\<bar>fl53 now - now\<bar> \<le> 128" by simp
  have "fl53 now = fl53 now div ?i * ?i + ?m" by (rule div_mult_mod_eq [symmetric])
  then have "now + even_delay atInterval now - (fl53 now div ?i + 1) * ?i = now - fl53 now"
    unfolding d distrib_right by linarith
  with err have "\<bar>now + even_delay atInterval now - (fl53 now div ?i + 1) * ?i\<bar> \<le> 128" by linarith
  with d m show ?thesis by auto
qed

theorem even_ticker_aligned_witness:
  "even_delay 60 1500000013123456789 = 46876543232
   \<and> (\<exists>k. \<bar>1500000013123456789 + even_delay 60 1500000013123456789 - k * (60 * 1000000000)\<bar> \<le> 128)"
proof -
  have "even_delay 60 1500000013123456789 = 46876543232" by code_simp
  with even_ticker_aligned [of 60 1500000013123456789] show ?thesis by simp
qed

section \<open>When an interval began\<close>

text \<open>The result is the Unix time. The conversions are to \<open>float64\<close> and back to \<open>uint\<close>.\<close>

definition Began :: "int \<Rightarrow> int \<Rightarrow> int" where
  "Began interval now =
     (let i = fl53 interval; t = fl53 now; d = fl53 (i - t mod i)
      in if d \<noteq> interval then now - (interval - d) else now)"

text \<open>
  \<open>Began\<close> gives the start of the interval a time falls into: the largest multiple of the
  interval that is not after the time.
\<close>

theorem Began_floor:
  assumes "0 < interval" and "interval < 2 ^ 53" and "0 \<le> now" and "now < 2 ^ 53"
  shows "Began interval now = now div interval * interval"
proof -
  have f: "fl53 interval = interval" "fl53 now = now" using assms by (simp_all add: fl53_exact)
  have "fl53 (interval - now mod interval) = interval - now mod interval"
    using assms by (intro fl53_rest)
  then have "Began interval now = now - now mod interval" by (simp add: Began_def f Let_def)
  then show ?thesis by (simp add: minus_mod_eq_div_mult)
qed

theorem Began_floor_witness: "Began 60 130 = 120 \<and> Began 60 120 = 120"
  using Began_floor [of 60 130] Began_floor [of 60 120] by simp

section \<open>The clock\<close>

text \<open>
  Tickers live in a store indexed by allocation order; the clock's maps refer to them. A panic is
  the value \<open>None\<close>.
\<close>

record clock =
  ck_tickers :: "ticker list"
  ck_syncTicker :: "int \<rightharpoonup> nat"
  ck_waitTicker :: "chan \<rightharpoonup> nat"
  ck_watcher :: "chan \<rightharpoonup> nat"

definition NewClock :: clock where
  "NewClock = \<lparr>ck_tickers = [], ck_syncTicker = Map.empty, ck_waitTicker = Map.empty, ck_watcher = Map.empty\<rparr>"

definition clock_alloc :: "ticker \<Rightarrow> clock \<Rightarrow> clock \<times> nat" where
  "clock_alloc t k = (k\<lparr>ck_tickers := ck_tickers k @ [t]\<rparr>, length (ck_tickers k))"

definition clock_ticker :: "chan \<Rightarrow> int \<Rightarrow> bool \<Rightarrow> clock \<Rightarrow> (clock \<times> nat) option" where
  "clock_ticker c atInterval sync k =
     (if sync then
        (case ck_syncTicker k atInterval of
           Some t \<Rightarrow> Some (k, t)
         | None \<Rightarrow>
             (let (k, t) = clock_alloc (ticker_Make atInterval sync) k
              in Some (k\<lparr>ck_syncTicker := (ck_syncTicker k)(atInterval \<mapsto> t)\<rparr>, t)))
      else
        (case ck_waitTicker k c of
           Some _ \<Rightarrow> None
         | None \<Rightarrow>
             (let (k, t) = clock_alloc (ticker_Make atInterval sync) k
              in Some (k\<lparr>ck_waitTicker := (ck_waitTicker k)(c \<mapsto> t)\<rparr>, t))))"

definition clock_Add :: "chan \<Rightarrow> int \<Rightarrow> bool \<Rightarrow> clock \<Rightarrow> clock option" where
  "clock_Add c atInterval sync k =
     (case clock_ticker c atInterval sync k of
        None \<Rightarrow> None
      | Some (k, t) \<Rightarrow>
          Some (k\<lparr>ck_tickers := (ck_tickers k)[t := ticker_Add c (ck_tickers k ! t)],
                  ck_watcher := (ck_watcher k)(c \<mapsto> t)\<rparr>))"

definition clock_Remove :: "chan \<Rightarrow> clock \<Rightarrow> clock" where
  "clock_Remove c k =
     (let k = (case ck_watcher k c of
                 None \<Rightarrow> k
               | Some t \<Rightarrow>
                   k\<lparr>ck_tickers := (ck_tickers k)[t := ticker_Remove c (ck_tickers k ! t)],
                     ck_watcher := (ck_watcher k)(c := None)\<rparr>)
      in k\<lparr>ck_waitTicker := (ck_waitTicker k)(c := None)\<rparr>)"

definition clock_ETA :: "int \<Rightarrow> chan \<Rightarrow> clock \<Rightarrow> float64" where
  "clock_ETA now c k = (case ck_watcher k c of None \<Rightarrow> 0 | Some t \<Rightarrow> ticker_ETA now (ck_tickers k ! t))"

fun interval_of :: "ticker \<Rightarrow> int" where
  "interval_of (EvenTicker i w) = i"
| "interval_of (WaitTicker i w) = i"

fun is_even :: "ticker \<Rightarrow> bool" where
  "is_even (EvenTicker i w) = True"
| "is_even (WaitTicker i w) = False"

text \<open>
  The clock's invariant: a channel is watched by the ticker the clock knows for it and by no
  other, the shared tickers are even tickers of their interval, and a wait ticker serves the one
  channel it was made for.
\<close>

definition clock_inv :: "clock \<Rightarrow> bool" where
  "clock_inv k \<longleftrightarrow>
     (\<forall>c t. ck_watcher k c = Some t \<longrightarrow> t < length (ck_tickers k))
     \<and> (\<forall>c t. t < length (ck_tickers k) \<longrightarrow> (watches (ck_tickers k ! t) c \<longleftrightarrow> ck_watcher k c = Some t))
     \<and> (\<forall>i t. ck_syncTicker k i = Some t \<longrightarrow>
          t < length (ck_tickers k) \<and> is_even (ck_tickers k ! t) \<and> interval_of (ck_tickers k ! t) = i)"

lemma ticker_simps [simp]:
  "watches (ticker_Make i s) c = False"
  "interval_of (ticker_Add c t) = interval_of t" "interval_of (ticker_Remove c t) = interval_of t"
  "is_even (ticker_Add c t) = is_even t" "is_even (ticker_Remove c t) = is_even t"
  "interval_of (ticker_Make i s) = i" "is_even (ticker_Make i s) = s"
  by (cases t; simp add: ticker_Make_def)+

lemma watches_Add_even: "is_even t \<Longrightarrow> watches (ticker_Add c t) d \<longleftrightarrow> d = c \<or> watches t d"
  by (cases t) auto

lemma watches_Add_fresh: "(\<And>d. \<not> watches t d) \<Longrightarrow> watches (ticker_Add c t) d \<longleftrightarrow> d = c"
  by (cases t) auto

lemma watches_Remove: "watches t c \<Longrightarrow> watches (ticker_Remove c t) d \<longleftrightarrow> d \<noteq> c \<and> watches t d"
  by (cases t) auto

lemma clock_ticker_inv:
  assumes "clock_inv k" and "clock_ticker c i sync k = Some (k', t)"
  shows "clock_inv k'" "t < length (ck_tickers k')" "ck_watcher k' = ck_watcher k"
    "interval_of (ck_tickers k' ! t) = i" "is_even (ck_tickers k' ! t) = sync"
    "sync \<or> (\<forall>d. \<not> watches (ck_tickers k' ! t) d)"
  using assms
  by (auto simp: clock_ticker_def clock_alloc_def clock_inv_def nth_append less_Suc_eq Let_def
      split: if_splits option.splits)

lemma clock_Add_inv:
  assumes inv: "clock_inv k" and fresh: "ck_watcher k c = None" and add: "clock_Add c i sync k = Some k'"
  shows "clock_inv k' \<and> (\<exists>t. ck_watcher k' = (ck_watcher k)(c \<mapsto> t)
    \<and> interval_of (ck_tickers k' ! t) = i \<and> is_even (ck_tickers k' ! t) = sync)"
proof -
  from add obtain k1 t where k1: "clock_ticker c i sync k = Some (k1, t)"
    and k': "k' = k1\<lparr>ck_tickers := (ck_tickers k1)[t := ticker_Add c (ck_tickers k1 ! t)],
                  ck_watcher := (ck_watcher k1)(c \<mapsto> t)\<rparr>"
    by (auto simp: clock_Add_def split: option.splits)
  note t = clock_ticker_inv [OF inv k1]
  have w: "watches (ticker_Add c (ck_tickers k1 ! t)) d \<longleftrightarrow> d = c \<or> watches (ck_tickers k1 ! t) d" for d
    using t(5,6) watches_Add_even [of "ck_tickers k1 ! t" c d] watches_Add_fresh [of "ck_tickers k1 ! t" c d]
    by auto
  have "clock_inv k'"
    using t(1-3) fresh w unfolding k' clock_inv_def by (auto simp: nth_list_update)
  with t show ?thesis by (auto simp: k')
qed

lemma clock_Remove_inv:
  assumes inv: "clock_inv k"
  shows "clock_inv (clock_Remove c k) \<and> ck_watcher (clock_Remove c k) = (ck_watcher k)(c := None)"
proof (cases "ck_watcher k c")
  case None
  with inv show ?thesis by (auto simp: clock_Remove_def clock_inv_def)
next
  case (Some t)
  then have "t < length (ck_tickers k)" "watches (ck_tickers k ! t) c"
    using inv by (auto simp: clock_inv_def)
  with Some inv watches_Remove [of "ck_tickers k ! t" c] show ?thesis
    unfolding clock_inv_def by (auto simp: clock_Remove_def nth_list_update)
qed

text \<open>
  C22: the clock's bookkeeping. From a consistent clock, adding a channel that is not watched
  yet makes it watched by exactly one ticker, of the requested kind and interval; removing a
  channel leaves it watched by no ticker; no other channel changes its ticker; and the clock
  stays consistent.
\<close>

theorem clock_watchers_exact:
  assumes "clock_inv k"
  shows "(ck_watcher k c = None \<longrightarrow> clock_Add c i sync k = Some k' \<longrightarrow>
        clock_inv k' \<and> (\<exists>t. ck_watcher k' = (ck_watcher k)(c \<mapsto> t)
          \<and> interval_of (ck_tickers k' ! t) = i \<and> is_even (ck_tickers k' ! t) = sync))
    \<and> clock_inv (clock_Remove c k)
    \<and> ck_watcher (clock_Remove c k) = (ck_watcher k)(c := None)
    \<and> (\<forall>t < length (ck_tickers (clock_Remove c k)). \<not> watches (ck_tickers (clock_Remove c k) ! t) c)"
  using clock_Add_inv [OF assms] clock_Remove_inv [OF assms, of c]
  unfolding clock_inv_def [of "clock_Remove c k"] by auto

theorem clock_watchers_exact_witness:
  "\<exists>k'. clock_Add 7 60 True NewClock = Some k' \<and> clock_inv k' \<and> ck_watcher k' = [7 \<mapsto> 0]"
proof -
  have add: "clock_Add 7 60 True NewClock = Some \<lparr>ck_tickers = [EvenTicker 60 {7}],
      ck_syncTicker = [60 \<mapsto> 0], ck_waitTicker = Map.empty, ck_watcher = [7 \<mapsto> 0]\<rparr>"
    by (simp add: clock_Add_def clock_ticker_def clock_alloc_def ticker_Make_def NewClock_def)
  have "clock_inv NewClock" by (simp add: clock_inv_def NewClock_def)
  from clock_watchers_exact [OF this, of 7 60 True] add show ?thesis
    by (simp add: NewClock_def)
qed

section \<open>The start of a wait ticker\<close>

text \<open>
  \<open>Clock.Add\<close> starts the ticker's goroutine before it gives the ticker its watcher. The send
  statement of the first \<open>select\<close> evaluates the channel once, when the goroutine reaches it; a
  send on a nil channel never proceeds.
\<close>

record wait_run =
  wr_watcher :: "chan option"
  wr_select :: "chan option option"
  wr_ticking :: bool

datatype wait_event = GoRun | AddWatcher chan | Receive chan

definition wait_step :: "wait_run \<Rightarrow> wait_event \<Rightarrow> wait_run" where
  "wait_step s ev =
     (case ev of
        GoRun \<Rightarrow> (if wr_select s = None then s\<lparr>wr_select := Some (wr_watcher s)\<rparr> else s)
      | AddWatcher c \<Rightarrow> s\<lparr>wr_watcher := Some c\<rparr>
      | Receive c \<Rightarrow> (if wr_select s = Some (Some c) then s\<lparr>wr_ticking := True\<rparr> else s))"

definition NewWaitRun :: wait_run where
  "NewWaitRun = \<lparr>wr_watcher = None, wr_select = None, wr_ticking = False\<rparr>"

lemma wait_stuck:
  "wr_select s = Some None \<Longrightarrow> \<not> wr_ticking s \<Longrightarrow> \<not> wr_ticking (foldl wait_step s evs)"
proof (induction evs arbitrary: s)
  case Nil
  then show ?case by simp
next
  case (Cons ev evs)
  then show ?case by (cases ev) (auto simp: wait_step_def)
qed

text \<open>
  A wait ticker delivers its first tick when the watcher is set before its goroutine runs;
  when the goroutine runs first, the ticker never ticks, whatever happens afterwards.
\<close>

theorem wait_ticker_race:
  "wr_ticking (foldl wait_step NewWaitRun [AddWatcher c, GoRun, Receive c])
   \<and> \<not> wr_ticking (foldl wait_step NewWaitRun ([GoRun, AddWatcher c] @ evs))"
proof -
  let ?s = "foldl wait_step NewWaitRun [GoRun, AddWatcher c]"
  have "wr_select ?s = Some None" "\<not> wr_ticking ?s" by (simp_all add: NewWaitRun_def wait_step_def)
  from wait_stuck [OF this] show ?thesis by (simp add: NewWaitRun_def wait_step_def)
qed

section \<open>Running and stopping a ticker\<close>

text \<open>
  \<open>Run\<close> of an even ticker first sleeps until the next interval, and that of a wait ticker waits until its
  first tick is received or it is stopped; then it sets the timer of the operating system and ticks until
  it is stopped. \<open>Stop\<close> hands its message over, waits for the end of \<open>Run\<close>, and stops the timer, which
  panics when there is none. A tick on a watcher that was closed panics and ends \<open>Run\<close>.
\<close>

datatype trun_pc = First | Ticking | Ended

datatype tstop_pc = StopNotCalled | InStopSend | InStopWait | StopDone | StopPanicked

record trun =
  tr_run :: trun_pc
  tr_timer :: bool
  tr_stop :: tstop_pc
  tr_sync :: SyncChan

definition trun_start :: trun where
  "trun_start = \<lparr>tr_run = First, tr_timer = False, tr_stop = StopNotCalled, tr_sync = NewSyncChan\<rparr>"

datatype tlabel = FirstTick | Tick | TickPanics | RunStopped | CallStop | StopEnds

inductive even_step :: "trun \<Rightarrow> tlabel \<Rightarrow> trun \<Rightarrow> bool" where
  first_tick: "tr_run s = First \<Longrightarrow> even_step s FirstTick (s\<lparr>tr_run := Ticking, tr_timer := True\<rparr>)"
| tick: "tr_run s = Ticking \<Longrightarrow> even_step s Tick s"
| tick_panics: "tr_run s = Ticking \<Longrightarrow> sync_Done (tr_sync s) = Some sy \<Longrightarrow>
    even_step s TickPanics (s\<lparr>tr_run := Ended, tr_sync := sy\<rparr>)"
| stopped: "tr_run s = Ticking \<Longrightarrow> tr_stop s = InStopSend \<Longrightarrow> sync_Done (tr_sync s) = Some sy \<Longrightarrow>
    even_step s RunStopped (s\<lparr>tr_run := Ended, tr_stop := InStopWait, tr_sync := sy\<rparr>)"
| call_stop: "tr_stop s = StopNotCalled \<Longrightarrow> even_step s CallStop (s\<lparr>tr_stop := InStopSend\<rparr>)"
| stop_ends: "tr_stop s = InStopWait \<Longrightarrow> sync_Wait True (tr_sync s) = Some sy \<Longrightarrow>
    even_step s StopEnds
      (s\<lparr>tr_stop := (if tr_timer s then StopDone else StopPanicked), tr_timer := False, tr_sync := sy\<rparr>)"

text \<open>A wait ticker is also stopped before its first tick, and its tick does not panic before that.\<close>

inductive waiter_step :: "trun \<Rightarrow> tlabel \<Rightarrow> trun \<Rightarrow> bool" where
  same: "even_step s l s' \<Longrightarrow> waiter_step s l s'"
| stopped_first: "tr_run s = First \<Longrightarrow> tr_stop s = InStopSend \<Longrightarrow> sync_Done (tr_sync s) = Some sy \<Longrightarrow>
    waiter_step s RunStopped (s\<lparr>tr_run := Ended, tr_stop := InStopWait, tr_sync := sy\<rparr>)"

inductive_cases even_stepE: "even_step s l s'"
inductive_cases waiter_stepE: "waiter_step s l s'"

definition even_inv :: "trun \<Rightarrow> bool" where
  "even_inv s \<longleftrightarrow>
     (tr_timer s \<longleftrightarrow> tr_run s \<noteq> First \<and> tr_stop s \<noteq> StopDone)
     \<and> tr_stop s \<noteq> StopPanicked
     \<and> (tr_run s = First \<longrightarrow> tr_stop s \<in> {StopNotCalled, InStopSend})
     \<and> (tr_stop s \<in> {InStopWait, StopDone} \<longrightarrow> tr_run s = Ended)"

lemma even_step_inv: "even_inv s \<Longrightarrow> even_step s l s' \<Longrightarrow> even_inv s'"
  by (elim even_stepE) (auto simp: even_inv_def)

interpretation ei: step_invariant "\<lambda>s. s = trun_start" even_step even_inv
proof
  show "even_inv s" if "s = trun_start" for s using that by (simp add: even_inv_def trun_start_def)
  show "even_inv s'" if "even_inv s" "even_step s l s'" for s l s' using that by (rule even_step_inv)
qed

text \<open>
  \<open>Stop\<close> of an even ticker never panics, but it does not return before the first tick, for which the
  ticker sleeps up to a whole interval; \<open>Stop\<close> of a wait ticker can be called before the first tick and
  then panics.
\<close>

theorem ticker_Stop:
  "(\<forall>s. reachable (\<lambda>s. s = trun_start) even_step s \<longrightarrow>
      tr_stop s \<noteq> StopPanicked \<and> (tr_run s = First \<longrightarrow> tr_stop s \<in> {StopNotCalled, InStopSend}))
   \<and> (\<exists>s. reachable (\<lambda>s. s = trun_start) waiter_step s \<and> tr_stop s = StopPanicked)"
proof -
  let ?R = "reachable (\<lambda>s. s = trun_start) waiter_step"
  let ?s2 = "trun_start\<lparr>tr_run := Ended, tr_stop := InStopWait, tr_sync := NewSyncChan\<lparr>CrashChan := 1\<rparr>\<rparr>"
  have "?R trun_start" by (rule reachable.start) simp
  then have "?R (trun_start\<lparr>tr_stop := InStopSend\<rparr>)"
    by (rule reachable.move) (rule same, rule call_stop, simp add: trun_start_def)
  from reachable.move [where step = waiter_step, OF this stopped_first] have "?R ?s2"
    by (simp add: trun_start_def sync_Done_def NewSyncChan_def)
  from reachable.move [where step = waiter_step, OF this same [OF stop_ends]]
  have "?R (?s2\<lparr>tr_stop := StopPanicked, tr_sync := NewSyncChan\<rparr>)"
    by (simp add: trun_start_def sync_Wait_def NewSyncChan_def)
  moreover have "tr_stop s \<noteq> StopPanicked \<and> (tr_run s = First \<longrightarrow> tr_stop s \<in> {StopNotCalled, InStopSend})"
    if "reachable (\<lambda>s. s = trun_start) even_step s" for s
    using ei.reachable_inv [OF that] by (auto simp: even_inv_def)
  ultimately show ?thesis by fastforce
qed

end
