(* ===== verification/Mrms.thy ===== *)
theory Mrms
  imports Pct
begin

text \<open>
  The MySQL restart monitoring service: the uptime check of \<open>mrms/checker/mysql.go\<close>, the
  monitor of \<open>mrms/monitor.go\<close> that checks every instance and notifies listeners, and the thin
  service around it, \<open>mrms/manager.go\<close>.
\<close>

section \<open>The checker\<close>

record checker =
  ch_lastUptime :: int
  ch_lastUptimeCheck :: int

definition NewMySQLChecker :: checker where
  "NewMySQLChecker = \<lparr>ch_lastUptime = 0, ch_lastUptimeCheck = 0\<rparr>"

text \<open>
  What one check meets: whether the connection fails, the uptime in seconds (\<open>None\<close> on an
  error), and the two readings of the clock, in nanoseconds.
\<close>

record check_env =
  ce_connectErr :: bool
  ce_uptime :: "int option"
  ce_now1 :: int
  ce_now2 :: int

definition unix_sec :: "int \<Rightarrow> int" where
  "unix_sec ns = ns div 1000000000"

datatype check_error = ConnectFailed | UptimeFailed

definition checker_Check :: "check_env \<Rightarrow> checker \<Rightarrow> checker \<times> (check_error + bool)" where
  "checker_Check env m =
     (if ce_connectErr env then (m, Inl ConnectFailed)
      else if ch_lastUptime m = 0 then
        (case ce_uptime env of
           None \<Rightarrow> (m, Inl UptimeFailed)
         | Some u \<Rightarrow> (m\<lparr>ch_lastUptime := u, ch_lastUptimeCheck := ce_now1 env\<rparr>, Inr False))
      else
        (case ce_uptime env of
           None \<Rightarrow> (m, Inl UptimeFailed)
         | Some currentUptime \<Rightarrow>
             (let elapsedTime = unix_sec (ce_now1 env) - unix_sec (ch_lastUptimeCheck m);
                  expectedUptime = ch_lastUptime m + elapsedTime
              in (m\<lparr>ch_lastUptime := currentUptime, ch_lastUptimeCheck := ce_now2 env\<rparr>,
                  Inr (currentUptime < expectedUptime)))))"

text \<open>A server that started at the time \<open>b\<close> reports at the time \<open>t\<close> the whole seconds since.\<close>

definition server_uptime :: "int \<Rightarrow> int \<Rightarrow> int" where
  "server_uptime b t = (t - b) div 1000000000"

definition check_at :: "int \<Rightarrow> int \<Rightarrow> check_env" where
  "check_at b t = \<lparr>ce_connectErr = False, ce_uptime = Some (server_uptime b t), ce_now1 = t, ce_now2 = t\<rparr>"

lemma div_diff_cases:
  fixes a b s :: int
  assumes "0 < s"
  shows "(a - b) div s = a div s - b div s - (if a mod s < b mod s then 1 else 0)"
proof -
  have r: "0 \<le> a mod s" "a mod s < s" "0 \<le> b mod s" "b mod s < s" using assms by simp_all
  have ab: "a = a div s * s + a mod s" "b = b div s * s + b mod s" by simp_all
  show ?thesis
  proof (cases "a mod s < b mod s")
    case True
    have "a - b = (a mod s - b mod s + s) + (a div s - b div s - 1) * s"
      using ab by (simp add: algebra_simps) 
    then have "(a - b) div s = (a mod s - b mod s + s) div s + (a div s - b div s - 1)"
      using assms by simp
    moreover have "(a mod s - b mod s + s) div s = 0" using True r by (intro div_pos_pos_trivial) linarith+
    ultimately show ?thesis using True by simp
  next
    case False
    have "a - b = (a mod s - b mod s) + (a div s - b div s) * s"
      using ab by (simp add: algebra_simps)
    then have "(a - b) div s = (a mod s - b mod s) div s + (a div s - b div s)"
      using assms by simp
    moreover have "(a mod s - b mod s) div s = 0" using False r by (intro div_pos_pos_trivial) linarith+
    ultimately show ?thesis using False by simp
  qed
qed



section \<open>The monitor\<close>

type_synonym restart_chan = nat

text \<open>
  The entry for the empty UUID holds the global listeners and has no checker; its checker field
  is never used. Each listener is a channel with room for one instance; \<open>mo_chan\<close> holds the UUID
  of the instance in it.
\<close>

record minstance =
  mi_checker :: checker
  mi_listeners :: "restart_chan list"

record monitor =
  mo_instances :: "(string \<times> minstance) list"
  mo_chan :: "restart_chan \<rightharpoonup> string"
  mo_next :: restart_chan
  mo_status :: status
  mo_sync :: SyncChan

definition MONITOR_NAME :: string where "MONITOR_NAME = ''mrm-monitor''"

definition NewRealMonitor :: monitor where
  "NewRealMonitor =
     \<lparr>mo_instances = [('''', \<lparr>mi_checker = NewMySQLChecker, mi_listeners = []\<rparr>)],
      mo_chan = Map.empty, mo_next = 0, mo_status = NewStatus [MONITOR_NAME], mo_sync = NewSyncChan\<rparr>"

abbreviation mo_inst :: "monitor \<Rightarrow> string \<rightharpoonup> minstance" where
  "mo_inst m \<equiv> map_of (mo_instances m)"

definition set_listeners :: "string \<Rightarrow> restart_chan list \<Rightarrow> monitor \<Rightarrow> monitor" where
  "set_listeners uuid ls m =
     (case mo_inst m uuid of
        None \<Rightarrow> m
      | Some i \<Rightarrow> m\<lparr>mo_instances := alist_put uuid (i\<lparr>mi_listeners := ls\<rparr>) (mo_instances m)\<rparr>)"

text \<open>Both branches on the UUID add the new channel to the entry of the instance's own UUID.\<close>

definition monitor_Add :: "string \<Rightarrow> monitor \<Rightarrow> monitor \<times> restart_chan" where
  "monitor_Add uuid m =
     (let m = (case mo_inst m uuid of
                 Some _ \<Rightarrow> m
               | None \<Rightarrow>
                   m\<lparr>mo_instances := alist_put uuid \<lparr>mi_checker = NewMySQLChecker, mi_listeners = []\<rparr> (mo_instances m)\<rparr>);
          c = mo_next m;
          ls = (case mo_inst m uuid of None \<Rightarrow> [] | Some i \<Rightarrow> mi_listeners i)
      in ((set_listeners uuid (ls @ [c]) m)\<lparr>mo_next := c + 1\<rparr>, c))"

text \<open>Without the global entry, \<open>Remove\<close> dereferences a nil pointer: the value \<open>None\<close>.\<close>

definition monitor_Remove :: "string \<Rightarrow> restart_chan \<Rightarrow> monitor \<Rightarrow> monitor option" where
  "monitor_Remove uuid c m =
     (case mo_inst m '''' of
        None \<Rightarrow> None
      | Some g \<Rightarrow>
          (let m = set_listeners '''' (removeAll c (mi_listeners g)) m
           in case mo_inst m uuid of
                None \<Rightarrow> Some m
              | Some i \<Rightarrow>
                  (let ls = removeAll c (mi_listeners i);
                       m = set_listeners uuid ls m
                   in Some (if ls = [] then m\<lparr>mo_instances := alist_del uuid (mo_instances m)\<rparr> else m))))"

definition monitor_ListenerCount :: "string \<Rightarrow> monitor \<Rightarrow> nat" where
  "monitor_ListenerCount uuid m =
     (case mo_inst m uuid of None \<Rightarrow> 0 | Some i \<Rightarrow> length (mi_listeners i))"

text \<open>The non-blocking send to each listener of a list.\<close>

definition notify_one :: "string \<Rightarrow> (restart_chan \<rightharpoonup> string) \<Rightarrow> restart_chan \<Rightarrow> (restart_chan \<rightharpoonup> string)" where
  "notify_one uuid ch c = (case ch c of None \<Rightarrow> ch(c \<mapsto> uuid) | Some _ \<Rightarrow> ch)"

text \<open>One iteration of the loop of \<open>Check\<close>.\<close>

definition monitor_check_one :: "(string \<Rightarrow> check_env) \<Rightarrow> monitor \<Rightarrow> string \<Rightarrow> monitor option" where
  "monitor_check_one env m uuid =
     (if uuid = '''' then Some m
      else case mo_inst m uuid of
             None \<Rightarrow> Some m
           | Some i \<Rightarrow>
               (let (ch, r) = checker_Check (env uuid) (mi_checker i);
                    m = m\<lparr>mo_instances := alist_put uuid (i\<lparr>mi_checker := ch\<rparr>) (mo_instances m)\<rparr>
                in if r \<noteq> Inr True then Some m
                   else
                     (let m = m\<lparr>mo_chan := foldl (notify_one uuid) (mo_chan m) (mi_listeners i)\<rparr>
                      in case mo_inst m '''' of
                           None \<Rightarrow> None
                         | Some g \<Rightarrow> Some (m\<lparr>mo_chan := foldl (notify_one uuid) (mo_chan m) (mi_listeners g)\<rparr>))))"

fun monitor_check_all :: "(string \<Rightarrow> check_env) \<Rightarrow> string list \<Rightarrow> monitor \<Rightarrow> monitor option" where
  "monitor_check_all env [] m = Some m"
| "monitor_check_all env (u # us) m = Option.bind (monitor_check_one env m u) (monitor_check_all env us)"

definition monitor_Check :: "(string \<Rightarrow> check_env) \<Rightarrow> monitor \<Rightarrow> monitor option" where
  "monitor_Check env m =
     (let m = m\<lparr>mo_status := status_Update MONITOR_NAME ''Checking'' (mo_status m)\<rparr>
      in monitor_check_all env (map fst (mo_instances m)) m)"

text \<open>One round of \<open>run\<close>: a check, then the wait for the interval or for the stop signal.\<close>

definition monitor_run_round :: "(string \<Rightarrow> check_env) \<Rightarrow> bool \<Rightarrow> monitor \<Rightarrow> (monitor \<times> bool) option" where
  "monitor_run_round env stop m =
     (case monitor_Check env m of
        None \<Rightarrow>
          map_option (\<lambda>sy. (m\<lparr>mo_status := status_Update MONITOR_NAME ''Stopped'' (mo_status m), mo_sync := sy\<rparr>, True))
            (sync_Done (mo_sync m))
      | Some m \<Rightarrow>
          (let m = m\<lparr>mo_status := status_Update MONITOR_NAME ''Idle'' (mo_status m)\<rparr>
           in if stop then
                map_option (\<lambda>sy. (m\<lparr>mo_status := status_Update MONITOR_NAME ''Stopped'' (mo_status m), mo_sync := sy\<rparr>, True))
                  (sync_Done (mo_sync m))
              else Some (m, False)))"

section \<open>Who is notified\<close>

text \<open>Listeners of different instances are different channels, and every instance but the global
  entry has one.\<close>

definition monitor_inv :: "monitor \<Rightarrow> bool" where
  "monitor_inv m \<longleftrightarrow>
     wf_alist (mo_instances m)
     \<and> (\<forall>u i. mo_inst m u = Some i \<longrightarrow> distinct (mi_listeners i) \<and> (\<forall>c \<in> set (mi_listeners i). c < mo_next m))
     \<and> (\<forall>u i. mo_inst m u = Some i \<longrightarrow> u \<noteq> '''' \<longrightarrow> mi_listeners i \<noteq> [])
     \<and> (\<forall>u v i j. mo_inst m u = Some i \<longrightarrow> mo_inst m v = Some j \<longrightarrow> u \<noteq> v \<longrightarrow>
          set (mi_listeners i) \<inter> set (mi_listeners j) = {})"

lemma foldl_notify:
  "foldl (notify_one u) ch ls c = (if ch c = None \<and> c \<in> set ls then Some u else ch c)"
proof (induction ls arbitrary: ch)
  case Nil
  then show ?case by simp
next
  case (Cons l ls)
  then show ?case by (auto simp: notify_one_def split: option.split)
qed

lemma monitor_Add_inv:
  assumes "monitor_inv m"
  shows "monitor_inv (fst (monitor_Add uuid m)) \<and>
    (\<exists>i. mo_inst (fst (monitor_Add uuid m)) uuid = Some i \<and> snd (monitor_Add uuid m) \<in> set (mi_listeners i))"
proof (cases "mo_inst m uuid")
  case None
  have "mo_next m \<notin> set (mi_listeners i)" if "mo_inst m u = Some i" for u i
    using assms that unfolding monitor_inv_def by blast
  with assms None show ?thesis
    unfolding monitor_inv_def
    by (auto simp: monitor_Add_def set_listeners_def Let_def less_SucI)
next
  case (Some i)
  have "mo_next m \<notin> set (mi_listeners i)" if "mo_inst m u = Some i" for u i
    using assms that unfolding monitor_inv_def by blast
  with assms Some show ?thesis
    unfolding monitor_inv_def
    by (auto simp: monitor_Add_def set_listeners_def Let_def less_SucI)
qed

definition listeners :: "monitor \<Rightarrow> string \<Rightarrow> restart_chan set" where
  "listeners m u = (case mo_inst m u of None \<Rightarrow> {} | Some i \<Rightarrow> set (mi_listeners i))"

definition restarted :: "(string \<Rightarrow> check_env) \<Rightarrow> monitor \<Rightarrow> string \<Rightarrow> bool" where
  "restarted env m u \<longleftrightarrow>
     u \<noteq> '''' \<and> (case mo_inst m u of
        None \<Rightarrow> False | Some i \<Rightarrow> snd (checker_Check (env u) (mi_checker i)) = Inr True)"

lemma monitor_inv_shrink:
  assumes inv: "monitor_inv m" and wf: "wf_alist (mo_instances m')" and nx: "mo_next m' = mo_next m"
    and sub: "\<And>u i'. mo_inst m' u = Some i' \<Longrightarrow>
      \<exists>i. mo_inst m u = Some i \<and> set (mi_listeners i') \<subseteq> set (mi_listeners i)
        \<and> distinct (mi_listeners i') \<and> (u \<noteq> '''' \<longrightarrow> mi_listeners i' \<noteq> [])"
  shows "monitor_inv m'"
proof -
  have "set (mi_listeners i') \<inter> set (mi_listeners j') = {}"
    if "mo_inst m' u = Some i'" "mo_inst m' v = Some j'" "u \<noteq> v" for u v i' j'
  proof -
    from sub [OF that(1)] sub [OF that(2)] obtain i j where "mo_inst m u = Some i" "mo_inst m v = Some j"
      "set (mi_listeners i') \<subseteq> set (mi_listeners i)" "set (mi_listeners j') \<subseteq> set (mi_listeners j)" by blast
    moreover from this inv that(3) have "set (mi_listeners i) \<inter> set (mi_listeners j) = {}"
      unfolding monitor_inv_def by blast
    ultimately show ?thesis by blast
  qed
  moreover have "distinct (mi_listeners i') \<and> (\<forall>c \<in> set (mi_listeners i'). c < mo_next m')
      \<and> (u \<noteq> '''' \<longrightarrow> mi_listeners i' \<noteq> [])" if "mo_inst m' u = Some i'" for u i'
    using sub [OF that] inv nx unfolding monitor_inv_def by (metis subsetD)
  ultimately show ?thesis
    using wf unfolding monitor_inv_def by blast
qed

text \<open>What \<open>Remove\<close> leaves of an entry, and when the entry goes.\<close>

lemma monitor_Remove_inst:
  assumes "mo_inst m '''' = Some g"
  shows "\<exists>m'. monitor_Remove uuid c m = Some m' \<and> mo_next m' = mo_next m
    \<and> (wf_alist (mo_instances m) \<longrightarrow> wf_alist (mo_instances m'))
    \<and> (\<forall>u. mo_inst m' u = (case mo_inst m u of
         None \<Rightarrow> None
       | Some i \<Rightarrow>
           if u = uuid \<or> u = '''' then
             (if u = uuid \<and> removeAll c (mi_listeners i) = [] then None
              else Some (i\<lparr>mi_listeners := removeAll c (mi_listeners i)\<rparr>))
           else Some i))"
  using assms
  by (cases "mo_inst m uuid"; cases "uuid = ''''")
    (auto simp: monitor_Remove_def set_listeners_def Let_def split: option.split)

lemma monitor_Remove_spec:
  assumes inv: "monitor_inv m" and g: "mo_inst m '''' = Some g"
  shows "\<exists>m'. monitor_Remove uuid c m = Some m' \<and> monitor_inv m'
    \<and> listeners m' uuid = listeners m uuid - {c} \<and> listeners m' '''' = listeners m '''' - {c}
    \<and> (mo_inst m' '''' = None \<longleftrightarrow> uuid = '''' \<and> listeners m '''' \<subseteq> {c})
    \<and> (\<forall>u. u \<noteq> '''' \<longrightarrow> u \<noteq> uuid \<longrightarrow> mo_inst m' u = mo_inst m u)"
proof -
  from monitor_Remove_inst [OF g, of uuid c] obtain m' where m': "monitor_Remove uuid c m = Some m'"
    "mo_next m' = mo_next m" "wf_alist (mo_instances m')"
    and inst: "\<And>u. mo_inst m' u = (case mo_inst m u of
         None \<Rightarrow> None
       | Some i \<Rightarrow>
           if u = uuid \<or> u = '''' then
             (if u = uuid \<and> removeAll c (mi_listeners i) = [] then None
              else Some (i\<lparr>mi_listeners := removeAll c (mi_listeners i)\<rparr>))
           else Some i)"
    using inv unfolding monitor_inv_def by blast
  have empty: "removeAll c ls = [] \<longleftrightarrow> set ls \<subseteq> {c}" for ls
    using set_removeAll [of c ls] by (metis Diff_eq_empty_iff set_empty)
  have "monitor_inv m'"
  proof (rule monitor_inv_shrink [OF inv m'(3,2)])
    fix u i' assume "mo_inst m' u = Some i'"
    with inst [of u] inv show "\<exists>i. mo_inst m u = Some i \<and> set (mi_listeners i') \<subseteq> set (mi_listeners i)
        \<and> distinct (mi_listeners i') \<and> (u \<noteq> '''' \<longrightarrow> mi_listeners i' \<noteq> [])"
      unfolding monitor_inv_def by (auto simp: distinct_removeAll split: option.splits if_splits)
  qed
  moreover have "listeners m' uuid = listeners m uuid - {c}" "listeners m' '''' = listeners m '''' - {c}"
    using inst [of uuid] inst [of "''''"] by (auto simp: listeners_def empty split: option.splits if_splits)
  moreover have "mo_inst m' '''' = None \<longleftrightarrow> uuid = '''' \<and> listeners m '''' \<subseteq> {c}"
    using inst [of "''''"] g by (simp add: listeners_def empty)
  moreover have "mo_inst m' u = mo_inst m u" if "u \<noteq> ''''" "u \<noteq> uuid" for u
    using inst [of u] that by (simp split: option.split)
  ultimately show ?thesis using m'(1) by (intro exI [of _ m']) simp
qed

lemma check_one_spec:
  assumes g: "mo_inst m '''' = Some g"
  shows "\<exists>m'. monitor_check_one env m u = Some m'
    \<and> mo_inst m' '''' = Some g \<and> listeners m' = listeners m
    \<and> (\<forall>v. v \<noteq> u \<longrightarrow> restarted env m' v = restarted env m v)
    \<and> (\<forall>c. mo_chan m' c = (if mo_chan m c = None \<and> restarted env m u \<and> c \<in> listeners m u \<union> listeners m ''''
          then Some u else mo_chan m c))"
proof (cases "u = '''' \<or> mo_inst m u = None")
  case True
  with g show ?thesis by (auto simp: monitor_check_one_def restarted_def)
next
  case False
  then obtain i where i: "mo_inst m u = Some i" "u \<noteq> ''''" by auto
  show ?thesis
  proof (cases "snd (checker_Check (env u) (mi_checker i)) = Inr True")
    case True
    with g i show ?thesis
      by (auto simp: monitor_check_one_def restarted_def listeners_def foldl_notify fun_eq_iff split_beta Let_def)
  next
    case False
    with g i show ?thesis
      by (auto simp: monitor_check_one_def restarted_def listeners_def fun_eq_iff split_beta Let_def)
  qed
qed

lemma check_all_spec:
  assumes "mo_inst m '''' = Some g" and "distinct us"
  shows "\<exists>m'. monitor_check_all env us m = Some m'
    \<and> (\<forall>c. mo_chan m' c = (case mo_chan m c of
         Some x \<Rightarrow> Some x
       | None \<Rightarrow> List.find (\<lambda>u. restarted env m u \<and> c \<in> listeners m u \<union> listeners m '''') us))"
  using assms
proof (induction us arbitrary: m)
  case Nil
  then show ?case by (auto split: option.split)
next
  case (Cons u us)
  from check_one_spec [OF Cons.prems(1), of env u] obtain m1 where
    m1: "monitor_check_one env m u = Some m1" "mo_inst m1 '''' = Some g" "listeners m1 = listeners m"
    "\<And>v. v \<noteq> u \<Longrightarrow> restarted env m1 v = restarted env m v"
    "\<And>c. mo_chan m1 c = (if mo_chan m c = None \<and> restarted env m u \<and> c \<in> listeners m u \<union> listeners m ''''
          then Some u else mo_chan m c)" by auto
  from Cons.IH [OF m1(2)] Cons.prems(2) obtain m2 where m2: "monitor_check_all env us m1 = Some m2"
    "\<And>c. mo_chan m2 c = (case mo_chan m1 c of
         Some x \<Rightarrow> Some x
       | None \<Rightarrow> List.find (\<lambda>u. restarted env m1 u \<and> c \<in> listeners m1 u \<union> listeners m1 '''') us)" by auto
  have "List.find (\<lambda>u. restarted env m1 u \<and> c \<in> listeners m1 u \<union> listeners m1 '''') us
      = List.find (\<lambda>u. restarted env m u \<and> c \<in> listeners m u \<union> listeners m '''') us" for c
  proof (rule find_cong [OF refl])
    fix x assume "x \<in> set us"
    with Cons.prems(2) have "restarted env m1 x = restarted env m x" by (intro m1(4)) auto
    then show "(restarted env m1 x \<and> c \<in> listeners m1 x \<union> listeners m1 '''')
        = (restarted env m x \<and> c \<in> listeners m x \<union> listeners m '''')"
      by (simp add: m1(3))
  qed
  with m1 m2 show ?case by (auto split: option.split)
qed

text \<open>
  A check notifies exactly the right listeners. It leaves every full channel alone, and puts
  into an empty one the first instance, in the order of the check, that has restarted and that the
  channel listens to, on its own or as a global listener; a channel that listens to no restarted
  instance stays empty. The check of one instance does not depend on the failures of another.
\<close>

theorem monitor_Check_notifies:
  assumes "monitor_inv m" and "mo_inst m '''' = Some g"
  shows "\<exists>m'. monitor_Check env m = Some m'
    \<and> (\<forall>c. mo_chan m' c = (case mo_chan m c of
         Some x \<Rightarrow> Some x
       | None \<Rightarrow> List.find (\<lambda>u. restarted env m u \<and> c \<in> listeners m u \<union> listeners m '''')
                   (map fst (mo_instances m))))"
proof -
  let ?m = "m\<lparr>mo_status := status_Update MONITOR_NAME ''Checking'' (mo_status m)\<rparr>"
  have r: "restarted env ?m = restarted env m" and l: "listeners ?m = listeners m"
    by (simp_all add: restarted_def listeners_def fun_eq_iff)
  have "distinct (map fst (mo_instances m))"
    using assms(1) by (simp add: monitor_inv_def wf_alist_def)
  with check_all_spec [of ?m g "map fst (mo_instances m)" env] assms(2) show ?thesis
    unfolding r l monitor_Check_def by simp
qed

definition demo_monitor :: monitor where
  "demo_monitor = NewRealMonitor\<lparr>mo_instances :=
     [('''', \<lparr>mi_checker = NewMySQLChecker, mi_listeners = [0]\<rparr>),
      (''a'', \<lparr>mi_checker = \<lparr>ch_lastUptime = 9, ch_lastUptimeCheck = 0\<rparr>, mi_listeners = [1]\<rparr>),
      (''b'', \<lparr>mi_checker = \<lparr>ch_lastUptime = 9, ch_lastUptimeCheck = 0\<rparr>, mi_listeners = [2]\<rparr>)],
     mo_next := 3\<rparr>"

lemma demo_monitor_inv: "monitor_inv demo_monitor"
  unfolding monitor_inv_def
proof (intro conjI allI impI)
  show "wf_alist (mo_instances demo_monitor)" by (simp add: demo_monitor_def wf_alist_def)
qed (auto simp: demo_monitor_def split: if_splits)

lemma demo_monitor_global:
  "mo_inst demo_monitor '''' = Some \<lparr>mi_checker = NewMySQLChecker, mi_listeners = [0]\<rparr>"
  by (simp add: demo_monitor_def)

theorem monitor_Check_notifies_witness:
  "\<exists>m'. monitor_Check (\<lambda>u. \<lparr>ce_connectErr = (u = ''a''), ce_uptime = Some 5, ce_now1 = 0, ce_now2 = 0\<rparr>) demo_monitor
      = Some m' \<and> map (mo_chan m') [0, 1, 2] = [Some ''b'', None, Some ''b'']"
proof -
  define env where "env = (\<lambda>u. \<lparr>ce_connectErr = (u = ''a''), ce_uptime = Some (5 :: int), ce_now1 = (0 :: int),
    ce_now2 = (0 :: int)\<rparr>)"
  from monitor_Check_notifies [OF demo_monitor_inv demo_monitor_global, of env]
  obtain m' where m': "monitor_Check env demo_monitor = Some m'"
    "\<forall>c. mo_chan m' c = (case mo_chan demo_monitor c of Some x \<Rightarrow> Some x
       | None \<Rightarrow> List.find (\<lambda>u. restarted env demo_monitor u
              \<and> c \<in> listeners demo_monitor u \<union> listeners demo_monitor '''')
                   (map fst (mo_instances demo_monitor)))"
    by (elim exE conjE)
  have "map (mo_chan m') [0, 1, 2] = [Some ''b'', None, Some ''b'']"
    by (simp add: m'(2) demo_monitor_def NewRealMonitor_def restarted_def listeners_def checker_Check_def
        unix_sec_def env_def)
  with m'(1) show ?thesis by (simp add: env_def)
qed

text \<open>
  Removing the last global listener under the empty UUID deletes the entry the global
  listeners live in; from then on every \<open>Remove\<close> and every check that finds a restarted instance
  dereferences a nil pointer. While the entry exists, \<open>Remove\<close> succeeds, takes the channel out of
  the instance and of the global listeners and touches no other instance.
\<close>

theorem monitor_Remove_global:
  assumes "monitor_inv m" and "mo_inst m '''' = Some g"
  shows "(\<exists>m'. monitor_Remove uuid c m = Some m' \<and> monitor_inv m'
        \<and> listeners m' uuid = listeners m uuid - {c} \<and> listeners m' '''' = listeners m '''' - {c}
        \<and> (\<forall>u. u \<noteq> '''' \<longrightarrow> u \<noteq> uuid \<longrightarrow> mo_inst m' u = mo_inst m u))
    \<and> (listeners m '''' \<subseteq> {c} \<longrightarrow>
        (\<exists>m'. monitor_Remove '''' c m = Some m' \<and> (\<forall>v d. monitor_Remove v d m' = None)))"
proof -
  have "monitor_Remove v d m' = None" if "mo_inst m' '''' = None" for v d m'
    using that by (simp add: monitor_Remove_def)
  then have "\<exists>m'. monitor_Remove '''' c m = Some m' \<and> (\<forall>v d. monitor_Remove v d m' = None)"
    if "listeners m '''' \<subseteq> {c}"
    using monitor_Remove_spec [OF assms, of "''''" c] that by (elim exE) (intro exI conjI, auto)
  moreover obtain m' where "monitor_Remove uuid c m = Some m'" "monitor_inv m'"
    "listeners m' uuid = listeners m uuid - {c}" "listeners m' '''' = listeners m '''' - {c}"
    "\<forall>u. u \<noteq> '''' \<longrightarrow> u \<noteq> uuid \<longrightarrow> mo_inst m' u = mo_inst m u"
    using monitor_Remove_spec [OF assms, of uuid c] by (elim exE conjE)
  ultimately show ?thesis by simp
qed

theorem monitor_Remove_global_witness:
  "\<exists>m'. monitor_Remove '''' 0 demo_monitor = Some m' \<and> (\<forall>v d. monitor_Remove v d m' = None)"
  using monitor_Remove_global [OF demo_monitor_inv demo_monitor_global, of "''a''" 0]
  by (auto simp: demo_monitor_def listeners_def)

section \<open>The service\<close>

text \<open>
  \<open>mrms/manager.go\<close> and \<open>Start\<close> and \<open>Stop\<close> of the monitor. \<open>mm_running\<close> counts the goroutines of
  the monitor. \<open>Stop\<close> sends on the unbuffered stop channel and then waits: without a goroutine it
  blocks, the value \<open>None\<close>, and of several it ends one.
\<close>

record mrms_manager =
  mm_status :: status
  mm_monitor :: monitor
  mm_running :: nat

definition MRMS_SERVICE :: string where "MRMS_SERVICE = ''mrms''"

definition NewMrmsManager :: "monitor \<Rightarrow> mrms_manager" where
  "NewMrmsManager mo = \<lparr>mm_status = NewStatus [MRMS_SERVICE], mm_monitor = mo, mm_running = 0\<rparr>"

definition monitor_Start :: "mrms_manager \<Rightarrow> mrms_manager" where
  "monitor_Start m = m\<lparr>mm_running := mm_running m + 1\<rparr>"

definition monitor_Stop :: "mrms_manager \<Rightarrow> mrms_manager option" where
  "monitor_Stop m =
     (if mm_running m = 0 then None
      else map_option
        (\<lambda>sy. m\<lparr>mm_running := mm_running m - 1,
               mm_monitor := (mm_monitor m)\<lparr>mo_status := status_Update MONITOR_NAME ''Stopped'' (mo_status (mm_monitor m)),
                                            mo_sync := sy\<rparr>\<rparr>)
        (Option.bind (sync_Done (mo_sync (mm_monitor m))) (sync_Wait False)))"

definition mrms_Start :: "mrms_manager \<Rightarrow> mrms_manager" where
  "mrms_Start m =
     (let m = m\<lparr>mm_status := status_Update MRMS_SERVICE ''Starting'' (mm_status m)\<rparr>;
          m = monitor_Start m
      in m\<lparr>mm_status := status_Update MRMS_SERVICE ''Running'' (mm_status m)\<rparr>)"

definition mrms_Stop :: "mrms_manager \<Rightarrow> mrms_manager option" where
  "mrms_Stop m =
     (let m = m\<lparr>mm_status := status_Update MRMS_SERVICE ''Stopping'' (mm_status m)\<rparr>
      in map_option (\<lambda>m. m\<lparr>mm_status := status_Update MRMS_SERVICE ''Stopped'' (mm_status m)\<rparr>) (monitor_Stop m))"

definition mrms_Handle :: "string \<Rightarrow> string" where
  "mrms_Handle cmd = ''Unknown command: '' @ cmd"

definition mrms_Status :: "mrms_manager \<Rightarrow> status" where
  "mrms_Status m = status_All (mm_status m) ++ status_All (mo_status (mm_monitor m))"

text \<open>
  \<open>Start\<close> does not look whether the service runs already. Started twice and stopped once it reports
  that it is stopped and one monitor still checks; a \<open>Stop\<close> of a service that does not run never
  returns.
\<close>

lemma mrms_Stop_count:
  assumes "mo_sync (mm_monitor m) = NewSyncChan"
  shows "mrms_Stop m = None \<longleftrightarrow> mm_running m = 0"
    and "mrms_Stop m = Some m' \<Longrightarrow> mm_running m' = mm_running m - 1 \<and> mo_sync (mm_monitor m') = NewSyncChan"
  using assms
  by (auto simp: mrms_Stop_def monitor_Stop_def sync_Done_def sync_Wait_def NewSyncChan_def Let_def split: if_splits)

lemma mrms_start_twice:
  "\<exists>m. mrms_Stop (mrms_Start (mrms_Start (NewMrmsManager NewRealMonitor))) = Some m \<and> mm_running m = 1
    \<and> mrms_Status m MRMS_SERVICE = Some ''Stopped''"
  by (simp add: mrms_Stop_def mrms_Start_def monitor_Stop_def monitor_Start_def NewMrmsManager_def NewRealMonitor_def
      sync_Done_def sync_Wait_def NewSyncChan_def mrms_Status_def status_All_def status_Update_def NewStatus_def
      MRMS_SERVICE_def MONITOR_NAME_def map_add_def)

end
