(* ===== verification/SlowLog.thy ===== *)
theory SlowLog
  imports Report Pct "HOL-Library.Char_ord" "HOL-Library.List_Lexorder"
begin

text \<open>
  The slow log side of the MySQL analyzer, \<open>qan/analyzer/mysql/worker/slowlog\<close>: the iterator that
  cuts the growing log into intervals (\<open>iter.go\<close>), the iterator of the performance schema
  (\<open>perfschema/iter.go\<close>), and the worker that parses one interval and rotates the log
  (\<open>worker.go\<close>). The file system and the server are what the functions get as arguments; the
  parser, the fingerprinter and the event aggregator, which are third-party packages, are
  parameters.
\<close>

section \<open>Iterators\<close>

text \<open>
  A time is an \<open>int\<close>; 0 is Go's zero time. A \<open>FileInfo\<close> is the identity of the file, and
  \<open>os.SameFile\<close> is false when either is nil.
\<close>

definition zero_interval :: interval where
  "zero_interval = \<lparr>iv_Number = 0, iv_StartTime = 0, iv_StopTime = 0, iv_Filename = '''',
     iv_StartOffset = 0, iv_EndOffset = 0\<rparr>"

definition SameFile :: "nat option \<Rightarrow> nat option \<Rightarrow> bool" where
  "SameFile a b \<longleftrightarrow> a \<noteq> None \<and> a = b"

record siter =
  si_intervalNo :: int
  si_prevFileInfo :: "nat option"
  si_cur :: interval

definition NewIter :: siter where
  "NewIter = \<lparr>si_intervalNo = 0, si_prevFileInfo = None, si_cur = zero_interval\<rparr>"

text \<open>
  What one tick finds: the file name, its size and its identity, each of which may fail, and
  whether the interval channel takes an interval within a second.
\<close>

record tick_env =
  te_now :: int
  te_filename :: "string option"
  te_size :: "int option"
  te_stat :: "nat option"
  te_accepted :: bool

datatype emit = Sent interval | Lost interval

fun emitted :: "emit \<Rightarrow> interval" where
  "emitted (Sent i) = i"
| "emitted (Lost i) = i"

definition offer :: "bool \<Rightarrow> interval \<Rightarrow> emit" where
  "offer accepted i = (if accepted then Sent i else Lost i)"

definition iter_tick :: "tick_env \<Rightarrow> siter \<Rightarrow> siter \<times> emit option" where
  "iter_tick e i =
     (case te_filename e of
        None \<Rightarrow> (i\<lparr>si_cur := zero_interval\<rparr>, None)
      | Some curFile \<Rightarrow>
          (case te_size e of
             None \<Rightarrow> (i\<lparr>si_cur := zero_interval\<rparr>, None)
           | Some curSize \<Rightarrow>
               (let fileChanged = \<not> SameFile (si_prevFileInfo i) (te_stat e);
                    i = i\<lparr>si_prevFileInfo := te_stat e\<rparr>
                in if iv_StartTime (si_cur i) \<noteq> 0 then
                     (let i = i\<lparr>si_intervalNo := si_intervalNo i + 1\<rparr>;
                          cur = (si_cur i)\<lparr>iv_Filename := curFile,
                                  iv_StartOffset := (if fileChanged then 0 else iv_StartOffset (si_cur i)),
                                  iv_EndOffset := curSize, iv_StopTime := te_now e, iv_Number := si_intervalNo i\<rparr>
                      in (i\<lparr>si_cur := zero_interval\<lparr>iv_StartTime := te_now e, iv_StartOffset := curSize\<rparr>\<rparr>,
                          Some (offer (te_accepted e) cur)))
                   else
                     (i\<lparr>si_cur := (si_cur i)\<lparr>iv_StartOffset := curSize, iv_StartTime := te_now e\<rparr>,
                        si_prevFileInfo := te_stat e\<rparr>, None))))"

fun iter_run :: "tick_env list \<Rightarrow> siter \<Rightarrow> siter \<times> emit list" where
  "iter_run [] i = (i, [])"
| "iter_run (e # es) i =
     (let (i, out) = iter_tick e i; (i, outs) = iter_run es i
      in (i, (case out of None \<Rightarrow> outs | Some x \<Rightarrow> x # outs)))"

text \<open>The iterator of the performance schema counts ticks; its run starts from scratch.\<close>

record piter =
  pi_n :: int
  pi_prev :: int

definition piter_start :: piter where
  "piter_start = \<lparr>pi_n = 0, pi_prev = 0\<rparr>"

definition piter_tick :: "int \<times> bool \<Rightarrow> piter \<Rightarrow> piter \<times> emit" where
  "piter_tick e i =
     (case e of (now, accepted) \<Rightarrow>
        (\<lparr>pi_n = pi_n i + 1, pi_prev = now\<rparr>,
         offer accepted (zero_interval\<lparr>iv_Number := pi_n i + 1, iv_StartTime := pi_prev i, iv_StopTime := now\<rparr>)))"

section \<open>The worker\<close>

record sconfig =
  sc_Interval :: u64
  sc_MaxSlowLogSize :: int
  sc_SlowLogRotation :: "bool option"
  sc_RetainSlowLogs :: "int option"
  sc_ExampleQueries :: "bool option"

definition boolValue :: "bool option \<Rightarrow> bool" where
  "boolValue v = (case v of None \<Rightarrow> False | Some b \<Rightarrow> b)"

definition intValue :: "int option \<Rightarrow> int" where
  "intValue v = (case v of None \<Rightarrow> 0 | Some n \<Rightarrow> n)"

record Job =
  jb_Id :: string
  jb_SlowLogFile :: string
  jb_RunTime :: int
  jb_StartOffset :: int
  jb_EndOffset :: int
  jb_ExampleQueries :: bool
  jb_RetainSlowLogs :: int

text \<open>
  The directory of the slow log as its files with their sizes, and whether the server writes the
  log. Which calls fail, and the Unix time, come from outside.
\<close>

record slow_world =
  wd_files :: "(string \<times> int) list"
  wd_enabled :: bool

record rotate_env =
  re_connect :: bool
  re_stop :: bool
  re_rename :: bool
  re_start :: bool
  re_flush_slow :: bool
  re_flush :: bool
  re_glob :: bool
  re_remove :: "string \<Rightarrow> bool"
  re_unix :: int

datatype rotate_err = ConnectErr | StopErr | RenameErr | StartErr | FlushErr | GlobErr

definition rename_file :: "bool \<Rightarrow> string \<Rightarrow> string \<Rightarrow> (string \<times> int) list \<Rightarrow> (string \<times> int) list option" where
  "rename_file err from to files =
     (case map_of files from of
        None \<Rightarrow> None
      | Some n \<Rightarrow> if err then None else Some (alist_put to n (alist_del from files)))"

definition FileSize :: "(string \<times> int) list \<Rightarrow> string \<Rightarrow> int" where
  "FileSize files f = (case map_of files f of None \<Rightarrow> -1 | Some n \<Rightarrow> n)"

text \<open>\<open>filepath.Glob(cur + "-*")\<close>, for a path without pattern characters: \<open>*\<close> matches no slash.\<close>

definition rotated_of :: "string \<Rightarrow> string \<Rightarrow> bool" where
  "rotated_of cur f \<longleftrightarrow> HasPrefix f (cur @ ''-'') \<and> CHR ''/'' \<notin> set (drop (length cur + 1) f)"

definition glob_rotated :: "string \<Rightarrow> (string \<times> int) list \<Rightarrow> string list" where
  "glob_rotated cur files = filter (rotated_of cur) (map fst files)"

definition remove_file :: "(string \<Rightarrow> bool) \<Rightarrow> (string \<times> int) list \<Rightarrow> string \<Rightarrow> (string \<times> int) list" where
  "remove_file err files f = (if err f then files else alist_del f files)"

definition rotated_name :: "string \<Rightarrow> int \<Rightarrow> string" where
  "rotated_name f unix = f @ ''-'' @ string_of_int unix"

text \<open>
  The purge of old slow logs. The number to retain is not negative: the source would slice beyond
  the list otherwise.
\<close>

definition purge :: "(string \<Rightarrow> bool) \<Rightarrow> int \<Rightarrow> string list \<Rightarrow> (string \<times> int) list \<Rightarrow> (string \<times> int) list" where
  "purge err retain filesFound files =
     (if int (length filesFound) \<le> retain then files
      else foldl (remove_file err) files (take (nat (int (length filesFound) - retain)) (sort filesFound)))"

definition rotateSlowLog ::
  "rotate_env \<Rightarrow> sconfig \<Rightarrow> slow_world \<times> interval \<Rightarrow> (slow_world \<times> interval) \<times> rotate_err option" where
  "rotateSlowLog e c wi =
     (case wi of (wd, interval) \<Rightarrow>
        if re_connect e then ((wd, interval), Some ConnectErr)
        else if re_stop e then ((wd, interval), Some StopErr)
        else
          (let wd = wd\<lparr>wd_enabled := False\<rparr>;
               newSlowLogFile = rotated_name (iv_Filename interval) (re_unix e)
           in case rename_file (re_rename e) (iv_Filename interval) newSlowLogFile (wd_files wd) of
                None \<Rightarrow> ((wd, interval), Some RenameErr)
              | Some files \<Rightarrow>
                  (let wd = wd\<lparr>wd_files := files\<rparr>
                   in if re_start e then ((wd, interval), Some StartErr)
                      else
                        (let wd = wd\<lparr>wd_enabled := True\<rparr>
                         in if re_flush_slow e \<and> re_flush e then ((wd, interval), Some FlushErr)
                            else
                              (let curSlowLog = iv_Filename interval;
                                   interval = interval\<lparr>iv_Filename := newSlowLogFile,
                                                iv_EndOffset := FileSize files newSlowLogFile\<rparr>
                               in if re_glob e then ((wd, interval), Some GlobErr)
                                  else
                                    ((wd\<lparr>wd_files := purge (re_remove e) (intValue (sc_RetainSlowLogs c))
                                           (glob_rotated curSlowLog files) files\<rparr>, interval), None))))))"

definition workerRunTime :: "u64 \<Rightarrow> int" where
  "workerRunTime interval = \<lfloor>of_nat (unat interval) * (9 / 10 :: rat)\<rfloor> * 1000000000"

definition make_job :: "sconfig \<Rightarrow> interval \<Rightarrow> Job" where
  "make_job c interval =
     \<lparr>jb_Id = string_of_int (iv_Number interval), jb_SlowLogFile = iv_Filename interval,
      jb_RunTime = workerRunTime (sc_Interval c), jb_StartOffset = iv_StartOffset interval,
      jb_EndOffset = iv_EndOffset interval, jb_ExampleQueries = boolValue (sc_ExampleQueries c),
      jb_RetainSlowLogs = intValue (sc_RetainSlowLogs c)\<rparr>"

definition needs_rotation :: "sconfig \<Rightarrow> interval \<Rightarrow> bool" where
  "needs_rotation c interval \<longleftrightarrow> boolValue (sc_SlowLogRotation c) \<and> iv_EndOffset interval \<ge> sc_MaxSlowLogSize c"

text \<open>\<open>Setup\<close>; the error of a rotation is only logged. The interval is changed in place.\<close>

definition sworker_Setup :: "rotate_env \<Rightarrow> sconfig \<Rightarrow> slow_world \<times> interval \<Rightarrow> slow_world \<times> interval \<times> Job" where
  "sworker_Setup e c wi =
     (let (wd, interval) = (if needs_rotation c (snd wi) then fst (rotateSlowLog e c wi) else wi)
      in (wd, interval, make_job c interval))"

section \<open>Parsing an interval\<close>

record sevent =
  ev_Offset :: u64
  ev_RateType :: string
  ev_RateLimit :: u64
  ev_Query :: string

datatype stop_reason =
    EndOfLog
  | Stopped
  | Timeout
  | PastEnd int
  | MixedRates string u64 string u64

text \<open>
  An event comes with what the loop sees around it: the time since the start, in nanoseconds,
  and whether \<open>Stop\<close> has been called. \<open>fingerprint\<close> is \<open>None\<close> for a query on which the
  fingerprinter crashes; \<open>addEvent\<close> is the aggregator's \<open>AddEvent\<close>.
\<close>

fun event_loop ::
  "(string \<Rightarrow> string option) \<Rightarrow> (string \<Rightarrow> string) \<Rightarrow> ('a \<Rightarrow> sevent \<Rightarrow> string \<Rightarrow> string \<Rightarrow> 'a) \<Rightarrow> Job
     \<Rightarrow> (sevent \<times> int \<times> bool) list \<Rightarrow> 'a \<times> string \<times> u64 \<Rightarrow> ('a \<times> string \<times> u64) \<times> stop_reason" where
  "event_loop fingerprint queryId addEvent job [] st = (st, EndOfLog)"
| "event_loop fingerprint queryId addEvent job ((ev, runtime, stop) # evs) (agg, rateType, rateLimit) =
     (if stop then ((agg, rateType, rateLimit), Stopped)
      else if runtime \<ge> jb_RunTime job then ((agg, rateType, rateLimit), Timeout)
      else if sint (ev_Offset ev) \<ge> jb_EndOffset job then
        ((agg, rateType, rateLimit), PastEnd (sint (ev_Offset ev)))
      else if ev_RateType ev \<noteq> '''' \<and> rateType \<noteq> ''''
          \<and> (rateType \<noteq> ev_RateType ev \<or> rateLimit \<noteq> ev_RateLimit ev) then
        ((agg, rateType, rateLimit), MixedRates rateType rateLimit (ev_RateType ev) (ev_RateLimit ev))
      else
        (let (rateType, rateLimit) =
               (if ev_RateType ev \<noteq> '''' \<and> rateType = '''' then (ev_RateType ev, ev_RateLimit ev)
                else (rateType, rateLimit));
             agg = (case fingerprint (ev_Query ev) of
                      Some f \<Rightarrow> addEvent agg ev (queryId f) f
                    | None \<Rightarrow> agg)
         in event_loop fingerprint queryId addEvent job evs (agg, rateType, rateLimit)))"

record 'a run_env =
  rn_open :: bool
  rn_events :: "(sevent \<times> int \<times> bool) list"
  rn_position :: int
  rn_parserErr :: string
  rn_errText :: "stop_reason \<Rightarrow> string"
  rn_elapsed :: float64
  rn_empty :: 'a
  rn_finalize :: "'a \<Rightarrow> qclass \<times> qclass list"

text \<open>
  \<open>Run\<close>: \<open>None\<close> when the file cannot be opened. The classes of the aggregator's map are stored
  from the back. \<open>rn_position\<close> is the result of seeking to the current position.
\<close>

definition sworker_Run ::
  "(string \<Rightarrow> string option) \<Rightarrow> (string \<Rightarrow> string) \<Rightarrow> ('a \<Rightarrow> sevent \<Rightarrow> string \<Rightarrow> string \<Rightarrow> 'a)
     \<Rightarrow> 'a run_env \<Rightarrow> Job \<Rightarrow> result option" where
  "sworker_Run fingerprint queryId addEvent e job =
     (if \<not> rn_open e then None
      else
        (let ((agg, rateType, rateLimit), reason) =
               event_loop fingerprint queryId addEvent job (rn_events e) (rn_empty e, '''', 0);
             stopOffset = (case reason of PastEnd n \<Rightarrow> n | _ \<Rightarrow> 0);
             err = (case reason of Timeout \<Rightarrow> rn_errText e reason
                    | MixedRates _ _ _ _ \<Rightarrow> rn_errText e reason
                    | _ \<Rightarrow> rn_parserErr e);
             (global, classes) = rn_finalize e agg
         in Some \<lparr>rs_Global = global, rs_Class = rev classes, rs_RateLimit = rateLimit,
                  rs_RunTime = rn_elapsed e,
                  rs_StopOffset = (if stopOffset = 0 then rn_position e else stopOffset), rs_Error = err\<rparr>))"

section \<open>The intervals of the iterator\<close>

definition tick_ok :: "tick_env \<Rightarrow> bool" where
  "tick_ok e \<longleftrightarrow> te_filename e \<noteq> None \<and> te_size e \<noteq> None"

text \<open>The interval between two ticks that both found the log.\<close>

definition between :: "int \<Rightarrow> tick_env \<times> tick_env \<Rightarrow> interval" where
  "between n ab =
     \<lparr>iv_Number = n, iv_StartTime = te_now (fst ab), iv_StopTime = te_now (snd ab),
      iv_Filename = the (te_filename (snd ab)),
      iv_StartOffset = (if SameFile (te_stat (fst ab)) (te_stat (snd ab)) then the (te_size (fst ab)) else 0),
      iv_EndOffset = the (te_size (snd ab))\<rparr>"

definition ok_pairs :: "tick_env list \<Rightarrow> (tick_env \<times> tick_env) list" where
  "ok_pairs es = filter (\<lambda>(a, b). tick_ok a \<and> tick_ok b) (zip es (tl es))"

fun number_from :: "int \<Rightarrow> (tick_env \<times> tick_env) list \<Rightarrow> emit list" where
  "number_from n [] = []"
| "number_from n (p # ps) = offer (te_accepted (snd p)) (between (n + 1) p) # number_from (n + 1) ps"

definition after_tick :: "tick_env \<Rightarrow> siter \<Rightarrow> bool" where
  "after_tick e i \<longleftrightarrow>
     (if tick_ok e
      then si_cur i = zero_interval\<lparr>iv_StartTime := te_now e, iv_StartOffset := the (te_size e)\<rparr>
           \<and> si_prevFileInfo i = te_stat e
      else si_cur i = zero_interval)"

lemma iter_tick_after:
  assumes "after_tick p i" and "te_now p \<noteq> 0" and "iter_tick e i = (i', out)"
  shows "after_tick e i'"
    and "if tick_ok p \<and> tick_ok e
         then si_intervalNo i' = si_intervalNo i + 1
           \<and> out = Some (offer (te_accepted e) (between (si_intervalNo i + 1) (p, e)))
         else si_intervalNo i' = si_intervalNo i \<and> out = None"
  using assms
  by (auto simp: after_tick_def tick_ok_def iter_tick_def between_def zero_interval_def Let_def
      split: option.splits if_splits)

lemma emitted_offer [simp]: "emitted (offer b i) = i"
  by (simp add: offer_def)

lemma iter_run_after:
  assumes "after_tick p i" and "\<forall>e \<in> set (p # es). te_now e \<noteq> 0"
  shows "snd (iter_run es i) = number_from (si_intervalNo i) (ok_pairs (p # es))"
  using assms
proof (induction es arbitrary: p i)
  case Nil
  then show ?case by (simp add: ok_pairs_def)
next
  case (Cons e es)
  obtain i' out where t: "iter_tick e i = (i', out)" by fastforce
  note a = iter_tick_after [OF Cons.prems(1) _ t]
  have "snd (iter_run es i') = number_from (si_intervalNo i') (ok_pairs (e # es))"
    using Cons.IH [OF a(1)] Cons.prems(2) by simp
  with a(2) Cons.prems(2) t show ?case
    by (auto simp: ok_pairs_def Let_def case_prod_beta split: if_splits)
qed

lemma iter_run_spec:
  assumes "\<forall>e \<in> set es. te_now e \<noteq> 0"
  shows "snd (iter_run es NewIter) = number_from 0 (ok_pairs es)"
proof (cases es)
  case Nil
  then show ?thesis by (simp add: ok_pairs_def)
next
  case (Cons e es')
  obtain i' out where t: "iter_tick e NewIter = (i', out)" by fastforce
  then have "after_tick e i' \<and> out = None \<and> si_intervalNo i' = 0"
    by (auto simp: iter_tick_def NewIter_def zero_interval_def after_tick_def tick_ok_def Let_def split: option.splits)
  moreover from this have "snd (iter_run es' i') = number_from (si_intervalNo i') (ok_pairs (e # es'))"
    using assms Cons by (intro iter_run_after) auto
  ultimately show ?thesis using Cons t by (simp add: Let_def case_prod_beta)
qed

text \<open>
  C16: the iterator cuts the log as specified, whatever the ticks find. From a fresh iterator the
  intervals offered, sent or lost, are exactly those between consecutive ticks that both found
  the file and its size, numbered from 1 without gaps; each starts where the one before stopped,
  or at offset 0 when the file is not the one of the previous tick. An interval is lost exactly
  when the channel did not take it in time.
\<close>

theorem iter_run_intervals:
  assumes "\<forall>e \<in> set es. te_now e \<noteq> 0"
  shows "snd (iter_run es NewIter) = number_from 0 (ok_pairs es)"
  using assms by (rule iter_run_spec)

section \<open>Rotation\<close>

lemma foldl_remove:
  assumes "\<forall>f. \<not> err f"
  shows "foldl (remove_file err) files xs = filter (\<lambda>(k, v). k \<notin> set xs) files"
proof (induction xs arbitrary: files)
  case Nil
  then show ?case by simp
next
  case (Cons x xs)
  then show ?case using assms by (auto simp: remove_file_def alist_del_def case_prod_beta intro: filter_cong)
qed

lemma filter_not_in_take: "distinct ys \<Longrightarrow> filter (\<lambda>y. y \<notin> set (take n ys)) ys = drop n ys"
proof (induction ys arbitrary: n)
  case Nil
  then show ?case by simp
next
  case (Cons y ys)
  then show ?case
  proof (cases n)
    case (Suc m)
    have "filter (\<lambda>z. z \<noteq> y \<and> z \<notin> set (take m ys)) ys = filter (\<lambda>z. z \<notin> set (take m ys)) ys"
      using Cons.prems by (intro filter_cong) auto
    with Suc Cons show ?thesis by simp
  qed simp
qed

lemma purge_rotated:
  fixes cur :: string
  assumes "wf_alist files" and "\<forall>f. \<not> err f" and "0 \<le> retain"
  defines "found \<equiv> glob_rotated cur files"
  shows "sort (glob_rotated cur (purge err retain found files))
    = drop (length found - nat retain) (sort found)"
proof (cases "int (length found) \<le> retain")
  case True
  then show ?thesis by (simp add: purge_def flip: found_def)
next
  case False
  let ?n = "nat (int (length found) - retain)"
  have n: "?n = length found - nat retain" using False assms(3) by simp
  have "glob_rotated cur (purge err retain found files) = filter (\<lambda>f. f \<notin> set (take ?n (sort found))) found"
    using False assms(2)
    by (simp add: purge_def foldl_remove glob_rotated_def found_def filter_map o_def case_prod_beta conj_commute)
  moreover have "distinct found" using assms(1) by (simp add: found_def glob_rotated_def wf_alist_def)
  ultimately show ?thesis
    using filter_not_in_take [of "sort found" ?n] by (simp add: n flip: filter_sort)
qed


section \<open>Every event once\<close>

definition add_fp ::
  "(string \<Rightarrow> string option) \<Rightarrow> (string \<Rightarrow> string) \<Rightarrow> ('a \<Rightarrow> sevent \<Rightarrow> string \<Rightarrow> string \<Rightarrow> 'a) \<Rightarrow> 'a \<Rightarrow> sevent \<Rightarrow> 'a" where
  "add_fp fp qid add agg ev = (case fp (ev_Query ev) of Some f \<Rightarrow> add agg ev (qid f) f | None \<Rightarrow> agg)"

definition one_rate :: "string \<Rightarrow> u64 \<Rightarrow> sevent list \<Rightarrow> bool" where
  "one_rate t l evs \<longleftrightarrow> (\<forall>e \<in> set evs. ev_RateType e = '''' \<or> ev_RateType e = t \<and> ev_RateLimit e = l)"

abbreviation off :: "sevent \<Rightarrow> int" where
  "off e \<equiv> sint (ev_Offset e)"

lemma event_loop_slice:
  assumes "\<forall>(e, t, stop) \<in> set evs. \<not> stop \<and> t < jb_RunTime job" and "one_rate t l (map fst evs)"
    and "rt = '''' \<or> rt = t \<and> rl = l"
  shows "fst (fst (event_loop fp qid add job evs (agg, rt, rl)))
    = foldl (add_fp fp qid add) agg (takeWhile (\<lambda>e. off e < jb_EndOffset job) (map fst evs))"
  using assms
proof (induction evs arbitrary: agg rt rl)
  case Nil
  then show ?case by simp
next
  case (Cons x evs)
  obtain e r s where x: "x = (e, r, s)" by (cases x) auto
  have mixed: "\<not> (ev_RateType e \<noteq> '''' \<and> rt \<noteq> '''' \<and> (rt \<noteq> ev_RateType e \<or> rl \<noteq> ev_RateLimit e))"
    using Cons.prems(2,3) by (auto simp: x one_rate_def)
  show ?case
  proof (cases "jb_EndOffset job \<le> off e")
    case True
    with Cons.prems(1) show ?thesis by (simp add: x)
  next
    case False
    let ?rt = "if ev_RateType e \<noteq> '''' \<and> rt = '''' then ev_RateType e else rt"
    let ?rl = "if ev_RateType e \<noteq> '''' \<and> rt = '''' then ev_RateLimit e else rl"
    have "?rt = '''' \<or> ?rt = t \<and> ?rl = l" using Cons.prems(2,3) by (auto simp: x one_rate_def)
    moreover have "one_rate t l (map fst evs)" using Cons.prems(2) by (simp add: one_rate_def)
    ultimately have "fst (fst (event_loop fp qid add job evs (add_fp fp qid add agg e, ?rt, ?rl)))
      = foldl (add_fp fp qid add) (add_fp fp qid add agg e) (takeWhile (\<lambda>e. off e < jb_EndOffset job) (map fst evs))"
      using Cons.prems(1) by (intro Cons.IH) auto
    moreover have "event_loop fp qid add job (x # evs) (agg, rt, rl)
      = event_loop fp qid add job evs (add_fp fp qid add agg e, ?rt, ?rl)"
      using Cons.prems(1) False mixed by (auto simp: x add_fp_def)
    ultimately show ?thesis using False by (simp add: x)
  qed
qed

text \<open>The events the worker hands to the aggregator for an interval, with an aggregator that only records them.\<close>

definition recorded ::
  "(string \<Rightarrow> string option) \<Rightarrow> (int \<Rightarrow> (sevent \<times> int \<times> bool) list) \<Rightarrow> sconfig \<Rightarrow> interval \<Rightarrow> sevent list" where
  "recorded fp parser c iv =
     fst (fst (event_loop fp (\<lambda>f. f) (\<lambda>acc e _ _. acc @ [e]) (make_job c iv) (parser (iv_StartOffset iv)) ([], '''', 0)))"

lemma foldl_record:
  "foldl (add_fp fp qid (\<lambda>acc e _ _. acc @ [e])) acc evs = acc @ filter (\<lambda>e. fp (ev_Query e) \<noteq> None) evs"
  by (induction evs arbitrary: acc) (auto simp: add_fp_def split: option.split)

lemma takeWhile_sorted:
  "sorted (map off evs) \<Longrightarrow> takeWhile (\<lambda>e. off e < b) evs = filter (\<lambda>e. off e < b) evs"
proof (induction evs)
  case Nil
  then show ?case by simp
next
  case (Cons e evs)
  then have "filter (\<lambda>e. off e < b) evs = []" if "b \<le> off e"
    using that by (force simp: filter_empty_conv)
  with Cons show ?case by auto
qed

lemma filter_ranges:
  assumes "sorted (map off evs)" and "a \<le> b" and "b \<le> c"
  shows "filter (\<lambda>e. P e \<and> a \<le> off e \<and> off e < b) evs @ filter (\<lambda>e. P e \<and> b \<le> off e \<and> off e < c) evs
    = filter (\<lambda>e. P e \<and> a \<le> off e \<and> off e < c) evs"
  using assms(1)
proof (induction evs)
  case Nil
  then show ?case by simp
next
  case (Cons e evs)
  then have "filter (\<lambda>e. P e \<and> a \<le> off e \<and> off e < b) evs = []" if "b \<le> off e"
    using that by (force simp: filter_empty_conv)
  with Cons assms(2,3) show ?case by (cases "b \<le> off e") auto
qed

lemma recorded_slice:
  assumes "parser (iv_StartOffset iv) = map (\<lambda>e. (e, rt e, False)) (filter (\<lambda>e. iv_StartOffset iv \<le> off e) evs)"
    and "sorted (map off evs)" and "one_rate t l evs" and "\<forall>e. rt e < workerRunTime (sc_Interval c)"
  shows "recorded fp parser c iv
    = filter (\<lambda>e. fp (ev_Query e) \<noteq> None \<and> iv_StartOffset iv \<le> off e \<and> off e < iv_EndOffset iv) evs"
proof -
  let ?evs = "filter (\<lambda>e. iv_StartOffset iv \<le> off e) evs"
  have "recorded fp parser c iv
      = foldl (add_fp fp (\<lambda>f. f) (\<lambda>acc e _ _. acc @ [e])) [] (takeWhile (\<lambda>e. off e < jb_EndOffset (make_job c iv)) (map fst (parser (iv_StartOffset iv))))"
    unfolding recorded_def
    using assms by (intro event_loop_slice [of _ _ t l]) (auto simp: make_job_def one_rate_def)
  moreover have "map fst (parser (iv_StartOffset iv)) = ?evs" by (simp add: assms(1) o_def)
  moreover have "sorted (map off ?evs)" using assms(2) by (rule sorted_filter)
  ultimately show ?thesis
    by (simp add: foldl_record takeWhile_sorted make_job_def filter_filter conj_ac)
qed

definition same_log :: "tick_env \<Rightarrow> tick_env \<Rightarrow> bool" where
  "same_log a b \<longleftrightarrow> SameFile (te_stat a) (te_stat b) \<and> the (te_size a) \<le> the (te_size b)"

lemma recorded_chain:
  assumes "\<And>s. parser s = map (\<lambda>e. (e, rt e, False)) (filter (\<lambda>e. s \<le> off e) evs)"
    and "sorted (map off evs)" and "one_rate t l evs" and "\<forall>e. rt e < workerRunTime (sc_Interval c)"
    and "successively same_log (p # es)"
  shows "concat (map (recorded fp parser c \<circ> emitted) (number_from n (zip (p # es) es)))
    = filter (\<lambda>e. fp (ev_Query e) \<noteq> None \<and> the (te_size p) \<le> off e \<and> off e < the (te_size (last (p # es)))) evs
    \<and> the (te_size p) \<le> the (te_size (last (p # es)))"
  using assms(5)
proof (induction es arbitrary: p n)
  case Nil
  then show ?case by simp
next
  case (Cons q es)
  have pq: "same_log p q" and es: "successively same_log (q # es)" using Cons.prems by (auto simp: successively_Cons)
  let ?iv = "between (n + 1) (p, q)"
  have "recorded fp parser c ?iv
    = filter (\<lambda>e. fp (ev_Query e) \<noteq> None \<and> iv_StartOffset ?iv \<le> off e \<and> off e < iv_EndOffset ?iv) evs"
    using assms(1) assms(2-4) by (rule recorded_slice)
  with Cons.IH [OF es, of "n + 1"] pq
    filter_ranges [OF assms(2), of "the (te_size p)" "the (te_size q)" "the (te_size (last (q # es)))"]
  show ?case by (auto simp: between_def same_log_def)
qed


section \<open>Concrete instances\<close>

definition demo_tick :: "int \<Rightarrow> int option \<Rightarrow> nat \<Rightarrow> tick_env" where
  "demo_tick t sz inode = \<lparr>te_now = t, te_filename = Some ''slow.log'', te_size = sz, te_stat = Some inode, te_accepted = True\<rparr>"

theorem iter_run_intervals_witness:
  "map (\<lambda>x. (iv_Number (emitted x), iv_StartOffset (emitted x), iv_EndOffset (emitted x)))
     (snd (iter_run [demo_tick 1 (Some 10) 7, demo_tick 2 (Some 30) 7, demo_tick 3 (Some 5) 8, demo_tick 4 None 8,
        demo_tick 5 (Some 6) 8, demo_tick 6 (Some 9) 8] NewIter))
   = [(1, 10, 30), (2, 0, 5), (3, 6, 9)]"
proof -
  let ?es = "[demo_tick 1 (Some 10) 7, demo_tick 2 (Some 30) 7, demo_tick 3 (Some 5) 8, demo_tick 4 None 8,
    demo_tick 5 (Some 6) 8, demo_tick 6 (Some 9) 8]"
  have "\<forall>e \<in> set ?es. te_now e \<noteq> 0" by (simp add: demo_tick_def)
  from iter_run_intervals [OF this] show ?thesis
    by (simp add: ok_pairs_def tick_ok_def demo_tick_def between_def SameFile_def)
qed

definition demo_rotate :: rotate_env where
  "demo_rotate = \<lparr>re_connect = False, re_stop = False, re_rename = False, re_start = False, re_flush_slow = True,
     re_flush = False, re_glob = False, re_remove = (\<lambda>_. False), re_unix = 9\<rparr>"

definition demo_config :: "int option \<Rightarrow> sconfig" where
  "demo_config retain = \<lparr>sc_Interval = 60, sc_MaxSlowLogSize = 100, sc_SlowLogRotation = Some True,
     sc_RetainSlowLogs = retain, sc_ExampleQueries = None\<rparr>"


definition demo_event :: "u64 \<Rightarrow> string \<Rightarrow> sevent" where
  "demo_event k q = \<lparr>ev_Offset = k, ev_RateType = '''', ev_RateLimit = 0, ev_Query = q\<rparr>"


end
