(* ===== verification/Analyzer.thy ===== *)
theory Analyzer
  imports Report Ticker Mrms Spooler SlowLog
begin

text \<open>
  The MySQL analyzer, \<open>qan/analyzer/mysql\<close>: the validation of its configuration
  (\<open>config/config.go\<close>, \<open>util/util.go\<close>), the analyzer that configures the server and runs the
  worker on each interval (\<open>analyzer.go\<close>), whose run loop and goroutines are a step relation, and
  the proxy that starts and stops it (\<open>mysql.go\<close>), on top of the clock and the restart monitor.
\<close>

section \<open>Configuration\<close>

record QAN =
  qn_UUID :: string
  qn_CollectFrom :: string
  qn_Interval :: u64
  qn_ExampleQueries :: "bool option"
  qn_MaxSlowLogSize :: int
  qn_SlowLogRotation :: "bool option"
  qn_RetainSlowLogs :: "int option"
  qn_Start :: "string list"
  qn_Stop :: "string list"
  qn_ReportLimit :: u64

definition NewQAN :: QAN where
  "NewQAN = \<lparr>qn_UUID = '''', qn_CollectFrom = '''', qn_Interval = 60, qn_ExampleQueries = Some True,
     qn_MaxSlowLogSize = 1073741824, qn_SlowLogRotation = Some True, qn_RetainSlowLogs = Some 1,
     qn_Start = [], qn_Stop = [], qn_ReportLimit = 200\<rparr>"

text \<open>
  The round trip through JSON onto the defaults: a field with \<open>omitempty\<close> overrides the default
  when it is not zero, and \<open>MaxSlowLogSize\<close>, tagged "-", never does.
\<close>

definition omitempty :: "'a \<Rightarrow> 'a \<Rightarrow> 'a \<Rightarrow> 'a" where
  "omitempty zero new old = (if new \<noteq> zero then new else old)"

definition overlay :: "QAN \<Rightarrow> QAN \<Rightarrow> QAN" where
  "overlay s d =
     d\<lparr>qn_UUID := qn_UUID s,
       qn_CollectFrom := omitempty '''' (qn_CollectFrom s) (qn_CollectFrom d),
       qn_Interval := omitempty 0 (qn_Interval s) (qn_Interval d),
       qn_ExampleQueries := omitempty None (qn_ExampleQueries s) (qn_ExampleQueries d),
       qn_SlowLogRotation := omitempty None (qn_SlowLogRotation s) (qn_SlowLogRotation d),
       qn_RetainSlowLogs := omitempty None (qn_RetainSlowLogs s) (qn_RetainSlowLogs d),
       qn_Start := omitempty [] (qn_Start s) (qn_Start d),
       qn_Stop := omitempty [] (qn_Stop s) (qn_Stop d),
       qn_ReportLimit := omitempty 0 (qn_ReportLimit s) (qn_ReportLimit d)\<rparr>"

datatype config_error = BadCollectFrom | BadInterval

text \<open>The interval is unsigned, so that the test for a negative one never succeeds.\<close>

definition ValidateConfig :: "QAN \<Rightarrow> config_error + QAN" where
  "ValidateConfig setConfig =
     (let runConfig = overlay setConfig NewQAN;
          runConfig = runConfig\<lparr>qn_UUID := qn_UUID setConfig\<rparr>
      in if qn_CollectFrom setConfig \<noteq> ''slowlog'' \<and> qn_CollectFrom setConfig \<noteq> ''perfschema'' then Inl BadCollectFrom
         else
           (let runConfig = runConfig\<lparr>qn_CollectFrom := qn_CollectFrom setConfig\<rparr>
            in if qn_Interval setConfig > 3600 then Inl BadInterval
               else Inr (if qn_Interval setConfig > 0 then runConfig\<lparr>qn_Interval := qn_Interval setConfig\<rparr>
                         else runConfig)))"

definition makeSlowLogConfig :: "string list \<times> string list" where
  "makeSlowLogConfig =
     ([''SET GLOBAL slow_query_log=OFF'', ''SET GLOBAL log_output='' @ [CHR 39] @ ''file'' @ [CHR 39],
       ''SET GLOBAL slow_query_log=ON'', ''SET time_zone='' @ [CHR 39] @ ''+0:00'' @ [CHR 39]],
      [''SET GLOBAL slow_query_log=OFF''])"

definition makePerfSchemaConfig :: "string list \<times> string list" where
  "makePerfSchemaConfig = ([''SET time_zone='' @ [CHR 39] @ ''+0:00'' @ [CHR 39]], [])"

definition GetMySQLConfig :: "QAN \<Rightarrow> (string list \<times> string list) option" where
  "GetMySQLConfig c =
     (if qn_CollectFrom c = ''slowlog'' then Some makeSlowLogConfig
      else if qn_CollectFrom c = ''perfschema'' then Some makePerfSchemaConfig
      else None)"

lemma ValidateConfig_cases:
  "ValidateConfig c =
     (if qn_CollectFrom c \<noteq> ''slowlog'' \<and> qn_CollectFrom c \<noteq> ''perfschema'' then Inl BadCollectFrom
      else if 3600 < qn_Interval c then Inl BadInterval
      else Inr (overlay c NewQAN))"
proof -
  let ?r = "overlay c NewQAN"
  have eq: "?r\<lparr>qn_UUID := qn_UUID c\<rparr> = ?r" "?r\<lparr>qn_CollectFrom := qn_CollectFrom c\<rparr> = ?r"
    by (simp_all add: overlay_def NewQAN_def omitempty_def)
  have "?r\<lparr>qn_Interval := qn_Interval c\<rparr> = ?r" if "0 < qn_Interval c"
    using that by (simp add: overlay_def omitempty_def word_gt_0)
  then show ?thesis unfolding ValidateConfig_def Let_def eq by simp
qed

lemma omitempty_idem [simp]: "omitempty z (omitempty z a b) b = omitempty z a b"
  by (simp add: omitempty_def)

lemma overlay_idem: "overlay (overlay c d) d = overlay c d"
  by (simp add: overlay_def)

lemma overlay_fields:
  "qn_CollectFrom (overlay c NewQAN) = qn_CollectFrom c"
  "qn_Interval (overlay c NewQAN) = (if qn_Interval c = 0 then 60 else qn_Interval c)"
  "qn_ReportLimit (overlay c NewQAN) = (if qn_ReportLimit c = 0 then 200 else qn_ReportLimit c)"
  "qn_MaxSlowLogSize (overlay c NewQAN) = 1073741824"
  "qn_UUID (overlay c NewQAN) = qn_UUID c"
  "qn_RetainSlowLogs (overlay c NewQAN) = (case qn_RetainSlowLogs c of None \<Rightarrow> Some 1 | Some n \<Rightarrow> Some n)"
  by (simp_all add: overlay_def NewQAN_def omitempty_def split: option.split)

text \<open>
  Validation. It succeeds exactly for the two sources and an interval of at most an hour; the
  running configuration then has an interval of 1 to 3600 seconds, queries to configure the server,
  and every field the caller set, except the size at which the log is rotated, which is always
  the default; validating the result again changes nothing.
\<close>

theorem ValidateConfig_spec:
  "case ValidateConfig c of
     Inl BadCollectFrom \<Rightarrow> qn_CollectFrom c \<noteq> ''slowlog'' \<and> qn_CollectFrom c \<noteq> ''perfschema''
   | Inl BadInterval \<Rightarrow> 3600 < qn_Interval c
   | Inr r \<Rightarrow>
       0 < qn_Interval r \<and> qn_Interval r \<le> 3600 \<and> qn_UUID r = qn_UUID c \<and> qn_CollectFrom r = qn_CollectFrom c
       \<and> qn_MaxSlowLogSize r = 1073741824 \<and> qn_ReportLimit r \<noteq> 0
       \<and> qn_Interval r = (if qn_Interval c = 0 then 60 else qn_Interval c)
       \<and> qn_RetainSlowLogs r = (case qn_RetainSlowLogs c of None \<Rightarrow> Some 1 | Some n \<Rightarrow> Some n)
       \<and> GetMySQLConfig r \<noteq> None \<and> ValidateConfig r = Inr r"
proof (cases "ValidateConfig c")
  case (Inl e)
  then show ?thesis by (cases e) (auto simp: ValidateConfig_cases split: if_splits)
next
  case (Inr r)
  then have ok: "qn_CollectFrom c = ''slowlog'' \<or> qn_CollectFrom c = ''perfschema''" "qn_Interval c \<le> 3600"
    and r: "r = overlay c NewQAN" by (auto simp: ValidateConfig_cases not_less split: if_splits)
  have iv: "0 < qn_Interval r" "qn_Interval r \<le> 3600" using ok(2) by (auto simp: r overlay_fields word_gt_0)
  then have "ValidateConfig r = Inr r"
    using ok(1) by (simp add: ValidateConfig_cases r overlay_fields(1) overlay_idem not_less)
  with ok(1) iv show ?thesis by (simp add: Inr) (auto simp: r overlay_fields GetMySQLConfig_def split: if_splits)
qed

section \<open>Configuring the server\<close>

text \<open>
  What one attempt meets: whether connecting fails, the value of \<open>max_slowlog_size\<close> (\<open>None\<close> when it
  cannot be read; NULL counts as 0), whether the query that resets it fails and whether the start or
  stop queries fail.
\<close>

record try_env =
  ty_connect :: bool
  ty_max_slowlog_size :: "int option"
  ty_takeover :: bool
  ty_exec :: bool

definition MIN_SLOWLOG_ROTATION_SIZE :: int where "MIN_SLOWLOG_ROTATION_SIZE = 4096"

text \<open>The configuration afterwards, whether the server's own rotation was switched off, and success.\<close>

definition TakeOverPerconaServerRotation :: "try_env \<Rightarrow> QAN \<Rightarrow> QAN \<times> bool \<times> bool" where
  "TakeOverPerconaServerRotation e c =
     (if \<not> boolValue (qn_SlowLogRotation c) then (c, False, True)
      else case ty_max_slowlog_size e of
             None \<Rightarrow> (c, False, False)
           | Some n \<Rightarrow>
               if n = 0 then (c, False, True)
               else if n \<ge> MIN_SLOWLOG_ROTATION_SIZE then
                 (let c = c\<lparr>qn_MaxSlowLogSize := n\<rparr>
                  in if ty_takeover e then (c, False, False) else (c, True, True))
               else (c, False, True))"

definition setMySQLConfig :: "QAN \<Rightarrow> QAN option" where
  "setMySQLConfig c =
     map_option (\<lambda>(start, stop). c\<lparr>qn_Start := start, qn_Stop := stop\<rparr>) (GetMySQLConfig c)"

datatype action = StartAction | StopAction

text \<open>One turn of the loop: the configuration and the queries that were executed, if it succeeded.\<close>

definition configure_try :: "action \<Rightarrow> try_env \<Rightarrow> QAN \<Rightarrow> QAN \<times> string list option" where
  "configure_try act e c =
     (if ty_connect e then (c, None)
      else case TakeOverPerconaServerRotation e c of
             (c, _, False) \<Rightarrow> (c, None)
           | (c, _, True) \<Rightarrow>
               (case setMySQLConfig c of
                  None \<Rightarrow> (c, None)
                | Some c \<Rightarrow>
                    (let queries = (case act of StartAction \<Rightarrow> qn_Start c | StopAction \<Rightarrow> qn_Stop c)
                     in if ty_exec e then (c, None) else (c, Some queries))))"

datatype configure_result = ConfiguredWith "string list" | ClosedWhileWaiting | GaveUp | StillTrying

text \<open>
  The loop of \<open>configureMySQL\<close> over the attempts that happen, each with whether the analyzer is
  closed in the wait before it. A limit of 0 is no limit.
\<close>

fun configureMySQL :: "action \<Rightarrow> nat \<Rightarrow> nat \<Rightarrow> (bool \<times> try_env) list \<Rightarrow> QAN \<Rightarrow> QAN \<times> configure_result" where
  "configureMySQL act tryLimit try [] c =
     (c, if tryLimit = 0 \<or> try < tryLimit then StillTrying else GaveUp)"
| "configureMySQL act tryLimit try ((closing, e) # es) c =
     (if \<not> (tryLimit = 0 \<or> try < tryLimit) then (c, GaveUp)
      else if try + 1 > 1 \<and> closing then (c, ClosedWhileWaiting)
      else case configure_try act e c of
             (c, Some queries) \<Rightarrow> (c, ConfiguredWith queries)
           | (c, None) \<Rightarrow> configureMySQL act tryLimit (try + 1) es c)"

section \<open>Running the worker on one interval\<close>

datatype worker_run = RunPanic | RunErr | RunNil | RunResult result

record worker_env =
  we_setup :: bool
  we_run :: worker_run
  we_elapsed :: float64

text \<open>
  The report that \<open>runWorker\<close> hands to the spooler, if any. A panic of the worker is recovered,
  and the interval is returned on \<open>workerDoneChan\<close> in every case.
\<close>

definition runWorker ::
  "(qclass list \<Rightarrow> qclass list) \<Rightarrow> (string \<Rightarrow> int option) \<Rightarrow> QAN \<Rightarrow> worker_env \<Rightarrow> interval \<Rightarrow> report option \<times> interval" where
  "runWorker srt fileSize c e interval =
     (if we_setup e then (None, interval)
      else case we_run e of
             RunResult r \<Rightarrow>
               (Some (MakeReport srt fileSize (qn_UUID c) (qn_ReportLimit c) (iv_StartTime interval)
                  (iv_StopTime interval) (Some interval) (r\<lparr>rs_RunTime := we_elapsed e\<rparr>)), interval)
           | _ \<Rightarrow> (None, interval))"

section \<open>The run loop\<close>

text \<open>
  The variables of \<open>run\<close>, and what the goroutines around it hold: the number of running
  \<open>configureMySQL("start", 0)\<close> goroutines, whether the iterator runs, the intervals whose \<open>runWorker\<close>
  has not returned, and the channel \<open>workerDoneChan\<close> of capacity 1. The lists \<open>ar_started\<close>,
  \<open>ar_finished\<close> and \<open>ar_skipped\<close> record what the loop did with the intervals.
\<close>

record arun =
  ar_looping :: bool
  ar_configured :: bool
  ar_workerRunning :: bool
  ar_configuring :: nat
  ar_iter :: bool
  ar_workers :: "interval list"
  ar_doneChan :: "interval list"
  ar_lastTs :: int
  ar_current :: interval
  ar_started :: "interval list"
  ar_finished :: "interval list"
  ar_skipped :: "interval list"

definition arun_init :: "arun \<Rightarrow> bool" where
  "arun_init s \<longleftrightarrow>
     s = \<lparr>ar_looping = True, ar_configured = False, ar_workerRunning = False, ar_configuring = 1,
          ar_iter = False, ar_workers = [], ar_doneChan = [], ar_lastTs = 0, ar_current = zero_interval,
          ar_started = [], ar_finished = [], ar_skipped = []\<rparr>"

datatype alabel =
    IntervalChan interval | WorkerReturns interval | WorkerDone | MysqlConfigured
  | RestartChan | CloseChan | ConfigureQuits

inductive arun_step :: "arun \<Rightarrow> alabel \<Rightarrow> arun \<Rightarrow> bool" where
  skip_unconfigured: "ar_looping s \<Longrightarrow> \<not> ar_configured s \<Longrightarrow>
    arun_step s (IntervalChan iv) (s\<lparr>ar_skipped := ar_skipped s @ [iv]\<rparr>)"
| skip_busy: "ar_looping s \<Longrightarrow> ar_configured s \<Longrightarrow> ar_workerRunning s \<Longrightarrow>
    arun_step s (IntervalChan iv) (s\<lparr>ar_skipped := ar_skipped s @ [iv]\<rparr>)"
| start_worker: "ar_looping s \<Longrightarrow> ar_configured s \<Longrightarrow> \<not> ar_workerRunning s \<Longrightarrow>
    arun_step s (IntervalChan iv) (s\<lparr>ar_current := iv, ar_workers := ar_workers s @ [iv],
      ar_started := ar_started s @ [iv], ar_workerRunning := True\<rparr>)"
| worker_returns: "iv \<in> set (ar_workers s) \<Longrightarrow> ar_doneChan s = [] \<Longrightarrow>
    arun_step s (WorkerReturns iv) (s\<lparr>ar_workers := remove1 iv (ar_workers s), ar_doneChan := [iv]\<rparr>)"
| worker_done: "ar_looping s \<Longrightarrow> ar_doneChan s = iv # rest \<Longrightarrow>
    arun_step s WorkerDone (s\<lparr>ar_doneChan := rest, ar_workerRunning := False,
      ar_finished := ar_finished s @ [iv],
      ar_lastTs := (if iv_StartTime iv > ar_lastTs s then iv_StartTime iv else ar_lastTs s)\<rparr>)"
| mysql_configured: "ar_looping s \<Longrightarrow> ar_configuring s = Suc n \<Longrightarrow>
    arun_step s MysqlConfigured (s\<lparr>ar_configuring := n, ar_configured := True, ar_iter := True\<rparr>)"
| restart: "ar_looping s \<Longrightarrow> ar_configured s \<Longrightarrow>
    arun_step s RestartChan (s\<lparr>ar_configured := False, ar_iter := False, ar_configuring := Suc (ar_configuring s)\<rparr>)"
| restart_ignored: "ar_looping s \<Longrightarrow> \<not> ar_configured s \<Longrightarrow> arun_step s RestartChan s"
| close_chan: "ar_looping s \<Longrightarrow>
    arun_step s CloseChan (s\<lparr>ar_looping := False, ar_iter := (if ar_configured s then False else ar_iter s)\<rparr>)"
| configure_quits: "\<not> ar_looping s \<Longrightarrow> ar_configuring s = Suc n \<Longrightarrow>
    arun_step s ConfigureQuits (s\<lparr>ar_configuring := n\<rparr>)"

inductive_cases arun_intervalE: "arun_step s (IntervalChan iv) s'"
inductive_cases arun_returnsE: "arun_step s (WorkerReturns iv) s'"

definition arun_inv :: "arun \<Rightarrow> bool" where
  "arun_inv s \<longleftrightarrow>
     ar_started s = ar_finished s @ ar_doneChan s @ ar_workers s
     \<and> length (ar_doneChan s @ ar_workers s) \<le> 1
     \<and> (ar_looping s \<longrightarrow>
          (ar_workerRunning s \<longleftrightarrow> ar_doneChan s @ ar_workers s \<noteq> [])
          \<and> ar_configuring s = (if ar_configured s then 0 else 1) \<and> (ar_iter s \<longleftrightarrow> ar_configured s))
     \<and> (\<not> ar_looping s \<longrightarrow> \<not> ar_iter s \<and> ar_configuring s \<le> 1)"

lemma arun_inv_init: "arun_init s \<Longrightarrow> arun_inv s"
  by (simp add: arun_init_def arun_inv_def)

lemma arun_inv_step:
  assumes "arun_inv s" and "arun_step s l s'"
  shows "arun_inv s'"
  using assms(2,1)
proof (induction rule: arun_step.induct)
  case (worker_returns iv s)
  then have "ar_workers s = [iv]" by (cases "ar_workers s") (auto simp: arun_inv_def)
  with worker_returns show ?case by (simp add: arun_inv_def)
qed (auto simp: arun_inv_def split: if_splits)

interpretation ar: step_invariant arun_init arun_step arun_inv
  by unfold_locales (auto intro: arun_inv_init arun_inv_step)



section \<open>The outcome of configuring\<close>

definition good_try :: "try_env \<Rightarrow> bool" where
  "good_try e \<longleftrightarrow> \<not> ty_connect e \<and> ty_max_slowlog_size e \<noteq> None \<and> \<not> ty_takeover e \<and> \<not> ty_exec e"

text \<open>What every attempt keeps of the configuration.\<close>

definition same_source :: "QAN \<Rightarrow> QAN \<Rightarrow> bool" where
  "same_source c c' \<longleftrightarrow>
     qn_CollectFrom c' = qn_CollectFrom c \<and> qn_UUID c' = qn_UUID c \<and> qn_Interval c' = qn_Interval c
     \<and> (qn_MaxSlowLogSize c' = qn_MaxSlowLogSize c \<or> MIN_SLOWLOG_ROTATION_SIZE \<le> qn_MaxSlowLogSize c')"

lemma same_source_trans: "same_source a b \<Longrightarrow> same_source b c \<Longrightarrow> same_source a c"
  by (auto simp: same_source_def)

lemma GetMySQLConfig_cong: "qn_CollectFrom c' = qn_CollectFrom c \<Longrightarrow> GetMySQLConfig c' = GetMySQLConfig c"
  by (simp add: GetMySQLConfig_def)

lemma TakeOver_keeps:
  assumes "TakeOverPerconaServerRotation e c = (c', d, b)"
  shows "same_source c c'" and "good_try e \<Longrightarrow> b"
  using assms
  by (auto simp: TakeOverPerconaServerRotation_def same_source_def good_try_def Let_def split: if_splits option.splits)

lemma configure_try_keeps:
  assumes "configure_try act e c = (c', r)"
  shows "same_source c c'"
    and "r = Some q \<Longrightarrow>
      GetMySQLConfig c = Some (qn_Start c', qn_Stop c') \<and> q = (case act of StartAction \<Rightarrow> qn_Start c' | StopAction \<Rightarrow> qn_Stop c')"
    and "good_try e \<Longrightarrow> GetMySQLConfig c \<noteq> None \<Longrightarrow> r \<noteq> None"
proof -
  obtain c1 d b where t: "TakeOverPerconaServerRotation e c = (c1, d, b)" by (metis prod_cases3)
  note keep = TakeOver_keeps [OF t]
  have cfg: "GetMySQLConfig c1 = GetMySQLConfig c"
    using keep(1) by (intro GetMySQLConfig_cong) (simp add: same_source_def)
  show "same_source c c'"
    using assms keep(1) t
    by (auto simp: configure_try_def setMySQLConfig_def same_source_def Let_def split: if_splits bool.splits option.splits)
  show "GetMySQLConfig c = Some (qn_Start c', qn_Stop c') \<and> q = (case act of StartAction \<Rightarrow> qn_Start c' | StopAction \<Rightarrow> qn_Stop c')"
    if "r = Some q"
    using assms that t cfg
    by (auto simp: configure_try_def setMySQLConfig_def Let_def split: if_splits bool.splits option.splits)
  show "r \<noteq> None" if "good_try e" "GetMySQLConfig c \<noteq> None"
    using assms that t cfg keep(2)
    by (auto simp: configure_try_def setMySQLConfig_def good_try_def Let_def split: if_splits bool.splits option.splits)
qed

lemma configureMySQL_keeps:
  assumes "configureMySQL act n k es c = (c', r)"
  shows "same_source c c' \<and> (\<forall>q. r = ConfiguredWith q \<longrightarrow>
      GetMySQLConfig c = Some (qn_Start c', qn_Stop c') \<and> q = (case act of StartAction \<Rightarrow> qn_Start c' | StopAction \<Rightarrow> qn_Stop c'))"
  using assms
proof (induction act n k es c arbitrary: c' r rule: configureMySQL.induct)
  case (1 act n k c)
  then show ?case by (auto simp: same_source_def split: if_splits)
next
  case (2 act n k cl e es c)
  obtain c1 q where t: "configure_try act e c = (c1, q)" by fastforce
  note keep = configure_try_keeps [OF t]
  have cfg: "GetMySQLConfig c1 = GetMySQLConfig c"
    using keep(1) by (intro GetMySQLConfig_cong) (simp add: same_source_def)
  show ?case
  proof (cases "\<not> (n = 0 \<or> k < n) \<or> k + 1 > 1 \<and> cl")
    case True
    with "2.prems" show ?thesis by (auto simp: same_source_def split: if_splits)
  next
    case False
    show ?thesis
    proof (cases q)
      case None
      with "2.prems" False t have "configureMySQL act n (k + 1) es c1 = (c', r)" by auto
      from "2.IH" [OF _ _ t [symmetric] None this] False keep(1) cfg show ?thesis
        by (auto intro: same_source_trans)
    next
      case (Some qs)
      with "2.prems" False t keep show ?thesis by auto
    qed
  qed
qed

lemma configureMySQL_good:
  assumes "\<forall>x \<in> set es. \<not> fst x" and "list_ex (good_try \<circ> snd) es" and "GetMySQLConfig c \<noteq> None"
  shows "\<exists>c' q. configureMySQL act 0 k es c = (c', ConfiguredWith q)"
  using assms
proof (induction es arbitrary: k c)
  case Nil
  then show ?case by simp
next
  case (Cons x es)
  obtain b e where x: "x = (b, e)" by fastforce
  obtain c1 q where t: "configure_try act e c = (c1, q)" by fastforce
  note keep = configure_try_keeps [OF t]
  show ?case
  proof (cases q)
    case None
    then have "\<not> good_try e" using keep(3) Cons.prems(3) by auto
    moreover have "GetMySQLConfig c1 \<noteq> None"
      using keep(1) Cons.prems(3) GetMySQLConfig_cong [of c1 c] by (simp add: same_source_def)
    ultimately show ?thesis using Cons.IH [of c1 "k + 1"] Cons.prems None t by (simp add: x)
  next
    case (Some qs)
    with Cons.prems t show ?thesis by (simp add: x)
  qed
qed

text \<open>
  Configuring the server. As soon as one attempt meets no error and the analyzer is not closed
  before it, however many failed earlier, \<open>configureMySQL("start", 0)\<close> ends successfully; it has then
  executed the start queries of the configured source, kept the source, the UUID and the interval,
  and the size for rotation is the old one or the server's own, which is at least 4096.
\<close>

theorem configureMySQL_start:
  assumes "\<forall>x \<in> set es. \<not> fst x" and "list_ex (good_try \<circ> snd) es" and "ValidateConfig c0 = Inr c"
  shows "\<exists>c'. configureMySQL StartAction 0 0 es c = (c', ConfiguredWith (qn_Start c'))
    \<and> GetMySQLConfig c = Some (qn_Start c', qn_Stop c') \<and> qn_CollectFrom c' = qn_CollectFrom c
    \<and> qn_UUID c' = qn_UUID c \<and> qn_Interval c' = qn_Interval c
    \<and> (qn_MaxSlowLogSize c' = 1073741824 \<or> MIN_SLOWLOG_ROTATION_SIZE \<le> qn_MaxSlowLogSize c')"
proof -
  have "GetMySQLConfig c \<noteq> None" "qn_MaxSlowLogSize c = 1073741824"
    using assms(3) by (auto simp: ValidateConfig_cases overlay_fields GetMySQLConfig_def split: if_splits)
  with configureMySQL_good [OF assms(1,2), of c StartAction 0]
  obtain c' q where r: "configureMySQL StartAction 0 0 es c = (c', ConfiguredWith q)" by blast
  with configureMySQL_keeps [OF r] \<open>qn_MaxSlowLogSize c = 1073741824\<close> show ?thesis
    by (auto simp: same_source_def)
qed

definition bad_try :: try_env where
  "bad_try = \<lparr>ty_connect = True, ty_max_slowlog_size = None, ty_takeover = False, ty_exec = False\<rparr>"

theorem configureMySQL_start_witness:
  "\<exists>c c'. ValidateConfig (NewQAN\<lparr>qn_CollectFrom := ''slowlog''\<rparr>) = Inr c
    \<and> configureMySQL StartAction 0 0 [(False, bad_try), (False, bad_try\<lparr>ty_connect := False, ty_max_slowlog_size := Some 8192\<rparr>)] c
      = (c', ConfiguredWith (qn_Start c'))
    \<and> length (qn_Start c') = 4"
proof -
  let ?c0 = "NewQAN\<lparr>qn_CollectFrom := ''slowlog''\<rparr>"
  let ?es = "[(False, bad_try), (False, bad_try\<lparr>ty_connect := False, ty_max_slowlog_size := Some 8192\<rparr>)]"
  obtain c where c: "ValidateConfig ?c0 = Inr c" by (simp add: ValidateConfig_cases NewQAN_def)
  then have "qn_CollectFrom c = ''slowlog''" by (auto simp: ValidateConfig_cases overlay_def omitempty_def NewQAN_def)
  then have "GetMySQLConfig c = Some makeSlowLogConfig" by (simp add: GetMySQLConfig_def)
  moreover have "\<forall>x \<in> set ?es. \<not> fst x" "list_ex (good_try \<circ> snd) ?es"
    by (simp_all add: good_try_def bad_try_def)
  moreover have start_queries: "length (fst makeSlowLogConfig) = 4" by (simp add: makeSlowLogConfig_def)
  ultimately show ?thesis
    using configureMySQL_start [of ?es ?c0 c] c start_queries by (metis fst_conv option.inject)
qed

section \<open>The proxy\<close>

text \<open>
  \<open>MySQLAnalyzer\<close> with the two services it registers with. The fields \<open>tickChan\<close> and \<open>restartChan\<close> of
  the Go struct are read by \<open>Stop\<close>; \<open>Start\<close> keeps both channels in local variables. The running
  analyzer is represented by its configuration.
\<close>

record mysql_analyzer =
  my_uuid :: string
  my_config :: QAN
  my_analyzer :: "QAN option"
  my_tickChan :: "chan option"
  my_restartChan :: "restart_chan option"
  my_clock :: clock
  my_mrms :: monitor

definition mysql_SetConfig :: "QAN \<Rightarrow> mysql_analyzer \<Rightarrow> mysql_analyzer" where
  "mysql_SetConfig c m =
     m\<lparr>my_config := c, my_analyzer := map_option (\<lambda>_. c) (my_analyzer m)\<rparr>"

definition mysql_Config :: "mysql_analyzer \<Rightarrow> mysql_analyzer \<times> QAN" where
  "mysql_Config m =
     (let m = (case my_analyzer m of None \<Rightarrow> m | Some c \<Rightarrow> m\<lparr>my_config := c\<rparr>) in (m, my_config m))"

text \<open>\<open>Start\<close> with the new tick channel; \<open>None\<close> in the second component is success.\<close>

definition mysql_Start :: "chan \<Rightarrow> mysql_analyzer \<Rightarrow> mysql_analyzer \<times> config_error option" where
  "mysql_Start tickChan m =
     (let (m, setConfig) = mysql_Config m
      in case ValidateConfig setConfig of
           Inl e \<Rightarrow> (m, Some e)
         | Inr c \<Rightarrow>
             (let (mon, restartChan) = monitor_Add (my_uuid m) (my_mrms m);
                  clk = (case clock_Add tickChan (uint (qn_Interval c)) True (my_clock m) of
                           None \<Rightarrow> my_clock m | Some k \<Rightarrow> k)
              in (m\<lparr>my_mrms := mon, my_clock := clk, my_analyzer := Some c\<rparr>, None)))"

text \<open>
  Removing a channel that may be nil: no ticker watches nil and no listener is nil. For the monitor
  a nil channel behaves as one that was never handed out.
\<close>

definition clock_Remove_chan :: "chan option \<Rightarrow> clock \<Rightarrow> clock" where
  "clock_Remove_chan c k = (case c of None \<Rightarrow> k | Some c \<Rightarrow> clock_Remove c k)"

definition monitor_Remove_chan :: "string \<Rightarrow> restart_chan option \<Rightarrow> monitor \<Rightarrow> monitor option" where
  "monitor_Remove_chan uuid c m = monitor_Remove uuid (case c of None \<Rightarrow> mo_next m | Some c \<Rightarrow> c) m"

text \<open>\<open>Stop\<close>; \<open>None\<close> is a panic of the monitor.\<close>

definition mysql_Stop :: "mysql_analyzer \<Rightarrow> mysql_analyzer option" where
  "mysql_Stop m =
     (case my_analyzer m of
        None \<Rightarrow> Some m
      | Some _ \<Rightarrow>
          (let tickChan = my_tickChan m; restartChan = my_restartChan m;
               m = m\<lparr>my_analyzer := None, my_tickChan := None, my_restartChan := None\<rparr>;
               m = m\<lparr>my_clock := clock_Remove_chan tickChan (my_clock m)\<rparr>
           in map_option (\<lambda>mon. m\<lparr>my_mrms := mon\<rparr>) (monitor_Remove_chan (my_uuid m) restartChan (my_mrms m))))"

definition NewMySQLAnalyzer :: "string \<Rightarrow> QAN \<Rightarrow> clock \<Rightarrow> monitor \<Rightarrow> mysql_analyzer" where
  "NewMySQLAnalyzer uuid c k mon =
     \<lparr>my_uuid = uuid, my_config = c, my_analyzer = None, my_tickChan = None, my_restartChan = None,
      my_clock = k, my_mrms = mon\<rparr>"

lemma monitor_Remove_fresh:
  assumes "monitor_inv m" and "mo_inst m '''' = Some g" and "mo_inst m uuid = Some i" and "uuid \<noteq> ''''"
  shows "\<exists>m'. monitor_Remove uuid (mo_next m) m = Some m' \<and> mo_inst m' = mo_inst m"
proof -
  have "mo_next m \<notin> set (mi_listeners j)" if "mo_inst m u = Some j" for u j
    using assms(1) that unfolding monitor_inv_def by blast
  then have same: "removeAll (mo_next m) (mi_listeners j) = mi_listeners j" if "mo_inst m u = Some j" for u j
    using that by (metis removeAll_id)
  have "mi_listeners i \<noteq> []" using assms(1,3,4) unfolding monitor_inv_def by blast
  with assms same show ?thesis
    by (auto simp: monitor_Remove_def set_listeners_def Let_def fun_eq_iff)
qed

text \<open>
  Stopping the MySQL analyzer leaks its registrations. After a start and a stop the tick
  channel is still watched by the clock and the restart channel still listens at the monitor,
  because \<open>Start\<close> never stores the two channels in the fields \<open>Stop\<close> removes.
\<close>

theorem mysql_Stop_leaks:
  assumes "clock_inv k" and "ck_watcher k tick = None" and "monitor_inv mon" and "mo_inst mon '''' = Some g"
    and "uuid \<noteq> ''''" and "ValidateConfig c = Inr r"
    and "mysql_Start tick (NewMySQLAnalyzer uuid c k mon) = (m, None)"
  shows "\<exists>m'. mysql_Stop m = Some m' \<and> my_analyzer m' = None
    \<and> ck_watcher (my_clock m') tick \<noteq> None
    \<and> monitor_ListenerCount uuid (my_mrms m') = monitor_ListenerCount uuid mon + 1"
proof -
  obtain k' where add: "clock_Add tick (uint (qn_Interval r)) True k = Some k'"
    by (cases "ck_syncTicker k (uint (qn_Interval r))") (simp_all add: clock_Add_def clock_ticker_def clock_alloc_def)
  note k' = clock_Add_inv [OF assms(1,2) add]
  define mon' where "mon' = fst (monitor_Add uuid mon)"
  have m: "m = (NewMySQLAnalyzer uuid c k mon)\<lparr>my_mrms := mon', my_clock := k', my_analyzer := Some r\<rparr>"
    using assms(6,7) add
    by (simp add: mysql_Start_def mysql_Config_def NewMySQLAnalyzer_def mon'_def case_prod_beta Let_def)
  have inv: "monitor_inv mon'" and "\<exists>i. mo_inst mon' uuid = Some i"
    using monitor_Add_inv [OF assms(3), of uuid] by (auto simp: mon'_def)
  then obtain i where i: "mo_inst mon' uuid = Some i" by blast
  have count: "monitor_ListenerCount uuid mon' = monitor_ListenerCount uuid mon + 1"
    by (auto simp: mon'_def monitor_Add_def set_listeners_def monitor_ListenerCount_def Let_def split: option.split)
  have "mo_inst mon' '''' = Some g"
    using assms(4,5) by (auto simp: mon'_def monitor_Add_def set_listeners_def Let_def split: option.split)
  from monitor_Remove_fresh [OF inv this i assms(5)] obtain mon'' where
    "monitor_Remove uuid (mo_next mon') mon' = Some mon''" "mo_inst mon'' = mo_inst mon'" by blast
  with count k' show ?thesis
    by (auto simp: m mysql_Stop_def NewMySQLAnalyzer_def clock_Remove_chan_def monitor_Remove_chan_def
        monitor_ListenerCount_def Let_def)
qed

theorem mysql_Stop_leaks_witness:
  "\<exists>m m'. mysql_Start 7 (NewMySQLAnalyzer ''u'' (NewQAN\<lparr>qn_CollectFrom := ''slowlog''\<rparr>) NewClock NewRealMonitor) = (m, None)
    \<and> mysql_Stop m = Some m' \<and> ck_watcher (my_clock m') 7 \<noteq> None \<and> monitor_ListenerCount ''u'' (my_mrms m') = 1"
proof -
  let ?c = "NewQAN\<lparr>qn_CollectFrom := ''slowlog''\<rparr>"
  obtain r where r: "ValidateConfig ?c = Inr r" by (simp add: ValidateConfig_cases NewQAN_def)
  then obtain m where m: "mysql_Start 7 (NewMySQLAnalyzer ''u'' ?c NewClock NewRealMonitor) = (m, None)"
    by (simp add: mysql_Start_def mysql_Config_def NewMySQLAnalyzer_def case_prod_beta Let_def)
  have "clock_inv NewClock" "ck_watcher NewClock 7 = None" by (simp_all add: clock_inv_def NewClock_def)
  moreover have "monitor_inv NewRealMonitor" "monitor_ListenerCount ''u'' NewRealMonitor = 0"
    by (simp_all add: monitor_inv_def NewRealMonitor_def monitor_ListenerCount_def)
  moreover have "mo_inst NewRealMonitor '''' = Some \<lparr>mi_checker = NewMySQLChecker, mi_listeners = []\<rparr>"
    by (simp add: NewRealMonitor_def)
  ultimately show ?thesis using mysql_Stop_leaks [OF _ _ _ _ _ r m] m by fastforce
qed

end
