(* ===== verification/QanManager.thy ===== *)
theory QanManager
  imports Analyzer InstanceRepo
begin

text \<open>
  The QAN manager, \<open>qan/manager.go\<close>: one analyzer per instance, started, restarted and stopped by
  commands, with its configuration on disk so that it runs again after a restart of the agent. The
  analyzers are an interface of operations, since the manager gets them from a factory; the proxy of
  the MySQL analyzer is one provider of it.
\<close>

section \<open>The interface of an analyzer\<close>

text \<open>
  \<open>Make\<close> gives \<open>None\<close> for an error of the factory; \<open>Start\<close> and \<open>Stop\<close> return the analyzer and whether
  they failed.
\<close>

record 'a analyzer_ops =
  op_Make :: "string \<Rightarrow> string \<Rightarrow> inst \<Rightarrow> 'a option"
  op_SetConfig :: "QAN \<Rightarrow> 'a \<Rightarrow> 'a"
  op_Start :: "'a \<Rightarrow> 'a \<times> bool"
  op_Stop :: "'a \<Rightarrow> 'a \<times> bool"
  op_Config :: "'a \<Rightarrow> QAN"

section \<open>The manager\<close>

datatype qan_error =
    ErrAlreadyRunning | ErrNotRunning | NoInstance repo_error | ShortUUID | CannotCreate | CannotStart
  | StopFailed | BadData | WriteConfigFailed | RemoveConfigFailed | UnknownQanCmd string

text \<open>A configuration file is empty, not decodable, or holds a configuration.\<close>

datatype config_file = EmptyFile | Garbage | Stored QAN

record 'a qan_manager =
  qm_analyzers :: "(string \<times> QAN \<times> 'a) list"
  qm_repo :: repo
  qm_files :: "(string \<times> config_file) list"
  qm_status :: status

definition NewManager :: "repo \<Rightarrow> (string \<times> config_file) list \<Rightarrow> 'a qan_manager" where
  "NewManager r files = \<lparr>qm_analyzers = [], qm_repo = r, qm_files = files, qm_status = NewStatus [''qan'']\<rparr>"

definition configName :: "string \<Rightarrow> string" where
  "configName uuid = ''qan-'' @ uuid"

definition analyzerName :: "string \<Rightarrow> string \<Rightarrow> string" where
  "analyzerName analyzerType uuid = join_with ''-'' [''qan'', ''analyzer'', analyzerType, take 8 uuid]"

text \<open>\<open>readErr\<close> says whether reading the instance file fails; instances are never cached on disk.\<close>

definition startAnalyzer ::
  "'a analyzer_ops \<Rightarrow> bool \<Rightarrow> QAN \<Rightarrow> 'a qan_manager \<Rightarrow> 'a qan_manager \<times> qan_error option" where
  "startAnalyzer ops readErr setConfig m =
     (let uuid = qn_UUID setConfig
      in case map_of (qm_analyzers m) uuid of
           Some _ \<Rightarrow> (m, Some ErrAlreadyRunning)
         | None \<Rightarrow>
             (case repo_Get readErr False uuid False (qm_repo m) of
                (r, Inl e) \<Rightarrow> (m\<lparr>qm_repo := r\<rparr>, Some (NoInstance e))
              | (r, Inr i) \<Rightarrow>
                  (let m = m\<lparr>qm_repo := r\<rparr>
                   in if length (in_UUID i) < 8 then (m, Some ShortUUID)
                      else case op_Make ops (in_Subsystem i) (analyzerName (in_Subsystem i) (in_UUID i)) i of
                             None \<Rightarrow> (m, Some CannotCreate)
                           | Some a \<Rightarrow>
                               (case op_Start ops (op_SetConfig ops setConfig a) of
                                  (_, True) \<Rightarrow> (m, Some CannotStart)
                                | (a, False) \<Rightarrow>
                                    (m\<lparr>qm_analyzers := alist_put uuid (setConfig, a) (qm_analyzers m)\<rparr>, None)))))"

definition stopAnalyzer :: "'a analyzer_ops \<Rightarrow> string \<Rightarrow> 'a qan_manager \<Rightarrow> 'a qan_manager \<times> qan_error option" where
  "stopAnalyzer ops uuid m =
     (case map_of (qm_analyzers m) uuid of
        None \<Rightarrow> (m, Some ErrNotRunning)
      | Some (c, a) \<Rightarrow>
          (let m = m\<lparr>qm_status := status_Update ''qan'' ''Stopping'' (qm_status m)\<rparr>
           in case op_Stop ops a of
                (a, True) \<Rightarrow> (m\<lparr>qm_analyzers := alist_put uuid (c, a) (qm_analyzers m)\<rparr>, Some StopFailed)
              | (_, False) \<Rightarrow> (m\<lparr>qm_analyzers := alist_del uuid (qm_analyzers m)\<rparr>, None)))"

definition restartAnalyzer ::
  "'a analyzer_ops \<Rightarrow> bool \<Rightarrow> QAN \<Rightarrow> 'a qan_manager \<Rightarrow> 'a qan_manager \<times> qan_error option" where
  "restartAnalyzer ops readErr setConfig m =
     (case map_of (qm_analyzers m) (qn_UUID setConfig) of
        None \<Rightarrow> (m, Some ErrNotRunning)
      | Some _ \<Rightarrow>
          (case stopAnalyzer ops (qn_UUID setConfig) m of
             (m, Some e) \<Rightarrow> (m, Some e)
           | (m, None) \<Rightarrow> startAnalyzer ops readErr setConfig m))"

text \<open>
  \<open>Start\<close> over the configuration files, in the order of the glob; \<open>unreadable\<close> says which cannot be
  read. A file that is empty is removed; an analyzer that fails to start is skipped.
\<close>

definition start_file :: "'a analyzer_ops \<Rightarrow> (string \<Rightarrow> bool) \<Rightarrow> bool \<Rightarrow> 'a qan_manager \<Rightarrow> string \<Rightarrow> 'a qan_manager" where
  "start_file ops unreadable readErr m f =
     (if unreadable f then m
      else case map_of (qm_files m) f of
             None \<Rightarrow> m
           | Some EmptyFile \<Rightarrow> m\<lparr>qm_files := alist_del f (qm_files m)\<rparr>
           | Some Garbage \<Rightarrow> m
           | Some (Stored c) \<Rightarrow> fst (startAnalyzer ops readErr c m))"

definition manager_Start :: "'a analyzer_ops \<Rightarrow> (string \<Rightarrow> bool) \<Rightarrow> bool \<Rightarrow> 'a qan_manager \<Rightarrow> 'a qan_manager" where
  "manager_Start ops unreadable readErr m =
     (let m = m\<lparr>qm_status := status_Update ''qan'' ''Starting'' (qm_status m)\<rparr>;
          m = foldl (start_file ops unreadable readErr) m (map fst (qm_files m))
      in m\<lparr>qm_status := status_Update ''qan'' ''Running'' (qm_status m)\<rparr>)"

definition manager_Stop :: "'a analyzer_ops \<Rightarrow> 'a qan_manager \<Rightarrow> 'a qan_manager" where
  "manager_Stop ops m =
     (let m = foldl (\<lambda>m u. fst (stopAnalyzer ops u m)) m (map fst (qm_analyzers m))
      in m\<lparr>qm_status := status_Update ''qan'' ''Stopped'' (qm_status m)\<rparr>)"

text \<open>
  \<open>GetConfig\<close> takes the read lock; it waits for ever, the value \<open>None\<close>, when the caller itself holds the
  write lock.
\<close>

definition manager_GetConfig :: "'a analyzer_ops \<Rightarrow> bool \<Rightarrow> 'a qan_manager \<Rightarrow> (string \<times> QAN \<times> QAN) list option" where
  "manager_GetConfig ops locked m =
     (if locked then None
      else Some (map (\<lambda>(uuid, c, a). (uuid, c, op_Config ops a)) (qm_analyzers m)))"

datatype qan_cmd = StartTool "QAN option" | RestartTool "QAN option" | StopTool string | GetConfigCmd | OtherCmd string

datatype qan_reply = Reply "QAN option" "qan_error list" | Configs "(string \<times> QAN \<times> QAN) list" | Blocked

record handle_env =
  he_read :: bool
  he_write :: bool
  he_remove :: bool
  he_repo :: bool

definition write_config ::
  "'a analyzer_ops \<Rightarrow> handle_env \<Rightarrow> QAN \<Rightarrow> 'a qan_manager \<Rightarrow> 'a qan_manager \<times> qan_reply" where
  "write_config ops e c m =
     (if he_write e then (m, Reply None [WriteConfigFailed])
      else
        (let m = m\<lparr>qm_files := alist_put (configName (qn_UUID c)) (Stored c) (qm_files m)\<rparr>
         in (m, Reply (map_option (\<lambda>(_, a). op_Config ops a) (map_of (qm_analyzers m) (qn_UUID c))) [])))"

text \<open>\<open>Handle\<close>, which holds the write lock throughout; the data of a command are decoded already.\<close>

fun manager_Handle ::
  "'a analyzer_ops \<Rightarrow> handle_env \<Rightarrow> qan_cmd \<Rightarrow> 'a qan_manager \<Rightarrow> 'a qan_manager \<times> qan_reply" where
  "manager_Handle ops e (StartTool None) m = (m, Reply None [BadData])"
| "manager_Handle ops e (StartTool (Some c)) m =
     (case startAnalyzer ops (he_read e) c m of
        (m, Some err) \<Rightarrow> (m, Reply None [err])
      | (m, None) \<Rightarrow> write_config ops e c m)"
| "manager_Handle ops e (RestartTool None) m = (m, Reply None [BadData])"
| "manager_Handle ops e (RestartTool (Some c)) m =
     (case restartAnalyzer ops (he_read e) c m of
        (m, Some err) \<Rightarrow> (m, Reply None [err])
      | (m, None) \<Rightarrow> write_config ops e c m)"
| "manager_Handle ops e (StopTool uuid) m =
     (let (m, err) = stopAnalyzer ops uuid m;
          errs = (case err of None \<Rightarrow> [] | Some ErrNotRunning \<Rightarrow> [] | Some x \<Rightarrow> [x]);
          (m, errs) = (if he_remove e then (m, errs @ [RemoveConfigFailed])
                       else (m\<lparr>qm_files := alist_del (configName uuid) (qm_files m)\<rparr>, errs));
          m = m\<lparr>qm_repo := fst (repo_Remove (he_repo e) uuid (qm_repo m))\<rparr>
      in (m, Reply None errs))"
| "manager_Handle ops e GetConfigCmd m =
     (case manager_GetConfig ops True m of None \<Rightarrow> (m, Blocked) | Some cs \<Rightarrow> (m, Configs cs))"
| "manager_Handle ops e (OtherCmd c) m = (m, Reply None [UnknownQanCmd c])"

section \<open>What runs is what is on disk\<close>

lemma configName_inj [simp]: "configName u = configName v \<longleftrightarrow> u = v"
  by (simp add: configName_def)

definition tools_inv :: "'a qan_manager \<Rightarrow> bool" where
  "tools_inv m \<longleftrightarrow>
     (\<forall>u c a. map_of (qm_analyzers m) u = Some (c, a) \<longrightarrow> qn_UUID c = u)
     \<and> (\<forall>u. map_of (qm_files m) (configName u)
          = map_option (\<lambda>(c, a). Stored c) (map_of (qm_analyzers m) u))
     \<and> wf_alist (qm_files m) \<and> (\<forall>f \<in> fst ` set (qm_files m). \<exists>u. f = configName u)"

lemma startAnalyzer_cases:
  assumes "startAnalyzer ops readErr c m = (m', err)"
  shows "qm_files m' = qm_files m"
    and "err = None \<Longrightarrow> map_of (qm_analyzers m) (qn_UUID c) = None
      \<and> (\<exists>a. qm_analyzers m' = alist_put (qn_UUID c) (c, a) (qm_analyzers m))"
    and "err \<noteq> None \<Longrightarrow> qm_analyzers m' = qm_analyzers m"
  using assms
  by (auto simp: startAnalyzer_def Let_def split: option.splits prod.splits sum.splits if_splits bool.splits)

lemma stopAnalyzer_cases:
  assumes "stopAnalyzer ops u m = (m', err)"
  shows "qm_files m' = qm_files m" and "qm_repo m' = qm_repo m"
    and "err = None \<Longrightarrow> qm_analyzers m' = alist_del u (qm_analyzers m)"
    and "err = Some ErrNotRunning \<Longrightarrow> m' = m \<and> map_of (qm_analyzers m) u = None"
  using assms
  by (auto simp: stopAnalyzer_def Let_def split: option.splits prod.splits bool.splits)

lemma tools_inv_put:
  assumes "tools_inv m" and "map_of (qm_analyzers m') = (map_of (qm_analyzers m))(qn_UUID c \<mapsto> (c, a))"
    and "qm_files m' = alist_put (configName (qn_UUID c)) (Stored c) (qm_files m)"
  shows "tools_inv m'"
  using assms by (auto simp: tools_inv_def)

lemma tools_inv_del:
  assumes "tools_inv m" and "map_of (qm_analyzers m') = (map_of (qm_analyzers m))(u := None)"
    and "qm_files m' = alist_del (configName u) (qm_files m)"
  shows "tools_inv m'"
  using assms by (auto simp: tools_inv_def)

lemma tools_inv_cong:
  "qm_analyzers m' = qm_analyzers m \<Longrightarrow> qm_files m' = qm_files m \<Longrightarrow> tools_inv m \<Longrightarrow> tools_inv m'"
  by (simp add: tools_inv_def)

text \<open>
  A command is answered cleanly when no error leaves the disk and the running analyzers apart: any
  reply without errors, and the errors of a command that changed nothing.
\<close>

definition clean_reply :: "qan_cmd \<Rightarrow> qan_reply \<Rightarrow> bool" where
  "clean_reply cmd r \<longleftrightarrow>
     (case r of
        Reply _ errs \<Rightarrow> errs = []
          \<or> (case cmd of
               StartTool _ \<Rightarrow> WriteConfigFailed \<notin> set errs
             | RestartTool _ \<Rightarrow> errs = [ErrNotRunning] \<or> errs = [BadData]
             | StopTool _ \<Rightarrow> False
             | _ \<Rightarrow> True)
      | _ \<Rightarrow> True)"

lemma handle_start_inv:
  assumes "tools_inv m" and "manager_Handle ops e (StartTool (Some c)) m = (m', r)" and "clean_reply (StartTool (Some c)) r"
  shows "tools_inv m'"
proof -
  obtain m1 err where s: "startAnalyzer ops (he_read e) c m = (m1, err)" by fastforce
  note sc = startAnalyzer_cases [OF s]
  show ?thesis
  proof (cases err)
    case None
    then obtain a where "qm_analyzers m1 = alist_put (qn_UUID c) (c, a) (qm_analyzers m)" using sc(2) by auto
    with None s assms sc(1) show ?thesis
      by (auto simp: write_config_def clean_reply_def Let_def split: if_splits intro!: tools_inv_put [OF assms(1)])
  next
    case (Some x)
    with s assms(1,2) sc(1,3) show ?thesis by (auto intro: tools_inv_cong)
  qed
qed

lemma restart_ErrNotRunning:
  assumes "restartAnalyzer ops b c m = (m', Some ErrNotRunning)"
  shows "m' = m"
  using assms
  by (auto simp: restartAnalyzer_def stopAnalyzer_def startAnalyzer_def Let_def
      split: option.splits prod.splits sum.splits if_splits bool.splits)

lemma handle_restart_inv:
  assumes "tools_inv m" and "manager_Handle ops e (RestartTool (Some c)) m = (m', r)" and "clean_reply (RestartTool (Some c)) r"
  shows "tools_inv m'"
proof -
  obtain m2 err where s: "restartAnalyzer ops (he_read e) c m = (m2, err)" by fastforce
  show ?thesis
  proof (cases err)
    case None
    obtain m1 where stop: "stopAnalyzer ops (qn_UUID c) m = (m1, None)" and start: "startAnalyzer ops (he_read e) c m1 = (m2, None)"
      using s None by (auto simp: restartAnalyzer_def split: option.splits prod.splits)
    obtain a where "qm_analyzers m2 = alist_put (qn_UUID c) (c, a) (alist_del (qn_UUID c) (qm_analyzers m))"
      using startAnalyzer_cases(2) [OF start] stopAnalyzer_cases(3) [OF stop] by auto
    then have "map_of (qm_analyzers m2) = (map_of (qm_analyzers m))(qn_UUID c \<mapsto> (c, a))" by auto
    with None s assms startAnalyzer_cases(1) [OF start] stopAnalyzer_cases(1) [OF stop] show ?thesis
      by (auto simp: write_config_def clean_reply_def Let_def split: if_splits intro!: tools_inv_put [OF assms(1)])
  next
    case (Some x)
    have "x \<noteq> BadData"
      using s Some by (auto simp: restartAnalyzer_def stopAnalyzer_def startAnalyzer_def Let_def
          split: option.splits prod.splits sum.splits if_splits bool.splits)
    with s assms Some have "x = ErrNotRunning" "m' = m2" by (auto simp: clean_reply_def)
    with restart_ErrNotRunning s Some assms(1) show ?thesis by metis
  qed
qed

lemma handle_stop_inv:
  assumes "tools_inv m" and "manager_Handle ops e (StopTool u) m = (m', r)" and "clean_reply (StopTool u) r"
  shows "tools_inv m'"
proof -
  obtain m1 err where s: "stopAnalyzer ops u m = (m1, err)" by fastforce
  note sc = stopAnalyzer_cases [OF s]
  have ok: "err = None \<or> err = Some ErrNotRunning" and "\<not> he_remove e"
    using assms(2,3) s by (auto simp: clean_reply_def Let_def split: if_splits option.splits qan_error.splits)
  moreover from this have "map_of (qm_analyzers m1) = (map_of (qm_analyzers m))(u := None)"
    using sc(3,4) by (auto simp: fun_upd_idem)
  ultimately show ?thesis
    using assms(2) s sc(1) by (auto simp: Let_def intro!: tools_inv_del [OF assms(1)])
qed

definition qan_init :: "'a qan_manager \<Rightarrow> bool" where
  "qan_init m \<longleftrightarrow> (\<exists>r. m = NewManager r [])"

definition qan_step :: "'a analyzer_ops \<Rightarrow> 'a qan_manager \<Rightarrow> handle_env \<times> qan_cmd \<Rightarrow> 'a qan_manager \<Rightarrow> bool" where
  "qan_step ops m ec m' \<longleftrightarrow>
     (\<exists>r. manager_Handle ops (fst ec) (snd ec) m = (m', r) \<and> clean_reply (snd ec) r)"

lemma qan_step_inv:
  assumes "tools_inv m" and "qan_step ops m ec m'"
  shows "tools_inv m'"
proof -
  obtain e cmd r where h: "manager_Handle ops e cmd m = (m', r)" "clean_reply cmd r"
    using assms(2) by (auto simp: qan_step_def)
  show ?thesis
  proof (cases "(ops, e, cmd, m)" rule: manager_Handle.cases)
    case (2 ops e c m)
    with h assms(1) handle_start_inv show ?thesis by blast
  next
    case (4 ops e c m)
    with h assms(1) handle_restart_inv show ?thesis by blast
  next
    case (5 ops e u m)
    with h assms(1) handle_stop_inv show ?thesis by blast
  qed (use h assms(1) in \<open>auto simp: manager_GetConfig_def\<close>)
qed

lemma tools_inv_init: "qan_init m \<Longrightarrow> tools_inv m"
  by (auto simp: qan_init_def NewManager_def tools_inv_def)

interpretation qm: step_invariant qan_init "qan_step ops" tools_inv for ops
  by unfold_locales (rule tools_inv_init, assumption, rule qan_step_inv)

section \<open>Restart of the agent\<close>

text \<open>The configuration each running analyzer was set to.\<close>

definition set_config :: "'a qan_manager \<Rightarrow> string \<rightharpoonup> QAN" where
  "set_config m u = map_option fst (map_of (qm_analyzers m) u)"

text \<open>An analyzer that starts: its instance is in the repository, and neither the factory nor \<open>Start\<close> fails.\<close>

definition startable :: "'a analyzer_ops \<Rightarrow> repo \<Rightarrow> QAN \<Rightarrow> bool" where
  "startable ops r c \<longleftrightarrow>
     (case rp_inst r (qn_UUID c) of
        None \<Rightarrow> False
      | Some i \<Rightarrow> 8 \<le> length (in_UUID i)
          \<and> (case op_Make ops (in_Subsystem i) (analyzerName (in_Subsystem i) (in_UUID i)) i of
               None \<Rightarrow> False
             | Some a \<Rightarrow> \<not> snd (op_Start ops (op_SetConfig ops c a))))"

lemma startAnalyzer_startable:
  assumes "startable ops (qm_repo m) c" and "map_of (qm_analyzers m) (qn_UUID c) = None"
  shows "\<exists>a. startAnalyzer ops b c m = (m\<lparr>qm_analyzers := alist_put (qn_UUID c) (c, a) (qm_analyzers m)\<rparr>, None)"
  using assms
  by (auto simp: startable_def startAnalyzer_def repo_Get_def Let_def case_prod_beta split: option.splits bool.splits)

lemma start_files:
  assumes "distinct fs" and "\<forall>f \<in> set fs. \<not> unreadable f"
    and "\<forall>f \<in> set fs. \<exists>c. map_of (qm_files m) f = Some (Stored c) \<and> f = configName (qn_UUID c)
           \<and> startable ops (qm_repo m) c \<and> map_of (qm_analyzers m) (qn_UUID c) = None"
  shows "set_config (foldl (start_file ops unreadable b) m fs) u
    = (if configName u \<in> set fs then (case map_of (qm_files m) (configName u) of Some (Stored c) \<Rightarrow> Some c | _ \<Rightarrow> None)
       else set_config m u)"
  using assms
proof (induction fs arbitrary: m)
  case Nil
  then show ?case by simp
next
  case (Cons f fs)
  obtain c where c: "map_of (qm_files m) f = Some (Stored c)" "f = configName (qn_UUID c)"
    "startable ops (qm_repo m) c" "map_of (qm_analyzers m) (qn_UUID c) = None"
    using Cons.prems(3) by auto
  from startAnalyzer_startable [OF c(3,4), of b] obtain a where
    s: "start_file ops unreadable b m f = m\<lparr>qm_analyzers := alist_put (qn_UUID c) (c, a) (qm_analyzers m)\<rparr>"
    using Cons.prems(2) c(1) by (auto simp: start_file_def)
  let ?m = "start_file ops unreadable b m f"
  have "set_config (foldl (start_file ops unreadable b) ?m fs) u
    = (if configName u \<in> set fs then (case map_of (qm_files ?m) (configName u) of Some (Stored c) \<Rightarrow> Some c | _ \<Rightarrow> None)
       else set_config ?m u)"
  proof (rule Cons.IH)
    show "\<forall>g \<in> set fs. \<exists>c. map_of (qm_files ?m) g = Some (Stored c) \<and> g = configName (qn_UUID c)
       \<and> startable ops (qm_repo ?m) c \<and> map_of (qm_analyzers ?m) (qn_UUID c) = None"
    proof
      fix g
      assume g: "g \<in> set fs"
      then obtain d where d: "map_of (qm_files m) g = Some (Stored d)" "g = configName (qn_UUID d)"
        "startable ops (qm_repo m) d" "map_of (qm_analyzers m) (qn_UUID d) = None" using Cons.prems(3) by auto
      moreover have "qn_UUID d \<noteq> qn_UUID c" using g Cons.prems(1) c(2) d(2) by auto
      ultimately show "\<exists>c. map_of (qm_files ?m) g = Some (Stored c) \<and> g = configName (qn_UUID c)
         \<and> startable ops (qm_repo ?m) c \<and> map_of (qm_analyzers ?m) (qn_UUID c) = None"
        by (intro exI [of _ d]) (simp add: s)
    qed
  qed (use Cons.prems(1,2) in auto)
  moreover have "qm_files ?m = qm_files m" "set_config ?m = (set_config m)(qn_UUID c \<mapsto> c)"
    by (auto simp: s set_config_def)
  moreover have "configName u = f \<longleftrightarrow> u = qn_UUID c" using c(2) by simp
  ultimately show ?case using c(1) Cons.prems(1) by (cases "u = qn_UUID c") simp_all
qed

text \<open>
  C8: Query Analytics resumes after a restart of the agent. After any sequence of commands that were
  answered cleanly, a new manager on the same files that can start every instance on disk runs an
  analyzer on exactly the same instances, each with the configuration it was last set to.
\<close>

theorem manager_restart_resumes:
  assumes "reachable qan_init (qan_step ops) m" and "\<forall>f \<in> fst ` set (qm_files m). \<not> unreadable f"
    and "\<forall>u c. set_config m u = Some c \<longrightarrow> startable ops r c"
  shows "set_config (manager_Start ops unreadable b (NewManager r (qm_files m))) = set_config m"
proof
  fix u
  have inv: "tools_inv m" by (rule qm.reachable_inv [OF assms(1)])
  let ?m0 = "(NewManager r (qm_files m) :: 'a qan_manager)\<lparr>qm_status := status_Update ''qan'' ''Starting'' (NewStatus [''qan''])\<rparr>"
  let ?fs = "map fst (qm_files m)"
  have stored: "\<exists>c. map_of (qm_files m) f = Some (Stored c) \<and> f = configName (qn_UUID c)
      \<and> startable ops r c" if f: "f \<in> set ?fs" for f
  proof -
    obtain v where v: "f = configName v" using inv f by (auto simp: tools_inv_def)
    then obtain x where "map_of (qm_files m) (configName v) = Some x"
      using f by (metis domIff dom_map_of_conv_image_fst not_Some_eq set_map)
    moreover have "map_of (qm_files m) (configName v) = map_option (\<lambda>(c, a). Stored c) (map_of (qm_analyzers m) v)"
      using inv by (simp add: tools_inv_def)
    ultimately obtain c a where "map_of (qm_analyzers m) v = Some (c, a)" "map_of (qm_files m) f = Some (Stored c)"
      using v by auto
    moreover from this have "qn_UUID c = v" using inv by (simp add: tools_inv_def)
    ultimately show ?thesis using assms(3) v by (auto simp: set_config_def)
  qed
  have "set_config (foldl (start_file ops unreadable b) ?m0 ?fs) u
    = (if configName u \<in> set ?fs then (case map_of (qm_files ?m0) (configName u) of Some (Stored c) \<Rightarrow> Some c | _ \<Rightarrow> None)
       else set_config ?m0 u)"
    using inv assms(2) stored by (intro start_files) (auto simp: NewManager_def tools_inv_def wf_alist_def)
  moreover have "map_of (qm_files m) (configName u) = map_option Stored (set_config m u)"
    using inv by (cases "map_of (qm_analyzers m) u") (auto simp: tools_inv_def set_config_def)
  moreover from this have "configName u \<in> set ?fs \<longleftrightarrow> set_config m u \<noteq> None"
    by (metis map_of_eq_None_iff option.map_disc_iff set_map)
  ultimately show "set_config (manager_Start ops unreadable b (NewManager r (qm_files m))) u = set_config m u"
    by (auto simp: manager_Start_def NewManager_def set_config_def Let_def split: option.splits)
qed

text \<open>
  An instance whose tool was stopped cannot be started again. \<open>StopTool\<close> removes the instance
  and its file from the repository, and the next \<open>StartTool\<close> for it finds neither.
\<close>

theorem manager_stop_forgets_instance:
  assumes "manager_Handle ops e (StopTool (qn_UUID c)) m = (m', Reply None [])" and "\<not> he_repo e"
  shows "snd (manager_Handle ops e' (StartTool (Some c)) m') = Reply None [NoInstance ErrInstanceNotFound]"
proof -
  let ?u = "qn_UUID c"
  obtain m1 err where s: "stopAnalyzer ops ?u m = (m1, err)" by fastforce
  note sc = stopAnalyzer_cases [OF s]
  have "err = None \<or> err = Some ErrNotRunning"
    using assms(1) s by (auto simp: Let_def split: if_splits option.splits qan_error.splits)
  then have "map_of (qm_analyzers m1) ?u = None" using sc(3,4) by auto
  moreover have "qm_analyzers m' = qm_analyzers m1" "qm_repo m' = fst (repo_Remove False ?u (qm_repo m1))"
    using assms s by (auto simp: Let_def split: if_splits)
  ultimately show ?thesis
    by (simp add: startAnalyzer_def repo_Get_def repo_Remove_def Let_def)
qed

section \<open>The MySQL analyzer as a provider\<close>

text \<open>The factory for one instance of the MySQL analyzer, with a clock and a restart monitor of its own.\<close>

definition mysql_ops :: "mysql_analyzer analyzer_ops" where
  "mysql_ops =
     \<lparr>op_Make = (\<lambda>analyzerType _ i.
        if analyzerType = ''mysql'' then Some (NewMySQLAnalyzer (in_UUID i) NewQAN NewClock NewRealMonitor) else None),
      op_SetConfig = mysql_SetConfig,
      op_Start = (\<lambda>a. map_prod id (\<lambda>e. e \<noteq> None) (mysql_Start 0 a)),
      op_Stop = (\<lambda>a. case mysql_Stop a of None \<Rightarrow> (a, True) | Some a' \<Rightarrow> (a', False)),
      op_Config = (\<lambda>a. snd (mysql_Config a))\<rparr>"

definition demo_inst :: inst where
  "demo_inst = \<lparr>in_UUID = ''12345678'', in_Subsystem = ''mysql'', in_Name = '''', in_DSN = '''', in_Distro = '''', in_Version = ''''\<rparr>"

definition demo_repo :: repo where
  "demo_repo = \<lparr>rp_instances = [(''12345678'', demo_inst)], rp_files = Map.empty\<rparr>"

definition demo_qan :: QAN where
  "demo_qan = NewQAN\<lparr>qn_UUID := ''12345678'', qn_CollectFrom := ''slowlog''\<rparr>"

definition demo_env :: handle_env where
  "demo_env = \<lparr>he_read = False, he_write = False, he_remove = False, he_repo = False\<rparr>"

lemma mysql_ops_startable:
  assumes "ValidateConfig c = Inr r" and "rp_inst rp (qn_UUID c) = Some i" and "in_Subsystem i = ''mysql''" and "8 \<le> length (in_UUID i)"
  shows "startable mysql_ops rp c"
  using assms
  by (simp add: startable_def mysql_ops_def mysql_Start_def mysql_Config_def mysql_SetConfig_def NewMySQLAnalyzer_def
      case_prod_beta Let_def)

lemma demo_startable: "startable mysql_ops demo_repo demo_qan"
  by (rule mysql_ops_startable [where i = demo_inst])
    (simp_all add: ValidateConfig_cases demo_qan_def NewQAN_def demo_repo_def demo_inst_def)

theorem manager_restart_resumes_witness:
  "\<exists>m. reachable qan_init (qan_step mysql_ops) m \<and> set_config m ''12345678'' = Some demo_qan
    \<and> set_config (manager_Start mysql_ops (\<lambda>_. False) False (NewManager demo_repo (qm_files m))) = set_config m"
proof -
  let ?m0 = "NewManager demo_repo [] :: mysql_analyzer qan_manager"
  have "map_of (qm_analyzers ?m0) (qn_UUID demo_qan) = None" "qm_repo ?m0 = demo_repo" by (simp_all add: NewManager_def)
  with startAnalyzer_startable [of mysql_ops ?m0 demo_qan False] demo_startable obtain a where
    s: "startAnalyzer mysql_ops False demo_qan ?m0
      = (?m0\<lparr>qm_analyzers := alist_put (qn_UUID demo_qan) (demo_qan, a) (qm_analyzers ?m0)\<rparr>, None)" by auto
  define m where "m = fst (manager_Handle mysql_ops demo_env (StartTool (Some demo_qan)) ?m0)"
  have "qan_step mysql_ops ?m0 (demo_env, StartTool (Some demo_qan)) m"
    using s by (simp add: qan_step_def m_def demo_env_def write_config_def clean_reply_def Let_def)
  moreover have "reachable qan_init (qan_step mysql_ops) ?m0" by (rule reachable.start) (auto simp: qan_init_def)
  ultimately have r: "reachable qan_init (qan_step mysql_ops) m" by (blast intro: reachable.move)
  have conf: "set_config m = [''12345678'' \<mapsto> demo_qan]"
    using s by (auto simp: m_def demo_env_def write_config_def set_config_def NewManager_def demo_qan_def Let_def)
  then have "\<forall>u c. set_config m u = Some c \<longrightarrow> startable mysql_ops demo_repo c"
    using demo_startable by (auto split: if_splits)
  from manager_restart_resumes [OF r _ this] r conf show ?thesis by auto
qed

theorem manager_stop_forgets_instance_witness:
  "snd (manager_Handle mysql_ops demo_env (StartTool (Some demo_qan))
     (fst (manager_Handle mysql_ops demo_env (StopTool ''12345678'') (NewManager demo_repo []))))
   = Reply None [NoInstance ErrInstanceNotFound]"
proof -
  let ?h = "manager_Handle mysql_ops demo_env (StopTool (qn_UUID demo_qan)) (NewManager demo_repo [])"
  have u: "qn_UUID demo_qan = ''12345678''" by (simp add: demo_qan_def)
  have "?h = (fst ?h, Reply None [])"
    by (simp add: stopAnalyzer_def NewManager_def demo_env_def Let_def)
  from manager_stop_forgets_instance [OF this, of demo_env] show ?thesis by (simp add: u demo_env_def)
qed

section \<open>Status and defaults\<close>

text \<open>
  \<open>st\<close> is the status of an analyzer and \<open>df\<close> its defaults. The analyzers are visited in the order of Go's
  map, which is not determined; entries of the same name replace each other.
\<close>

definition manager_Status :: "('a \<Rightarrow> status) \<Rightarrow> 'a qan_manager \<Rightarrow> status" where
  "manager_Status st m = foldl (\<lambda>s (uuid, c, a). s ++ st a) (qm_status m) (qm_analyzers m)"

definition manager_GetDefaults :: "(string \<Rightarrow> 'a \<Rightarrow> (string \<rightharpoonup> 'd)) \<Rightarrow> string \<Rightarrow> 'a qan_manager \<Rightarrow> (string \<rightharpoonup> 'd)" where
  "manager_GetDefaults df uuid m =
     (case map_of (qm_analyzers m) uuid of Some (c, a) \<Rightarrow> df uuid a | None \<Rightarrow> Map.empty)"

lemma foldl_map_add:
  assumes "x \<in> set xs" and "f x k = Some v" and "\<forall>y \<in> set xs. k \<in> dom (f y) \<longrightarrow> f y k = Some v"
  shows "foldl (\<lambda>s y. s ++ f y) s xs k = Some v"
  using assms
proof (induction xs rule: rev_induct)
  case (snoc y ys)
  then show ?case
    by (cases "f y k") (auto simp: map_add_def)
qed simp

text \<open>
  As long as no two analyzers report different values under one name, the status of the service has every
  entry of every analyzer, in whatever order they are visited.
\<close>

lemma manager_Status_shows:
  assumes "(uuid, c, a) \<in> set (qm_analyzers m)" and "st a k = Some v"
    and "\<forall>(u, d, b) \<in> set (qm_analyzers m). k \<in> dom (st b) \<longrightarrow> st b k = Some v"
  shows "manager_Status st m k = Some v"
proof -
  have eq: "(\<lambda>s (uuid, c, a). s ++ st a) = (\<lambda>s y. s ++ st (snd (snd y)))" by (auto simp: fun_eq_iff)
  have "\<forall>y \<in> set (qm_analyzers m). k \<in> dom (st (snd (snd y))) \<longrightarrow> st (snd (snd y)) k = Some v"
    using assms(3) by (auto simp: case_prod_beta)
  with assms(1,2) show ?thesis
    unfolding manager_Status_def eq by (intro foldl_map_add [where x = "(uuid, c, a)"]) simp_all
qed

end
