(* ===== verification/Agent.thy ===== *)
theory Agent
  imports Pct
begin

text \<open>
  The agent, \<open>agent/agent.go\<close>: the command loop that queues the commands of the API, the handlers
  that execute them and reply, the dispatch to the services, and the agent's own commands. The loop
  and its goroutines are a step relation; a service is a state with start, stop, handle and status
  operations, which are arguments.
\<close>

section \<open>Commands and replies\<close>

record Cmd =
  cm_Id :: string
  cm_Service :: string
  cm_Cmd :: string
  cm_Data :: bytes

record AgentConfig =
  cf_Service :: string
  cf_UUID :: string
  cf_Set :: string
  cf_Running :: string

record agent_config =
  ac_UUID :: string
  ac_ApiHostname :: string
  ac_ApiPath :: string
  ac_Keepalive :: u64
  ac_PidFile :: string
  ac_Links :: "(string \<times> string) list"
  ac_ServerUser :: string
  ac_ServerPassword :: string
  ac_ServerSSL :: bool
  ac_ServerInsecureSSL :: bool

text \<open>The data of a reply before they are encoded as JSON.\<close>

datatype reply_data =
    DConfigs "AgentConfig list" | DAgent agent_config | DText string | DStatus status
  | DDefaults "(string \<times> (string \<times> string) list) list"

record reply =
  ry_Id :: string
  ry_Cmd :: string
  ry_Error :: string
  ry_Data :: "reply_data option"

text \<open>
  \<open>Cmd.Reply\<close>: the error messages, a nil error being an empty one, are joined by newlines.
\<close>

definition Cmd_Reply :: "Cmd \<Rightarrow> reply_data option \<Rightarrow> string option list \<Rightarrow> reply" where
  "Cmd_Reply c data errs =
     \<lparr>ry_Id = cm_Id c, ry_Cmd = cm_Cmd c,
      ry_Error = join_with [CHR 10] (map (\<lambda>e. case e of None \<Rightarrow> '''' | Some m \<Rightarrow> m) errs),
      ry_Data = data\<rparr>"

definition CMD_QUEUE_SIZE :: nat where "CMD_QUEUE_SIZE = 10"
definition STATUS_QUEUE_SIZE :: nat where "STATUS_QUEUE_SIZE = 10"
definition MAX_ERRORS :: nat where "MAX_ERRORS = 3"

text \<open>The limit of commands executed at the same time, the capacity of the handler's queue.\<close>

definition handler_limit :: nat where "handler_limit = 20"

definition QueueFullError :: "string \<Rightarrow> string \<Rightarrow> nat \<Rightarrow> string" where
  "QueueFullError cmd name n =
     ''Cannot handle '' @ cmd @ '' command because the '' @ name @ '' queue is full (size: '' @ string_of_nat n
       @ '' messages)'' @ [CHR 10]"

definition UnknownServiceError :: "string \<Rightarrow> string" where
  "UnknownServiceError service = ''Unknown service: '' @ service"

definition UnknownCmdError :: "string \<Rightarrow> string" where
  "UnknownCmdError cmd = ''Unknown command: '' @ cmd"

definition CmdTimeoutError :: "string \<Rightarrow> string" where
  "CmdTimeoutError cmd = ''Timeout waiting for '' @ cmd"

section \<open>The agent's own commands\<close>

text \<open>
  A service has a state of type \<open>'s\<close>; \<open>Start\<close> and \<open>Stop\<close> give an error or none. A handler returns
  a reply, nil, or panics.
\<close>

datatype handler_out = HReply reply | HNil | HPanic string

record 's service_ops =
  so_Start :: "'s \<Rightarrow> 's \<times> string option"
  so_Stop :: "'s \<Rightarrow> 's \<times> string option"
  so_Handle :: "Cmd \<Rightarrow> 's \<Rightarrow> 's \<times> handler_out"
  so_GetConfig :: "'s \<Rightarrow> AgentConfig list \<times> string list"
  so_Status :: "'s \<Rightarrow> status"

record 's agent =
  ag_config :: agent_config
  ag_services :: "(string \<times> 's) list"
  ag_file :: agent_config
  ag_status :: status

text \<open>
  What a command needs from outside: the decoded data of the command (\<open>Inl\<close> is the decoding
  error), the text of the configuration file and of the running configuration, the error of writing
  the configuration, and the output of the external programs.
\<close>

record agent_env =
  ae_service :: "string + string"
  ae_config :: "string + agent_config"
  ae_set :: string
  ae_running :: "agent_config \<Rightarrow> string"
  ae_write :: "string option"
  ae_version :: "string \<times> string list"
  ae_run :: "string list \<Rightarrow> string + string"

definition handleStartService :: "'s service_ops \<Rightarrow> agent_env \<Rightarrow> 's agent \<Rightarrow> 's agent \<times> string option" where
  "handleStartService ops e a =
     (case ae_service e of
        Inl err \<Rightarrow> (a, Some err)
      | Inr name \<Rightarrow>
          (case map_of (ag_services a) name of
             None \<Rightarrow> (a, Some (UnknownServiceError name))
           | Some m \<Rightarrow>
               (let (m, err) = so_Start ops m in (a\<lparr>ag_services := alist_put name m (ag_services a)\<rparr>, err))))"

definition handleStopService :: "'s service_ops \<Rightarrow> agent_env \<Rightarrow> 's agent \<Rightarrow> 's agent \<times> string option" where
  "handleStopService ops e a =
     (case ae_service e of
        Inl err \<Rightarrow> (a, Some err)
      | Inr name \<Rightarrow>
          (case map_of (ag_services a) name of
             None \<Rightarrow> (a, Some (UnknownServiceError name))
           | Some m \<Rightarrow>
               (let (m, err) = so_Stop ops m in (a\<lparr>ag_services := alist_put name m (ag_services a)\<rparr>, err))))"

text \<open>The agent's own configuration is reported without its links.\<close>

definition agent_GetConfig :: "agent_env \<Rightarrow> 's agent \<Rightarrow> AgentConfig list" where
  "agent_GetConfig e a =
     [\<lparr>cf_Service = ''agent'', cf_UUID = '''', cf_Set = ae_set e,
       cf_Running = ae_running e ((ag_config a)\<lparr>ac_Links := []\<rparr>)\<rparr>]"

definition GetAllConfigs :: "'s service_ops \<Rightarrow> agent_env \<Rightarrow> 's agent \<Rightarrow> AgentConfig list \<times> string list" where
  "GetAllConfigs ops e a =
     foldl (\<lambda>(configs, errs) (service, m).
       case so_GetConfig ops m of (config, err) \<Rightarrow>
         if err \<noteq> [] then (configs, errs @ err) else (configs @ config, errs))
       (agent_GetConfig e a, []) (ag_services a)"

text \<open>\<open>SetConfig\<close> can change the keepalive only; the new configuration is used even when it cannot be written.\<close>

definition handleSetConfig :: "agent_env \<Rightarrow> 's agent \<Rightarrow> 's agent \<times> reply_data option \<times> string list" where
  "handleSetConfig e a =
     (case ae_config e of
        Inl err \<Rightarrow> (a, None, [err])
      | Inr newConfig \<Rightarrow>
          (let final = (if ac_Keepalive newConfig > 0 then (ag_config a)\<lparr>ac_Keepalive := ac_Keepalive newConfig\<rparr>
                        else ag_config a);
               (a, errs) = (case ae_write e of
                              Some err \<Rightarrow> (a, [''agent.WriteConfig:'' @ err])
                            | None \<Rightarrow> (a\<lparr>ag_file := final\<rparr>, []))
           in (a\<lparr>ag_config := final\<rparr>, Some (DAgent final), errs)))"

definition runRealCmd :: "agent_env \<Rightarrow> string list \<Rightarrow> reply_data option \<times> string list" where
  "runRealCmd e args = (case ae_run e args of Inl err \<Rightarrow> (None, [err]) | Inr out \<Rightarrow> (Some (DText out), []))"

text \<open>
  \<open>Handle\<close>. \<open>GetDefaults\<close> and \<open>CollectServicesData\<close>, which only gather texts of the services and of
  external programs, are the argument \<open>other\<close>.
\<close>

definition agent_Handle ::
  "'s service_ops \<Rightarrow> agent_env \<Rightarrow> (Cmd \<Rightarrow> reply_data option \<times> string list) \<Rightarrow> Cmd \<Rightarrow> 's agent \<Rightarrow> 's agent \<times> handler_out" where
  "agent_Handle ops e other c a =
     (let done = (\<lambda>(a, d, errs). (a, HReply (Cmd_Reply c d (map Some errs))));
          plain = (\<lambda>(a, err). done (a, None, case err of None \<Rightarrow> [] | Some x \<Rightarrow> [x]))
      in if cm_Cmd c = ''StartService'' then plain (handleStartService ops e a)
         else if cm_Cmd c = ''StopService'' then plain (handleStopService ops e a)
         else if cm_Cmd c = ''GetConfig'' then done (a, Some (DConfigs (agent_GetConfig e a)), [])
         else if cm_Cmd c = ''GetAllConfigs'' then
           (case GetAllConfigs ops e a of (cs, errs) \<Rightarrow> done (a, Some (DConfigs cs), errs))
         else if cm_Cmd c = ''SetConfig'' then done (handleSetConfig e a)
         else if cm_Cmd c = ''Version'' then done (a, Some (DText (fst (ae_version e))), snd (ae_version e))
         else if cm_Cmd c = ''Reconnect'' then (a, HNil)
         else if cm_Cmd c = ''GetServerSummary'' then done (a, runRealCmd e [''pt-summary''])
         else if cm_Cmd c = ''GetMySQLSummary'' then done (a, runRealCmd e [''pt-mysql-summary'', ''--sleep'', ''1''])
         else if cm_Cmd c = ''GetMongoSummary'' then done (a, runRealCmd e [''pt-mongodb-summary''])
         else if cm_Cmd c = ''GetDefaults'' \<or> cm_Cmd c = ''CollectServicesData'' then done (a, other c)
         else done (a, None, [UnknownCmdError (cm_Cmd c)]))"

section \<open>Executing one command\<close>

definition dispatch ::
  "'s service_ops \<Rightarrow> agent_env \<Rightarrow> (Cmd \<Rightarrow> reply_data option \<times> string list) \<Rightarrow> Cmd \<Rightarrow> 's agent \<Rightarrow> 's agent \<times> handler_out" where
  "dispatch ops e other c a =
     (if cm_Service c = ''agent'' then agent_Handle ops e other c a
      else case map_of (ag_services a) (cm_Service c) of
             Some m \<Rightarrow>
               (let (m, out) = so_Handle ops c m in (a\<lparr>ag_services := alist_put (cm_Service c) m (ag_services a)\<rparr>, out))
           | None \<Rightarrow> (a, HReply (Cmd_Reply c None [Some (UnknownServiceError (cm_Service c))])))"

text \<open>
  \<open>handleCmd\<close>: a panic of the handler becomes an error reply, and a handler that does not return in
  time is answered with a timeout. The reply is inspected before it is compared with nil, so a nil
  reply makes \<open>handleCmd\<close> itself panic; it recovers, and nothing is sent.
\<close>

definition cmd_reply :: "bool \<Rightarrow> Cmd \<Rightarrow> handler_out \<Rightarrow> reply option" where
  "cmd_reply inTime c out =
     (if \<not> inTime then Some (Cmd_Reply c None [Some (CmdTimeoutError (cm_Cmd c))])
      else case out of
             HReply r \<Rightarrow> Some r
           | HPanic err \<Rightarrow> Some (Cmd_Reply c None [Some err])
           | HNil \<Rightarrow> None)"

definition handleCmd ::
  "'s service_ops \<Rightarrow> agent_env \<Rightarrow> (Cmd \<Rightarrow> reply_data option \<times> string list) \<Rightarrow> bool \<Rightarrow> Cmd \<Rightarrow> 's agent \<Rightarrow> 's agent \<times> reply option" where
  "handleCmd ops e other inTime c a = (let (a, out) = dispatch ops e other c a in (a, cmd_reply inTime c out))"

section \<open>Status requests\<close>

definition agent_Status :: "status \<Rightarrow> 's agent \<Rightarrow> status" where
  "agent_Status client a = status_Merge (ag_status a) [client]"

definition AllStatus :: "'s service_ops \<Rightarrow> status \<Rightarrow> 's agent \<Rightarrow> status" where
  "AllStatus ops client a =
     foldl (\<lambda>st (service, m). st ++ so_Status ops m) (agent_Status client a) (ag_services a)"

definition status_reply :: "'s service_ops \<Rightarrow> status \<Rightarrow> Cmd \<Rightarrow> 's agent \<Rightarrow> reply" where
  "status_reply ops client c a =
     (if cm_Service c = '''' then Cmd_Reply c (Some (DStatus (AllStatus ops client a))) []
      else if cm_Service c = ''agent'' then Cmd_Reply c (Some (DStatus (agent_Status client a))) []
      else case map_of (ag_services a) (cm_Service c) of
             Some m \<Rightarrow> Cmd_Reply c (Some (DStatus (so_Status ops m))) []
           | None \<Rightarrow> Cmd_Reply c None [Some (UnknownServiceError (cm_Service c))])"

section \<open>The configuration file\<close>

definition DEFAULT_KEEPALIVE :: u64 where "DEFAULT_KEEPALIVE = 76"

datatype load_error = ReadError | NoApiHostname | NoUUID

definition LoadConfig :: "agent_config option \<Rightarrow> load_error + agent_config" where
  "LoadConfig file =
     (case file of
        None \<Rightarrow> Inl ReadError
      | Some c \<Rightarrow>
          if ac_ApiHostname c = '''' then Inl NoApiHostname
          else if ac_UUID c = '''' then Inl NoUUID
          else Inr (if ac_Keepalive c = 0 then c\<lparr>ac_Keepalive := DEFAULT_KEEPALIVE\<rparr> else c))"

text \<open>The replies of the agent to its own commands and to unknown services.\<close>

lemma agent_Handle_reply:
  "snd (agent_Handle ops e other c a) =
     (if cm_Cmd c = ''Reconnect'' then HNil else snd (agent_Handle ops e other c a))
   \<and> (cm_Cmd c \<noteq> ''Reconnect'' \<longrightarrow> (\<exists>d errs. snd (agent_Handle ops e other c a) = HReply (Cmd_Reply c d errs)))"
  by (auto simp: agent_Handle_def Let_def case_prod_beta)

text \<open>
  C25: who gets a reply. A command for the agent itself or for an unknown service is answered with
  its own identifier, and with an error for an unknown service, also when the handler takes too
  long; the only command without an answer is a timely \<open>Reconnect\<close>.
\<close>

theorem agent_answers:
  assumes "cm_Service c = ''agent'' \<or> map_of (ag_services a) (cm_Service c) = None"
  shows "case snd (handleCmd ops e other inTime c a) of
      None \<Rightarrow> inTime \<and> cm_Service c = ''agent'' \<and> cm_Cmd c = ''Reconnect''
    | Some r \<Rightarrow> ry_Id r = cm_Id c \<and> ry_Cmd r = cm_Cmd c
        \<and> (\<not> inTime \<longrightarrow> ry_Error r = CmdTimeoutError (cm_Cmd c))
        \<and> (inTime \<and> cm_Service c \<noteq> ''agent'' \<longrightarrow> ry_Error r = UnknownServiceError (cm_Service c))"
proof (cases "cm_Service c = ''agent''")
  case True
  with agent_Handle_reply [of ops e other c a] show ?thesis
    by (auto simp: handleCmd_def dispatch_def cmd_reply_def Cmd_Reply_def case_prod_beta Let_def
        split: handler_out.splits if_splits)
next
  case False
  with assms show ?thesis
    by (auto simp: handleCmd_def dispatch_def cmd_reply_def Cmd_Reply_def Let_def)
qed

section \<open>The loop and the handlers\<close>

text \<open>
  \<open>al_held\<close> is the command the command handler has taken and not started; \<open>al_tokens\<close> counts the
  entries of its channel \<open>queue\<close>. A finished command gives its token back (\<open>al_finishing\<close>), then takes
  another one to see whether the queue is empty (\<open>al_peeking\<close>) and puts it back (\<open>al_borrowed\<close>). The
  lists of answered, unanswered and dropped commands record what happened to them.
\<close>

datatype phase = Looping | Stopping Cmd | Returned | Aborted

record aloop =
  al_phase :: phase
  al_cmdChan :: "Cmd list"
  al_statusChan :: "Cmd list"
  al_held :: "Cmd option"
  al_handling :: "Cmd list"
  al_tokens :: nat
  al_finishing :: nat
  al_peeking :: nat
  al_borrowed :: nat
  al_cmdAlive :: bool
  al_statusAlive :: bool
  al_cmdErrors :: nat
  al_statusErrors :: nat
  al_received :: "Cmd list"
  al_answered :: "(Cmd \<times> reply) list"
  al_unanswered :: "Cmd list"
  al_dropped :: "Cmd list"
  al_control :: "reply list"

definition aloop_init :: "aloop \<Rightarrow> bool" where
  "aloop_init s \<longleftrightarrow>
     s = \<lparr>al_phase = Looping, al_cmdChan = [], al_statusChan = [], al_held = None, al_handling = [],
          al_tokens = 0, al_finishing = 0, al_peeking = 0, al_borrowed = 0, al_cmdAlive = True,
          al_statusAlive = True, al_cmdErrors = 0, al_statusErrors = 0, al_received = [],
          al_answered = [], al_unanswered = [], al_dropped = [], al_control = []\<rparr>"

definition is_control :: "Cmd \<Rightarrow> bool" where
  "is_control c \<longleftrightarrow> cm_Cmd c = ''Abort'' \<or> cm_Cmd c = ''Restart'' \<or> cm_Cmd c = ''Stop''"

text \<open>A command from the API that is queued, or refused when its queue is full.\<close>

definition enqueue :: "Cmd \<Rightarrow> aloop \<Rightarrow> aloop" where
  "enqueue c s =
     (let s = s\<lparr>al_received := al_received s @ [c]\<rparr>
      in if cm_Cmd c = ''Status'' then
           (if length (al_statusChan s) < STATUS_QUEUE_SIZE then s\<lparr>al_statusChan := al_statusChan s @ [c]\<rparr>
            else s\<lparr>al_answered := al_answered s
                    @ [(c, Cmd_Reply c None [Some (QueueFullError (cm_Cmd c) ''statusQueue'' STATUS_QUEUE_SIZE)])]\<rparr>)
         else
           (if length (al_cmdChan s) < CMD_QUEUE_SIZE then s\<lparr>al_cmdChan := al_cmdChan s @ [c]\<rparr>
            else s\<lparr>al_answered := al_answered s
                    @ [(c, Cmd_Reply c None [Some (QueueFullError (cm_Cmd c) ''cmdQueue'' CMD_QUEUE_SIZE)])]\<rparr>))"

text \<open>
  \<open>Restart\<close>: the errors of the start lock, of the working directory, of writing the start script
  and of running it. After an error of the second or third kind the code replies and goes on.
\<close>

record restart_env =
  rt_lock :: "string option"
  rt_cwd :: "string option"
  rt_script :: "string option"
  rt_self :: "string option"

definition restart_agent :: "restart_env \<Rightarrow> Cmd \<Rightarrow> reply list \<times> phase" where
  "restart_agent e c =
     (let err = (\<lambda>x. case x of None \<Rightarrow> [] | Some m \<Rightarrow> [Cmd_Reply c None [Some m]])
      in case rt_lock e of
           Some m \<Rightarrow> ([Cmd_Reply c None [Some m]], Looping)
         | None \<Rightarrow> (err (rt_cwd e) @ err (rt_script e) @ [Cmd_Reply c None [rt_self e]], Returned))"

lemma status_reply_shape: "\<exists>d errs. status_reply ops client c a = Cmd_Reply c d errs"
  by (auto simp: status_reply_def split: option.split)

text \<open>The loop of \<open>Run\<close>, which also starts a handler again that has crashed.\<close>

inductive loop_step :: "aloop \<Rightarrow> aloop \<Rightarrow> bool" where
  receive: "al_phase s = Looping \<Longrightarrow> \<not> is_control c \<Longrightarrow> loop_step s (enqueue c s)"
| receive_abort: "al_phase s = Looping \<Longrightarrow> cm_Cmd (c :: Cmd) = ''Abort'' \<Longrightarrow> loop_step s (s\<lparr>al_phase := Aborted\<rparr>)"
| receive_restart: "al_phase s = Looping \<Longrightarrow> cm_Cmd c = ''Restart'' \<Longrightarrow> restart_agent e c = (rs, p) \<Longrightarrow>
    loop_step s (s\<lparr>al_phase := p, al_control := al_control s @ rs\<rparr>)"
| receive_stop: "al_phase s = Looping \<Longrightarrow> cm_Cmd c = ''Stop'' \<Longrightarrow>
    loop_step s (s\<lparr>al_phase := Stopping c, al_cmdAlive := False, al_held := None,
      al_dropped := al_dropped s @ (case al_held s of None \<Rightarrow> [] | Some h \<Rightarrow> [h])\<rparr>)"
| stop_done: "al_phase s = Stopping c \<Longrightarrow> al_handling s = [] \<Longrightarrow> al_finishing s = 0 \<Longrightarrow>
    loop_step s (s\<lparr>al_phase := Returned, al_statusAlive := False, al_control := al_control s @ [Cmd_Reply c None []]\<rparr>)"
| cmd_crash: "al_phase s = Looping \<Longrightarrow> al_cmdAlive s \<Longrightarrow> al_held s = None \<Longrightarrow> al_handling s = [] \<Longrightarrow> al_finishing s = 0 \<Longrightarrow>
    loop_step s (s\<lparr>al_cmdErrors := Suc (al_cmdErrors s), al_cmdAlive := Suc (al_cmdErrors s) < MAX_ERRORS\<rparr>)"
| status_crash: "al_phase s = Looping \<Longrightarrow> al_statusAlive s \<Longrightarrow>
    loop_step s (s\<lparr>al_statusErrors := Suc (al_statusErrors s), al_statusAlive := Suc (al_statusErrors s) < MAX_ERRORS\<rparr>)"
| connected_again: "al_phase s = Looping \<Longrightarrow> loop_step s (s\<lparr>al_cmdErrors := 0, al_statusErrors := 0\<rparr>)"

text \<open>
  \<open>cmdHandler\<close> and the goroutines of the commands: a command that has ended gives its token back, takes another
  one to see whether commands are in execution, and puts that one back.
\<close>

inductive cmdHandler_step :: "aloop \<Rightarrow> aloop \<Rightarrow> bool" where
  cmd_take: "al_cmdAlive s \<Longrightarrow> al_held s = None \<Longrightarrow> al_cmdChan s = c # rest \<Longrightarrow>
    cmdHandler_step s (s\<lparr>al_cmdChan := rest, al_held := Some c\<rparr>)"
| cmd_begin: "al_cmdAlive s \<Longrightarrow> al_held s = Some c \<Longrightarrow> al_tokens s < handler_limit \<Longrightarrow>
    cmdHandler_step s (s\<lparr>al_held := None, al_tokens := Suc (al_tokens s), al_handling := al_handling s @ [c]\<rparr>)"
| cmd_answer: "c \<in> set (al_handling s) \<Longrightarrow> cmd_reply inTime c out = Some r \<Longrightarrow>
    cmdHandler_step s (s\<lparr>al_handling := remove1 c (al_handling s), al_finishing := Suc (al_finishing s),
      al_answered := al_answered s @ [(c, r)]\<rparr>)"
| cmd_silent: "c \<in> set (al_handling s) \<Longrightarrow> cmd_reply inTime c out = None \<Longrightarrow>
    cmdHandler_step s (s\<lparr>al_handling := remove1 c (al_handling s), al_finishing := Suc (al_finishing s),
      al_unanswered := al_unanswered s @ [c]\<rparr>)"
| cmd_release: "al_finishing s = Suc n \<Longrightarrow> al_tokens s = Suc t \<Longrightarrow>
    cmdHandler_step s (s\<lparr>al_finishing := n, al_tokens := t, al_peeking := Suc (al_peeking s)\<rparr>)"
| peek_take: "al_peeking s = Suc n \<Longrightarrow> al_tokens s = Suc t \<Longrightarrow>
    cmdHandler_step s (s\<lparr>al_peeking := n, al_tokens := t, al_borrowed := Suc (al_borrowed s)\<rparr>)"
| peek_idle: "al_peeking s = Suc n \<Longrightarrow> al_tokens s = 0 \<Longrightarrow> cmdHandler_step s (s\<lparr>al_peeking := n\<rparr>)"
| put_back: "al_borrowed s = Suc n \<Longrightarrow> al_tokens s < handler_limit \<Longrightarrow>
    cmdHandler_step s (s\<lparr>al_borrowed := n, al_tokens := Suc (al_tokens s)\<rparr>)"

text \<open>\<open>statusHandler\<close>; the reply is some reply to the request, as \<open>status_reply\<close> makes one.\<close>

inductive statusHandler_step :: "aloop \<Rightarrow> aloop \<Rightarrow> bool" where
  status_answer: "al_statusAlive s \<Longrightarrow> al_statusChan s = c # rest \<Longrightarrow> r = Cmd_Reply c d errs \<Longrightarrow>
    statusHandler_step s (s\<lparr>al_statusChan := rest, al_answered := al_answered s @ [(c, r)]\<rparr>)"

inductive aloop_step :: "aloop \<Rightarrow> unit \<Rightarrow> aloop \<Rightarrow> bool" where
  run: "loop_step s s' \<Longrightarrow> aloop_step s () s'"
| cmds: "cmdHandler_step s s' \<Longrightarrow> aloop_step s () s'"
| status: "statusHandler_step s s' \<Longrightarrow> aloop_step s () s'"

inductive_cases aloop_stepE: "aloop_step s l s'"

abbreviation held_list :: "aloop \<Rightarrow> Cmd list" where
  "held_list s \<equiv> (case al_held s of None \<Rightarrow> [] | Some c \<Rightarrow> [c])"

text \<open>Where the received commands are.\<close>

definition whereabouts :: "aloop \<Rightarrow> Cmd multiset" where
  "whereabouts s = mset (al_cmdChan s) + mset (al_statusChan s) + mset (held_list s) + mset (al_handling s)
     + mset (map fst (al_answered s)) + mset (al_unanswered s) + mset (al_dropped s)"

definition aloop_inv :: "aloop \<Rightarrow> bool" where
  "aloop_inv s \<longleftrightarrow>
     length (al_cmdChan s) \<le> CMD_QUEUE_SIZE \<and> length (al_statusChan s) \<le> STATUS_QUEUE_SIZE
     \<and> al_tokens s \<le> handler_limit
     \<and> al_tokens s + al_borrowed s = length (al_handling s) + al_finishing s
     \<and> mset (al_received s) = whereabouts s
     \<and> (al_dropped s \<noteq> [] \<longrightarrow> al_phase s \<noteq> Looping)"

lemma enqueue_inv: "aloop_inv s \<Longrightarrow> al_phase s = Looping \<Longrightarrow> aloop_inv (enqueue c s)"
  by (simp add: aloop_inv_def enqueue_def whereabouts_def Let_def)

lemma mset_remove1_add: "c \<in> set xs \<Longrightarrow> add_mset c (mset (remove1 c xs)) = mset xs"
  by simp

lemma finish_inv:
  assumes "aloop_inv s" and "c \<in> set (al_handling s)"
    and "s' = s\<lparr>al_handling := remove1 c (al_handling s), al_finishing := Suc (al_finishing s),
           al_answered := al_answered s @ rs, al_unanswered := al_unanswered s @ us\<rparr>"
    and "mset (map fst rs) + mset us = {#c#}"
  shows "aloop_inv s'"
proof -
  have "mset (al_handling s) = mset (remove1 c (al_handling s)) + (mset (map fst rs) + mset us)"
    using assms(2,4) by simp
  moreover have "length (al_handling s) = Suc (length (remove1 c (al_handling s)))"
    using assms(2) by (simp add: length_remove1) (metis Suc_pred length_pos_if_in_set)
  ultimately show ?thesis
    using assms(1) unfolding aloop_inv_def whereabouts_def assms(3) by (simp add: ac_simps)
qed

lemma loop_step_inv:
  assumes "loop_step s s'" and "aloop_inv s"
  shows "aloop_inv s'"
  using assms
proof (induction rule: loop_step.induct)
  case (receive s c)
  then show ?case by (simp add: enqueue_inv)
next
  case (receive_restart s c e rs p)
  then have "p \<noteq> Stopping d" for d by (auto simp: restart_agent_def Let_def split: option.splits)
  with receive_restart show ?case by (auto simp: aloop_inv_def whereabouts_def)
qed (auto simp: aloop_inv_def whereabouts_def split: option.splits)

lemma cmdHandler_step_inv:
  assumes "cmdHandler_step s s'" and "aloop_inv s"
  shows "aloop_inv s'"
  using assms
proof (induction rule: cmdHandler_step.induct)
  case (cmd_answer c s inTime out r)
  then show ?case by - (rule finish_inv [where rs = "[(c, r)]" and us = "[]"], simp_all)
next
  case (cmd_silent c s inTime out)
  then show ?case by - (rule finish_inv [where rs = "[]" and us = "[c]"], simp_all)
qed (auto simp: aloop_inv_def whereabouts_def split: option.splits)

lemma statusHandler_step_inv: "statusHandler_step s s' \<Longrightarrow> aloop_inv s \<Longrightarrow> aloop_inv s'"
  by (induction rule: statusHandler_step.induct) (auto simp: aloop_inv_def whereabouts_def split: option.splits)

lemma aloop_inv_step:
  assumes "aloop_inv s" and "aloop_step s l s'"
  shows "aloop_inv s'"
  using assms(2)
proof (rule aloop_stepE)
  show ?thesis if "loop_step s s'" using that assms(1) by (rule loop_step_inv)
  show ?thesis if "cmdHandler_step s s'" using that assms(1) by (rule cmdHandler_step_inv)
  show ?thesis if "statusHandler_step s s'" using that assms(1) by (rule statusHandler_step_inv)
qed

interpretation al: step_invariant aloop_init aloop_step aloop_inv
proof
  show "aloop_inv s" if "aloop_init s" for s
    using that by (simp add: aloop_init_def aloop_inv_def whereabouts_def)
qed (rule aloop_inv_step)


section \<open>Concrete instances\<close>

definition demo_cmd :: "string \<Rightarrow> string \<Rightarrow> Cmd" where
  "demo_cmd service cmd = \<lparr>cm_Id = ''7'', cm_Service = service, cm_Cmd = cmd, cm_Data = ''''\<rparr>"

definition demo_service :: "unit service_ops" where
  "demo_service = \<lparr>so_Start = (\<lambda>s. (s, None)), so_Stop = (\<lambda>s. (s, None)), so_Handle = (\<lambda>c s. (s, HNil)),
     so_GetConfig = (\<lambda>s. ([], [])), so_Status = (\<lambda>s. Map.empty)\<rparr>"

definition demo_config0 :: agent_config where
  "demo_config0 = \<lparr>ac_UUID = ''u'', ac_ApiHostname = ''h'', ac_ApiPath = '''', ac_Keepalive = 76, ac_PidFile = '''',
     ac_Links = [], ac_ServerUser = '''', ac_ServerPassword = '''', ac_ServerSSL = False, ac_ServerInsecureSSL = False\<rparr>"

definition demo_agent :: "unit agent" where
  "demo_agent = \<lparr>ag_config = demo_config0, ag_services = [(''qan'', ())], ag_file = demo_config0, ag_status = Map.empty\<rparr>"

definition demo_aenv :: agent_env where
  "demo_aenv = \<lparr>ae_service = Inr ''qan'', ae_config = Inr demo_config0, ae_set = '''', ae_running = (\<lambda>_. ''''),
     ae_write = None, ae_version = ('''', []), ae_run = (\<lambda>_. Inr '''')\<rparr>"

theorem agent_answers_witness:
  "map_option ry_Error (snd (handleCmd demo_service demo_aenv (\<lambda>_. (None, [])) True (demo_cmd ''nope'' ''X'') demo_agent))
     = Some ''Unknown service: nope''
   \<and> snd (handleCmd demo_service demo_aenv (\<lambda>_. (None, [])) True (demo_cmd ''agent'' ''Reconnect'') demo_agent) = None"
proof -
  have "cm_Service (demo_cmd ''nope'' ''X'') = ''agent'' \<or> map_of (ag_services demo_agent) (cm_Service (demo_cmd ''nope'' ''X'')) = None"
    by (simp add: demo_cmd_def demo_agent_def)
  from agent_answers [OF this, where ops = demo_service and e = demo_aenv and other = "\<lambda>_. (None, [])" and inTime = True]
  have "map_option ry_Error (snd (handleCmd demo_service demo_aenv (\<lambda>_. (None, [])) True (demo_cmd ''nope'' ''X'') demo_agent))
     = Some ''Unknown service: nope''"
    by (auto simp: demo_cmd_def UnknownServiceError_def split: option.splits)
  then show ?thesis
    by (simp add: handleCmd_def dispatch_def agent_Handle_def cmd_reply_def demo_cmd_def Let_def)
qed


end
