(* ===== verification/MongoAggregator.thy ===== *)
theory MongoAggregator
  imports Analyzer
begin

text \<open>
  The aggregator of the MongoDB profiler: \<open>qan/analyzer/mongo/profiler/aggregator/aggregator.go\<close>,
  which sorts the documents of \<open>system.profile\<close> into intervals and makes one report of each, and
  the collection of statistics it keeps them in (the vendored package \<open>mongolib/stats\<close>).
  A time is the number of nanoseconds since Go's zero time, so that \<open>IsZero\<close> is \<open>0\<close> and
  \<open>Truncate\<close>, which Go counts from that time, is a remainder.
\<close>

section \<open>Statistics of a set of documents\<close>

text \<open>The fields of a profile document that the agent and \<open>mongolib\<close> read.\<close>

record SystemProfile =
  sp_Ts :: int
  sp_Op :: string
  sp_Ns :: string
  sp_Query :: string
  sp_NscannedObjects :: int
  sp_DocsExamined :: int
  sp_Nreturned :: int
  sp_Millis :: int
  sp_ResponseLength :: int

datatype GroupKey = GroupKey (gk_Operation: string) (gk_Namespace: string) (gk_Fingerprint: string)

definition gk_String :: "GroupKey \<Rightarrow> string" where
  "gk_String g = gk_Operation g @ gk_Namespace g @ gk_Fingerprint g"

text \<open>
  The order of the keys, \<open>GroupKeys.Less\<close>. Two different keys may have the same string, so that
  it is a preorder only.
\<close>

instantiation GroupKey :: preorder
begin

definition less_eq_GroupKey :: "GroupKey \<Rightarrow> GroupKey \<Rightarrow> bool" where
  "less_eq_GroupKey g h \<longleftrightarrow> gk_String g \<le> gk_String h"

definition less_GroupKey :: "GroupKey \<Rightarrow> GroupKey \<Rightarrow> bool" where
  "less_GroupKey g h \<longleftrightarrow> gk_String g < gk_String h"

instance
  by standard (auto simp: less_eq_GroupKey_def less_GroupKey_def)

end

record QueryInfoAndCounters =
  qi_ID :: string
  qi_Namespace :: string
  qi_Operation :: string
  qi_Query :: string
  qi_Fingerprint :: string
  qi_FirstSeen :: int
  qi_LastSeen :: int
  qi_Count :: u64
  qi_NReturned :: "float64 list"
  qi_NScanned :: "float64 list"
  qi_QueryTime :: "float64 list"
  qi_ResponseLength :: "float64 list"

type_synonym mstats = "(GroupKey \<times> QueryInfoAndCounters) list"

datatype stats_error = StatsFingerprintError string | StatsQueryError string

text \<open>
  What the statistics call: the fingerprinter, the rendering of the example query as JSON, the
  hexadecimal MD5 sum, and \<open>sort.Sort\<close> on the keys, which is not stable.
\<close>

record mongolib =
  ml_Fingerprint :: "SystemProfile \<Rightarrow> string + GroupKey"
  ml_ExampleQuery :: "SystemProfile \<Rightarrow> string + string"
  ml_md5 :: "string \<Rightarrow> string"
  ml_sort :: "GroupKey list \<Rightarrow> GroupKey list"

definition new_counters :: "mongolib \<Rightarrow> GroupKey \<Rightarrow> string \<Rightarrow> QueryInfoAndCounters" where
  "new_counters lib key query =
     \<lparr>qi_ID = ml_md5 lib (gk_String key), qi_Namespace = gk_Namespace key,
      qi_Operation = gk_Operation key, qi_Query = query, qi_Fingerprint = gk_Fingerprint key,
      qi_FirstSeen = 0, qi_LastSeen = 0, qi_Count = 0, qi_NReturned = [], qi_NScanned = [],
      qi_QueryTime = [], qi_ResponseLength = []\<rparr>"

definition count_doc :: "SystemProfile \<Rightarrow> QueryInfoAndCounters \<Rightarrow> QueryInfoAndCounters" where
  "count_doc doc q =
     q\<lparr>qi_Count := qi_Count q + 1,
       qi_NScanned := qi_NScanned q @
         [of_int (if 0 < sp_NscannedObjects doc then sp_NscannedObjects doc else sp_DocsExamined doc)],
       qi_NReturned := qi_NReturned q @ [of_int (sp_Nreturned doc)],
       qi_QueryTime := qi_QueryTime q @ [of_int (sp_Millis doc)],
       qi_ResponseLength := qi_ResponseLength q @ [of_int (sp_ResponseLength doc)],
       qi_FirstSeen := (if qi_FirstSeen q = 0 \<or> sp_Ts doc < qi_FirstSeen q then sp_Ts doc else qi_FirstSeen q),
       qi_LastSeen := (if qi_LastSeen q = 0 \<or> qi_LastSeen q < sp_Ts doc then sp_Ts doc else qi_LastSeen q)\<rparr>"

definition stats_Add :: "mongolib \<Rightarrow> mstats \<Rightarrow> SystemProfile \<Rightarrow> stats_error + mstats" where
  "stats_Add lib s doc =
     (case ml_Fingerprint lib doc of
        Inl e \<Rightarrow> Inl (StatsFingerprintError e)
      | Inr key \<Rightarrow>
          (case map_of s key of
             Some q \<Rightarrow> Inr (alist_put key (count_doc doc q) s)
           | None \<Rightarrow>
               (case ml_ExampleQuery lib doc of
                  Inl e \<Rightarrow> Inl (StatsQueryError e)
                | Inr query \<Rightarrow> Inr (alist_put key (count_doc doc (new_counters lib key query)) s))))"

definition stats_Queries :: "mongolib \<Rightarrow> mstats \<Rightarrow> QueryInfoAndCounters list" where
  "stats_Queries lib s = map (\<lambda>key. the (map_of s key)) (ml_sort lib (map fst s))"

text \<open>
  The summary of the samples of one counter: the fields that the agent reads and the report
  keeps. A group that has a document has a sample, so that the empty list never comes up.
\<close>

record Statistics =
  st_Total :: float64
  st_Min :: float64
  st_Max :: float64
  st_Avg :: float64

definition calcStats :: "float64 list \<Rightarrow> Statistics" where
  "calcStats samples =
     \<lparr>st_Total = sum_list samples,
      st_Min = (case samples of [] \<Rightarrow> 0 | x # xs \<Rightarrow> fold min xs x),
      st_Max = (case samples of [] \<Rightarrow> 0 | x # xs \<Rightarrow> fold max xs x),
      st_Avg = sum_list samples / of_nat (length samples)\<rparr>"

record QueryStats =
  qy_ID :: string
  qy_Namespace :: string
  qy_Query :: string
  qy_Fingerprint :: string
  qy_Count :: u64
  qy_QueryTime :: Statistics
  qy_ResponseLength :: Statistics
  qy_Returned :: Statistics
  qy_Scanned :: Statistics

definition countersToStats :: "QueryInfoAndCounters \<Rightarrow> QueryStats" where
  "countersToStats q =
     \<lparr>qy_ID = qi_ID q, qy_Namespace = qi_Namespace q, qy_Query = qi_Query q,
      qy_Fingerprint = qi_Fingerprint q, qy_Count = qi_Count q,
      qy_QueryTime = calcStats (qi_QueryTime q), qy_ResponseLength = calcStats (qi_ResponseLength q),
      qy_Returned = calcStats (qi_NReturned q), qy_Scanned = calcStats (qi_NScanned q)\<rparr>"

section \<open>The aggregator\<close>

definition second :: int where "second = 1000000000"

text \<open>\<open>Time.Truncate\<close>.\<close>

definition Truncate :: "int \<Rightarrow> int \<Rightarrow> int" where
  "Truncate t d = (if d \<le> 0 then t else t - t mod d)"

record aggregator =
  ag_config :: QAN
  ag_timeStart :: int
  ag_timeEnd :: int
  ag_d :: int
  ag_t :: "int option"
  ag_mongostats :: mstats
  ag_reportChan :: "report list option"
  ag_closed :: bool
  ag_running :: bool
  ag_DocsIn :: u64
  ag_DocsSkippedOld :: u64
  ag_ReportsOut :: u64

text \<open>
  A channel is the list of the values in its buffer, \<open>None\<close> the nil channel. An operation that
  sends on a full (or the nil) channel waits while it holds the lock, so that it happens as a
  whole once there is room; a send on a closed channel panics.
\<close>

datatype 'a go_result = Returns 'a | Blocks | Panics

definition ReportChanBuffer :: nat where "ReportChanBuffer = 1000"

definition newInterval :: "int \<Rightarrow> aggregator \<Rightarrow> aggregator" where
  "newInterval ts a =
     (let t = Truncate ts (ag_d a)
      in a\<lparr>ag_mongostats := [], ag_timeStart := t, ag_timeEnd := t + ag_d a\<rparr>)"

definition default_interval :: "QAN \<Rightarrow> QAN" where
  "default_interval config =
     (if qn_Interval config = 0 then config\<lparr>qn_Interval := 60, qn_ExampleQueries := Some True\<rparr> else config)"

definition agg_New :: "int \<Rightarrow> QAN \<Rightarrow> aggregator" where
  "agg_New timeStart config =
     (let config = default_interval config
      in newInterval timeStart
           \<lparr>ag_config = config, ag_timeStart = 0, ag_timeEnd = 0,
            ag_d = sint (qn_Interval config * word_of_int second), ag_t = None, ag_mongostats = [],
            ag_reportChan = None, ag_closed = False, ag_running = False,
            ag_DocsIn = 0, ag_DocsSkippedOld = 0, ag_ReportsOut = 0\<rparr>)"

definition newEventNumberStats :: "Statistics \<Rightarrow> NumberStats" where
  "newEventNumberStats s =
     \<lparr>ns_Sum = word_of_int \<lfloor>st_Total s\<rfloor>, ns_Min = Some (word_of_int \<lfloor>st_Min s\<rfloor>),
      ns_Avg = Some (word_of_int \<lfloor>st_Avg s\<rfloor>), ns_Max = Some (word_of_int \<lfloor>st_Max s\<rfloor>)\<rparr>"

definition newEventTimeStatsInMilliseconds :: "Statistics \<Rightarrow> TimeStats" where
  "newEventTimeStatsInMilliseconds s =
     \<lparr>ts_Sum = st_Total s / 1000, ts_Min = Some (st_Min s / 1000),
      ts_Avg = Some (st_Avg s / 1000), ts_Max = Some (st_Max s / 1000)\<rparr>"

definition namespace_db :: "string \<Rightarrow> string" where
  "namespace_db ns = (if CHR ''.'' \<in> set ns then takeWhile (\<lambda>c. c \<noteq> CHR ''.'') ns else '''')"

definition query_class :: "bool \<Rightarrow> QueryStats \<Rightarrow> qclass" where
  "query_class exampleQueries q =
     (let c = NewClass (qy_ID q) (qy_Fingerprint q);
          c = (if exampleQueries
               then c\<lparr>qc_Example := Some \<lparr>ex_QueryTime = st_Total (qy_QueryTime q),
                      ex_Db = namespace_db (qy_Namespace q), ex_Query = qy_Query q\<rparr>\<rparr>
               else c)
      in c\<lparr>qc_Time := [''Query_time'' \<mapsto> newEventTimeStatsInMilliseconds (qy_QueryTime q)],
           qc_Number := [''Bytes_sent'' \<mapsto> newEventNumberStats (qy_ResponseLength q),
                         ''Rows_sent'' \<mapsto> newEventNumberStats (qy_Returned q),
                         ''Rows_examined'' \<mapsto> newEventNumberStats (qy_Scanned q)],
           qc_Bool := Map.empty,
           qc_TotalQueries := qy_Count q, qc_UniqueQueries := 1\<rparr>)"

definition createResult :: "mongolib \<Rightarrow> QAN \<Rightarrow> mstats \<Rightarrow> result" where
  "createResult lib config s =
     (let classes = map (query_class (boolValue (qn_ExampleQueries config)) \<circ> countersToStats)
                        (stats_Queries lib s)
      in \<lparr>rs_Global = foldl AddClass (NewClass '''' '''') classes, rs_Class = classes,
          rs_RateLimit = 0, rs_RunTime = 0, rs_StopOffset = 0, rs_Error = ''''\<rparr>)"

definition agg_interval ::
  "mongolib \<Rightarrow> (qclass list \<Rightarrow> qclass list) \<Rightarrow> int \<Rightarrow> aggregator \<Rightarrow> report option \<times> aggregator" where
  "agg_interval lib srt ts a =
     (if stats_Queries lib (ag_mongostats a) = [] then (None, newInterval ts a)
      else (Some (MakeReport srt (\<lambda>_. None) (qn_UUID (ag_config a)) (qn_ReportLimit (ag_config a))
                    (ag_timeStart a) (ag_timeEnd a) None (createResult lib (ag_config a) (ag_mongostats a))),
            newInterval ts a))"

definition flush :: "mongolib \<Rightarrow> (qclass list \<Rightarrow> qclass list) \<Rightarrow> int \<Rightarrow> aggregator \<Rightarrow> aggregator go_result" where
  "flush lib srt ts a =
     (case agg_interval lib srt ts a of
        (None, a') \<Rightarrow> Returns a'
      | (Some r, a') \<Rightarrow>
          (case ag_reportChan a' of
             None \<Rightarrow> Blocks
           | Some ch \<Rightarrow>
               if ag_closed a' then Panics
               else if ReportChanBuffer \<le> length ch then Blocks
               else Returns (a'\<lparr>ag_reportChan := Some (ch @ [r]), ag_ReportsOut := ag_ReportsOut a' + 1\<rparr>)))"

datatype add_error = NotRunning | StatsError stats_error

definition agg_Add ::
  "mongolib \<Rightarrow> (qclass list \<Rightarrow> qclass list) \<Rightarrow> int \<Rightarrow> SystemProfile \<Rightarrow> aggregator
     \<Rightarrow> (add_error option \<times> aggregator) go_result" where
  "agg_Add lib srt now doc a =
     (if \<not> ag_running a then Returns (Some NotRunning, a)
      else if sp_Ts doc < ag_timeStart a
      then Returns (None, a\<lparr>ag_DocsSkippedOld := ag_DocsSkippedOld a + 1\<rparr>)
      else
        (case (if sp_Ts doc < ag_timeEnd a then Returns a else flush lib srt (sp_Ts doc) a) of
           Blocks \<Rightarrow> Blocks
         | Panics \<Rightarrow> Panics
         | Returns a \<Rightarrow>
             (let a = a\<lparr>ag_t := Some (now + ag_d a), ag_DocsIn := ag_DocsIn a + 1\<rparr>
              in case stats_Add lib (ag_mongostats a) doc of
                   Inl e \<Rightarrow> Returns (Some (StatsError e), a)
                 | Inr s \<Rightarrow> Returns (None, a\<lparr>ag_mongostats := s\<rparr>))))"

definition agg_Start :: "int \<Rightarrow> aggregator \<Rightarrow> aggregator" where
  "agg_Start now a =
     (if ag_running a then a
      else a\<lparr>ag_reportChan := Some [], ag_closed := False, ag_DocsIn := 0, ag_DocsSkippedOld := 0,
             ag_ReportsOut := 0, ag_t := Some (now + ag_d a), ag_running := True\<rparr>)"

text \<open>\<open>Flush\<close>, which the goroutine calls when the timer fires: nothing re-arms the timer here.\<close>

definition agg_Flush :: "mongolib \<Rightarrow> (qclass list \<Rightarrow> qclass list) \<Rightarrow> int \<Rightarrow> aggregator \<Rightarrow> aggregator go_result" where
  "agg_Flush lib srt now a = flush lib srt now a"

text \<open>\<open>Stop\<close>, once the goroutine has gone.\<close>

definition agg_Stop :: "aggregator \<Rightarrow> aggregator" where
  "agg_Stop a = (if \<not> ag_running a then a else a\<lparr>ag_running := False, ag_closed := True\<rparr>)"

section \<open>What the statistics count\<close>

text \<open>The statistics of a list of documents, all of which have to be accepted.\<close>

fun stats_of :: "mongolib \<Rightarrow> mstats \<Rightarrow> SystemProfile list \<Rightarrow> stats_error + mstats" where
  "stats_of lib s [] = Inr s"
| "stats_of lib s (doc # docs) =
     (case stats_Add lib s doc of Inl e \<Rightarrow> Inl e | Inr s' \<Rightarrow> stats_of lib s' docs)"

definition stats_total :: "mstats \<Rightarrow> u64" where
  "stats_total s = sum_list (map (qi_Count \<circ> snd) s)"

lemma stats_of_append:
  "stats_of lib s (ds @ es) = (case stats_of lib s ds of Inl e \<Rightarrow> Inl e | Inr s' \<Rightarrow> stats_of lib s' es)"
  by (induction ds arbitrary: s) (auto split: sum.split)

lemma stats_of_snoc:
  "stats_of lib s ds = Inr s' \<Longrightarrow> stats_Add lib s' doc = Inr s'' \<Longrightarrow> stats_of lib s (ds @ [doc]) = Inr s''"
  by (simp add: stats_of_append)

lemma stats_total_put:
  assumes "wf_alist s"
  shows "stats_total (alist_put k q s)
    = stats_total s - (case map_of s k of None \<Rightarrow> 0 | Some q' \<Rightarrow> qi_Count q') + qi_Count q"
  using assms
proof (induction s)
  case (Cons x s)
  obtain k' q' where x: "x = (k', q')" by force
  with Cons show ?case
    by (auto simp: stats_total_def wf_alist_def algebra_simps)
qed (simp add: stats_total_def)

lemma stats_Add_Inr:
  assumes "stats_Add lib s doc = Inr s'"
  obtains key q where "s' = alist_put key (count_doc doc q) s"
    "qi_Count q = (case map_of s key of None \<Rightarrow> 0 | Some q' \<Rightarrow> qi_Count q')"
  using assms by (auto simp: stats_Add_def new_counters_def split: sum.splits option.splits)

lemma stats_Add_total:
  assumes "stats_Add lib s doc = Inr s'" "wf_alist s"
  shows "wf_alist s'" "s' \<noteq> []" "stats_total s' = stats_total s + 1"
  using assms by (auto elim!: stats_Add_Inr simp: stats_total_put count_doc_def)

lemma stats_of_total:
  assumes "stats_of lib s ds = Inr s'" "wf_alist s"
  shows "wf_alist s' \<and> stats_total s' = stats_total s + of_nat (length ds) \<and> (s' = [] \<longrightarrow> s = [] \<and> ds = [])"
  using assms
proof (induction ds arbitrary: s)
  case (Cons d ds)
  then obtain s1 where s1: "stats_Add lib s d = Inr s1" "stats_of lib s1 ds = Inr s'"
    by (auto split: sum.splits)
  from stats_Add_total [OF s1(1) Cons.prems(2)] Cons.IH [OF s1(2)] show ?case by auto
qed simp

text \<open>The contract of the sort of the keys.\<close>

locale key_sort =
  fixes srt :: "GroupKey list \<Rightarrow> GroupKey list"
  assumes perm: "mset (srt ks) = mset ks"
    and ascending: "sorted_wrt (\<le>) (srt ks)"
begin

lemma Queries_total:
  assumes "ml_sort lib = srt" "wf_alist s"
  shows "sum_list (map qi_Count (stats_Queries lib s)) = stats_total s"
proof -
  have "sum_list (map qi_Count (stats_Queries lib s)) = sum_list (map (\<lambda>k. qi_Count (the (map_of s k))) (srt (map fst s)))"
    by (simp add: stats_Queries_def assms(1) comp_def)
  also have "\<dots> = sum_list (map (\<lambda>k. qi_Count (the (map_of s k))) (map fst s))"
    by (rule sum_list_mset_cong [OF perm])
  also have "\<dots> = stats_total s"
    unfolding stats_total_def map_map
    using assms(2) by (intro arg_cong [of _ _ sum_list] map_cong) (auto simp: wf_alist_def)
  finally show ?thesis .
qed

lemma Queries_empty: "ml_sort lib = srt \<Longrightarrow> stats_Queries lib s = [] \<longleftrightarrow> s = []"
proof -
  have "length (srt (map fst s)) = length (map fst s)" using perm [of "map fst s"] by (rule mset_eq_length)
  moreover assume "ml_sort lib = srt"
  ultimately show ?thesis by (simp add: stats_Queries_def flip: length_0_conv)
qed

lemma Queries_ordered:
  "ml_sort lib = srt \<Longrightarrow> \<exists>ks. stats_Queries lib s = map (\<lambda>k. the (map_of s k)) ks \<and> mset ks = mset (map fst s) \<and> sorted_wrt (\<le>) ks"
  by (rule exI [of _ "srt (map fst s)"]) (simp add: stats_Queries_def perm ascending del: mset_map)

end

definition sort_keys :: "GroupKey list \<Rightarrow> GroupKey list" where
  "sort_keys ks = sort_key gk_String ks"

interpretation ks: key_sort sort_keys
proof
  show "mset (sort_keys ks) = mset ks" for ks by (simp add: sort_keys_def)
  have "sorted (map gk_String (sort_keys ks))" for ks by (simp add: sort_keys_def)
  then show "sorted_wrt (\<le>) (sort_keys ks)" for ks
    by (simp add: sorted_map less_eq_GroupKey_def [abs_def])
qed

lemma query_class_counts [simp]:
  "qc_TotalQueries (query_class b q) = qy_Count q"
  "qy_Count (countersToStats p) = qi_Count p"
  by (simp_all add: query_class_def Let_def countersToStats_def)

lemma createResult_total:
  assumes "\<And>ks. mset (ml_sort lib ks) = mset ks" "\<And>ks. sorted_wrt (\<le>) (ml_sort lib ks)" "wf_alist s"
  shows "qc_TotalQueries (rs_Global (createResult lib config s)) = stats_total s"
proof -
  have k: "key_sort (ml_sort lib)" by (rule key_sort.intro) (fact assms)+
  have z: "qc_TotalQueries (NewClass a b) = 0" for a b by (simp add: NewClass_def)
  show ?thesis
    unfolding createResult_def Let_def result.simps foldl_AddClass map_map z add_0
    unfolding comp_def query_class_counts key_sort.Queries_total [OF k refl assms(3)] ..
qed

section \<open>Runs of the aggregator\<close>

text \<open>
  The aggregator among its callers: the parsers add documents, the timer fires once its time has
  come and flushes, and the sender receives reports. The second and third components record the
  reports received and the documents that were accepted (neither skipped nor refused), in order.
\<close>

record agg_run =
  gr_agg :: aggregator
  gr_received :: "report list"
  gr_accepted :: "SystemProfile list"

datatype agg_event = AddDoc int SystemProfile | Timer int | Receive

inductive agg_step :: "mongolib \<Rightarrow> (qclass list \<Rightarrow> qclass list) \<Rightarrow> agg_run \<Rightarrow> agg_event \<Rightarrow> agg_run \<Rightarrow> bool"
  for lib :: mongolib and srt :: "qclass list \<Rightarrow> qclass list" where
  add: "agg_Add lib srt now doc (gr_agg s) = Returns (e, a) \<Longrightarrow>
    agg_step lib srt s (AddDoc now doc)
      (s\<lparr>gr_agg := a,
         gr_accepted := gr_accepted s @ (if e = None \<and> ag_timeStart (gr_agg s) \<le> sp_Ts doc then [doc] else [])\<rparr>)"
| timer: "ag_t (gr_agg s) = Some t \<Longrightarrow> t \<le> now \<Longrightarrow>
    agg_Flush lib srt now ((gr_agg s)\<lparr>ag_t := None\<rparr>) = Returns a \<Longrightarrow>
    agg_step lib srt s (Timer now) (s\<lparr>gr_agg := a\<rparr>)"
| receive: "ag_reportChan (gr_agg s) = Some (r # ch) \<Longrightarrow>
    agg_step lib srt s Receive
      (s\<lparr>gr_agg := (gr_agg s)\<lparr>ag_reportChan := Some ch\<rparr>, gr_received := gr_received s @ [r]\<rparr>)"

inductive_simps agg_step_simps:
  "agg_step lib srt s (AddDoc now doc) s'"
  "agg_step lib srt s (Timer now) s'"
  "agg_step lib srt s Receive s'"

definition agg_start :: "int \<Rightarrow> QAN \<Rightarrow> int \<Rightarrow> agg_run" where
  "agg_start t0 config now =
     \<lparr>gr_agg = agg_Start now (agg_New t0 config), gr_received = [], gr_accepted = []\<rparr>"

definition interval_length :: "QAN \<Rightarrow> int" where
  "interval_length config = ag_d (agg_New 0 config)"

text \<open>
  A report of a batch of documents: the report that the documents alone give, for the interval
  that starts at \<open>t\<close>, and all of them lie in it.
\<close>

definition batch_report ::
  "mongolib \<Rightarrow> (qclass list \<Rightarrow> qclass list) \<Rightarrow> QAN \<Rightarrow> int \<times> SystemProfile list \<Rightarrow> report \<Rightarrow> bool" where
  "batch_report lib srt config b r \<longleftrightarrow>
     (case b of (t, docs) \<Rightarrow>
        let d = interval_length config; config = default_interval config
        in docs \<noteq> [] \<and> t mod d = 0 \<and> (\<forall>doc \<in> set docs. t \<le> sp_Ts doc \<and> sp_Ts doc < t + d)
           \<and> (case stats_of lib [] docs of
                Inl e \<Rightarrow> False
              | Inr s \<Rightarrow> r = MakeReport srt (\<lambda>_. None) (qn_UUID config) (qn_ReportLimit config)
                               t (t + d) None (createResult lib config s)))"

definition agg_inv ::
  "mongolib \<Rightarrow> (qclass list \<Rightarrow> qclass list) \<Rightarrow> QAN \<Rightarrow> agg_run \<Rightarrow> bool" where
  "agg_inv lib srt config s \<longleftrightarrow>
     (let a = gr_agg s; d = interval_length config
      in ag_running a \<and> \<not> ag_closed a \<and> ag_d a = d \<and> ag_config a = default_interval config
         \<and> ag_timeStart a mod d = 0 \<and> ag_timeEnd a = ag_timeStart a + d
         \<and> (\<exists>ch bs docs. ag_reportChan a = Some ch \<and> length ch \<le> ReportChanBuffer
              \<and> gr_accepted s = concat (map snd bs) @ docs
              \<and> list_all2 (batch_report lib srt config) bs (gr_received s @ ch)
              \<and> stats_of lib [] docs = Inr (ag_mongostats a)
              \<and> (\<forall>doc \<in> set docs. ag_timeStart a \<le> sp_Ts doc \<and> sp_Ts doc < ag_timeEnd a)))"

lemma agg_invI:
  assumes "ag_running (gr_agg s)" "\<not> ag_closed (gr_agg s)" "ag_d (gr_agg s) = interval_length config"
    "ag_config (gr_agg s) = default_interval config" "ag_timeStart (gr_agg s) mod interval_length config = 0"
    "ag_timeEnd (gr_agg s) = ag_timeStart (gr_agg s) + interval_length config"
    "ag_reportChan (gr_agg s) = Some ch" "length ch \<le> ReportChanBuffer"
    "gr_accepted s = concat (map snd bs) @ docs" "list_all2 (batch_report lib srt config) bs (gr_received s @ ch)"
    "stats_of lib [] docs = Inr (ag_mongostats (gr_agg s))"
    "\<forall>doc \<in> set docs. ag_timeStart (gr_agg s) \<le> sp_Ts doc \<and> sp_Ts doc < ag_timeEnd (gr_agg s)"
  shows "agg_inv lib srt config s"
  unfolding agg_inv_def Let_def using assms by blast

lemma Truncate_bounds:
  "0 < d \<Longrightarrow> Truncate t d mod d = 0 \<and> Truncate t d \<le> t \<and> t < Truncate t d + d"
proof -
  assume "0 < d"
  moreover have "(t - t mod d) mod d = 0" by (simp add: minus_mod_eq_mult_div)
  ultimately show ?thesis using pos_mod_sign [of d t] pos_mod_bound [of d t] by (simp add: Truncate_def)
qed

lemma newInterval_simps [simp]:
  "ag_config (newInterval ts a) = ag_config a" "ag_d (newInterval ts a) = ag_d a"
  "ag_running (newInterval ts a) = ag_running a" "ag_closed (newInterval ts a) = ag_closed a"
  "ag_reportChan (newInterval ts a) = ag_reportChan a" "ag_mongostats (newInterval ts a) = []"
  "ag_timeStart (newInterval ts a) = Truncate ts (ag_d a)"
  "ag_timeEnd (newInterval ts a) = Truncate ts (ag_d a) + ag_d a"
  by (simp_all add: newInterval_def Let_def)

lemma agg_inv_start:
  assumes "0 < interval_length config"
  shows "agg_inv lib srt config (agg_start t0 config now)"
  using assms Truncate_bounds [of "interval_length config" t0]
  by (auto simp: agg_inv_def agg_start_def agg_Start_def agg_New_def interval_length_def Let_def
      intro!: exI [of _ "[]"])

lemma flush_Returns:
  assumes "key_sort (ml_sort lib)" "flush lib srt ts a = Returns a'"
  shows "if ag_mongostats a = [] then a' = newInterval ts a
    else \<exists>ch. ag_reportChan a = Some ch \<and> length ch < ReportChanBuffer
      \<and> a' = (newInterval ts a)\<lparr>ag_reportChan := Some (ch @ [MakeReport srt (\<lambda>_. None) (qn_UUID (ag_config a))
                 (qn_ReportLimit (ag_config a)) (ag_timeStart a) (ag_timeEnd a) None
                 (createResult lib (ag_config a) (ag_mongostats a))]),
               ag_ReportsOut := ag_ReportsOut (newInterval ts a) + 1\<rparr>"
  using assms(2)
  by (auto simp: flush_def agg_interval_def key_sort.Queries_empty [OF assms(1) refl] not_le
      split: option.splits if_splits)

lemma flush_inv:
  assumes key: "key_sort (ml_sort lib)" and d: "0 < interval_length config"
    and inv: "agg_inv lib srt config s" and f: "flush lib srt ts ((gr_agg s)\<lparr>ag_t := u\<rparr>) = Returns a"
  shows "agg_inv lib srt config (s\<lparr>gr_agg := a\<rparr>) \<and> ag_mongostats a = []
    \<and> ag_timeStart a = Truncate ts (interval_length config)"
proof -
  let ?a = "gr_agg s" and ?d = "interval_length config"
  obtain ch bs docs where I: "ag_reportChan ?a = Some ch" "length ch \<le> ReportChanBuffer"
    "gr_accepted s = concat (map snd bs) @ docs"
    "list_all2 (batch_report lib srt config) bs (gr_received s @ ch)"
    "stats_of lib [] docs = Inr (ag_mongostats ?a)"
    "\<forall>doc \<in> set docs. ag_timeStart ?a \<le> sp_Ts doc \<and> sp_Ts doc < ag_timeEnd ?a"
    using inv by (auto simp: agg_inv_def Let_def)
  note J = inv [unfolded agg_inv_def Let_def] Truncate_bounds [OF d, of ts]
  note fl = flush_Returns [OF key f]
  show ?thesis
  proof (cases "ag_mongostats ?a = []")
    case True
    then have "docs = []" using stats_of_total [OF I(5)] by simp
    moreover have "a = newInterval ts (?a\<lparr>ag_t := u\<rparr>)" using True fl by simp
    ultimately show ?thesis
      using I(1-4) J by (auto simp: agg_inv_def Let_def intro!: exI [of _ bs])
  next
    case False
    let ?r = "MakeReport srt (\<lambda>_. None) (qn_UUID (ag_config ?a)) (qn_ReportLimit (ag_config ?a))
      (ag_timeStart ?a) (ag_timeEnd ?a) None (createResult lib (ag_config ?a) (ag_mongostats ?a))"
    have len: "length ch < ReportChanBuffer" and ch': "ag_reportChan a = Some (ch @ [?r])"
      and rest: "ag_mongostats a = []" "ag_timeStart a = Truncate ts ?d" "ag_timeEnd a = Truncate ts ?d + ?d"
        "ag_running a" "\<not> ag_closed a" "ag_d a = ?d" "ag_config a = default_interval config"
      using False I(1) J fl by auto
    have "docs \<noteq> []" using False I(5) by auto
    with I(5,6) J have "batch_report lib srt config (ag_timeStart ?a, docs) ?r"
      by (simp add: batch_report_def Let_def)
    with I(4) have "list_all2 (batch_report lib srt config) (bs @ [(ag_timeStart ?a, docs)]) (gr_received s @ ch @ [?r])"
      unfolding append_assoc [symmetric] by (intro list_all2_appendI) auto
    with I(3) J rest len ch' have "agg_inv lib srt config (s\<lparr>gr_agg := a\<rparr>)"
      by (intro agg_invI [where bs = "bs @ [(ag_timeStart ?a, docs)]" and docs = "[]" and ch = "ch @ [?r]"]) simp_all
    with rest show ?thesis by simp
  qed
qed

lemma accept_inv:
  assumes "agg_inv lib srt config s" "ag_timeStart (gr_agg s) \<le> sp_Ts doc" "sp_Ts doc < ag_timeEnd (gr_agg s)"
    "stats_Add lib (ag_mongostats (gr_agg s)) doc = Inr st"
  shows "agg_inv lib srt config
    (s\<lparr>gr_agg := (gr_agg s)\<lparr>ag_t := t, ag_DocsIn := n, ag_mongostats := st\<rparr>, gr_accepted := gr_accepted s @ [doc]\<rparr>)"
proof -
  obtain ch bs docs where I: "ag_reportChan (gr_agg s) = Some ch" "length ch \<le> ReportChanBuffer"
    "gr_accepted s = concat (map snd bs) @ docs"
    "list_all2 (batch_report lib srt config) bs (gr_received s @ ch)"
    "stats_of lib [] docs = Inr (ag_mongostats (gr_agg s))"
    "\<forall>doc \<in> set docs. ag_timeStart (gr_agg s) \<le> sp_Ts doc \<and> sp_Ts doc < ag_timeEnd (gr_agg s)"
    using assms(1) by (auto simp: agg_inv_def Let_def)
  with assms stats_of_snoc [OF I(5) assms(4)] show ?thesis
    by (auto simp: agg_inv_def Let_def intro!: exI [of _ bs] exI [of _ "docs @ [doc]"])
qed

lemma agg_inv_cong:
  assumes "agg_inv lib srt config s" "ag_running (gr_agg s') = ag_running (gr_agg s)"
    "ag_closed (gr_agg s') = ag_closed (gr_agg s)" "ag_d (gr_agg s') = ag_d (gr_agg s)"
    "ag_config (gr_agg s') = ag_config (gr_agg s)" "ag_timeStart (gr_agg s') = ag_timeStart (gr_agg s)"
    "ag_timeEnd (gr_agg s') = ag_timeEnd (gr_agg s)" "ag_mongostats (gr_agg s') = ag_mongostats (gr_agg s)"
    "gr_accepted s' = gr_accepted s" "ag_reportChan (gr_agg s) = Some ch"
    "ag_reportChan (gr_agg s') = Some ch'" "length ch' \<le> length ch" "gr_received s' @ ch' = gr_received s @ ch"
  shows "agg_inv lib srt config s'"
proof -
  obtain bs docs where I: "length ch \<le> ReportChanBuffer"
    "gr_accepted s = concat (map snd bs) @ docs" "list_all2 (batch_report lib srt config) bs (gr_received s @ ch)"
    "stats_of lib [] docs = Inr (ag_mongostats (gr_agg s))"
    "\<forall>doc \<in> set docs. ag_timeStart (gr_agg s) \<le> sp_Ts doc \<and> sp_Ts doc < ag_timeEnd (gr_agg s)"
    using assms(1,10) by (auto simp: agg_inv_def Let_def)
  note J = assms(1) [unfolded agg_inv_def Let_def]
  show ?thesis
    by (rule agg_invI [OF _ _ _ _ _ _ assms(11), where bs = bs and docs = docs])
      (use I J assms(2-9,12) in \<open>simp_all add: assms(13)\<close>)
qed

lemma agg_inv_frame:
  assumes "agg_inv lib srt config s"
  shows "agg_inv lib srt config (s\<lparr>gr_agg := (gr_agg s)\<lparr>ag_t := t, ag_DocsIn := n\<rparr>\<rparr>)"
    "agg_inv lib srt config (s\<lparr>gr_agg := (gr_agg s)\<lparr>ag_DocsSkippedOld := n\<rparr>\<rparr>)"
proof -
  obtain ch where "ag_reportChan (gr_agg s) = Some ch" using assms by (auto simp: agg_inv_def Let_def)
  then show "agg_inv lib srt config (s\<lparr>gr_agg := (gr_agg s)\<lparr>ag_t := t, ag_DocsIn := n\<rparr>\<rparr>)"
    "agg_inv lib srt config (s\<lparr>gr_agg := (gr_agg s)\<lparr>ag_DocsSkippedOld := n\<rparr>\<rparr>)"
    by (auto intro: agg_inv_cong [OF assms])
qed

lemma agg_Add_inv:
  assumes key: "key_sort (ml_sort lib)" and d: "0 < interval_length config"
    and inv: "agg_inv lib srt config s" and add: "agg_Add lib srt now doc (gr_agg s) = Returns (e, a)"
  shows "agg_inv lib srt config
    (s\<lparr>gr_agg := a,
       gr_accepted := gr_accepted s @ (if e = None \<and> ag_timeStart (gr_agg s) \<le> sp_Ts doc then [doc] else [])\<rparr>)"
proof (cases "sp_Ts doc < ag_timeStart (gr_agg s)")
  case True
  moreover have "ag_running (gr_agg s)" using inv by (simp add: agg_inv_def Let_def)
  ultimately show ?thesis
    using add agg_inv_frame(2) [OF inv] by (auto simp: agg_Add_def)
next
  case False
  moreover have "ag_running (gr_agg s)" using inv by (simp add: agg_inv_def Let_def)
  ultimately obtain b where b: "(if sp_Ts doc < ag_timeEnd (gr_agg s) then Returns (gr_agg s)
      else flush lib srt (sp_Ts doc) (gr_agg s)) = Returns b"
    and a: "(e, a) = (let b = b\<lparr>ag_t := Some (now + ag_d b), ag_DocsIn := ag_DocsIn b + 1\<rparr>
              in case stats_Add lib (ag_mongostats b) doc of
                   Inl e \<Rightarrow> (Some (StatsError e), b) | Inr st \<Rightarrow> (None, b\<lparr>ag_mongostats := st\<rparr>))"
    using add by (auto simp: agg_Add_def Let_def split: go_result.splits sum.splits)
  have inv': "agg_inv lib srt config (s\<lparr>gr_agg := b\<rparr>)"
    and range: "ag_timeStart b \<le> sp_Ts doc" "sp_Ts doc < ag_timeEnd b"
  proof -
    have "agg_inv lib srt config (s\<lparr>gr_agg := b\<rparr>) \<and> ag_timeStart b \<le> sp_Ts doc \<and> sp_Ts doc < ag_timeEnd b"
    proof (cases "sp_Ts doc < ag_timeEnd (gr_agg s)")
      case True
      with b have "b = gr_agg s" by simp
      with True False inv show ?thesis by simp
    next
      case late: False
      with b have "flush lib srt (sp_Ts doc) ((gr_agg s)\<lparr>ag_t := ag_t (gr_agg s)\<rparr>) = Returns b" by simp
      note fl = flush_inv [OF key d inv this]
      then have "ag_timeEnd b = ag_timeStart b + interval_length config" by (simp add: agg_inv_def Let_def)
      with fl Truncate_bounds [OF d, of "sp_Ts doc"] show ?thesis by simp
    qed
    then show "agg_inv lib srt config (s\<lparr>gr_agg := b\<rparr>)"
      "ag_timeStart b \<le> sp_Ts doc" "sp_Ts doc < ag_timeEnd b" by simp_all
  qed
  show ?thesis
  proof (cases "stats_Add lib (ag_mongostats b) doc")
    case (Inl err)
    with a agg_inv_frame(1) [OF inv'] show ?thesis by (simp add: Let_def)
  next
    case (Inr st)
    with a accept_inv [OF inv', of doc st, where t = "Some (now + ag_d b)" and n = "ag_DocsIn b + 1"] range False
    show ?thesis by (simp add: Let_def)
  qed
qed

lemma agg_step_inv:
  assumes "key_sort (ml_sort lib)" "0 < interval_length config" "agg_inv lib srt config s" "agg_step lib srt s l s'"
  shows "agg_inv lib srt config s'"
proof (cases l)
  case (AddDoc now doc)
  with assms(4) agg_Add_inv [OF assms(1-3)] show ?thesis by (auto simp: agg_step_simps)
next
  case (Timer now)
  with assms(4) flush_inv [OF assms(1-3)] show ?thesis by (auto simp: agg_step_simps agg_Flush_def)
next
  case Receive
  with assms(4) obtain r ch where r: "ag_reportChan (gr_agg s) = Some (r # ch)"
    and s': "s' = s\<lparr>gr_agg := (gr_agg s)\<lparr>ag_reportChan := Some ch\<rparr>, gr_received := gr_received s @ [r]\<rparr>"
    by (auto simp: agg_step_simps)
  then show ?thesis by (auto intro: agg_inv_cong [OF assms(3), where ch = "r # ch" and ch' = ch])
qed

lemma MakeReport_frame [simp]:
  "rt_StartTs (MakeReport srt fs uuid lm t0 t1 None res) = t0"
  "rt_EndTs (MakeReport srt fs uuid lm t0 t1 None res) = t1"
  "rt_Global (MakeReport srt fs uuid lm t0 t1 None res) = rs_Global res"
  by (simp_all add: MakeReport_def Let_def)

lemma batch_report_counts:
  assumes "\<And>ks. mset (ml_sort lib ks) = mset ks" "\<And>ks. sorted_wrt (\<le>) (ml_sort lib ks)"
    and "batch_report lib srt config (t, docs) r"
  shows "rt_StartTs r = t" "rt_EndTs r = t + interval_length config"
    "qc_TotalQueries (rt_Global r) = of_nat (length docs)"
proof -
  obtain s where s: "stats_of lib [] docs = Inr s"
    and r: "r = MakeReport srt (\<lambda>_. None) (qn_UUID (default_interval config)) (qn_ReportLimit (default_interval config))
      t (t + interval_length config) None (createResult lib (default_interval config) s)"
    using assms(3) by (auto simp: batch_report_def Let_def split: sum.splits)
  show "rt_StartTs r = t" "rt_EndTs r = t + interval_length config" by (simp_all add: r)
  from stats_of_total [OF s] createResult_total [OF assms(1,2), of s]
  show "qc_TotalQueries (rt_Global r) = of_nat (length docs)" by (simp add: r stats_total_def)
qed

text \<open>
  C13: the aggregator reports every accepted document exactly once and in its own interval. In
  every run of additions, timeouts and receptions, the reports received so far and those in the
  channel correspond one to one to consecutive batches of the accepted documents, in order of
  acceptance; a batch is not empty, its documents all lie in one aligned interval of the
  configured length, the report carries that interval, is the report these documents alone give,
  and counts as many queries as the batch has documents; the documents after the last batch lie
  in the current interval and wait for its end.
\<close>

theorem aggregator_exact:
  fixes lib :: mongolib and srt :: "qclass list \<Rightarrow> qclass list"
  assumes sort: "\<And>ks. mset (ml_sort lib ks) = mset ks" "\<And>ks. sorted_wrt (\<le>) (ml_sort lib ks)"
    and d: "0 < interval_length config"
    and run: "reachable (\<lambda>s. \<exists>t0 now. s = agg_start t0 config now) (agg_step lib srt) s"
  shows "\<exists>ch bs docs. ag_reportChan (gr_agg s) = Some ch \<and> length ch \<le> ReportChanBuffer
    \<and> gr_accepted s = concat (map snd bs) @ docs
    \<and> list_all2 (\<lambda>b r. batch_report lib srt config b r
         \<and> rt_StartTs r = fst b \<and> rt_EndTs r = fst b + interval_length config
         \<and> qc_TotalQueries (rt_Global r) = of_nat (length (snd b))) bs (gr_received s @ ch)
    \<and> (\<forall>doc \<in> set docs. ag_timeStart (gr_agg s) \<le> sp_Ts doc \<and> sp_Ts doc < ag_timeEnd (gr_agg s))"
proof -
  have k: "key_sort (ml_sort lib)" by (rule key_sort.intro) (fact sort)+
  have "step_invariant (\<lambda>s. \<exists>t0 now. s = agg_start t0 config now) (agg_step lib srt) (agg_inv lib srt config)"
    using agg_inv_start [OF d] agg_step_inv [OF k d] by unfold_locales auto
  from step_invariant.reachable_inv [OF this run]
  obtain ch bs docs where I: "ag_reportChan (gr_agg s) = Some ch" "length ch \<le> ReportChanBuffer"
    "gr_accepted s = concat (map snd bs) @ docs" "list_all2 (batch_report lib srt config) bs (gr_received s @ ch)"
    "\<forall>doc \<in> set docs. ag_timeStart (gr_agg s) \<le> sp_Ts doc \<and> sp_Ts doc < ag_timeEnd (gr_agg s)"
    by (auto simp: agg_inv_def Let_def)
  have "list_all2 (\<lambda>b r. batch_report lib srt config b r
         \<and> rt_StartTs r = fst b \<and> rt_EndTs r = fst b + interval_length config
         \<and> qc_TotalQueries (rt_Global r) = of_nat (length (snd b))) bs (gr_received s @ ch)"
    using I(4) by (rule list_all2_mono) (auto dest: batch_report_counts [OF sort])
  with I show ?thesis by blast
qed

definition demo_lib :: mongolib where
  "demo_lib = \<lparr>ml_Fingerprint = \<lambda>doc. Inr (GroupKey (sp_Op doc) (sp_Ns doc) ''{}''),
     ml_ExampleQuery = \<lambda>doc. Inr (sp_Query doc), ml_md5 = \<lambda>s. s, ml_sort = sort_keys\<rparr>"

definition demo_doc :: "int \<Rightarrow> SystemProfile" where
  "demo_doc ts = \<lparr>sp_Ts = ts, sp_Op = ''find'', sp_Ns = ''db.c'', sp_Query = '''', sp_NscannedObjects = 0,
     sp_DocsExamined = 1, sp_Nreturned = 1, sp_Millis = 5, sp_ResponseLength = 20\<rparr>"

lemma demo_sort: "mset (ml_sort demo_lib ks) = mset ks" "sorted_wrt (\<le>) (ml_sort demo_lib ks)"
  by (simp_all add: demo_lib_def ks.perm ks.ascending)

lemma demo_key: "key_sort (ml_sort demo_lib)"
  by (rule key_sort.intro) (fact demo_sort)+

lemma demo_Add: "\<exists>s'. stats_Add demo_lib s (demo_doc ts) = Inr s' \<and> s' \<noteq> []"
  by (auto simp: stats_Add_def demo_lib_def split: option.split)

lemma demo_interval: "interval_length NewQAN = 60 * second"
  by (simp add: interval_length_def agg_New_def newInterval_def default_interval_def NewQAN_def second_def Let_def)

text \<open>A step of a run of the demonstration: a document of the current interval, or of a later one.\<close>

lemma demo_accept:
  assumes "agg_inv demo_lib srt NewQAN s" "ag_timeStart (gr_agg s) \<le> ts" "ts < ag_timeEnd (gr_agg s)"
  shows "\<exists>s'. agg_step demo_lib srt s (AddDoc now (demo_doc ts)) s' \<and> gr_accepted s' = gr_accepted s @ [demo_doc ts]
    \<and> ag_mongostats (gr_agg s') \<noteq> [] \<and> ag_timeStart (gr_agg s') = ag_timeStart (gr_agg s)
    \<and> ag_t (gr_agg s') = Some (now + 60 * second) \<and> gr_received s' = gr_received s
    \<and> ag_reportChan (gr_agg s') = ag_reportChan (gr_agg s)"
proof -
  obtain st where st: "stats_Add demo_lib (ag_mongostats (gr_agg s)) (demo_doc ts) = Inr st" "st \<noteq> []"
    using demo_Add by blast
  have "ag_running (gr_agg s)" "ag_d (gr_agg s) = 60 * second" "sp_Ts (demo_doc ts) = ts"
    using assms(1) by (simp_all add: agg_inv_def Let_def demo_interval demo_doc_def)
  with assms(2,3) st show ?thesis by (simp add: agg_step_simps agg_Add_def)
qed

lemma demo_flush:
  assumes "agg_inv demo_lib srt NewQAN s" "ag_mongostats (gr_agg s) \<noteq> []"
    "ag_reportChan (gr_agg s) = Some ch" "length ch < ReportChanBuffer"
  obtains a r where "flush demo_lib srt ts ((gr_agg s)\<lparr>ag_t := u\<rparr>) = Returns a" "ag_reportChan a = Some (ch @ [r])"
    "rt_StartTs r = ag_timeStart (gr_agg s)" "ag_timeStart a = Truncate ts (60 * second)" "ag_d a = 60 * second"
proof -
  have "\<not> ag_closed (gr_agg s)" "ag_d (gr_agg s) = 60 * second"
    using assms(1) by (simp_all add: agg_inv_def Let_def demo_interval)
  with assms(2-4) that show ?thesis
    by (simp add: flush_def agg_interval_def key_sort.Queries_empty [OF demo_key refl])
qed

theorem aggregator_exact_witness:
  "\<exists>s. reachable (\<lambda>s. \<exists>t0 now. s = agg_start t0 NewQAN now) (agg_step demo_lib query_time_sort) s
    \<and> gr_accepted s = [demo_doc (5 * second)]
    \<and> (\<exists>ch bs docs. ag_reportChan (gr_agg s) = Some ch \<and> [demo_doc (5 * second)] = concat (map snd bs) @ docs
        \<and> length (bs :: (int \<times> SystemProfile list) list) = length (gr_received s @ ch))"
proof -
  have d: "0 < interval_length NewQAN" by (simp add: demo_interval second_def)
  let ?s0 = "agg_start 0 NewQAN 0"
  have inv: "agg_inv demo_lib query_time_sort NewQAN ?s0" by (rule agg_inv_start [OF d])
  have t: "ag_timeStart (gr_agg ?s0) = 0"
    by (simp add: agg_start_def agg_Start_def agg_New_def Let_def Truncate_def)
  then have "ag_timeEnd (gr_agg ?s0) = 60 * second"
    using inv by (simp add: agg_inv_def Let_def demo_interval)
  with t obtain s where s: "agg_step demo_lib query_time_sort ?s0 (AddDoc 0 (demo_doc (5 * second))) s"
    "gr_accepted s = gr_accepted ?s0 @ [demo_doc (5 * second)]"
    using demo_accept [OF inv, of "5 * second" 0] by (auto simp: second_def)
  have r: "reachable (\<lambda>s. \<exists>t0 now. s = agg_start t0 NewQAN now) (agg_step demo_lib query_time_sort) s"
    by (rule reachable.move [where step = "agg_step demo_lib query_time_sort", OF reachable.start s(1)]) blast
  have acc: "gr_accepted s = [demo_doc (5 * second)]" using s(2) by (simp add: agg_start_def)
  from aggregator_exact [OF demo_sort d r] obtain ch bs docs
    where c: "ag_reportChan (gr_agg s) = Some ch" "[demo_doc (5 * second)] = concat (map snd bs) @ docs"
      "list_all2 (\<lambda>b r. batch_report demo_lib query_time_sort NewQAN b r
         \<and> rt_StartTs r = fst b \<and> rt_EndTs r = fst b + interval_length NewQAN
         \<and> qc_TotalQueries (rt_Global r) = of_nat (length (snd b))) bs (gr_received s @ ch)"
    unfolding acc by (elim exE conjE)
  have "\<exists>ch bs docs. ag_reportChan (gr_agg s) = Some ch \<and> [demo_doc (5 * second)] = concat (map snd bs) @ docs
      \<and> length (bs :: (int \<times> SystemProfile list) list) = length (gr_received s @ ch)"
    using c(1,2) list_all2_lengthD [OF c(3)] by blast
  with r acc show ?thesis by (intro exI [of _ s] conjI)
qed

section \<open>The order of the intervals\<close>

text \<open>
  A run in which the timer never fires before the end of the interval of the documents, as is the
  case when the clocks of the agent and of the server agree: the timer fires a whole interval
  after the last addition.
\<close>

definition timely_step ::
  "mongolib \<Rightarrow> (qclass list \<Rightarrow> qclass list) \<Rightarrow> agg_run \<Rightarrow> agg_event \<Rightarrow> agg_run \<Rightarrow> bool" where
  "timely_step lib srt s l s' \<longleftrightarrow>
     agg_step lib srt s l s' \<and> (case l of Timer now \<Rightarrow> ag_timeEnd (gr_agg s) \<le> now | _ \<Rightarrow> True)"

definition reports :: "agg_run \<Rightarrow> report list" where
  "reports s = gr_received s @ (case ag_reportChan (gr_agg s) of None \<Rightarrow> [] | Some ch \<Rightarrow> ch)"

definition order_inv :: "agg_run \<Rightarrow> bool" where
  "order_inv s \<longleftrightarrow> sorted_wrt (<) (map rt_StartTs (reports s) @ [ag_timeStart (gr_agg s)])"

lemma sorted_wrt_extend:
  fixes u t :: int
  assumes "sorted_wrt (<) (ys @ [u])" "u < t" "xs \<in> {ys, ys @ [u]}"
  shows "sorted_wrt (<) (xs @ [t])"
  using assms by (fastforce simp: sorted_wrt_append)

lemma flush_order:
  assumes key: "key_sort (ml_sort lib)" and d: "0 < interval_length config" and inv: "agg_inv lib srt config s"
    and f: "flush lib srt ts ((gr_agg s)\<lparr>ag_t := u\<rparr>) = Returns a"
    and late: "ag_timeEnd (gr_agg s) \<le> ts" and ord: "order_inv s"
  shows "order_inv (s\<lparr>gr_agg := a\<rparr>)"
proof -
  let ?t = "Truncate ts (interval_length config)"
  have J: "ag_timeStart (gr_agg s) mod interval_length config = 0" "ag_d (gr_agg s) = interval_length config"
    "ag_timeEnd (gr_agg s) = ag_timeStart (gr_agg s) + interval_length config"
    using inv by (simp_all add: agg_inv_def Let_def)
  then have "ag_timeStart (gr_agg s) < ?t"
    using late Truncate_bounds [OF d, of ts] d by simp
  moreover have "ag_timeStart a = ?t" using flush_inv [OF key d inv f] by simp
  moreover have "map rt_StartTs (reports (s\<lparr>gr_agg := a\<rparr>)) \<in>
    {map rt_StartTs (reports s), map rt_StartTs (reports s) @ [ag_timeStart (gr_agg s)]}"
    using flush_Returns [OF key f] by (auto simp: reports_def split: if_splits option.split)
  ultimately show ?thesis
    using sorted_wrt_extend [OF ord [unfolded order_inv_def]] by (simp add: order_inv_def)
qed

lemma order_step:
  assumes key: "key_sort (ml_sort lib)" and d: "0 < interval_length config" and inv: "agg_inv lib srt config s"
    and ord: "order_inv s" and step: "timely_step lib srt s l s'"
  shows "order_inv s'"
proof (cases l)
  case (AddDoc now doc)
  then obtain e a where add: "agg_Add lib srt now doc (gr_agg s) = Returns (e, a)"
    and s': "gr_agg s' = a" "gr_received s' = gr_received s"
    using step by (auto simp: timely_step_def agg_step_simps)
  let ?b = "if sp_Ts doc < ag_timeEnd (gr_agg s) then Returns (gr_agg s) else flush lib srt (sp_Ts doc) (gr_agg s)"
  have run: "ag_running (gr_agg s)" using inv by (simp add: agg_inv_def Let_def)
  have "\<exists>b. order_inv (s\<lparr>gr_agg := b\<rparr>) \<and> ag_reportChan a = ag_reportChan b \<and> ag_timeStart a = ag_timeStart b"
  proof (cases "sp_Ts doc < ag_timeEnd (gr_agg s)")
    case True
    with add ord run show ?thesis
      by (intro exI [of _ "gr_agg s"]) (auto simp: agg_Add_def Let_def split: if_splits sum.splits)
  next
    case False
    then have "ag_timeStart (gr_agg s) \<le> sp_Ts doc" using inv d by (simp add: agg_inv_def Let_def)
    with False add run obtain b where b: "flush lib srt (sp_Ts doc) ((gr_agg s)\<lparr>ag_t := ag_t (gr_agg s)\<rparr>) = Returns b"
      and ab: "ag_reportChan a = ag_reportChan b \<and> ag_timeStart a = ag_timeStart b"
      by (auto simp: agg_Add_def Let_def split: go_result.splits sum.splits)
    from flush_order [OF key d inv b _ ord] False ab show ?thesis by auto
  qed
  then show ?thesis by (auto simp: order_inv_def reports_def s')
next
  case (Timer now)
  with step flush_order [OF key d inv _ _ ord] show ?thesis
    by (auto simp: timely_step_def agg_step_simps agg_Flush_def)
next
  case Receive
  with step ord show ?thesis by (auto simp: timely_step_def agg_step_simps order_inv_def reports_def)
qed

text \<open>
  Each interval is reported at most once, and in ascending order, in every run in which the
  timer does not fire before the end of the documents' interval.
\<close>

theorem aggregator_once:
  fixes lib :: mongolib and srt :: "qclass list \<Rightarrow> qclass list"
  assumes sort: "\<And>ks. mset (ml_sort lib ks) = mset ks" "\<And>ks. sorted_wrt (\<le>) (ml_sort lib ks)"
    and d: "0 < interval_length config"
    and run: "reachable (\<lambda>s. \<exists>t0 now. s = agg_start t0 config now) (timely_step lib srt) s"
  shows "sorted_wrt (<) (map rt_StartTs (reports s))"
proof -
  have k: "key_sort (ml_sort lib)" by (rule key_sort.intro) (fact sort)+
  have "order_inv (agg_start t0 config now)" for t0 now
    by (simp add: order_inv_def reports_def agg_start_def agg_Start_def agg_New_def newInterval_def Let_def)
  then have "step_invariant (\<lambda>s. \<exists>t0 now. s = agg_start t0 config now) (timely_step lib srt)
      (\<lambda>s. agg_inv lib srt config s \<and> order_inv s)"
    using agg_inv_start [OF d] agg_step_inv [OF k d] order_step [OF k d]
    by unfold_locales (auto simp: timely_step_def)
  from step_invariant.reachable_inv [OF this run] show ?thesis
    by (simp add: order_inv_def sorted_wrt_append)
qed

theorem aggregator_once_witness:
  "\<exists>s. reachable (\<lambda>s. \<exists>t0 now. s = agg_start t0 NewQAN now) (timely_step demo_lib query_time_sort) s
    \<and> map rt_StartTs (reports s) = [0] \<and> sorted_wrt (<) (map rt_StartTs (reports s))"
proof -
  have d: "0 < interval_length NewQAN" by (simp add: demo_interval second_def)
  let ?step = "timely_step demo_lib query_time_sort" and ?s0 = "agg_start 0 NewQAN 0"
  have inv: "agg_inv demo_lib query_time_sort NewQAN ?s0" by (rule agg_inv_start [OF d])
  have t: "ag_timeStart (gr_agg ?s0) = 0" "ag_reportChan (gr_agg ?s0) = Some []" "gr_received ?s0 = []"
    by (simp_all add: agg_start_def agg_Start_def agg_New_def Let_def Truncate_def)
  have e: "ag_timeEnd (gr_agg s) = ag_timeStart (gr_agg s) + 60 * second"
    if "agg_inv demo_lib query_time_sort NewQAN s" for s
    using that by (simp add: agg_inv_def Let_def demo_interval)
  obtain s1 where s1: "agg_step demo_lib query_time_sort ?s0 (AddDoc 0 (demo_doc (5 * second))) s1"
    "ag_mongostats (gr_agg s1) \<noteq> []" "ag_timeStart (gr_agg s1) = 0" "ag_t (gr_agg s1) = Some (60 * second)"
    "gr_received s1 = []" "ag_reportChan (gr_agg s1) = Some []"
    using demo_accept [OF inv, of "5 * second" 0] t e [OF inv] by (auto simp: second_def)
  have inv1: "agg_inv demo_lib query_time_sort NewQAN s1"
    using agg_step_inv [OF demo_key d inv s1(1)] .
  obtain a r where a: "flush demo_lib query_time_sort (60 * second) ((gr_agg s1)\<lparr>ag_t := None\<rparr>) = Returns a"
    "ag_reportChan a = Some ([] @ [r])" "rt_StartTs r = ag_timeStart (gr_agg s1)"
    by (rule demo_flush [OF inv1 s1(2) s1(6), of "60 * second" None]) (auto simp: ReportChanBuffer_def)
  have "reachable (\<lambda>s. \<exists>t0 now. s = agg_start t0 NewQAN now) ?step s1"
  proof (rule reachable.move)
    show "reachable (\<lambda>s. \<exists>t0 now. s = agg_start t0 NewQAN now) ?step ?s0" by (rule reachable.start) blast
    show "?step ?s0 (AddDoc 0 (demo_doc (5 * second))) s1" using s1(1) by (simp add: timely_step_def)
  qed
  moreover have "?step s1 (Timer (60 * second)) (s1\<lparr>gr_agg := a\<rparr>)"
    using s1(3,4) a(1) e [OF inv1] by (auto simp: timely_step_def agg_step_simps agg_Flush_def)
  ultimately have run: "reachable (\<lambda>s. \<exists>t0 now. s = agg_start t0 NewQAN now) ?step (s1\<lparr>gr_agg := a\<rparr>)"
    by (rule reachable.move)
  have "map rt_StartTs (reports (s1\<lparr>gr_agg := a\<rparr>)) = [0]"
    using a(2,3) s1(3,5) by (simp add: reports_def)
  with aggregator_once [OF demo_sort d run] run show ?thesis
    by (intro exI [of _ "s1\<lparr>gr_agg := a\<rparr>"] conjI)
qed

section \<open>Stopping the aggregator\<close>

text \<open>
  \<open>Stop\<close> against the goroutine that waits for the timer: \<open>Stop\<close> takes the lock, closes the done
  channel and waits for the goroutine with the lock held; the goroutine, once it has seen the
  timer, needs the lock for \<open>Flush\<close>. An addition takes the lock for a moment and sets the timer.
\<close>

datatype stop_pc = StopCalled | StopLocked | StopWaiting | StopReturned
datatype gor_pc = InSelect | WantsLock | Flushing | Exited
datatype timer_state = Unarmed | Armed | Fired

record stop_state =
  ss_stop :: stop_pc
  ss_gor :: gor_pc
  ss_locked :: bool
  ss_timer :: timer_state
  ss_done :: bool

inductive stop_step :: "stop_state \<Rightarrow> stop_state \<Rightarrow> bool" where
  add: "\<not> ss_locked s \<Longrightarrow> ss_stop s = StopCalled \<Longrightarrow> stop_step s (s\<lparr>ss_timer := Armed\<rparr>)"
| fire: "ss_timer s = Armed \<Longrightarrow> stop_step s (s\<lparr>ss_timer := Fired\<rparr>)"
| lock: "ss_stop s = StopCalled \<Longrightarrow> \<not> ss_locked s \<Longrightarrow>
    stop_step s (s\<lparr>ss_stop := StopLocked, ss_locked := True\<rparr>)"
| close: "ss_stop s = StopLocked \<Longrightarrow> stop_step s (s\<lparr>ss_stop := StopWaiting, ss_done := True\<rparr>)"
| waited: "ss_stop s = StopWaiting \<Longrightarrow> ss_gor s = Exited \<Longrightarrow>
    stop_step s (s\<lparr>ss_stop := StopReturned, ss_locked := False\<rparr>)"
| timeout: "ss_gor s = InSelect \<Longrightarrow> ss_timer s = Fired \<Longrightarrow>
    stop_step s (s\<lparr>ss_gor := WantsLock, ss_timer := Unarmed\<rparr>)"
| finish: "ss_gor s = InSelect \<Longrightarrow> ss_done s \<Longrightarrow> stop_step s (s\<lparr>ss_gor := Exited\<rparr>)"
| acquire: "ss_gor s = WantsLock \<Longrightarrow> \<not> ss_locked s \<Longrightarrow>
    stop_step s (s\<lparr>ss_gor := Flushing, ss_locked := True\<rparr>)"
| flushed: "ss_gor s = Flushing \<Longrightarrow> stop_step s (s\<lparr>ss_gor := InSelect, ss_locked := False\<rparr>)"

inductive_cases stop_stepE: "stop_step s s'"

definition stop_start :: stop_state where
  "stop_start = \<lparr>ss_stop = StopCalled, ss_gor = InSelect, ss_locked = False, ss_timer = Armed, ss_done = False\<rparr>"

definition stop_stuck :: "stop_state \<Rightarrow> bool" where
  "stop_stuck s \<longleftrightarrow> ss_stop s \<in> {StopLocked, StopWaiting} \<and> ss_gor s = WantsLock"

definition stop_inv :: "stop_state \<Rightarrow> bool" where
  "stop_inv s \<longleftrightarrow> (ss_locked s \<longleftrightarrow> ss_stop s \<in> {StopLocked, StopWaiting} \<or> ss_gor s = Flushing)
     \<and> (ss_gor s = Flushing \<longrightarrow> ss_stop s = StopCalled)
     \<and> (ss_done s \<longleftrightarrow> ss_stop s \<in> {StopWaiting, StopReturned})
     \<and> (ss_gor s = Exited \<longrightarrow> ss_done s) \<and> (ss_stop s = StopReturned \<longrightarrow> ss_gor s = Exited)"

lemma stop_inv_step: "stop_inv s \<Longrightarrow> stop_step s s' \<Longrightarrow> stop_inv s'"
  by (erule stop_stepE; cases "ss_stop s") (auto simp: stop_inv_def)

lemma stop_stuck_step: "stop_inv s \<Longrightarrow> stop_stuck s \<Longrightarrow> stop_step s s' \<Longrightarrow> stop_stuck s'"
  by (erule stop_stepE) (auto simp: stop_inv_def stop_stuck_def)

lemma stop_stuck_for_ever:
  assumes "stop_step\<^sup>*\<^sup>* s s'" "stop_inv s" "stop_stuck s"
  shows "stop_stuck s'"
  using assms by (induction rule: converse_rtranclp_induct) (auto dest: stop_stuck_step stop_inv_step)

text \<open>Unless it is stuck, \<open>Stop\<close> can still return.\<close>

lemma stop_returns_waiting:
  assumes "stop_inv s" "ss_stop s = StopWaiting" "ss_gor s \<noteq> WantsLock"
  shows "\<exists>s'. stop_step\<^sup>*\<^sup>* s s' \<and> ss_stop s' = StopReturned"
proof (cases "ss_gor s = Exited")
  case True
  with assms(2) show ?thesis by (auto intro!: exI stop_step.waited r_into_rtranclp)
next
  case False
  with assms have "ss_gor s = InSelect" "ss_done s" by (cases "ss_gor s"; auto simp: stop_inv_def)+
  then have "stop_step s (s\<lparr>ss_gor := Exited\<rparr>)" by (rule stop_step.finish)
  moreover have "stop_step (s\<lparr>ss_gor := Exited\<rparr>) (s\<lparr>ss_gor := Exited, ss_stop := StopReturned, ss_locked := False\<rparr>)"
    using assms(2) stop_step.waited [of "s\<lparr>ss_gor := Exited\<rparr>"] by simp
  ultimately have "stop_step\<^sup>*\<^sup>* s (s\<lparr>ss_gor := Exited, ss_stop := StopReturned, ss_locked := False\<rparr>)" by auto
  then show ?thesis by (intro exI conjI) auto
qed

lemma stop_returns_from:
  assumes "stop_inv s'" "stop_step\<^sup>*\<^sup>* s s'" "ss_stop s' = StopWaiting" "ss_gor s' \<noteq> WantsLock"
  shows "\<exists>s'. stop_step\<^sup>*\<^sup>* s s' \<and> ss_stop s' = StopReturned"
  using stop_returns_waiting [OF assms(1,3,4)] assms(2) by (blast intro: rtranclp_trans)

lemma stop_returns_free:
  assumes "stop_inv s" "ss_stop s = StopCalled" "ss_gor s = InSelect"
  shows "\<exists>s'. stop_step\<^sup>*\<^sup>* s s' \<and> ss_stop s' = StopReturned"
proof -
  let ?l = "s\<lparr>ss_stop := StopLocked, ss_locked := True\<rparr>"
  let ?w = "?l\<lparr>ss_stop := StopWaiting, ss_done := True\<rparr>"
  have "stop_step s ?l" using assms by (intro stop_step.lock) (auto simp: stop_inv_def)
  moreover have "stop_step ?l ?w" by (rule stop_step.close) simp
  ultimately have r: "stop_step\<^sup>*\<^sup>* s ?w" by auto
  have "stop_inv ?w" using assms by (auto simp: stop_inv_def)
  with r show ?thesis using assms(3) by (intro stop_returns_from [of ?w]) simp_all
qed

lemma stop_returns_called:
  assumes inv: "stop_inv s" and called: "ss_stop s = StopCalled"
  shows "\<exists>s'. stop_step\<^sup>*\<^sup>* s s' \<and> ss_stop s' = StopReturned"
proof -
  let ?i = "s\<lparr>ss_gor := InSelect, ss_locked := False\<rparr>"
  have flushing: "stop_step\<^sup>*\<^sup>* t ?i" if "t \<in> {s, s\<lparr>ss_gor := Flushing, ss_locked := True\<rparr>}" "ss_gor t = Flushing" for t
    using stop_step.flushed [OF that(2)] that(1) by auto
  have "stop_step\<^sup>*\<^sup>* s ?i"
  proof (cases "ss_gor s")
    case InSelect
    with inv called have "?i = s" by (auto simp: stop_inv_def)
    then show ?thesis by simp
  next
    case WantsLock
    with inv called have "stop_step s (s\<lparr>ss_gor := Flushing, ss_locked := True\<rparr>)"
      by (intro stop_step.acquire) (auto simp: stop_inv_def)
    then show ?thesis using flushing [of "s\<lparr>ss_gor := Flushing, ss_locked := True\<rparr>"]
      by (simp add: converse_rtranclp_into_rtranclp)
  next
    case Flushing
    then show ?thesis using flushing [of s] by simp
  next
    case Exited
    with inv called show ?thesis by (auto simp: stop_inv_def)
  qed
  moreover have "stop_inv ?i" using inv called by (auto simp: stop_inv_def)
  ultimately show ?thesis
    using stop_returns_free [of ?i] called by (auto intro: rtranclp_trans)
qed

lemma stop_returns:
  assumes inv: "stop_inv s" and free: "\<not> stop_stuck s"
  shows "\<exists>s'. stop_step\<^sup>*\<^sup>* s s' \<and> ss_stop s' = StopReturned"
proof (cases "ss_stop s")
  case StopCalled
  with inv show ?thesis by (rule stop_returns_called)
next
  case StopLocked
  let ?w = "s\<lparr>ss_stop := StopWaiting, ss_done := True\<rparr>"
  have "stop_step s ?w" by (rule stop_step.close [OF StopLocked])
  moreover from this have "stop_inv ?w" by (rule stop_inv_step [OF inv])
  ultimately show ?thesis
    using free StopLocked by (intro stop_returns_from [of ?w]) (auto simp: stop_stuck_def)
next
  case StopWaiting
  with inv free show ?thesis by (intro stop_returns_waiting) (auto simp: stop_stuck_def)
next
  case StopReturned
  then show ?thesis by blast
qed

text \<open>
  The call \<open>Stop\<close> of the aggregator may never return. From a running aggregator it can come to a state
  in which the goroutine has seen the timeout and waits for the lock, while \<open>Stop\<close> holds the lock
  and waits for the goroutine, and nothing that happens later changes this; in every other state
  \<open>Stop\<close> can still return.
\<close>

theorem agg_Stop_deadlock:
  "(\<exists>s. stop_step\<^sup>*\<^sup>* stop_start s \<and> stop_stuck s)
   \<and> (\<forall>s. stop_step\<^sup>*\<^sup>* stop_start s \<longrightarrow>
        (\<exists>s'. stop_step\<^sup>*\<^sup>* s s' \<and> ss_stop s' = StopReturned) \<longleftrightarrow> \<not> stop_stuck s)"
proof
  let ?fired = "stop_start\<lparr>ss_timer := Fired\<rparr>"
  let ?wants = "?fired\<lparr>ss_gor := WantsLock, ss_timer := Unarmed\<rparr>"
  let ?stuck = "?wants\<lparr>ss_stop := StopLocked, ss_locked := True\<rparr>"
  have "stop_step stop_start ?fired" by (rule stop_step.fire) (simp add: stop_start_def)
  moreover have "stop_step ?fired ?wants" by (rule stop_step.timeout) (simp_all add: stop_start_def)
  moreover have "stop_step ?wants ?stuck" by (rule stop_step.lock) (simp_all add: stop_start_def)
  ultimately have "stop_step\<^sup>*\<^sup>* stop_start ?stuck"
    by (meson r_into_rtranclp rtranclp.rtrancl_into_rtrancl)
  moreover have "stop_stuck ?stuck" by (simp add: stop_stuck_def)
  ultimately show "\<exists>s. stop_step\<^sup>*\<^sup>* stop_start s \<and> stop_stuck s" by blast
next
  have start: "stop_inv stop_start" by (simp add: stop_start_def stop_inv_def)
  have inv: "stop_inv s" if "stop_step\<^sup>*\<^sup>* stop_start s" for s
    using that by (induction rule: rtranclp_induct) (auto intro: start stop_inv_step)
  show "\<forall>s. stop_step\<^sup>*\<^sup>* stop_start s \<longrightarrow>
        (\<exists>s'. stop_step\<^sup>*\<^sup>* s s' \<and> ss_stop s' = StopReturned) \<longleftrightarrow> \<not> stop_stuck s"
    using inv stop_returns stop_stuck_for_ever by (fastforce simp: stop_stuck_def)
qed

theorem agg_Stop_deadlock_witness:
  "\<exists>s. stop_step\<^sup>*\<^sup>* stop_start s \<and> ss_stop s = StopReturned"
proof -
  have "\<not> stop_stuck stop_start" by (simp add: stop_stuck_def stop_start_def)
  with agg_Stop_deadlock show ?thesis by blast
qed

end
