(* ===== verification/MongoProfiler.thy ===== *)
theory MongoProfiler
  imports MongoAggregator QanManager
begin

text \<open>
  The MongoDB profiler around the aggregator, \<open>qan/analyzer/mongo/profiler/\<close>: the collector that
  follows \<open>system.profile\<close> (\<open>collector/collector.go\<close>), the parser that hands its documents to the
  aggregator (\<open>parser/parser.go\<close>) and the sender that spools the reports (\<open>sender/sender.go\<close>), as
  one step relation over their goroutines and channels; the monitors of the databases
  (\<open>monitor.go\<close>, \<open>monitors.go\<close>) and the profiler (\<open>profiler.go\<close>), and the analyzer of the manager
  (\<open>mongo.go\<close>).
\<close>

section \<open>Collector, parser and sender\<close>

text \<open>Where the goroutine of each service is.\<close>

datatype collector_pc = Connecting | CheckDone | Iterating | Holding SystemProfile | Sleeping | CollectorExit
datatype parser_pc = ParserTop | ParserSelect | ParserExit
datatype sender_pc = SenderSelect | SenderHolds report | SenderExit

record collector_stats =
  cs_In :: u64
  cs_Out :: u64
  cs_IteratorCounter :: u64
  cs_IteratorRestart :: u64
  cs_IteratorErr :: u64
  cs_IteratorTimeout :: u64

record parser_stats =
  ps_InDocs :: u64
  ps_OkDocs :: u64
  ps_ErrFingerprint :: u64
  ps_ErrParse :: u64

record sender_stats =
  ss_In :: u64
  ss_Out :: u64
  ss_ErrIter :: u64

text \<open>
  The services of one monitor, with the aggregator and the sender that it shares with the other
  monitors. \<open>pi_fetched\<close>, \<open>pi_parsed\<close> and \<open>pi_spooled\<close>, \<open>pi_lost\<close> record the documents the
  cursor gave, those the parser received, and the reports the spooler accepted and refused.
\<close>

record pipe =
  pi_cpc :: collector_pc
  pi_cdone :: bool
  pi_cstats :: collector_stats
  pi_docsChan :: "SystemProfile list"
  pi_docsClosed :: bool
  pi_ppc :: parser_pc
  pi_pdone :: bool
  pi_pstats :: parser_stats
  pi_run :: agg_run
  pi_spc :: sender_pc
  pi_sdone :: bool
  pi_sstats :: sender_stats
  pi_fetched :: "SystemProfile list"
  pi_parsed :: "SystemProfile list"
  pi_spooled :: "report list"
  pi_lost :: "report list"

definition docsChanBuffer :: nat where "docsChanBuffer = 100"

text \<open>What the iterator of the cursor says: a document, an error, a timeout, or that it is dead.\<close>

datatype iter_result = IterDoc SystemProfile | IterErr | IterTimeout | IterDead

definition connectAndCollect_open :: "pipe \<Rightarrow> pipe" where
  "connectAndCollect_open p =
     p\<lparr>pi_cpc := CheckDone,
       pi_cstats := (pi_cstats p)\<lparr>cs_IteratorCounter := cs_IteratorCounter (pi_cstats p) + 1\<rparr>\<rparr>"

definition connectAndCollect_next :: "iter_result \<Rightarrow> pipe \<Rightarrow> pipe" where
  "connectAndCollect_next r p =
     (let st = pi_cstats p
      in case r of
           IterDoc doc \<Rightarrow>
             p\<lparr>pi_cstats := st\<lparr>cs_In := cs_In st + 1\<rparr>, pi_fetched := pi_fetched p @ [doc],
               pi_cpc := (if pi_cdone p then Sleeping else Holding doc)\<rparr>
         | IterErr \<Rightarrow> p\<lparr>pi_cstats := st\<lparr>cs_IteratorErr := cs_IteratorErr st + 1\<rparr>, pi_cpc := Sleeping\<rparr>
         | IterTimeout \<Rightarrow> p\<lparr>pi_cstats := st\<lparr>cs_IteratorTimeout := cs_IteratorTimeout st + 1\<rparr>, pi_cpc := CheckDone\<rparr>
         | IterDead \<Rightarrow> p\<lparr>pi_cstats := st\<lparr>cs_IteratorRestart := cs_IteratorRestart st + 1\<rparr>, pi_cpc := Sleeping\<rparr>)"

definition connectAndCollect_push :: "SystemProfile \<Rightarrow> pipe \<Rightarrow> pipe" where
  "connectAndCollect_push doc p =
     p\<lparr>pi_docsChan := pi_docsChan p @ [doc], pi_cpc := Iterating,
       pi_cstats := (pi_cstats p)\<lparr>cs_Out := cs_Out (pi_cstats p) + 1\<rparr>\<rparr>"

definition count_add :: "add_error option \<Rightarrow> parser_stats \<Rightarrow> parser_stats" where
  "count_add e st =
     (case e of
        None \<Rightarrow> st\<lparr>ps_OkDocs := ps_OkDocs st + 1\<rparr>
      | Some (StatsError (StatsFingerprintError _)) \<Rightarrow> st\<lparr>ps_ErrFingerprint := ps_ErrFingerprint st + 1\<rparr>
      | Some _ \<Rightarrow> st\<lparr>ps_ErrParse := ps_ErrParse st + 1\<rparr>)"

text \<open>The parser has received the document and the aggregator has returned.\<close>

definition parser_add :: "SystemProfile \<Rightarrow> add_error option \<Rightarrow> agg_run \<Rightarrow> pipe \<Rightarrow> pipe" where
  "parser_add doc e r p =
     p\<lparr>pi_docsChan := tl (pi_docsChan p), pi_parsed := pi_parsed p @ [doc], pi_run := r, pi_ppc := ParserTop,
       pi_pstats := count_add e ((pi_pstats p)\<lparr>ps_InDocs := ps_InDocs (pi_pstats p) + 1\<rparr>)\<rparr>"

definition sender_receive :: "report option \<Rightarrow> agg_run \<Rightarrow> pipe \<Rightarrow> pipe" where
  "sender_receive r run p =
     p\<lparr>pi_run := run, pi_sstats := (pi_sstats p)\<lparr>ss_In := ss_In (pi_sstats p) + 1\<rparr>,
       pi_spc := (case r of None \<Rightarrow> SenderExit | Some r \<Rightarrow> SenderHolds r)\<rparr>"

definition sender_write :: "bool \<Rightarrow> report \<Rightarrow> pipe \<Rightarrow> pipe" where
  "sender_write ok r p =
     (let st = pi_sstats p
      in if ok then p\<lparr>pi_spc := SenderSelect, pi_sstats := st\<lparr>ss_Out := ss_Out st + 1\<rparr>, pi_spooled := pi_spooled p @ [r]\<rparr>
         else p\<lparr>pi_spc := SenderSelect, pi_sstats := st\<lparr>ss_ErrIter := ss_ErrIter st + 1\<rparr>, pi_lost := pi_lost p @ [r]\<rparr>)"

text \<open>
  The steps. A \<open>select\<close> with several ready cases takes any of them. The collector: it opens the
  cursor, looks at the done channel, takes what the iterator gives and pushes it.
\<close>

inductive collector_step :: "pipe \<Rightarrow> pipe \<Rightarrow> bool" where
  connect: "pi_cpc p = Connecting \<Longrightarrow> collector_step p (connectAndCollect_open p)"
| check: "pi_cpc p = CheckDone \<Longrightarrow>
    collector_step p (p\<lparr>pi_cpc := (if pi_cdone p then Sleeping else Iterating)\<rparr>)"
| iterate: "pi_cpc p = Iterating \<Longrightarrow> collector_step p (connectAndCollect_next r p)"
| push: "pi_cpc p = Holding doc \<Longrightarrow> length (pi_docsChan p) < docsChanBuffer \<Longrightarrow>
    collector_step p (connectAndCollect_push doc p)"
| give_up: "pi_cpc p = Holding doc \<Longrightarrow> pi_cdone p \<Longrightarrow> collector_step p (p\<lparr>pi_cpc := Sleeping\<rparr>)"
| wake: "pi_cpc p = Sleeping \<Longrightarrow> collector_step p (p\<lparr>pi_cpc := Connecting\<rparr>)"
| collector_exit: "pi_cpc p = Sleeping \<Longrightarrow> pi_cdone p \<Longrightarrow> collector_step p (p\<lparr>pi_cpc := CollectorExit\<rparr>)"

text \<open>The parser: it looks at the done channel first and then at both channels.\<close>

inductive parser_step :: "mongolib \<Rightarrow> (qclass list \<Rightarrow> qclass list) \<Rightarrow> pipe \<Rightarrow> pipe \<Rightarrow> bool"
  for lib :: mongolib and srt :: "qclass list \<Rightarrow> qclass list" where
  parser_top: "pi_ppc p = ParserTop \<Longrightarrow>
    parser_step lib srt p (p\<lparr>pi_ppc := (if pi_pdone p then ParserExit else ParserSelect)\<rparr>)"
| parse: "pi_ppc p = ParserSelect \<Longrightarrow> pi_docsChan p = doc # docs \<Longrightarrow>
    agg_Add lib srt now doc (gr_agg (pi_run p)) = Returns (e, a) \<Longrightarrow>
    parser_step lib srt p (parser_add doc e
      ((pi_run p)\<lparr>gr_agg := a,
         gr_accepted := gr_accepted (pi_run p) @
           (if e = None \<and> ag_timeStart (gr_agg (pi_run p)) \<le> sp_Ts doc then [doc] else [])\<rparr>) p)"
| parser_closed: "pi_ppc p = ParserSelect \<Longrightarrow> pi_docsChan p = [] \<Longrightarrow> pi_docsClosed p \<Longrightarrow>
    parser_step lib srt p (p\<lparr>pi_ppc := ParserExit\<rparr>)"
| parser_done: "pi_ppc p = ParserSelect \<Longrightarrow> pi_pdone p \<Longrightarrow> parser_step lib srt p (p\<lparr>pi_ppc := ParserExit\<rparr>)"

text \<open>The sender.\<close>

inductive sender_step :: "pipe \<Rightarrow> pipe \<Rightarrow> bool" where
  send: "pi_spc p = SenderSelect \<Longrightarrow> ag_reportChan (gr_agg (pi_run p)) = Some (r # ch) \<Longrightarrow>
    sender_step p (sender_receive (Some r)
      ((pi_run p)\<lparr>gr_agg := (gr_agg (pi_run p))\<lparr>ag_reportChan := Some ch\<rparr>,
                  gr_received := gr_received (pi_run p) @ [r]\<rparr>) p)"
| sender_closed: "pi_spc p = SenderSelect \<Longrightarrow> ag_reportChan (gr_agg (pi_run p)) = Some [] \<Longrightarrow>
    ag_closed (gr_agg (pi_run p)) \<Longrightarrow> sender_step p (sender_receive None (pi_run p) p)"
| spool: "pi_spc p = SenderHolds r \<Longrightarrow> \<not> pi_sdone p \<Longrightarrow> sender_step p (sender_write ok r p)"
| sender_drops: "pi_spc p = SenderHolds r \<Longrightarrow> pi_sdone p \<Longrightarrow> sender_step p (p\<lparr>pi_spc := SenderExit\<rparr>)"
| sender_done: "pi_spc p = SenderSelect \<Longrightarrow> pi_sdone p \<Longrightarrow> sender_step p (p\<lparr>pi_spc := SenderExit\<rparr>)"

text \<open>
  The stop of the profiler stops the collector, closes its channel once it has gone, stops the
  parser, then the aggregator once the parser has gone, then the sender.
\<close>

inductive shutdown_step :: "pipe \<Rightarrow> pipe \<Rightarrow> bool" where
  stop_collector: "shutdown_step p (p\<lparr>pi_cdone := True\<rparr>)"
| close_docs: "pi_cpc p = CollectorExit \<Longrightarrow> shutdown_step p (p\<lparr>pi_docsClosed := True\<rparr>)"
| stop_parser: "pi_docsClosed p \<Longrightarrow> shutdown_step p (p\<lparr>pi_pdone := True\<rparr>)"
| stop_aggregator: "pi_ppc p = ParserExit \<Longrightarrow>
    shutdown_step p (p\<lparr>pi_run := (pi_run p)\<lparr>gr_agg := agg_Stop (gr_agg (pi_run p))\<rparr>\<rparr>)"
| stop_sender: "ag_closed (gr_agg (pi_run p)) \<Longrightarrow> shutdown_step p (p\<lparr>pi_sdone := True\<rparr>)"

inductive pipe_step :: "mongolib \<Rightarrow> (qclass list \<Rightarrow> qclass list) \<Rightarrow> pipe \<Rightarrow> unit \<Rightarrow> pipe \<Rightarrow> bool"
  for lib :: mongolib and srt :: "qclass list \<Rightarrow> qclass list" where
  collector: "collector_step p p' \<Longrightarrow> pipe_step lib srt p () p'"
| parser: "parser_step lib srt p p' \<Longrightarrow> pipe_step lib srt p () p'"
| agg_timer: "ag_running (gr_agg (pi_run p)) \<Longrightarrow> agg_step lib srt (pi_run p) (Timer now) r \<Longrightarrow>
    pipe_step lib srt p () (p\<lparr>pi_run := r\<rparr>)"
| sender: "sender_step p p' \<Longrightarrow> pipe_step lib srt p () p'"
| shutdown: "shutdown_step p p' \<Longrightarrow> pipe_step lib srt p () p'"

inductive_cases collector_stepE: "collector_step p p'"
inductive_cases parser_stepE: "parser_step lib srt p p'"
inductive_cases sender_stepE: "sender_step p p'"
inductive_cases shutdown_stepE: "shutdown_step p p'"
inductive_cases pipe_stepE: "pipe_step lib srt p () p'"

lemmas pipe_elims = pipe_stepE collector_stepE parser_stepE sender_stepE shutdown_stepE

definition pipe_start :: "agg_run \<Rightarrow> pipe" where
  "pipe_start r =
     \<lparr>pi_cpc = Connecting, pi_cdone = False, pi_cstats = \<lparr>cs_In = 0, cs_Out = 0, cs_IteratorCounter = 0,
        cs_IteratorRestart = 0, cs_IteratorErr = 0, cs_IteratorTimeout = 0\<rparr>,
      pi_docsChan = [], pi_docsClosed = False, pi_ppc = ParserTop, pi_pdone = False,
      pi_pstats = \<lparr>ps_InDocs = 0, ps_OkDocs = 0, ps_ErrFingerprint = 0, ps_ErrParse = 0\<rparr>,
      pi_run = r, pi_spc = SenderSelect, pi_sdone = False,
      pi_sstats = \<lparr>ss_In = 0, ss_Out = 0, ss_ErrIter = 0\<rparr>,
      pi_fetched = [], pi_parsed = [], pi_spooled = [], pi_lost = []\<rparr>"

definition held_doc :: "pipe \<Rightarrow> SystemProfile list" where
  "held_doc p = (case pi_cpc p of Holding doc \<Rightarrow> [doc] | _ \<Rightarrow> [])"

definition held_report :: "pipe \<Rightarrow> report list" where
  "held_report p = (case pi_spc p of SenderHolds r \<Rightarrow> [r] | _ \<Rightarrow> [])"

text \<open>The invariant, one part for each service.\<close>

definition collector_inv :: "pipe \<Rightarrow> bool" where
  "collector_inv p \<longleftrightarrow>
     (\<exists>dropped. pi_fetched p = pi_parsed p @ pi_docsChan p @ held_doc p @ dropped \<and> length dropped \<le> 1
        \<and> (dropped \<noteq> [] \<longrightarrow> pi_cdone p \<and> pi_cpc p \<in> {Sleeping, Connecting, CheckDone, CollectorExit}))
     \<and> length (pi_docsChan p) \<le> docsChanBuffer
     \<and> cs_In (pi_cstats p) = of_nat (length (pi_fetched p))
     \<and> cs_Out (pi_cstats p) = of_nat (length (pi_parsed p @ pi_docsChan p))"

definition parser_inv :: "pipe \<Rightarrow> bool" where
  "parser_inv p \<longleftrightarrow>
     (let st = pi_pstats p; a = gr_agg (pi_run p); n = of_nat (length (gr_accepted (pi_run p)))
      in ps_InDocs st = of_nat (length (pi_parsed p))
         \<and> of_nat (length (pi_parsed p)) = ag_DocsIn a + ag_DocsSkippedOld a
         \<and> ps_OkDocs st = n + ag_DocsSkippedOld a
         \<and> (ps_ErrFingerprint st + ps_ErrParse st) + n = ag_DocsIn a)"

definition sender_inv :: "pipe \<Rightarrow> bool" where
  "sender_inv p \<longleftrightarrow>
     (\<exists>dropped. mset (gr_received (pi_run p)) = mset (pi_spooled p) + mset (pi_lost p) + mset (held_report p) + mset dropped
        \<and> length dropped \<le> 1 \<and> (dropped \<noteq> [] \<longrightarrow> pi_sdone p \<and> pi_spc p = SenderExit))
     \<and> ss_Out (pi_sstats p) = of_nat (length (pi_spooled p))
     \<and> ss_ErrIter (pi_sstats p) = of_nat (length (pi_lost p))"

definition revive :: "agg_run \<Rightarrow> agg_run" where
  "revive r = r\<lparr>gr_agg := (gr_agg r)\<lparr>ag_running := True, ag_closed := False\<rparr>\<rparr>"

definition pipe_agg_inv :: "mongolib \<Rightarrow> (qclass list \<Rightarrow> qclass list) \<Rightarrow> QAN \<Rightarrow> pipe \<Rightarrow> bool" where
  "pipe_agg_inv lib srt config p \<longleftrightarrow>
     agg_inv lib srt config (revive (pi_run p))
     \<and> ag_running (gr_agg (pi_run p)) = (\<not> ag_closed (gr_agg (pi_run p)))
     \<and> (ag_closed (gr_agg (pi_run p)) \<longrightarrow> pi_ppc p = ParserExit)"

lemma flush_counts:
  assumes "flush lib srt ts a = Returns a'"
  shows "ag_DocsIn a' = ag_DocsIn a" "ag_DocsSkippedOld a' = ag_DocsSkippedOld a"
    "ag_running a' = ag_running a" "ag_closed a' = ag_closed a"
  using assms
  by (auto simp: flush_def agg_interval_def newInterval_def Let_def split: option.splits if_splits)

lemma agg_Add_counts:
  assumes "agg_Add lib srt now doc a = Returns (e, a')" "ag_running a"
  shows "ag_running a'" "ag_closed a' = ag_closed a" "e \<noteq> Some NotRunning"
    "sp_Ts doc < ag_timeStart a \<Longrightarrow> e = None \<and> ag_DocsIn a' = ag_DocsIn a \<and> ag_DocsSkippedOld a' = ag_DocsSkippedOld a + 1"
    "ag_timeStart a \<le> sp_Ts doc \<Longrightarrow> ag_DocsIn a' = ag_DocsIn a + 1 \<and> ag_DocsSkippedOld a' = ag_DocsSkippedOld a"
  using assms
  by (auto simp: agg_Add_def Let_def flush_counts split: if_splits go_result.splits sum.splits)

lemma revive_simps [simp]:
  "gr_accepted (revive r) = gr_accepted r" "gr_received (revive r) = gr_received r"
  "ag_reportChan (gr_agg (revive r)) = ag_reportChan (gr_agg r)"
  "ag_timeStart (gr_agg (revive r)) = ag_timeStart (gr_agg r)" "ag_timeEnd (gr_agg (revive r)) = ag_timeEnd (gr_agg r)"
  by (simp_all add: revive_def)

lemma revive_id: "ag_running (gr_agg r) \<Longrightarrow> \<not> ag_closed (gr_agg r) \<Longrightarrow> revive r = r"
  by (cases r; cases "gr_agg r") (simp add: revive_def)

lemma count_add_simps [simp]: "ps_InDocs (count_add e st) = ps_InDocs st"
  by (auto simp: count_add_def split: option.split add_error.split stats_error.split)

lemma count_add_sum:
  "ps_OkDocs (count_add e st) = (if e = None then ps_OkDocs st + 1 else ps_OkDocs st)"
  "ps_ErrFingerprint (count_add e st) + ps_ErrParse (count_add e st)
     = ps_ErrFingerprint st + ps_ErrParse st + (if e = None then 0 else 1)"
  by (auto simp: count_add_def split: option.split add_error.split stats_error.split)

lemma collector_inv_step: "collector_inv p \<Longrightarrow> pipe_step lib srt p () p' \<Longrightarrow> collector_inv p'"
  by (elim pipe_elims)
    (auto simp: collector_inv_def held_doc_def connectAndCollect_open_def connectAndCollect_next_def
      connectAndCollect_push_def parser_add_def sender_receive_def sender_write_def Let_def
      split: collector_pc.splits iter_result.splits if_splits)

lemma sender_inv_step: "sender_inv p \<Longrightarrow> pipe_step lib srt p () p' \<Longrightarrow> sender_inv p'"
  by (elim pipe_elims)
    (auto simp: sender_inv_def held_report_def connectAndCollect_open_def connectAndCollect_next_def
      connectAndCollect_push_def parser_add_def sender_receive_def sender_write_def Let_def agg_step_simps
      split: sender_pc.splits iter_result.splits if_splits)

text \<open>The steps that concern the aggregator; every other step leaves it and the parser's counters.\<close>

lemma pipe_all_cases [consumes 1, case_names parse agg_timer send stop_aggregator other]:
  assumes "pipe_step lib srt p () p'"
  obtains (parse) doc docs now e a where
      "p' = parser_add doc e
        ((pi_run p)\<lparr>gr_agg := a,
           gr_accepted := gr_accepted (pi_run p) @
             (if e = None \<and> ag_timeStart (gr_agg (pi_run p)) \<le> sp_Ts doc then [doc] else [])\<rparr>) p"
      "pi_ppc p = ParserSelect" "pi_docsChan p = doc # docs" "agg_Add lib srt now doc (gr_agg (pi_run p)) = Returns (e, a)"
  | (agg_timer) now r where "p' = p\<lparr>pi_run := r\<rparr>" "ag_running (gr_agg (pi_run p))" "agg_step lib srt (pi_run p) (Timer now) r"
  | (send) r ch where
      "p' = sender_receive (Some r)
        ((pi_run p)\<lparr>gr_agg := (gr_agg (pi_run p))\<lparr>ag_reportChan := Some ch\<rparr>,
                    gr_received := gr_received (pi_run p) @ [r]\<rparr>) p"
      "pi_spc p = SenderSelect" "ag_reportChan (gr_agg (pi_run p)) = Some (r # ch)"
  | (stop_aggregator) "p' = p\<lparr>pi_run := (pi_run p)\<lparr>gr_agg := agg_Stop (gr_agg (pi_run p))\<rparr>\<rparr>" "pi_ppc p = ParserExit"
  | (other) "pi_run p' = pi_run p" "pi_pstats p' = pi_pstats p" "pi_parsed p' = pi_parsed p"
      "pi_ppc p = ParserExit \<longrightarrow> pi_ppc p' = ParserExit"
  using assms
proof (cases rule: pipe_step.cases)
  case collector
  then show ?thesis
    by (cases rule: collector_step.cases; intro other)
      (simp_all add: connectAndCollect_open_def connectAndCollect_next_def connectAndCollect_push_def Let_def
        split: iter_result.split)
next
  case parser
  then show ?thesis by (cases rule: parser_step.cases) (rule other parse; simp; fail)+
next
  case (agg_timer now r)
  then show ?thesis by (rule that(2))
next
  case sender
  then show ?thesis
    by (cases rule: sender_step.cases) (rule other send; simp add: sender_receive_def sender_write_def Let_def; fail)+
next
  case shutdown
  then show ?thesis by (cases rule: shutdown_step.cases) (rule other stop_aggregator; simp; fail)+
qed

text \<open>A step other than an addition leaves the counters of the parser and of the aggregator.\<close>

lemma parser_inv_frame:
  assumes "parser_inv p" "pi_pstats p' = pi_pstats p" "pi_parsed p' = pi_parsed p"
    "gr_accepted (pi_run p') = gr_accepted (pi_run p)"
    "ag_DocsSkippedOld (gr_agg (pi_run p')) = ag_DocsSkippedOld (gr_agg (pi_run p))"
    "ag_DocsIn (gr_agg (pi_run p')) = ag_DocsIn (gr_agg (pi_run p))"
  shows "parser_inv p'"
  using assms(1) unfolding parser_inv_def Let_def assms(2-6) .

lemma parser_inv_add:
  assumes inv: "parser_inv p" and run: "ag_running (gr_agg (pi_run p))"
    and add: "agg_Add lib srt now doc (gr_agg (pi_run p)) = Returns (e, a)"
  shows "parser_inv (parser_add doc e
      ((pi_run p)\<lparr>gr_agg := a,
         gr_accepted := gr_accepted (pi_run p) @
           (if e = None \<and> ag_timeStart (gr_agg (pi_run p)) \<le> sp_Ts doc then [doc] else [])\<rparr>) p)"
proof -
  have I: "ps_InDocs (pi_pstats p) = of_nat (length (pi_parsed p))"
    "of_nat (length (pi_parsed p)) = ag_DocsIn (gr_agg (pi_run p)) + ag_DocsSkippedOld (gr_agg (pi_run p))"
    "ps_OkDocs (pi_pstats p) = of_nat (length (gr_accepted (pi_run p))) + ag_DocsSkippedOld (gr_agg (pi_run p))"
    "ps_ErrFingerprint (pi_pstats p) + ps_ErrParse (pi_pstats p) + of_nat (length (gr_accepted (pi_run p)))
       = ag_DocsIn (gr_agg (pi_run p))"
    using inv by (simp_all add: parser_inv_def Let_def)
  show ?thesis
  proof (cases "sp_Ts doc < ag_timeStart (gr_agg (pi_run p))")
    case True
    with agg_Add_counts [OF add run] show ?thesis
      unfolding parser_inv_def parser_add_def Let_def
      by (simp add: count_add_sum I)
  next
    case False
    with agg_Add_counts [OF add run] show ?thesis
      unfolding parser_inv_def parser_add_def Let_def
      by (simp add: count_add_sum I(1-3)) (auto simp: algebra_simps simp flip: I(4))
  qed
qed

lemma parser_inv_step:
  assumes "parser_inv p" "pipe_agg_inv lib srt config p" "pipe_step lib srt p () p'"
  shows "parser_inv p'"
  using assms(3)
proof (cases rule: pipe_all_cases)
  case (parse doc docs now e a)
  then have "ag_running (gr_agg (pi_run p))" using assms(2) by (auto simp: pipe_agg_inv_def)
  with parse parser_inv_add [OF assms(1)] show ?thesis by simp
next
  case (agg_timer now r)
  then show ?thesis
    by (intro parser_inv_frame [OF assms(1)]) (auto simp: agg_step_simps agg_Flush_def dest: flush_counts)
next
  case (send r ch)
  then show ?thesis by (intro parser_inv_frame [OF assms(1)]) (simp_all add: sender_receive_def)
next
  case stop_aggregator
  then show ?thesis by (intro parser_inv_frame [OF assms(1)]) (simp_all add: agg_Stop_def)
next
  case other
  then show ?thesis by (intro parser_inv_frame [OF assms(1)]) simp_all
qed

lemma pipe_agg_frame:
  assumes "pipe_agg_inv lib srt config p" "pi_run p' = pi_run p" "pi_ppc p = ParserExit \<longrightarrow> pi_ppc p' = ParserExit"
  shows "pipe_agg_inv lib srt config p'"
  using assms unfolding pipe_agg_inv_def by simp

lemma pipe_agg_inv_step:
  assumes key: "key_sort (ml_sort lib)" and d: "0 < interval_length config"
    and inv: "pipe_agg_inv lib srt config p" and step: "pipe_step lib srt p () p'"
  shows "pipe_agg_inv lib srt config p'"
  using step
proof (cases rule: pipe_all_cases)
  case (parse doc docs now e a)
  then have run: "ag_running (gr_agg (pi_run p))" "\<not> ag_closed (gr_agg (pi_run p))"
    using inv by (auto simp: pipe_agg_inv_def)
  with inv have "agg_inv lib srt config (pi_run p)" by (simp add: pipe_agg_inv_def revive_id)
  from agg_Add_inv [OF key d this parse(4)] agg_Add_counts [OF parse(4) run(1)] run show ?thesis
    by (simp add: parse(1) parser_add_def pipe_agg_inv_def revive_id)
next
  case (agg_timer now r)
  then have run: "ag_running (gr_agg (pi_run p))" "\<not> ag_closed (gr_agg (pi_run p))"
    using inv by (auto simp: pipe_agg_inv_def)
  with inv have "agg_inv lib srt config (pi_run p)" by (simp add: pipe_agg_inv_def revive_id)
  note r = agg_step_inv [OF key d this agg_timer(3)]
  then have "ag_running (gr_agg r)" "\<not> ag_closed (gr_agg r)" by (simp_all add: agg_inv_def Let_def)
  with r show ?thesis by (simp add: agg_timer(1) pipe_agg_inv_def revive_id)
next
  case (send r ch)
  let ?r = "(pi_run p)\<lparr>gr_agg := (gr_agg (pi_run p))\<lparr>ag_reportChan := Some ch\<rparr>,
    gr_received := gr_received (pi_run p) @ [r]\<rparr>"
  have "agg_inv lib srt config (revive (pi_run p))" using inv by (simp add: pipe_agg_inv_def)
  then have "agg_inv lib srt config (revive ?r)"
    by (rule agg_inv_cong [where ch = "r # ch" and ch' = ch]) (simp_all add: revive_def send)
  with inv show ?thesis by (simp add: send(1) sender_receive_def pipe_agg_inv_def)
next
  case stop_aggregator
  have "revive ((pi_run p)\<lparr>gr_agg := agg_Stop (gr_agg (pi_run p))\<rparr>) = revive (pi_run p)"
    by (simp add: revive_def agg_Stop_def)
  with inv stop_aggregator show ?thesis
    by (simp add: pipe_agg_inv_def agg_Stop_def)
next
  case other
  then show ?thesis by (intro pipe_agg_frame [OF inv])
qed

definition pipe_inv :: "mongolib \<Rightarrow> (qclass list \<Rightarrow> qclass list) \<Rightarrow> QAN \<Rightarrow> pipe \<Rightarrow> bool" where
  "pipe_inv lib srt config p \<longleftrightarrow>
     collector_inv p \<and> parser_inv p \<and> sender_inv p \<and> pipe_agg_inv lib srt config p"

lemma pipe_inv_start:
  assumes "0 < interval_length config"
  shows "pipe_inv lib srt config (pipe_start (agg_start t0 config now))"
proof -
  let ?r = "agg_start t0 config now"
  have r: "ag_running (gr_agg ?r)" "\<not> ag_closed (gr_agg ?r)" "gr_accepted ?r = []" "gr_received ?r = []"
    "ag_DocsIn (gr_agg ?r) = 0" "ag_DocsSkippedOld (gr_agg ?r) = 0"
    by (simp_all add: agg_start_def agg_Start_def agg_New_def newInterval_def Let_def)
  with agg_inv_start [OF assms] show ?thesis
    by (simp add: pipe_inv_def pipe_start_def collector_inv_def held_doc_def docsChanBuffer_def
        parser_inv_def sender_inv_def held_report_def pipe_agg_inv_def revive_id)
qed

lemma pipe_inv_step:
  assumes "key_sort (ml_sort lib)" "0 < interval_length config" "pipe_inv lib srt config p" "pipe_step lib srt p u p'"
  shows "pipe_inv lib srt config p'"
  using assms collector_inv_step parser_inv_step sender_inv_step pipe_agg_inv_step
  unfolding pipe_inv_def by (cases u) blast



section \<open>The monitors of the databases\<close>

text \<open>
  A service of a monitor is its name and whether it runs. \<open>Stop\<close> leaves the stopped services in
  the list.
\<close>

record dbmonitor =
  dm_dbName :: string
  dm_services :: "(string \<times> bool) list"
  dm_running :: bool

definition stop_services :: "(string \<times> bool) list \<Rightarrow> (string \<times> bool) list" where
  "stop_services ss = map (\<lambda>(n, r). (n, False)) ss"

definition NewMonitor :: "string \<Rightarrow> dbmonitor" where
  "NewMonitor dbName = \<lparr>dm_dbName = dbName, dm_services = [], dm_running = False\<rparr>"

text \<open>
  \<open>Start\<close>, given the errors of the start of the collector and of the parser: the deferred function
  stops what was started when the start did not get to its end.
\<close>

definition dbmonitor_Start :: "string option \<times> string option \<Rightarrow> dbmonitor \<Rightarrow> dbmonitor \<times> string option" where
  "dbmonitor_Start errs m =
     (if dm_running m then (m, None)
      else
        (case errs of
           (Some e, _) \<Rightarrow> (m\<lparr>dm_services := []\<rparr>, Some e)
         | (None, Some e) \<Rightarrow> (m\<lparr>dm_services := []\<rparr>, Some e)
         | (None, None) \<Rightarrow>
             (m\<lparr>dm_services := dm_services m @ [(''collector'', True), (''parser'', True)], dm_running := True\<rparr>, None)))"

definition dbmonitor_Stop :: "dbmonitor \<Rightarrow> dbmonitor" where
  "dbmonitor_Stop m =
     (if \<not> dm_running m then m
      else m\<lparr>dm_services := stop_services (dm_services m), dm_running := False\<rparr>)"

definition dbmonitor_Status :: "(string \<Rightarrow> (string \<times> string) list) \<Rightarrow> dbmonitor \<Rightarrow> (string \<times> string) list" where
  "dbmonitor_Status status m =
     concat (map (\<lambda>(n, r). if r then map (\<lambda>(k, v). (n @ ''-'' @ k, v)) (status n) else []) (dm_services m))"

type_synonym monitors = "(string \<times> dbmonitor) list"

text \<open>
  The first loop of \<open>MonitorAll\<close>, over the databases of the server. It stops at the first monitor
  that does not start.
\<close>

fun start_missing ::
  "(string \<Rightarrow> string option \<times> string option) \<Rightarrow> string list \<Rightarrow> monitors \<Rightarrow> monitors \<times> string option" where
  "start_missing errs [] ms = (ms, None)"
| "start_missing errs (dbName # dbs) ms =
     (case map_of ms dbName of
        Some _ \<Rightarrow> start_missing errs dbs ms
      | None \<Rightarrow>
          (case dbmonitor_Start (errs dbName) (NewMonitor dbName) of
             (m, Some e) \<Rightarrow> (ms, Some e)
           | (m, None) \<Rightarrow> start_missing errs dbs (alist_put dbName m ms)))"

text \<open>\<open>MonitorAll\<close>; the second component of the result are the monitors it stopped and removed.\<close>

definition MonitorAll ::
  "(string \<Rightarrow> string option \<times> string option) \<Rightarrow> string + string list \<Rightarrow> monitors
     \<Rightarrow> monitors \<times> dbmonitor list \<times> string option" where
  "MonitorAll errs databases ms =
     (case databases of
        Inl e \<Rightarrow> (ms, [], Some e)
      | Inr dbs \<Rightarrow>
          (case start_missing errs dbs ms of
             (ms, Some e) \<Rightarrow> (ms, [], Some e)
           | (ms, None) \<Rightarrow>
               (filter (\<lambda>(k, m). k \<in> set dbs) ms,
                map (dbmonitor_Stop \<circ> snd) (filter (\<lambda>(k, m). k \<notin> set dbs) ms), None)))"

text \<open>\<open>Stop\<close>; \<open>None\<close> is the panic on a database without a monitor.\<close>

definition monitors_Stop :: "string \<Rightarrow> monitors \<times> dbmonitor list \<Rightarrow> (monitors \<times> dbmonitor list) option" where
  "monitors_Stop dbName s =
     (case map_of (fst s) dbName of
        None \<Rightarrow> None
      | Some m \<Rightarrow> Some (alist_del dbName (fst s), snd s @ [dbmonitor_Stop m]))"

fun stop_list :: "string list \<Rightarrow> monitors \<times> dbmonitor list \<Rightarrow> (monitors \<times> dbmonitor list) option" where
  "stop_list [] s = Some s"
| "stop_list (db # dbs) s = Option.bind (monitors_Stop db s) (stop_list dbs)"

definition StopAll :: "monitors \<Rightarrow> (monitors \<times> dbmonitor list) option" where
  "StopAll ms = stop_list (map fst ms) (ms, [])"

definition monitors_ok :: "monitors \<Rightarrow> bool" where
  "monitors_ok ms \<longleftrightarrow> wf_alist ms \<and>
     (\<forall>(k, m) \<in> set ms. dm_dbName m = k \<and> dm_running m \<and> dm_services m = [(''collector'', True), (''parser'', True)])"

definition stopped_monitor :: "dbmonitor \<Rightarrow> bool" where
  "stopped_monitor m \<longleftrightarrow> \<not> dm_running m \<and> (\<forall>(n, r) \<in> set (dm_services m). \<not> r)"

lemma stopped_Stop: "dm_running m \<Longrightarrow> stopped_monitor (dbmonitor_Stop m)"
  by (auto simp: stopped_monitor_def dbmonitor_Stop_def stop_services_def)

lemma fresh_started:
  "dbmonitor_Start e (NewMonitor db) = (m, None) \<Longrightarrow>
     dm_dbName m = db \<and> dm_running m \<and> dm_services m = [(''collector'', True), (''parser'', True)]"
  by (auto simp: dbmonitor_Start_def NewMonitor_def split: prod.splits option.splits)

lemma start_missing_ok:
  assumes "monitors_ok ms" "start_missing errs dbs ms = (ms', e)"
  shows "monitors_ok ms' \<and> (\<forall>k m. map_of ms k = Some m \<longrightarrow> map_of ms' k = Some m)
    \<and> fst ` set ms \<subseteq> fst ` set ms' \<and> fst ` set ms' \<subseteq> fst ` set ms \<union> set dbs \<and> (e = None \<longrightarrow> set dbs \<subseteq> fst ` set ms')"
  using assms
proof (induction dbs arbitrary: ms)
  case (Cons db dbs)
  show ?case
  proof (cases "map_of ms db")
    case None
    with Cons.prems(2) consider (err) e' where "ms' = ms" "e = Some e'"
      | (ok) m where "dbmonitor_Start (errs db) (NewMonitor db) = (m, None)" "start_missing errs dbs (alist_put db m ms) = (ms', e)"
      by (auto split: prod.splits option.splits)
    then show ?thesis
    proof cases
      case err
      with Cons.prems(1) show ?thesis by auto
    next
      case (ok m)
      have "monitors_ok (alist_put db m ms)"
        using Cons.prems(1) fresh_started [OF ok(1)] set_alist_put_subset [of db m ms]
        by (fastforce simp: monitors_ok_def)
      note IH = Cons.IH [OF this ok(2)]
      have "map_of ms' k = Some q" if "map_of ms k = Some q" for k q
      proof -
        have "map_of (alist_put db m ms) k = Some q" using that None by auto
        with IH show ?thesis by blast
      qed
      moreover have "monitors_ok ms'" "insert db (fst ` set ms) \<subseteq> fst ` set ms'"
        "fst ` set ms' \<subseteq> insert db (fst ` set ms) \<union> set dbs" "e = None \<longrightarrow> set dbs \<subseteq> fst ` set ms'"
        using IH by simp_all
      ultimately show ?thesis by auto
    qed
  next
    case (Some m)
    with Cons.prems have "start_missing errs dbs ms = (ms', e)" by simp
    note IH = Cons.IH [OF Cons.prems(1) this]
    have "db \<in> fst ` set ms" using map_of_SomeD [OF Some] by force
    with IH show ?thesis by auto
  qed
qed auto

lemma MonitorAll_ok:
  assumes "monitors_ok ms" "MonitorAll errs databases ms = (ms', stopped, e)"
  shows "monitors_ok ms' \<and> (\<forall>m \<in> set stopped. stopped_monitor m)"
proof (cases databases)
  case (Inl err)
  with assms show ?thesis by (auto simp: MonitorAll_def)
next
  case (Inr dbs)
  obtain ms1 e1 where s: "start_missing errs dbs ms = (ms1, e1)" by force
  have ok: "monitors_ok ms1" using start_missing_ok [OF assms(1) s] by blast
  then have "monitors_ok (filter (\<lambda>(k, m). k \<in> set dbs) ms1)"
    by (auto simp: monitors_ok_def wf_alist_def distinct_map_filter)
  moreover have "\<forall>m \<in> set (map (dbmonitor_Stop \<circ> snd) (filter (\<lambda>(k, m). k \<notin> set dbs) ms1)). stopped_monitor m"
    using ok by (auto simp: monitors_ok_def intro: stopped_Stop)
  ultimately show ?thesis using assms(2) Inr s ok by (auto simp: MonitorAll_def split: option.splits)
qed

lemma stop_list_ok:
  assumes "monitors_ok ms" "map fst ms = ks"
  shows "stop_list ks (ms, done) = Some ([], done @ map (dbmonitor_Stop \<circ> snd) ms)"
  using assms
proof (induction ks arbitrary: ms "done")
  case (Cons k ks)
  then obtain m rest where ms: "ms = (k, m) # rest" "map fst rest = ks" by (cases ms) auto
  have "k \<notin> fst ` set rest"
    using Cons.prems(1) by (simp add: monitors_ok_def wf_alist_def ms(1) flip: set_map)
  then have "alist_del k ms = rest"
    using alist_del_notin [of k rest] by (simp add: alist_del_def ms(1))
  moreover have "monitors_ok rest" using Cons.prems(1) ms by (simp add: monitors_ok_def wf_alist_def)
  ultimately show ?case using Cons.IH [OF _ ms(2)] ms by (simp add: monitors_Stop_def)
qed simp

text \<open>
  The goroutine of the profiler: it refreshes the monitors once at the start and then every minute,
  with whatever the server answers, and stops all of them when it ends.
\<close>

definition refresh ::
  "monitors \<times> dbmonitor list \<Rightarrow> (string \<Rightarrow> string option \<times> string option) \<times> (string + string list)
     \<Rightarrow> monitors \<times> dbmonitor list" where
  "refresh s answer = (case MonitorAll (fst answer) (snd answer) (fst s) of (ms, stopped, _) \<Rightarrow> (ms, snd s @ stopped))"

definition profiler_start ::
  "((string \<Rightarrow> string option \<times> string option) \<times> (string + string list)) list \<Rightarrow> (monitors \<times> dbmonitor list) option" where
  "profiler_start answers =
     (let s = foldl refresh ([], []) answers
      in map_option (\<lambda>(ms, stopped). (ms, snd s @ stopped)) (StopAll (fst s)))"

lemma refresh_ok:
  "monitors_ok (fst s) \<and> (\<forall>m \<in> set (snd s). stopped_monitor m) \<Longrightarrow>
   monitors_ok (fst (refresh s a)) \<and> (\<forall>m \<in> set (snd (refresh s a)). stopped_monitor m)"
  using MonitorAll_ok [of "fst s" "fst a" "snd a"] by (auto simp: refresh_def split: prod.splits)

text \<open>
  C20: the monitors follow the databases of the server. After any sequence of refreshes, failed ones
  included, every monitored database has one running monitor of its own. A refresh that meets no
  error monitors exactly the databases of the server, does not touch the monitor of a database that
  was already monitored, and stops the monitors it removes. When the profiler ends, it does not
  panic, no database is monitored, and every monitor and service that ever ran is stopped.
\<close>

theorem monitors_follow_databases:
  fixes answers :: "((string \<Rightarrow> string option \<times> string option) \<times> (string + string list)) list"
  defines "s \<equiv> foldl refresh ([], []) answers"
  shows "monitors_ok (fst s)
    \<and> (\<forall>errs dbs ms' stopped. MonitorAll errs (Inr dbs) (fst s) = (ms', stopped, None) \<longrightarrow>
         monitors_ok ms' \<and> fst ` set ms' = set dbs
         \<and> (\<forall>db \<in> set dbs. \<forall>m. map_of (fst s) db = Some m \<longrightarrow> map_of ms' db = Some m)
         \<and> (\<forall>m \<in> set stopped. stopped_monitor m)
         \<and> {k. \<exists>m \<in> set stopped. dm_dbName m = k} = fst ` set (fst s) - set dbs)
    \<and> (\<exists>stopped. profiler_start answers = Some ([], stopped) \<and> (\<forall>m \<in> set stopped. stopped_monitor m)
         \<and> dm_dbName ` set stopped = dm_dbName ` set (snd s) \<union> fst ` set (fst s))"
proof -
  have inv: "monitors_ok (fst s) \<and> (\<forall>m \<in> set (snd s). stopped_monitor m)"
    unfolding s_def
  proof (rule foldl_invariant [where P = "\<lambda>s. monitors_ok (fst s) \<and> (\<forall>m \<in> set (snd s). stopped_monitor m)"])
    show "monitors_ok (fst ([], [])) \<and> (\<forall>m \<in> set (snd ([], [])). stopped_monitor m)" by (simp add: monitors_ok_def)
  qed (rule refresh_ok)
  have names: "dm_dbName (dbmonitor_Stop m) = dm_dbName m" for m by (simp add: dbmonitor_Stop_def)
  have key: "dm_dbName (snd x) = fst x" if "monitors_ok ms" "x \<in> set ms" for ms x
    using that by (auto simp: monitors_ok_def)
  then have keys: "(\<lambda>x. dm_dbName (snd x)) ` set ms = fst ` set ms" if "monitors_ok ms" for ms
    using that by (intro image_cong) auto
  have "monitors_ok ms' \<and> fst ` set ms' = set dbs
         \<and> (\<forall>db \<in> set dbs. \<forall>m. map_of (fst s) db = Some m \<longrightarrow> map_of ms' db = Some m)
         \<and> (\<forall>m \<in> set stopped. stopped_monitor m)
         \<and> {k. \<exists>m \<in> set stopped. dm_dbName m = k} = fst ` set (fst s) - set dbs"
    if step: "MonitorAll errs (Inr dbs) (fst s) = (ms', stopped, None)" for errs dbs ms' stopped
  proof -
    obtain ms1 where s1: "start_missing errs dbs (fst s) = (ms1, None)"
      "ms' = filter (\<lambda>(k, m). k \<in> set dbs) ms1" "stopped = map (dbmonitor_Stop \<circ> snd) (filter (\<lambda>(k, m). k \<notin> set dbs) ms1)"
      using step by (auto simp: MonitorAll_def split: prod.splits option.splits)
    note m1 = start_missing_ok [OF conjunct1 [OF inv] s1(1)]
    then have sub: "set dbs \<subseteq> fst ` set ms1" "fst ` set ms1 \<subseteq> fst ` set (fst s) \<union> set dbs"
      "fst ` set (fst s) \<subseteq> fst ` set ms1" and ok1: "monitors_ok ms1" by simp_all
    have "map_of ms' db = map_of ms1 db" if "db \<in> set dbs" for db
      using that unfolding s1(2) by (induction ms1) auto
    moreover have "fst ` set ms' = set dbs"
    proof -
      have "fst ` set ms' = fst ` set ms1 \<inter> set dbs" unfolding s1(2) by (auto simp: image_iff)
      then show ?thesis using sub(1) by blast
    qed
    moreover have "{k. \<exists>m \<in> set stopped. dm_dbName m = k} = fst ` set (fst s) - set dbs"
    proof -
      have "{k. \<exists>m \<in> set stopped. dm_dbName m = k} = dm_dbName ` set stopped" by auto
      also have "\<dots> = (\<lambda>x. dm_dbName (snd x)) ` {x \<in> set ms1. fst x \<notin> set dbs}"
        unfolding s1(3) by (simp add: image_image names case_prod_beta)
      also have "\<dots> = fst ` {x \<in> set ms1. fst x \<notin> set dbs}" by (rule image_cong) (simp_all add: key [OF ok1])
      also have "\<dots> = fst ` set ms1 - set dbs" by auto
      also have "\<dots> = fst ` set (fst s) - set dbs" using sub by blast
      finally show ?thesis .
    qed
    ultimately show ?thesis using m1 MonitorAll_ok [OF conjunct1 [OF inv] step] by simp
  qed
  moreover have "\<exists>stopped. profiler_start answers = Some ([], stopped) \<and> (\<forall>m \<in> set stopped. stopped_monitor m)
         \<and> dm_dbName ` set stopped = dm_dbName ` set (snd s) \<union> fst ` set (fst s)"
  proof -
    have "profiler_start answers = Some ([], snd s @ map (dbmonitor_Stop \<circ> snd) (fst s))"
      using stop_list_ok [OF conjunct1 [OF inv] refl, of "[]"] by (simp add: profiler_start_def StopAll_def s_def [symmetric] Let_def)
    moreover have "\<forall>m \<in> set (fst s). stopped_monitor (dbmonitor_Stop (snd m))"
      using inv unfolding monitors_ok_def by (auto intro!: stopped_Stop)
    ultimately show ?thesis using inv keys by (auto simp: image_comp names image_Un comp_def)
  qed
  ultimately show ?thesis using inv by simp
qed

theorem monitors_follow_databases_witness:
  "let s = foldl refresh ([], []) [(\<lambda>_. (None, None), Inr [''a'', ''b'']), (\<lambda>_. (None, None), Inl ''timeout'')]
   in map fst (fst s) = [''a'', ''b'']
      \<and> (\<exists>ms' stopped. MonitorAll (\<lambda>_. (None, None)) (Inr [''b'', ''c'']) (fst s) = (ms', stopped, None)
          \<and> fst ` set ms' = {''b'', ''c''} \<and> (\<forall>m \<in> set stopped. stopped_monitor m))"
proof -
  let ?answers = "[(\<lambda>_. (None, None), Inr [''a'', ''b'']), (\<lambda>_. (None, None), Inl ''timeout'')]
    :: ((string \<Rightarrow> string option \<times> string option) \<times> (string + string list)) list"
  let ?s = "foldl refresh ([], []) ?answers"
  have k: "map fst (fst ?s) = [''a'', ''b'']"
    by (simp add: refresh_def MonitorAll_def dbmonitor_Start_def NewMonitor_def)
  obtain ms' stopped where m: "MonitorAll (\<lambda>_. (None, None)) (Inr [''b'', ''c'']) (fst ?s) = (ms', stopped, None)"
    by (simp add: refresh_def MonitorAll_def dbmonitor_Start_def NewMonitor_def)
  from monitors_follow_databases [THEN conjunct2, THEN conjunct1, THEN spec, THEN spec, THEN spec, THEN spec, THEN mp, OF m]
  have "fst ` set ms' = set [''b'', ''c'']" "\<forall>m \<in> set stopped. stopped_monitor m" by simp_all
  with k m show ?thesis by (simp add: Let_def)
qed

section \<open>The profiler and the analyzer\<close>

text \<open>
  \<open>status.Map\<close>: the fields of the statistics with their texts; one that is empty or zero is left
  out. \<open>expvar.String\<close> prints its value in quotes.
\<close>

definition status_Map :: "(string \<times> string) list \<Rightarrow> (string \<times> string) list" where
  "status_Map texts =
     filter (\<lambda>(tag, v). tag \<noteq> '''' \<and> v \<noteq> '''' \<and> v \<noteq> [CHR 0x22, CHR 0x22] \<and> v \<noteq> ''0'') texts"

text \<open>The text about the profiling state of a database, from the answer of the server.\<close>

definition getProfile :: "string + int \<times> int \<times> int \<Rightarrow> string" where
  "getProfile answer =
     (case answer of
        Inl e \<Rightarrow> e
      | Inr (was, slowms, ratelimit) \<Rightarrow>
          if was = 0 then ''Profiling disabled. Please enable profiling for this database or whole MongoDB server (https://docs.mongodb.com/manual/tutorial/manage-the-database-profiler/).''
          else if was = 1 then ''Profiling enabled for slow queries only (slowms: '' @ string_of_int slowms @ '')''
          else if was = 2 then
            ''Profiling enabled for all queries (ratelimit: '' @ string_of_int (if ratelimit = 0 then 1 else ratelimit) @ '')''
          else ''Unknown profiling state: '' @ string_of_int was)"

record profiler =
  pf_config :: QAN
  pf_monitors :: monitors
  pf_session :: bool
  pf_aggregator :: "aggregator option"
  pf_sender :: bool
  pf_running :: bool

definition profiler_New :: "QAN \<Rightarrow> profiler" where
  "profiler_New config = \<lparr>pf_config = config, pf_monitors = [], pf_session = False, pf_aggregator = None,
     pf_sender = False, pf_running = False\<rparr>"

text \<open>
  \<open>Start\<close>, with the error of the session, the clock, and what the first refresh meets; the sender's
  start cannot fail.
\<close>

definition profiler_Start ::
  "string option \<Rightarrow> int \<Rightarrow> (string \<Rightarrow> string option \<times> string option) \<times> (string + string list) \<Rightarrow> profiler
     \<Rightarrow> profiler \<times> string option" where
  "profiler_Start sessionErr now answer p =
     (if pf_running p then (p, None)
      else
        (case sessionErr of
           Some e \<Rightarrow> (p, Some e)
         | None \<Rightarrow>
             (p\<lparr>pf_session := True, pf_aggregator := Some (agg_Start now (agg_New now (pf_config p))),
                pf_sender := True, pf_monitors := fst (refresh ([], []) answer), pf_running := True\<rparr>, None)))"

definition profiler_Stop :: "profiler \<Rightarrow> profiler option" where
  "profiler_Stop p =
     (if \<not> pf_running p then Some p
      else map_option (\<lambda>(ms, _). p\<lparr>pf_monitors := ms, pf_aggregator := map_option agg_Stop (pf_aggregator p),
                                pf_sender := False, pf_session := False, pf_running := False\<rparr>)
                      (StopAll (pf_monitors p)))"

definition profiler_Status ::
  "(string \<Rightarrow> (string \<times> string) list) \<Rightarrow> (string \<times> string) list \<Rightarrow> (string \<times> string) list \<Rightarrow> string list
     \<Rightarrow> profiler \<Rightarrow> (string \<times> string) list option" where
  "profiler_Status serviceStatus aggStatus senderStatus liveServers p =
     (if \<not> pf_running p then None
      else Some (concat (map (\<lambda>(db, m). map (\<lambda>(k, v). (k @ ''-'' @ db, v)) (dbmonitor_Status serviceStatus m)) (pf_monitors p))
           @ map (\<lambda>(k, v). (''aggregator-'' @ k, v)) aggStatus @ map (\<lambda>(k, v). (''sender-'' @ k, v)) senderStatus
           @ [(''servers'', join_with '', '' liveServers)]))"

record mongo_analyzer =
  mg_inst :: inst
  mg_config :: QAN
  mg_profiler :: "profiler option"
  mg_running :: bool

definition mongo_New :: "inst \<Rightarrow> mongo_analyzer" where
  "mongo_New i = \<lparr>mg_inst = i, mg_config = \<lparr>qn_UUID = '''', qn_CollectFrom = '''', qn_Interval = 0,
      qn_ExampleQueries = None, qn_MaxSlowLogSize = 0, qn_SlowLogRotation = None, qn_RetainSlowLogs = None,
      qn_Start = [], qn_Stop = [], qn_ReportLimit = 0\<rparr>, mg_profiler = None, mg_running = False\<rparr>"

definition mongo_SetConfig :: "QAN \<Rightarrow> mongo_analyzer \<Rightarrow> mongo_analyzer" where
  "mongo_SetConfig c m = m\<lparr>mg_config := c\<rparr>"

definition mongo_Start ::
  "(string \<Rightarrow> string option) \<Rightarrow> string option \<Rightarrow> int \<Rightarrow> (string \<Rightarrow> string option \<times> string option) \<times> (string + string list)
     \<Rightarrow> mongo_analyzer \<Rightarrow> mongo_analyzer \<times> string option" where
  "mongo_Start parseErr sessionErr now answer m =
     (if mg_running m then (m, None)
      else
        (case parseErr (in_DSN (mg_inst m)) of
           Some e \<Rightarrow> (m, Some e)
         | None \<Rightarrow>
             (case profiler_Start sessionErr now answer (profiler_New (mg_config m)) of
                (p, Some e) \<Rightarrow> (m\<lparr>mg_profiler := Some p\<rparr>, Some e)
              | (p, None) \<Rightarrow> (m\<lparr>mg_profiler := Some p, mg_running := True\<rparr>, None))))"

definition mongo_Stop :: "mongo_analyzer \<Rightarrow> mongo_analyzer option" where
  "mongo_Stop m =
     (if \<not> mg_running m then Some m
      else case mg_profiler m of
             None \<Rightarrow> None
           | Some p \<Rightarrow> map_option (\<lambda>_. m\<lparr>mg_profiler := None, mg_running := False\<rparr>) (profiler_Stop p))"

definition mongo_Status ::
  "string \<Rightarrow> (profiler \<Rightarrow> (string \<times> string) list option) \<Rightarrow> mongo_analyzer \<Rightarrow> (string \<times> string) list" where
  "mongo_Status service profilerStatus m =
     (if \<not> mg_running m then [(service, ''Not running'')]
      else map (\<lambda>(k, v). (service @ ''-'' @ k, v))
             (case Option.bind (mg_profiler m) profilerStatus of None \<Rightarrow> [] | Some s \<Rightarrow> s)
           @ [(service, ''Running'')])"

definition mongo_GetDefaults :: "mongo_analyzer \<Rightarrow> mongo_analyzer \<times> u64 \<times> bool option" where
  "mongo_GetDefaults m =
     (let c = default_interval (mg_config m) in (m\<lparr>mg_config := c\<rparr>, qn_Interval c, qn_ExampleQueries c))"

text \<open>The MongoDB analyzer as one that the manager can run, on a server whose address is valid.\<close>

definition mongo_ops :: "string option \<Rightarrow> int \<Rightarrow> (string \<Rightarrow> string option \<times> string option) \<times> (string + string list)
     \<Rightarrow> mongo_analyzer analyzer_ops" where
  "mongo_ops sessionErr now answer =
     \<lparr>op_Make = (\<lambda>analyzerType _ i. if analyzerType = ''mongo'' then Some (mongo_New i) else None),
      op_SetConfig = mongo_SetConfig,
      op_Start = (\<lambda>a. map_prod id (\<lambda>e. e \<noteq> None) (mongo_Start (\<lambda>_. None) sessionErr now answer a)),
      op_Stop = (\<lambda>a. case mongo_Stop a of None \<Rightarrow> (a, True) | Some a' \<Rightarrow> (a', False)),
      op_Config = mg_config\<rparr>"

lemma mongo_ops_startable:
  assumes "rp_inst rp (qn_UUID c) = Some i" and "in_Subsystem i = ''mongo''" and "8 \<le> length (in_UUID i)"
  shows "startable (mongo_ops None now answer) rp c"
  using assms
  by (simp add: startable_def mongo_ops_def mongo_Start_def mongo_SetConfig_def mongo_New_def profiler_Start_def profiler_New_def)

lemma mongo_start_stop:
  assumes "\<not> mg_running m" "mongo_Start parseErr sessionErr now answer m = (m', None)"
  shows "mg_running m' \<and> mongo_Stop m' = Some (m\<lparr>mg_profiler := None, mg_running := False\<rparr>)"
proof -
  have ok: "monitors_ok (fst (refresh ([], []) answer))"
    using refresh_ok [of "([], [])" answer] by (simp add: monitors_ok_def)
  obtain p where p: "profiler_Start sessionErr now answer (profiler_New (mg_config m)) = (p, None)"
    "m' = m\<lparr>mg_profiler := Some p, mg_running := True\<rparr>"
    using assms by (auto simp: mongo_Start_def split: option.splits prod.splits)
  then have "\<exists>q. profiler_Stop p = Some q"
    using stop_list_ok [OF ok refl, of "[]"]
    by (auto simp: profiler_Start_def profiler_New_def profiler_Stop_def StopAll_def split: option.splits)
  with p show ?thesis by (auto simp: mongo_Stop_def)
qed

end
