(* ===== verification/Sys.thy ===== *)
theory Sys
  imports Pct
begin

text \<open>
  The helpers of \<open>pct/sys.go\<close> that the agent formats its status with and handles files with:
  \<open>Mbps\<close>, \<open>Bytes\<close>, \<open>Duration\<close>, \<open>AtLeastVersion\<close> and the file operations. The loops over \<open>float64\<close>
  values are recursive functions with their termination proofs; the values are rationals.
\<close>

section \<open>Decimal fractions\<close>

text \<open>\<open>fmt.Sprintf("%.kf", x)\<close> for a value that is not negative: rounded to nearest, ties to even.\<close>

definition round_even :: "float64 \<Rightarrow> int" where
  "round_even x =
     (let f = \<lfloor>x\<rfloor>; r = x - of_int f
      in if r < 1 / 2 then f else if 1 / 2 < r then f + 1 else if even f then f else f + 1)"

definition pad_left :: "nat \<Rightarrow> string \<Rightarrow> string" where
  "pad_left k s = replicate (k - length s) (CHR ''0'') @ s"

definition fixed :: "nat \<Rightarrow> float64 \<Rightarrow> string" where
  "fixed k x =
     (let n = nat (round_even (x * 10 ^ k))
      in string_of_nat (n div 10 ^ k) @ ''.'' @ pad_left k (string_of_nat (n mod 10 ^ k)))"

definition Mbps :: "u64 \<Rightarrow> float64 \<Rightarrow> string" where
  "Mbps bytes seconds =
     (if seconds = 0 then ''0.00''
      else fixed 2 (of_nat (unat (bytes * 8)) / 1000000 / seconds))"

section \<open>Sizes\<close>

text \<open>The loop of \<open>Bytes\<close>.\<close>

function scale_down :: "float64 \<Rightarrow> float64" where
  "scale_down f = (if 1000 < f then scale_down (f / 1000) else f)"
  by pat_completeness auto

termination
proof (relation "measure (\<lambda>f. nat \<lfloor>f\<rfloor>)")
  fix f :: float64
  assume f: "1000 < f"
  then have "f / 1000 \<le> f - 1" by simp
  then have "\<lfloor>f / 1000\<rfloor> \<le> \<lfloor>f\<rfloor> - 1" by (simp add: floor_mono flip: floor_diff_one)
  moreover have "0 < \<lfloor>f\<rfloor>" using f by linarith
  ultimately show "(f / 1000, f) \<in> measure (\<lambda>f. nat \<lfloor>f\<rfloor>)" by simp
qed simp

declare scale_down.simps [simp del]

definition Bytes :: "u64 \<Rightarrow> string" where
  "Bytes bytes =
     (if bytes = 0 then ''0''
      else fixed 2 (scale_down (of_nat (unat bytes))) @ '' '' @ bytes_prefix bytes @ ''B'')"

text \<open>The power of a thousand that a prefix stands for.\<close>

definition prefix_power :: "string \<Rightarrow> nat" where
  "prefix_power p =
     (if p = ''T'' then 4 else if p = ''G'' then 3 else if p = ''M'' then 2 else if p = ''k'' then 1 else 0)"

lemma scale_down_power:
  assumes "1000 ^ k < f" "f \<le> 1000 ^ Suc k"
  shows "scale_down f = f / 1000 ^ k"
  using assms
proof (induction k arbitrary: f)
  case 0
  then show ?case by (simp add: scale_down.simps)
next
  case (Suc k)
  have "(1000 :: rat) ^ Suc k \<ge> 1000" by simp
  with Suc.prems have "1000 < f" by linarith
  then have "scale_down f = scale_down (f / 1000)" by (simp add: scale_down.simps [of f])
  also have "\<dots> = f / 1000 / 1000 ^ k" using Suc.prems by (intro Suc.IH) simp_all
  finally show ?case by simp
qed

lemma bytes_prefix_power:
  assumes "1 \<le> unat b" "unat b < 1000 ^ 5"
  shows "1000 ^ prefix_power (bytes_prefix b) \<le> unat b \<and> unat b < 1000 ^ Suc (prefix_power (bytes_prefix b))"
  using assms by (auto simp: bytes_prefix_def prefix_power_def word_le_nat_alt)

text \<open>
  The size that \<open>Bytes\<close> prints is right, except at the boundaries. For every number of bytes
  below a thousand terabytes the loop ends, and the scaled number times the power of a thousand
  that the prefix stands for is the number of bytes, unless that number is itself a power of a
  thousand: then the number printed is 1000 with the larger prefix, a thousand times too much.
\<close>

theorem Bytes_scale:
  assumes "1 \<le> unat b" and "unat b < 1000 ^ 5"
  shows "scale_down (of_nat (unat b)) * 1000 ^ prefix_power (bytes_prefix b) =
    (if unat b \<in> {1000, 1000 ^ 2, 1000 ^ 3, 1000 ^ 4} then 1000 * of_nat (unat b) else of_nat (unat b))"
proof -
  let ?e = "prefix_power (bytes_prefix b)" and ?f = "of_nat (unat b) :: rat"
  have e: "1000 ^ ?e \<le> unat b" "unat b < 1000 ^ Suc ?e" "?e \<le> 4"
    using bytes_prefix_power [OF assms] by (auto simp: prefix_power_def)
  show ?thesis
  proof (cases "unat b = 1000 ^ ?e")
    case False
    have "of_nat (1000 ^ ?e) < ?f" "?f \<le> of_nat (1000 ^ Suc ?e)"
      unfolding of_nat_less_iff of_nat_le_iff using e(1,2) False by linarith+
    then have "(1000 :: rat) ^ ?e < ?f" "?f \<le> 1000 ^ Suc ?e"
      by (simp_all only: of_nat_power of_nat_numeral)
    moreover have "unat b \<notin> {1000, 1000 ^ 2, 1000 ^ 3, 1000 ^ 4}"
      using e False by (auto simp: prefix_power_def split: if_splits)
    ultimately show ?thesis using scale_down_power [of ?e ?f] by simp
  next
    case True
    show ?thesis
    proof (cases ?e)
      case 0
      with True show ?thesis by (simp add: scale_down.simps)
    next
      case (Suc k)
      with e(3) consider "?e = 1" | "?e = 2" | "?e = 3" | "?e = 4" by linarith
      then have "unat b \<in> {1000, 1000 ^ 2, 1000 ^ 3, 1000 ^ 4}"
        using True by cases simp_all
      moreover have "scale_down ?f = ?f / 1000 ^ k"
        using True Suc by (intro scale_down_power) simp_all
      ultimately show ?thesis using Suc by simp
    qed
  qed
qed

theorem Bytes_scale_witness:
  "scale_down (of_nat (unat (1000 :: u64))) * 1000 ^ prefix_power (bytes_prefix (1000 :: u64)) = 1000000
   \<and> scale_down (of_nat (unat (1500 :: u64))) * 1000 ^ prefix_power (bytes_prefix (1500 :: u64)) = 1500"
  using Bytes_scale [of 1000] Bytes_scale [of 1500] by simp

section \<open>Durations\<close>

text \<open>The loops of \<open>Duration\<close>: how often the unit, a positive constant, can be taken away.\<close>

function count_down :: "float64 \<Rightarrow> float64 \<Rightarrow> nat \<times> float64" where
  "count_down unit s =
     (if 0 < unit \<and> unit \<le> s then (case count_down unit (s - unit) of (n, r) \<Rightarrow> (Suc n, r)) else (0, s))"
  by pat_completeness auto

termination
proof (relation "measure (\<lambda>(unit, s). nat \<lfloor>s / unit\<rfloor>)")
  fix unit s :: float64
  assume u: "0 < unit \<and> unit \<le> s"
  then have "(s - unit) / unit = s / unit - 1" by (simp add: diff_divide_distrib)
  moreover have "1 \<le> s / unit" using u by simp
  ultimately show "((unit, s - unit), (unit, s)) \<in> measure (\<lambda>(unit, s). nat \<lfloor>s / unit\<rfloor>)" by simp
qed simp

declare count_down.simps [simp del]

text \<open>The loop computes the quotient and the remainder.\<close>

lemma count_down_div:
  assumes "0 < u" "0 \<le> s"
  shows "count_down u s = (nat \<lfloor>s / u\<rfloor>, s - of_int \<lfloor>s / u\<rfloor> * u)"
  using assms
proof (induction u s rule: count_down.induct)
  case (1 u s)
  show ?case
  proof (cases "u \<le> s")
    case True
    have q: "(s - u) / u = s / u - 1" using "1.prems" by (simp add: diff_divide_distrib)
    have "1 \<le> \<lfloor>s / u\<rfloor>" using True "1.prems" by simp
    then have "Suc (nat (\<lfloor>s / u\<rfloor> - 1)) = nat \<lfloor>s / u\<rfloor>" by linarith
    with 1 True show ?thesis by (simp add: count_down.simps [of u s] q algebra_simps)
  next
    case False
    then have "\<lfloor>s / u\<rfloor> = 0" using "1.prems" by (simp add: floor_eq_iff)
    with False show ?thesis by (simp add: count_down.simps)
  qed
qed

definition split_duration :: "float64 \<Rightarrow> nat \<times> nat \<times> nat \<times> float64" where
  "split_duration s =
     (let (days, s) = count_down 86400 s; (hours, s) = count_down 3600 s; (minutes, s) = count_down 60 s
      in (days, hours, minutes, s))"

definition go_trunc :: "float64 \<Rightarrow> int" where
  "go_trunc x = (if x < 0 then - \<lfloor>- x\<rfloor> else \<lfloor>x\<rfloor>)"

definition TrimRight :: "char \<Rightarrow> string \<Rightarrow> string" where
  "TrimRight c s = rev (dropWhile (\<lambda>x. x = c) (rev s))"

definition TrimSuffix :: "char \<Rightarrow> string \<Rightarrow> string" where
  "TrimSuffix c s = (if s \<noteq> [] \<and> last s = c then butlast s else s)"

definition Duration :: "float64 \<Rightarrow> string" where
  "Duration s =
     (if s = 0 then ''0''
      else if s < 1 / 1000 then string_of_int (go_trunc (s * 1000000)) @ [CHR 0xC2, CHR 0xB5]
      else if s < 1 then string_of_int (go_trunc (s * 1000)) @ ''ms''
      else
        (let (days, hours, minutes, s) = split_duration s;
             d = (if 0 < days then string_of_nat days @ ''d'' else '''');
             d = (if 0 < hours \<or> d \<noteq> '''' then d @ string_of_nat hours @ ''h'' else d);
             d = (if 0 < minutes \<or> d \<noteq> '''' then d @ string_of_nat minutes @ ''m'' else d);
             (n, x) = count_down 1 s;
             d = (if 0 < x then TrimSuffix (CHR ''.'') (TrimRight (CHR ''0'') (d @ fixed 3 s)) else d @ string_of_nat n)
         in d @ ''s''))"



section \<open>Versions\<close>

text \<open>Everything from the first dash on, in a version without line breaks.\<close>

definition strip_dash :: "string \<Rightarrow> string" where
  "strip_dash v = takeWhile (\<lambda>c. c \<noteq> CHR ''-'') v"

text \<open>
  \<open>AtLeastVersion\<close>; \<open>newVersion\<close> and \<open>newConstraint\<close> are the functions of the version package, which
  give \<open>None\<close> for a text they do not understand.
\<close>

definition AtLeastVersion ::
  "(string \<Rightarrow> 'v option) \<Rightarrow> (string \<Rightarrow> ('v \<Rightarrow> bool) option) \<Rightarrow> string \<Rightarrow> string \<Rightarrow> bool option" where
  "AtLeastVersion newVersion newConstraint v1 v2 =
     Option.bind (newVersion (strip_dash v1)) (\<lambda>v. map_option (\<lambda>c. c v) (newConstraint (''>= '' @ strip_dash v2)))"

section \<open>Files\<close>

text \<open>What the operating system answers about a file.\<close>

datatype stat = FileAt nat | NotExist | StatError string

definition pct_SameFile :: "(string \<Rightarrow> stat) \<Rightarrow> string \<Rightarrow> string \<Rightarrow> bool option" where
  "pct_SameFile st file1 file2 =
     (case (st file1, st file2) of (FileAt a, FileAt b) \<Rightarrow> Some (a = b) | _ \<Rightarrow> None)"

definition FileExists :: "(string \<Rightarrow> stat) \<Rightarrow> string \<Rightarrow> bool" where
  "FileExists st file = (st file \<noteq> NotExist)"

definition RemoveFile :: "(string \<Rightarrow> stat) \<Rightarrow> string \<Rightarrow> (string \<Rightarrow> stat) \<times> string option" where
  "RemoveFile st file =
     (if file = '''' then (st, None)
      else case st file of
             NotExist \<Rightarrow> (st, None)
           | FileAt _ \<Rightarrow> (st(file := NotExist), None)
           | StatError e \<Rightarrow> (st, Some e))"

lemma RemoveFile_idem:
  "RemoveFile st file = (st', None) \<Longrightarrow> file \<noteq> '''' \<Longrightarrow> \<not> FileExists st' file \<and> RemoveFile st' file = (st', None)"
  by (auto simp: RemoveFile_def FileExists_def split: stat.splits)

end
