(* ===== verification/Api.thy ===== *)
theory Api
  imports Sys
begin

text \<open>
  The connection to the API, \<open>pct/api.go\<close>: the requests with their headers and the scheme of their
  URLs, the links the agent gets from the API and prepares, and the registration of an instance. The
  HTTP client and the server are a parameter, as is the encoding of JSON.
\<close>

section \<open>URLs\<close>

text \<open>
  \<open>url.Parse\<close> and \<open>URL.String\<close> for the URLs of the API: a scheme and an authority, with the path, query
  and fragment as they are written. A text of another form is taken for one that cannot be parsed.
\<close>

record url =
  ul_Scheme :: string
  ul_User :: "string option"
  ul_Host :: string
  ul_rest :: string

definition is_letter :: "char \<Rightarrow> bool" where
  "is_letter c \<longleftrightarrow> 97 \<le> (of_char (to_lower_char c) :: nat) \<and> (of_char (to_lower_char c) :: nat) \<le> 122"

definition scheme_ok :: "string \<Rightarrow> bool" where
  "scheme_ok s \<longleftrightarrow>
     s \<noteq> [] \<and> is_letter (hd s) \<and> (\<forall>c \<in> set s. is_letter c \<or> is_digit c \<or> c \<in> {CHR ''+'', CHR ''-'', CHR ''.''})"

definition ends_authority :: "char \<Rightarrow> bool" where
  "ends_authority c \<longleftrightarrow> c \<in> {CHR ''/'', CHR ''?'', CHR ''#''}"

definition split_user :: "string \<Rightarrow> string option \<times> string" where
  "split_user auth =
     (if CHR ''@'' \<in> set auth then
        (let host = rev (takeWhile (\<lambda>c. c \<noteq> CHR ''@'') (rev auth))
         in (Some (take (length auth - length host - 1) auth), host))
      else (None, auth))"

definition url_Parse :: "string \<Rightarrow> url option" where
  "url_Parse s =
     (let sch = takeWhile (\<lambda>c. c \<noteq> CHR '':'') s;
          after = drop (length sch) s
      in if scheme_ok sch \<and> HasPrefix after ''://'' then
           (let body = drop 3 after;
                auth = takeWhile (\<lambda>c. \<not> ends_authority c) body;
                (user, host) = split_user auth
            in Some \<lparr>ul_Scheme = ToLower sch, ul_User = user, ul_Host = host, ul_rest = drop (length auth) body\<rparr>)
         else None)"

definition url_String :: "url \<Rightarrow> string" where
  "url_String u =
     ul_Scheme u @ ''://'' @ (case ul_User u of None \<Rightarrow> '''' | Some i \<Rightarrow> i @ ''@'') @ ul_Host u @ ul_rest u"

text \<open>\<open>url.UserPassword\<close>: user and password, with the characters that have a meaning in a URL escaped.\<close>

definition hex_digit :: "nat \<Rightarrow> char" where
  "hex_digit n = (if n < 10 then char_of (48 + n) else char_of (55 + n))"

definition escape_user_char :: "char \<Rightarrow> string" where
  "escape_user_char c =
     (if is_letter c \<or> is_digit c \<or> c \<in> set ''-_.~$&+,;='' then [c]
      else [CHR ''%'', hex_digit (of_char c div 16), hex_digit (of_char c mod 16)])"

definition UserPassword :: "string \<Rightarrow> string \<Rightarrow> string" where
  "UserPassword user pass = concat (map escape_user_char user) @ '':'' @ concat (map escape_user_char pass)"

section \<open>The connector\<close>

record API =
  ap_origin :: string
  ap_hostname :: string
  ap_agentUuid :: string
  ap_entryLinks :: "(string \<times> string) list"
  ap_agentLinks :: "(string \<times> string) list"
  ap_user :: string
  ap_pass :: string
  ap_useSSL :: bool
  ap_useInsecureSSL :: bool

definition NewAPI :: "string \<Rightarrow> string \<Rightarrow> string \<Rightarrow> bool \<Rightarrow> bool \<Rightarrow> API" where
  "NewAPI hostname user pass useSSL useInsecureSSL =
     \<lparr>ap_origin = ''http://'' @ hostname, ap_hostname = '''', ap_agentUuid = '''', ap_entryLinks = [], ap_agentLinks = [],
      ap_user = user, ap_pass = pass, ap_useSSL = useSSL, ap_useInsecureSSL = useInsecureSSL\<rparr>"

record ConnectionConfig =
  cc_User :: string
  cc_Password :: string
  cc_UseSSL :: bool
  cc_UseInsecureSSL :: bool

definition GetConnectionConfig :: "API \<Rightarrow> ConnectionConfig" where
  "GetConnectionConfig a =
     \<lparr>cc_User = ap_user a, cc_Password = ap_pass a, cc_UseSSL = ap_useSSL a, cc_UseInsecureSSL = ap_useInsecureSSL a\<rparr>"

definition EntryLink :: "API \<Rightarrow> string \<Rightarrow> string" where
  "EntryLink a resource = (case map_of (ap_entryLinks a) resource of None \<Rightarrow> '''' | Some l \<Rightarrow> l)"

definition AgentLink :: "API \<Rightarrow> string \<Rightarrow> string" where
  "AgentLink a resource = (case map_of (ap_agentLinks a) resource of None \<Rightarrow> '''' | Some l \<Rightarrow> l)"

abbreviation ssl :: "API \<Rightarrow> bool" where "ssl a \<equiv> ap_useSSL a \<or> ap_useInsecureSSL a"

text \<open>
  A request, and what the client and the server make of it: a URL that \<open>http.NewRequest\<close> refuses, a
  request that fails, or a response, whose body may be compressed and may fail to be read.
\<close>

record request =
  rq_Method :: string
  rq_URL :: string
  rq_Header :: "(string \<times> string) list"
  rq_Body :: bytes

record response =
  rs_StatusCode :: int
  rs_ContentType :: string
  rs_Location :: string
  rs_raw :: "string + bytes"
  rs_gunzip :: "string + bytes"
  rs_gzip_header :: "string option"

datatype http_out = BadRequest string | DoFailed string | Response response

type_synonym http = "request \<Rightarrow> http_out"

definition version_headers :: "string \<Rightarrow> string \<Rightarrow> (string \<times> string) list" where
  "version_headers agentVersion protoVersion =
     [(''X-Percona-Agent-Version'', agentVersion), (''X-Percona-Protocol-Version'', protoVersion)]"

definition VERSION :: string where "VERSION = ''1.0.5''"
definition proto_VERSION :: string where "proto_VERSION = ''1.0''"

text \<open>The scheme of a URL is made secure when the agent uses SSL.\<close>

definition secure_scheme :: "url \<Rightarrow> url" where
  "secure_scheme u =
     (if ul_Scheme u = ''http'' \<or> ul_Scheme u = ''ws'' then u\<lparr>ul_Scheme := ul_Scheme u @ ''s''\<rparr> else u)"

definition setURLSchema :: "API \<Rightarrow> string \<Rightarrow> string" where
  "setURLSchema a uri =
     (if \<not> ap_useInsecureSSL a \<and> \<not> ap_useSSL a then uri
      else case url_Parse uri of
             None \<Rightarrow> uri
           | Some u \<Rightarrow> url_String (if ssl a then secure_scheme u else u))"

text \<open>\<open>Get\<close>: the status code, the body and the error.\<close>

definition api_Get :: "http \<Rightarrow> API \<Rightarrow> string \<Rightarrow> int \<times> bytes \<times> string option" where
  "api_Get http a uri =
     (let uri = setURLSchema a uri
      in case http \<lparr>rq_Method = ''GET'', rq_URL = uri, rq_Header = version_headers VERSION proto_VERSION, rq_Body = []\<rparr> of
           BadRequest e \<Rightarrow> (0, [], Some e)
         | DoFailed e \<Rightarrow> (0, [], Some (''GET '' @ uri @ '' error: client.Do: '' @ e))
         | Response resp \<Rightarrow>
             if rs_ContentType resp = ''application/x-gzip'' then
               (case rs_gzip_header resp of
                  Some e \<Rightarrow> (0, [], Some e)
                | None \<Rightarrow>
                    (case rs_gunzip resp of
                       Inl e \<Rightarrow> (rs_StatusCode resp, [], Some e)
                     | Inr data \<Rightarrow> (rs_StatusCode resp, data, None)))
             else
               (case rs_raw resp of
                  Inl e \<Rightarrow> (rs_StatusCode resp, [], Some (''GET '' @ uri @ '' error: ioutil.ReadAll: '' @ e))
                | Inr data \<Rightarrow> (rs_StatusCode resp, data, None)))"

text \<open>
  \<open>send\<close> does not look at the error of \<open>http.NewRequest\<close> and sets the header of the request it gave:
  with a URL that is refused this is a nil pointer, the value \<open>None\<close>.
\<close>

definition api_send :: "http \<Rightarrow> API \<Rightarrow> string \<Rightarrow> string \<Rightarrow> bytes \<Rightarrow> (response option \<times> bytes \<times> string option) option" where
  "api_send http a meth uri data =
     (case http \<lparr>rq_Method = meth, rq_URL = setURLSchema a uri, rq_Header = version_headers VERSION proto_VERSION, rq_Body = data\<rparr> of
        BadRequest e \<Rightarrow> None
      | DoFailed e \<Rightarrow> Some (None, [], Some e)
      | Response resp \<Rightarrow>
          (case rs_raw resp of
             Inl e \<Rightarrow> Some (Some resp, [], Some e)
           | Inr content \<Rightarrow> Some (Some resp, content, None)))"

definition api_Post :: "http \<Rightarrow> API \<Rightarrow> string \<Rightarrow> bytes \<Rightarrow> (response option \<times> bytes \<times> string option) option" where
  "api_Post http a uri data = api_send http a ''POST'' uri data"

definition api_Put :: "http \<Rightarrow> API \<Rightarrow> string \<Rightarrow> bytes \<Rightarrow> (response option \<times> bytes \<times> string option) option" where
  "api_Put http a uri data = api_send http a ''PUT'' uri data"

definition Ping :: "http \<Rightarrow> string \<Rightarrow> int \<times> string option" where
  "Ping http apiURL =
     (let uri = apiURL @ ''/ping''
      in case http \<lparr>rq_Method = ''GET'', rq_URL = uri, rq_Header = version_headers VERSION proto_VERSION, rq_Body = []\<rparr> of
           BadRequest e \<Rightarrow> (0, Some (''Ping '' @ uri @ '' error: http.NewRequest: '' @ e))
         | DoFailed e \<Rightarrow> (0, Some e)
         | Response resp \<Rightarrow>
             (case rs_raw resp of
                Inl e \<Rightarrow> (rs_StatusCode resp, Some (''Ping '' @ uri @ '' error: ioutil.ReadAll: '' @ e))
              | Inr _ \<Rightarrow> (rs_StatusCode resp, None)))"

definition api_Init :: "http \<Rightarrow> string \<Rightarrow> API \<Rightarrow> API \<times> int \<times> string option" where
  "api_Init http hostname a =
     (case Ping http hostname of
        (_, Some e) \<Rightarrow> (a, 0, Some e)
      | (code, None) \<Rightarrow>
          if code \<noteq> 200 then (a, code, Some (''Got '' @ string_of_int code @ '' from the API''))
          else (a\<lparr>ap_hostname := hostname\<rparr>, code, None))"

section \<open>Links\<close>

definition requiredEntryLinks :: "string list" where "requiredEntryLinks = [''agents'', ''instances'']"
definition requiredAgentLinks :: "string list" where "requiredAgentLinks = [''cmd'', ''log'', ''data'', ''self'']"

fun checkLinks :: "(string \<times> string) list \<Rightarrow> string list \<Rightarrow> string option" where
  "checkLinks links [] = None"
| "checkLinks links (link # req) =
     (case map_of links link of
        None \<Rightarrow> Some (''Missing '' @ link @ '' link'')
      | Some l \<Rightarrow> if l = '''' then Some (''Missing '' @ link @ '' link'') else checkLinks links req)"

definition add_port :: "url \<Rightarrow> url" where
  "add_port u =
     (let u = (if ul_Scheme u = ''ws'' \<and> CHR '':'' \<notin> set (ul_Host u) then u\<lparr>ul_Host := ul_Host u @ '':80''\<rparr> else u)
      in if ul_Scheme u = ''wss'' \<and> CHR '':'' \<notin> set (ul_Host u) then u\<lparr>ul_Host := ul_Host u @ '':443''\<rparr> else u)"

definition add_user :: "API \<Rightarrow> url \<Rightarrow> url" where
  "add_user a u =
     (if ap_pass a \<noteq> '''' \<and> \<not> HasPrefix (ul_Scheme u) ''ws'' then u\<lparr>ul_User := Some (UserPassword (ap_user a) (ap_pass a))\<rparr> else u)"

definition prepare_link :: "API \<Rightarrow> string \<Rightarrow> string" where
  "prepare_link a link =
     (case url_Parse link of
        None \<Rightarrow> link
      | Some u \<Rightarrow> url_String (add_user a (add_port (if ssl a then secure_scheme u else u))))"

definition prepareAgentLinks :: "API \<Rightarrow> (string \<times> string) list \<Rightarrow> (string \<times> string) list" where
  "prepareAgentLinks a links = map (\<lambda>(key, link). (key, prepare_link a link)) links"

text \<open>\<open>getLinks\<close>; \<open>decode\<close> reads the links of a JSON text.\<close>

definition getLinks ::
  "http \<Rightarrow> (bytes \<Rightarrow> (string \<times> string) list option) \<Rightarrow> API \<Rightarrow> string \<Rightarrow> string + (string \<times> string) list" where
  "getLinks http decode a uri =
     (case api_Get http a uri of
        (code, data, Some e) \<Rightarrow> Inl e
      | (code, data, None) \<Rightarrow>
          if code \<noteq> 200 then Inl (''Failed to get '' @ uri @ '' from API: status code '' @ string_of_int code)
          else if length data = 0 then Inl (''OK response from '' @ uri @ '' but no content'')
          else (case decode data of
                  None \<Rightarrow> Inl (''GET '' @ uri @ '' error: json.Unmarshal'')
                | Some links \<Rightarrow> Inr links))"

definition link_of :: "(string \<times> string) list \<Rightarrow> string \<Rightarrow> string" where
  "link_of links k = (case map_of links k of None \<Rightarrow> '''' | Some l \<Rightarrow> l)"

definition api_Connect ::
  "http \<Rightarrow> (bytes \<Rightarrow> (string \<times> string) list option) \<Rightarrow> string \<Rightarrow> string \<Rightarrow> string \<Rightarrow> API \<Rightarrow> API \<times> string option" where
  "api_Connect http decode hostname basePath agentUuid a =
     (let u = \<lparr>ul_Scheme = (if ssl a then ''https'' else ''http''),
               ul_User = (if ap_pass a \<noteq> '''' then Some (UserPassword (ap_user a) (ap_pass a)) else None),
               ul_Host = hostname,
               ul_rest = (if basePath \<noteq> '''' \<and> \<not> HasPrefix basePath ''/'' then ''/'' @ basePath else basePath)\<rparr>
      in case getLinks http decode a (url_String u) of
           Inl e \<Rightarrow> (a, Some e)
         | Inr entryLinks \<Rightarrow>
             (case checkLinks entryLinks requiredEntryLinks of
                Some e \<Rightarrow> (a, Some e)
              | None \<Rightarrow>
                  (let entryLinks = prepareAgentLinks a entryLinks
                   in case getLinks http decode a (link_of entryLinks ''agents'' @ ''/'' @ agentUuid) of
                        Inl e \<Rightarrow> (a, Some e)
                      | Inr agentLinks \<Rightarrow>
                          (case checkLinks agentLinks requiredAgentLinks of
                             Some e \<Rightarrow> (a, Some e)
                           | None \<Rightarrow>
                               (a\<lparr>ap_hostname := hostname, ap_agentUuid := agentUuid, ap_entryLinks := entryLinks,
                                  ap_agentLinks := prepareAgentLinks a agentLinks\<rparr>, None)))))"

section \<open>Instances\<close>

text \<open>
  \<open>CreateInstance\<close>. \<open>encode\<close> and \<open>decode\<close> are the JSON encoding of the instance, and \<open>mkURL\<close> is the function
  \<open>URL\<close>, which joins paths to the host name of the API. The result is whether the instance was created,
  and the instance the API has, or an error; \<open>None\<close> is the panic of \<open>send\<close>. The response that the
  variable \<open>resp\<close> holds after a conflict is that of the first request: the second one is in a variable
  of its own.
\<close>

definition last_segment :: "string \<Rightarrow> string" where
  "last_segment uri = last (split_on (CHR ''/'') uri)"

definition fetch_instance ::
  "http \<Rightarrow> (bytes \<Rightarrow> 'v option) \<Rightarrow> (string \<Rightarrow> string list \<Rightarrow> string) \<Rightarrow> API \<Rightarrow> string \<Rightarrow> string + 'v" where
  "fetch_instance http decode mkURL a location =
     (if location = '''' then Inl ''API did not return Location header value for new instance''
      else
        (let uri = mkURL (ap_hostname a) [''/instances'', last_segment location]
         in case api_Get http a uri of
              (code, data, Some e) \<Rightarrow> Inl e
            | (code, data, None) \<Rightarrow>
                if code \<noteq> 200 then Inl (''GET '' @ uri @ '' (get instance) returned HTTP status code '' @ string_of_int code)
                else (case decode data of
                        None \<Rightarrow> Inl (''GET '' @ uri @ '' (get instance) returned invalid data'')
                      | Some v \<Rightarrow> Inr v)))"

definition CreateInstance ::
  "http \<Rightarrow> ('v \<Rightarrow> bytes option) \<Rightarrow> (bytes \<Rightarrow> 'v option) \<Rightarrow> (string \<Rightarrow> string list \<Rightarrow> string) \<Rightarrow> API \<Rightarrow> string \<Rightarrow> 'v
     \<Rightarrow> (bool \<times> (string + 'v)) option" where
  "CreateInstance http encode decode mkURL a uri inst =
     (case encode inst of
        None \<Rightarrow> Some (False, Inl ''json.Marshal'')
      | Some data \<Rightarrow>
          (let uri = mkURL (ap_hostname a) [uri]
           in case api_Post http a uri data of
                None \<Rightarrow> None
              | Some (_, _, Some e) \<Rightarrow> Some (False, Inl e)
              | Some (None, _, None) \<Rightarrow> None
              | Some (Some resp, _, None) \<Rightarrow>
                  if rs_StatusCode resp = 201 then Some (True, fetch_instance http decode mkURL a (rs_Location resp))
                  else if rs_StatusCode resp = 409 then
                    (if rs_Location resp = '''' then
                       Some (False, Inl ''API did not return Location header value for existing instance'')
                     else case api_Put http a (rs_Location resp) data of
                            None \<Rightarrow> None
                          | Some (_, _, Some e) \<Rightarrow> Some (False, Inl e)
                          | Some (None, _, None) \<Rightarrow> None
                          | Some (Some resp2, _, None) \<Rightarrow>
                              if rs_StatusCode resp2 \<ge> 300 then
                                Some (False, Inl (''PUT '' @ rs_Location resp @ '' (update instance) returned HTTP status code ''
                                                    @ string_of_int (rs_StatusCode resp2)))
                              else Some (False, fetch_instance http decode mkURL a (rs_Location resp)))
                  else Some (False, Inl (''POST '' @ uri @ '' (create instance) returned HTTP status code ''
                                           @ string_of_int (rs_StatusCode resp)))))"

section \<open>What the links are\<close>

definition url_ok :: "url \<Rightarrow> bool" where
  "url_ok u \<longleftrightarrow>
     scheme_ok (ul_Scheme u) \<and> ToLower (ul_Scheme u) = ul_Scheme u
     \<and> (\<forall>i. ul_User u = Some i \<longrightarrow> (\<forall>c \<in> set i. \<not> ends_authority c))
     \<and> (\<forall>c \<in> set (ul_Host u). \<not> ends_authority c) \<and> CHR ''@'' \<notin> set (ul_Host u)
     \<and> (ul_rest u = [] \<or> ends_authority (hd (ul_rest u)))"

lemma takeWhile_stop: "\<forall>c \<in> set a. P c \<Longrightarrow> b = [] \<or> \<not> P (hd b) \<Longrightarrow> takeWhile P (a @ b) = a"
  by (cases b) (auto simp: takeWhile_append)

lemma scheme_no_colon: "scheme_ok s \<Longrightarrow> CHR '':'' \<notin> set s"
  by (auto simp: scheme_ok_def is_letter_def is_digit_def to_lower_char_def)

lemma split_user_join:
  assumes "CHR ''@'' \<notin> set host"
  shows "split_user (i @ ''@'' @ host) = (Some i, host)" "split_user host = (None, host)"
proof -
  have "takeWhile (\<lambda>c. c \<noteq> CHR ''@'') (rev host @ CHR ''@'' # rev i) = rev host"
    using assms by (intro takeWhile_stop) auto
  then show "split_user (i @ ''@'' @ host) = (Some i, host)" by (simp add: split_user_def Let_def)
  show "split_user host = (None, host)" using assms by (simp add: split_user_def)
qed

lemma url_roundtrip:
  assumes "url_ok u"
  shows "url_Parse (url_String u) = Some u"
proof -
  let ?a = "case ul_User u of None \<Rightarrow> '''' | Some i \<Rightarrow> i @ ''@''"
  let ?auth = "?a @ ul_Host u"
  have s: "takeWhile (\<lambda>c. c \<noteq> CHR '':'') (ul_Scheme u @ ''://'' @ ?auth @ ul_rest u) = ul_Scheme u"
    using scheme_no_colon [of "ul_Scheme u"] assms by (intro takeWhile_stop) (auto simp: url_ok_def)
  have "\<not> ends_authority (CHR ''@'')" by (simp add: ends_authority_def)
  then have "\<forall>c \<in> set ?auth. \<not> ends_authority c"
    using assms by (cases "ul_User u") (auto simp: url_ok_def)
  then have auth: "takeWhile (\<lambda>c. \<not> ends_authority c) (?auth @ ul_rest u) = ?auth"
    using assms by (intro takeWhile_stop) (auto simp: url_ok_def)
  have user: "split_user ?auth = (ul_User u, ul_Host u)"
    using split_user_join [of "ul_Host u"] assms by (cases "ul_User u") (simp_all add: url_ok_def)
  have "url_String u = ul_Scheme u @ ''://'' @ ?auth @ ul_rest u" by (simp add: url_String_def)
  then show ?thesis
    using s auth user assms by (simp add: url_Parse_def Let_def url_ok_def)
qed

lemma url_Parse_ok:
  assumes "url_Parse s = Some u"
  shows "url_ok u"
proof -
  define sch where "sch = takeWhile (\<lambda>c. c \<noteq> CHR '':'') s"
  define body where "body = drop 3 (drop (length sch) s)"
  define auth where "auth = takeWhile (\<lambda>c. \<not> ends_authority c) body"
  have u: "u = \<lparr>ul_Scheme = ToLower sch, ul_User = fst (split_user auth), ul_Host = snd (split_user auth),
      ul_rest = drop (length auth) body\<rparr>" and ok: "scheme_ok sch"
    using assms by (auto simp: url_Parse_def sch_def body_def auth_def Let_def split: if_splits prod.splits)
  have low: "to_lower_char (to_lower_char c) = to_lower_char c" for c
    by (auto simp: to_lower_char_def)
  have lt: "is_letter (to_lower_char c) = is_letter c" for c by (simp add: is_letter_def low)
  have dg: "is_digit c \<or> c \<in> {CHR ''+'', CHR ''-'', CHR ''.''} \<Longrightarrow> to_lower_char c = c" for c
    by (auto simp: is_digit_def to_lower_char_def)
  have "scheme_ok (ToLower sch)" "ToLower (ToLower sch) = ToLower sch"
    using ok low lt dg by (auto simp: scheme_ok_def ToLower_def hd_map comp_def)
  moreover have a: "\<not> ends_authority c" if "c \<in> set auth" for c
    using that by (auto simp: auth_def dest: set_takeWhileD)
  have "\<not> ends_authority c" if "fst (split_user auth) = Some i" "c \<in> set i" for i c
    using that a [of c] by (auto simp: split_user_def Let_def split: if_splits dest: in_set_takeD)
  moreover have "set (snd (split_user auth)) \<subseteq> set auth"
    by (auto simp: split_user_def Let_def dest: set_takeWhileD)
  then have "\<forall>c \<in> set (snd (split_user auth)). \<not> ends_authority c" using a by blast
  moreover have "CHR ''@'' \<notin> set (snd (split_user auth))"
    by (auto simp: split_user_def Let_def dest: set_takeWhileD)
  moreover have "drop (length auth) body = [] \<or> ends_authority (hd (drop (length auth) body))"
    unfolding auth_def by (metis dropWhile_eq_drop hd_dropWhile)
  ultimately show ?thesis by (simp add: u url_ok_def)
qed

text \<open>What becomes of one link of the API.\<close>

lemma escape_user_plain: "c \<in> set (UserPassword user pass) \<Longrightarrow> \<not> ends_authority c"
proof -
  have hex: "\<not> ends_authority (hex_digit n)" if "n < 16" for n
  proof -
    have "(of_char (hex_digit n) :: nat) = (if n < 10 then 48 + n else 55 + n)" using that by (simp add: hex_digit_def)
    moreover have "(of_char (hex_digit n) :: nat) \<in> {47, 63, 35}" if "ends_authority (hex_digit n)"
      using that by (auto simp: ends_authority_def)
    ultimately show ?thesis using that by (auto split: if_splits)
  qed
  have dv: "(of_char x :: nat) div 16 < 16" "(of_char x :: nat) mod 16 < 16" for x :: char
    using nat_of_char_less_256 [of x] by (simp_all add: less_mult_imp_div_less)
  have esc: "\<not> ends_authority c" if "c \<in> set (escape_user_char x)" for x c
  proof -
    have "\<not> ends_authority x" if "is_letter x \<or> is_digit x \<or> x \<in> set ''-_.~$&+,;=''"
      using that by (auto simp: ends_authority_def is_letter_def is_digit_def to_lower_char_def)
    moreover have "\<not> ends_authority (CHR ''%'')" by (simp add: ends_authority_def)
    ultimately show ?thesis using that hex [OF dv(1)] hex [OF dv(2)] by (auto simp: escape_user_char_def split: if_splits)
  qed
  assume "c \<in> set (UserPassword user pass)"
  then show ?thesis using esc by (auto simp: UserPassword_def ends_authority_def)
qed

definition prepared :: "API \<Rightarrow> url \<Rightarrow> url \<Rightarrow> bool" where
  "prepared a u v \<longleftrightarrow>
     ul_Scheme v = (if ssl a \<and> ul_Scheme u \<in> {''http'', ''ws''} then ul_Scheme u @ ''s'' else ul_Scheme u)
     \<and> ul_rest v = ul_rest u
     \<and> ul_User v = (if ap_pass a \<noteq> '''' \<and> \<not> HasPrefix (ul_Scheme v) ''ws'' then Some (UserPassword (ap_user a) (ap_pass a)) else ul_User u)
     \<and> (ul_Scheme v \<in> {''ws'', ''wss''} \<longrightarrow> CHR '':'' \<in> set (ul_Host v))
     \<and> (ul_Scheme v \<notin> {''ws'', ''wss''} \<or> CHR '':'' \<in> set (ul_Host u) \<longrightarrow> ul_Host v = ul_Host u)"

lemma prepare_link_parsed:
  assumes "url_Parse l = Some u"
  shows "\<exists>v. url_Parse (prepare_link a l) = Some v \<and> prepared a u v"
proof -
  let ?s = "if ssl a then secure_scheme u else u"
  let ?v = "add_user a (add_port ?s)"
  have ok: "url_ok u" by (rule url_Parse_ok [OF assms])
  have lows: "ToLower ''https'' = ''https''" "ToLower ''wss'' = ''wss''" "scheme_ok ''https''" "scheme_ok ''wss''"
    by (simp_all add: ToLower_def scheme_ok_def is_letter_def to_lower_char_def)
  have "url_ok ?s" using ok lows by (auto simp: url_ok_def secure_scheme_def)
  moreover have "url_ok (add_port x)" if "url_ok x" for x
  proof -
    have "\<forall>c \<in> set '':80''. \<not> ends_authority c" "\<forall>c \<in> set '':443''. \<not> ends_authority c" by (simp_all add: ends_authority_def)
    then show ?thesis using that by (auto simp: url_ok_def add_port_def Let_def)
  qed
  moreover have "url_ok (add_user a x)" if "url_ok x" for x
    using that escape_user_plain by (auto simp: url_ok_def add_user_def)
  ultimately have "url_Parse (url_String ?v) = Some ?v" by (intro url_roundtrip) blast
  moreover have "prepared a u ?v"
    by (cases "ssl a"; cases "CHR '':'' \<in> set (ul_Host u)")
      (simp_all add: prepared_def add_user_def add_port_def secure_scheme_def Let_def)
  ultimately show ?thesis using assms by (auto simp: prepare_link_def)
qed

lemma checkLinks_none: "checkLinks links req = None \<longleftrightarrow> (\<forall>k \<in> set req. link_of links k \<noteq> '''')"
  by (induction req) (auto simp: link_of_def split: option.splits)

lemma map_of_prepare: "map_of (prepareAgentLinks a links) k = map_option (prepare_link a) (map_of links k)"
  unfolding prepareAgentLinks_def by (induction links) auto

lemma prepare_link_nonempty: "l \<noteq> '''' \<Longrightarrow> prepare_link a l \<noteq> ''''"
  by (auto simp: prepare_link_def url_String_def split: option.splits)


definition demo_links :: "(string \<times> string) list" where
  "demo_links = map (\<lambda>k. (k, ''ws://api/'' @ k)) [''agents'', ''instances'', ''cmd'', ''log'', ''data'', ''self'']"

definition demo_http :: http where
  "demo_http rq =
     Response \<lparr>rs_StatusCode = 200, rs_ContentType = '''', rs_Location = '''', rs_raw = Inr ''links'', rs_gunzip = Inl '''',
               rs_gzip_header = None\<rparr>"


text \<open>A URL that is refused makes \<open>send\<close> panic, and with it \<open>Post\<close>, \<open>Put\<close> and \<open>CreateInstance\<close>.\<close>

lemma api_send_panics:
  "http \<lparr>rq_Method = meth, rq_URL = setURLSchema a uri, rq_Header = version_headers VERSION proto_VERSION, rq_Body = data\<rparr>
     = BadRequest e \<Longrightarrow> api_send http a meth uri data = None"
  by (simp add: api_send_def)

text \<open>
  The instance that \<open>CreateInstance\<close> returns is the one the API has under the last segment of the
  location of the first response, also after a conflict; it was created exactly when the first
  response says so.
\<close>

lemma CreateInstance_result:
  assumes "CreateInstance http encode decode mkURL a uri inst = Some (created, Inr v)"
  shows "\<exists>data resp content. encode inst = Some data
    \<and> api_Post http a (mkURL (ap_hostname a) [uri]) data = Some (Some resp, content, None)
    \<and> (created \<longleftrightarrow> rs_StatusCode resp = 201) \<and> rs_StatusCode resp \<in> {201, 409}
    \<and> fetch_instance http decode mkURL a (rs_Location resp) = Inr v"
  using assms
  by (auto simp: CreateInstance_def Let_def split: option.splits prod.splits if_splits)

end
