(* ===== verification/WsClient.thy ===== *)
theory WsClient
  imports Agent Api
begin

text \<open>
  The websocket client, \<open>client/ws.go\<close>: the goroutines that send replies and receive commands, the
  calls of \<open>Connect\<close>, \<open>Disconnect\<close> and \<open>notifyConnect\<close>, and the agent that reads the connect channel
  and calls \<open>Connect\<close> again (\<open>Agent.Run\<close>, \<open>Agent.connect\<close>), as one step relation. A connection is
  a number, the order in which they were dialed. \<open>Stop\<close> is not called while the agent runs and is
  left out.
\<close>

section \<open>The state\<close>

text \<open>
  Where a goroutine is: started and not yet waiting; waiting for \<open>Start\<close>; at the top of its loop;
  in a read or a write on a connection; holding a command; after an error on a connection; in
  \<open>notifyConnect(false)\<close> with the lock held.
\<close>

datatype recv_pc =
    RecvStarting | RecvWaiting | RecvTop | Reading nat | RecvHolds Cmd | RecvFailed nat | RecvNotifying

datatype send_pc =
    SendStarting | SendWaiting | SendIdle | Writing nat reply | SendFailed nat | SendNotifying

text \<open>A call of \<open>Connect\<close>: dialing, and the three things it does when it has a connection.\<close>

datatype connect_pc = Dialing | StartsRecv | StartsSend | Notifies

record wsclient =
  ws_conn :: "nat option"
  ws_connected :: bool
  ws_locked :: bool
  ws_dialed :: nat
  ws_closes :: "nat list"
  ws_connectChan :: "bool list"
  ws_errChan :: nat
  ws_recvChan :: "Cmd list"
  ws_sendChan :: "reply list"
  ws_recv :: recv_pc
  ws_send :: send_pc
  ws_manual :: bool
  ws_connects :: "connect_pc list"
  ws_received :: "Cmd list"
  ws_delivered :: "Cmd list"
  ws_sent :: "reply list"

definition RECV_BUFFER_SIZE :: nat where "RECV_BUFFER_SIZE = 10"
definition SEND_BUFFER_SIZE :: nat where "SEND_BUFFER_SIZE = 10"

text \<open>The client after \<open>Start\<close>, and the agent's first call of \<open>Connect\<close>.\<close>

definition ws_start :: wsclient where
  "ws_start =
     \<lparr>ws_conn = None, ws_connected = False, ws_locked = False, ws_dialed = 0, ws_closes = [],
      ws_connectChan = [], ws_errChan = 0, ws_recvChan = [], ws_sendChan = [],
      ws_recv = RecvStarting, ws_send = SendStarting, ws_manual = False, ws_connects = [Dialing],
      ws_received = [], ws_delivered = [], ws_sent = []\<rparr>"

section \<open>Operations\<close>

text \<open>The successful end of \<open>ConnectOnce\<close>.\<close>

definition ConnectOnce :: "wsclient \<Rightarrow> wsclient" where
  "ConnectOnce s = s\<lparr>ws_conn := Some (ws_dialed s), ws_connected := True, ws_dialed := ws_dialed s + 1\<rparr>"

text \<open>
  \<open>disconnect\<close> up to the notification: nothing happens for a connection that is not the current
  one any more; otherwise the lock is kept for the notification that follows.
\<close>

definition disconnect :: "nat \<Rightarrow> wsclient \<Rightarrow> wsclient option" where
  "disconnect c s =
     (if \<not> ws_connected s \<or> ws_conn s \<noteq> Some c then None
      else Some (s\<lparr>ws_connected := False, ws_locked := True, ws_closes := ws_closes s @ [c]\<rparr>))"

text \<open>
  \<open>notifyConnect\<close>: the connect channel has room for one value; when it stays full for twenty
  seconds, the notification is dropped.
\<close>

definition notifyConnect :: "bool \<Rightarrow> wsclient \<Rightarrow> wsclient" where
  "notifyConnect state s =
     (if ws_connectChan s = [] then s\<lparr>ws_connectChan := [state]\<rparr> else s)"

text \<open>An error goes to the error channel unless that is full.\<close>

definition put_err :: "wsclient \<Rightarrow> wsclient" where
  "put_err s = s\<lparr>ws_errChan := (if ws_errChan s < 2 then ws_errChan s + 1 else ws_errChan s)\<rparr>"

text \<open>\<open>SyncChan.Start\<close> does not wait: a goroutine that is not at its \<open>select\<close> misses it.\<close>

definition recvSync_Start :: "wsclient \<Rightarrow> wsclient" where
  "recvSync_Start s = (if ws_recv s = RecvWaiting then s\<lparr>ws_recv := RecvTop\<rparr> else s)"

definition sendSync_Start :: "wsclient \<Rightarrow> wsclient" where
  "sendSync_Start s = (if ws_send s = SendWaiting then s\<lparr>ws_send := SendIdle\<rparr> else s)"

section \<open>Steps\<close>

inductive recv_step :: "wsclient \<Rightarrow> wsclient \<Rightarrow> bool" where
  ready: "ws_recv s = RecvStarting \<Longrightarrow> recv_step s (s\<lparr>ws_recv := RecvWaiting\<rparr>)"
| read: "ws_recv s = RecvTop \<Longrightarrow> ws_conn s = Some c \<Longrightarrow> recv_step s (s\<lparr>ws_recv := Reading c\<rparr>)"
| cmd: "ws_recv s = Reading c \<Longrightarrow> c \<notin> set (ws_closes s) \<Longrightarrow>
    recv_step s (s\<lparr>ws_recv := RecvHolds m, ws_received := ws_received s @ [m]\<rparr>)"
| forward: "ws_recv s = RecvHolds m \<Longrightarrow> length (ws_recvChan s) < RECV_BUFFER_SIZE \<Longrightarrow>
    recv_step s (s\<lparr>ws_recv := RecvTop, ws_recvChan := ws_recvChan s @ [m]\<rparr>)"
| fail: "ws_recv s = Reading c \<Longrightarrow> recv_step s (put_err (s\<lparr>ws_recv := RecvFailed c\<rparr>))"
| old_conn: "ws_recv s = RecvFailed c \<Longrightarrow> \<not> ws_locked s \<Longrightarrow> disconnect c s = None \<Longrightarrow>
    recv_step s (s\<lparr>ws_recv := RecvWaiting\<rparr>)"
| disconnects: "ws_recv s = RecvFailed c \<Longrightarrow> \<not> ws_locked s \<Longrightarrow> disconnect c s = Some s' \<Longrightarrow>
    recv_step s (s'\<lparr>ws_recv := RecvNotifying\<rparr>)"
| notifies: "ws_recv s = RecvNotifying \<Longrightarrow>
    recv_step s ((notifyConnect False s)\<lparr>ws_recv := RecvWaiting, ws_locked := False\<rparr>)"

inductive send_step :: "wsclient \<Rightarrow> wsclient \<Rightarrow> bool" where
  ready: "ws_send s = SendStarting \<Longrightarrow> send_step s (s\<lparr>ws_send := SendWaiting\<rparr>)"
| take_reply: "ws_send s = SendIdle \<Longrightarrow> ws_conn s = Some c \<Longrightarrow> ws_sendChan s = r # rs \<Longrightarrow>
    send_step s (s\<lparr>ws_send := Writing c r, ws_sendChan := rs\<rparr>)"
| wrote: "ws_send s = Writing c r \<Longrightarrow> c \<notin> set (ws_closes s) \<Longrightarrow>
    send_step s (s\<lparr>ws_send := SendIdle, ws_sent := ws_sent s @ [r]\<rparr>)"
| fail: "ws_send s = Writing c r \<Longrightarrow> send_step s (put_err (s\<lparr>ws_send := SendFailed c\<rparr>))"
| old_conn: "ws_send s = SendFailed c \<Longrightarrow> \<not> ws_locked s \<Longrightarrow> disconnect c s = None \<Longrightarrow>
    send_step s (s\<lparr>ws_send := SendWaiting\<rparr>)"
| disconnects: "ws_send s = SendFailed c \<Longrightarrow> \<not> ws_locked s \<Longrightarrow> disconnect c s = Some s' \<Longrightarrow>
    send_step s (s'\<lparr>ws_send := SendNotifying\<rparr>)"
| notifies: "ws_send s = SendNotifying \<Longrightarrow>
    send_step s ((notifyConnect False s)\<lparr>ws_send := SendWaiting, ws_locked := False\<rparr>)"

text \<open>The calls of \<open>Connect\<close>; a failed attempt changes nothing that the others see.\<close>

inductive connect_step :: "wsclient \<Rightarrow> wsclient \<Rightarrow> bool" where
  dialed: "ws_connects s = xs @ Dialing # ys \<Longrightarrow> \<not> ws_locked s \<Longrightarrow>
    connect_step s ((ConnectOnce s)\<lparr>ws_connects := xs @ StartsRecv # ys\<rparr>)"
| starts_recv: "ws_connects s = xs @ StartsRecv # ys \<Longrightarrow>
    connect_step s ((recvSync_Start s)\<lparr>ws_connects := xs @ StartsSend # ys\<rparr>)"
| starts_send: "ws_connects s = xs @ StartsSend # ys \<Longrightarrow>
    connect_step s ((sendSync_Start s)\<lparr>ws_connects := xs @ Notifies # ys\<rparr>)"
| returns: "ws_connects s = xs @ Notifies # ys \<Longrightarrow>
    connect_step s ((notifyConnect True s)\<lparr>ws_connects := xs @ ys\<rparr>)"

text \<open>
  The agent: it reads the connect channel and calls \<open>Connect\<close> when the connection was lost, takes
  commands, puts replies and reads errors; the command \<open>Reconnect\<close> calls \<open>Disconnect\<close>.
\<close>

inductive agent_step :: "wsclient \<Rightarrow> wsclient \<Rightarrow> bool" where
  lost: "ws_connectChan s = False # rest \<Longrightarrow>
    agent_step s (s\<lparr>ws_connectChan := rest, ws_connects := ws_connects s @ [Dialing]\<rparr>)"
| connected: "ws_connectChan s = True # rest \<Longrightarrow> agent_step s (s\<lparr>ws_connectChan := rest\<rparr>)"
| take_cmd: "ws_recvChan s = m # rest \<Longrightarrow>
    agent_step s (s\<lparr>ws_recvChan := rest, ws_delivered := ws_delivered s @ [m]\<rparr>)"
| reply: "length (ws_sendChan s) < SEND_BUFFER_SIZE \<Longrightarrow> agent_step s (s\<lparr>ws_sendChan := ws_sendChan s @ [r]\<rparr>)"
| err: "0 < ws_errChan s \<Longrightarrow> agent_step s (s\<lparr>ws_errChan := ws_errChan s - 1\<rparr>)"
| reconnect: "\<not> ws_locked s \<Longrightarrow> ws_conn s = Some c \<Longrightarrow> disconnect c s = Some s' \<Longrightarrow>
    agent_step s (s'\<lparr>ws_manual := True\<rparr>)"
| reconnect_notifies: "ws_manual s \<Longrightarrow>
    agent_step s ((notifyConnect False s)\<lparr>ws_manual := False, ws_locked := False\<rparr>)"

inductive ws_step :: "wsclient \<Rightarrow> unit \<Rightarrow> wsclient \<Rightarrow> bool" where
  recv: "recv_step s s' \<Longrightarrow> ws_step s () s'"
| send: "send_step s s' \<Longrightarrow> ws_step s () s'"
| connect: "connect_step s s' \<Longrightarrow> ws_step s () s'"
| agent: "agent_step s s' \<Longrightarrow> ws_step s () s'"

inductive_cases recv_stepE: "recv_step s s'"
inductive_cases send_stepE: "send_step s s'"
inductive_cases connect_stepE: "connect_step s s'"
inductive_cases agent_stepE: "agent_step s s'"
inductive_cases ws_stepE: "ws_step s u s'"

lemmas ws_elims = ws_stepE recv_stepE send_stepE connect_stepE agent_stepE

section \<open>One connection at a time\<close>

text \<open>
  The right to connect is a token: it is the connection itself, a call of \<open>Connect\<close> that dials, or
  a notification about the loss of the connection that is on its way to the agent.
\<close>

definition ws_token :: "wsclient \<Rightarrow> nat" where
  "ws_token s =
     (if ws_connected s then 1 else 0) + count_list (ws_connects s) Dialing + count_list (ws_connectChan s) False
     + (if ws_recv s = RecvNotifying then 1 else 0) + (if ws_send s = SendNotifying then 1 else 0)
     + (if ws_manual s then 1 else 0)"

definition recv_held :: "wsclient \<Rightarrow> Cmd list" where
  "recv_held s = (case ws_recv s of RecvHolds m \<Rightarrow> [m] | _ \<Rightarrow> [])"

definition ws_bounds :: "wsclient \<Rightarrow> bool" where
  "ws_bounds s \<longleftrightarrow> length (ws_connectChan s) \<le> 1 \<and> ws_errChan s \<le> 2
     \<and> length (ws_recvChan s) \<le> RECV_BUFFER_SIZE \<and> length (ws_sendChan s) \<le> SEND_BUFFER_SIZE"

definition ws_order :: "wsclient \<Rightarrow> bool" where
  "ws_order s \<longleftrightarrow> ws_received s = ws_delivered s @ ws_recvChan s @ recv_held s"

text \<open>Each connection is closed once and before the next one is dialed.\<close>

definition ws_conns :: "wsclient \<Rightarrow> bool" where
  "ws_conns s \<longleftrightarrow>
     ws_token s \<le> 1
     \<and> (ws_locked s \<longleftrightarrow> ws_recv s = RecvNotifying \<or> ws_send s = SendNotifying \<or> ws_manual s)
     \<and> ws_conn s = (if ws_dialed s = 0 then None else Some (ws_dialed s - 1))
     \<and> (ws_connected s \<longrightarrow> 0 < ws_dialed s)
     \<and> ws_closes s = [0..<(if ws_connected s then ws_dialed s - 1 else ws_dialed s)]"

lemma count_list_replace [simp]:
  "count_list (xs @ x # ys) y = count_list xs y + (if x = y then 1 else 0) + count_list ys y"
  by simp

lemmas ws_ops = ConnectOnce_def disconnect_def notifyConnect_def put_err_def recvSync_Start_def sendSync_Start_def

lemma ws_bounds_step: "ws_bounds s \<Longrightarrow> ws_step s u s' \<Longrightarrow> ws_bounds s'"
  by (elim ws_elims) (auto simp: ws_bounds_def ws_ops split: if_splits)

lemma ws_order_step: "ws_order s \<Longrightarrow> ws_step s u s' \<Longrightarrow> ws_order s'"
  by (elim ws_elims) (auto simp: ws_order_def recv_held_def ws_ops split: if_splits recv_pc.splits)

lemma upt_snoc_pred [simp]: "0 < n \<Longrightarrow> [0..<n - Suc 0] @ [n - Suc 0] = [0..<n]"
  by (cases n) simp_all

lemma ws_conns_step: "ws_conns s \<Longrightarrow> ws_step s u s' \<Longrightarrow> ws_conns s'"
  by (elim ws_elims) (auto simp: ws_conns_def ws_token_def ws_ops split: if_splits)

definition ws_inv :: "wsclient \<Rightarrow> bool" where
  "ws_inv s \<longleftrightarrow> ws_bounds s \<and> ws_order s \<and> ws_conns s"

interpretation wsi: step_invariant "\<lambda>s. s = ws_start" ws_step ws_inv
proof
  show "ws_inv s" if "s = ws_start" for s
    using that by (simp add: ws_inv_def ws_bounds_def ws_order_def recv_held_def ws_conns_def ws_token_def ws_start_def)
  show "ws_inv s'" if "ws_inv s" "ws_step s u s'" for s u s'
    using that ws_bounds_step ws_order_step ws_conns_step unfolding ws_inv_def by blast
qed

text \<open>
  C26: the client has one connection at a time. Whatever fails and whenever, each connection is
  closed exactly once and before the next one is dialed, the current one is never closed while the
  client counts as connected, no two calls of \<open>Connect\<close> dial and none dials while there is a
  connection; commands reach the agent in the order in which they were received, none lost; and the
  channels keep their capacities.
\<close>

theorem ws_one_connection:
  assumes "reachable (\<lambda>s. s = ws_start) ws_step s"
  shows "ws_closes s = [0..<(if ws_connected s then ws_dialed s - 1 else ws_dialed s)]
    \<and> (ws_connected s \<longrightarrow> ws_conn s = Some (ws_dialed s - 1) \<and> ws_dialed s - 1 \<notin> set (ws_closes s))
    \<and> count_list (ws_connects s) Dialing + (if ws_connected s then 1 else 0) \<le> 1
    \<and> ws_received s = ws_delivered s @ ws_recvChan s @ recv_held s
    \<and> ws_bounds s"
  using wsi.reachable_inv [OF assms]
  by (auto simp: ws_inv_def ws_order_def ws_conns_def ws_token_def)

section \<open>Reconnecting\<close>

definition ws_reaches :: "wsclient \<Rightarrow> wsclient \<Rightarrow> bool" where
  "ws_reaches = (\<lambda>s s'. ws_step s () s')\<^sup>*\<^sup>*"

lemma ws_reaches_step: "ws_step s () s' \<Longrightarrow> ws_reaches s' t \<Longrightarrow> ws_reaches s t"
  unfolding ws_reaches_def by (rule converse_rtranclp_into_rtranclp)

lemma ws_reaches_refl [simp]: "ws_reaches s s"
  by (simp add: ws_reaches_def)

lemma ws_inv_reaches: "ws_reaches s s' \<Longrightarrow> ws_inv s \<Longrightarrow> ws_inv s'"
  unfolding ws_reaches_def by (induction rule: rtranclp_induct) (auto intro: wsi.inv_step)

text \<open>Without the token nothing connects any more.\<close>

lemma ws_token_lost_step: "ws_token s = 0 \<Longrightarrow> ws_step s u s' \<Longrightarrow> ws_token s' = 0"
  by (elim ws_elims) (auto simp: ws_token_def ws_ops split: if_splits)

lemma ws_token_lost: "ws_reaches s s' \<Longrightarrow> ws_token s = 0 \<Longrightarrow> \<not> ws_connected s'"
proof -
  assume "ws_reaches s s'" "ws_token s = 0"
  then have "ws_token s' = 0"
    unfolding ws_reaches_def by (induction rule: rtranclp_induct) (auto intro: ws_token_lost_step)
  then show "\<not> ws_connected s'" by (auto simp: ws_token_def)
qed

lemma ws_dial:
  assumes "ws_inv s" "Dialing \<in> set (ws_connects s)"
  shows "\<exists>s'. ws_reaches s s' \<and> ws_connected s'"
proof -
  obtain xs ys where xy: "ws_connects s = xs @ Dialing # ys" using assms(2) by (meson split_list)
  moreover have "\<not> ws_locked s"
    using assms(1) xy by (auto simp: ws_inv_def ws_conns_def ws_token_def split: if_splits)
  ultimately have "ws_step s () ((ConnectOnce s)\<lparr>ws_connects := xs @ StartsRecv # ys\<rparr>)"
    by (intro ws_step.connect connect_step.dialed)
  from ws_reaches_step [OF this ws_reaches_refl] show ?thesis
    by (intro exI [of _ "(ConnectOnce s)\<lparr>ws_connects := xs @ StartsRecv # ys\<rparr>"]) (simp add: ConnectOnce_def)
qed

lemma ws_told:
  assumes "ws_inv s" "ws_connectChan s = [False]"
  shows "\<exists>s'. ws_reaches s s' \<and> ws_connected s'"
proof -
  let ?t = "s\<lparr>ws_connectChan := [], ws_connects := ws_connects s @ [Dialing]\<rparr>"
  have step: "ws_step s () ?t" using assms(2) by (intro ws_step.agent agent_step.lost)
  from ws_dial [of ?t] wsi.inv_step [OF assms(1) step] ws_reaches_step [OF step] show ?thesis by auto
qed

text \<open>A goroutine that notifies the agent of the loss, once the channel is empty.\<close>

lemma ws_notifier:
  assumes "ws_inv s" "ws_connectChan s = []" "ws_recv s = RecvNotifying \<or> ws_send s = SendNotifying \<or> ws_manual s"
  shows "\<exists>s'. ws_reaches s s' \<and> ws_connected s'"
proof -
  obtain t where step: "ws_step s () t" "ws_connectChan t = [False]"
    using assms(3)
  proof (elim disjE)
    assume "ws_recv s = RecvNotifying"
    from that [OF ws_step.recv [OF recv_step.notifies [OF this]]] assms(2) show ?thesis by (simp add: notifyConnect_def)
  next
    assume "ws_send s = SendNotifying"
    from that [OF ws_step.send [OF send_step.notifies [OF this]]] assms(2) show ?thesis by (simp add: notifyConnect_def)
  next
    assume "ws_manual s"
    from that [OF ws_step.agent [OF agent_step.reconnect_notifies [OF this]]] assms(2) show ?thesis by (simp add: notifyConnect_def)
  qed
  from ws_told [OF wsi.inv_step [OF assms(1) step(1)] step(2)] ws_reaches_step [OF step(1)] show ?thesis by blast
qed

lemma ws_can_connect:
  assumes inv: "ws_inv s" and token: "ws_token s = 1"
  shows "\<exists>s'. ws_reaches s s' \<and> ws_connected s'"
proof -
  consider "ws_connected s" | "Dialing \<in> set (ws_connects s)" | "False \<in> set (ws_connectChan s)"
    | (notifier) "ws_recv s = RecvNotifying \<or> ws_send s = SendNotifying \<or> ws_manual s" "False \<notin> set (ws_connectChan s)"
    using token by (fastforce simp: ws_token_def count_list_0_iff split: if_splits)
  then show ?thesis
  proof cases
    case 1
    then show ?thesis using ws_reaches_refl by blast
  next
    case 2
    with inv show ?thesis by (rule ws_dial)
  next
    case 3
    moreover have "length (ws_connectChan s) \<le> 1" using inv by (simp add: ws_inv_def ws_bounds_def)
    ultimately have "ws_connectChan s = [False]" by (cases "ws_connectChan s") auto
    with inv show ?thesis by (rule ws_told)
  next
    case notifier
    show ?thesis
    proof (cases "ws_connectChan s")
      case Nil
      with inv notifier show ?thesis by (intro ws_notifier)
    next
      case (Cons b rest)
      with notifier(2) have b: "b = True" by auto
      have rest: "rest = []" using inv Cons by (simp add: ws_inv_def ws_bounds_def)
      have step: "ws_step s () (s\<lparr>ws_connectChan := []\<rparr>)"
        using Cons b rest by (intro ws_step.agent agent_step.connected) simp
      from ws_notifier [OF wsi.inv_step [OF inv step]] notifier(1) ws_reaches_step [OF step] show ?thesis by auto
    qed
  qed
qed

text \<open>
  The client may give up for ever. In every reachable state it either can still get a
  connection, and then exactly one party holds the right to connect, or it never will: this happens,
  and the reason is a notification that \<open>notifyConnect\<close> dropped because the agent had not yet read the
  previous one for twenty seconds; nobody calls \<open>Connect\<close> then.
\<close>

theorem ws_may_give_up:
  "(\<exists>s. reachable (\<lambda>s. s = ws_start) ws_step s \<and> ws_connectChan s = [True] \<and> (\<forall>s'. ws_reaches s s' \<longrightarrow> \<not> ws_connected s'))
   \<and> (\<forall>s. reachable (\<lambda>s. s = ws_start) ws_step s \<longrightarrow>
        ((\<exists>s'. ws_reaches s s' \<and> ws_connected s') \<longleftrightarrow> ws_token s = 1))"
proof
  let ?r = "reachable (\<lambda>s. s = ws_start) ws_step"
  note move = reachable.move [where step = ws_step, OF _ ws_step.recv] reachable.move [where step = ws_step, OF _ ws_step.connect]
  define s1 where "s1 = ws_start\<lparr>ws_recv := RecvWaiting\<rparr>"
  define s2 where "s2 = (ConnectOnce s1)\<lparr>ws_connects := [] @ StartsRecv # []\<rparr>"
  define s3 where "s3 = (recvSync_Start s2)\<lparr>ws_connects := [] @ StartsSend # []\<rparr>"
  define s4 where "s4 = (sendSync_Start s3)\<lparr>ws_connects := [] @ Notifies # []\<rparr>"
  define s5 where "s5 = (notifyConnect True s4)\<lparr>ws_connects := [] @ []\<rparr>"
  define s6 where "s6 = s5\<lparr>ws_recv := Reading 0\<rparr>"
  define s7 where "s7 = put_err (s6\<lparr>ws_recv := RecvFailed 0\<rparr>)"
  define s8 where "s8 = (the (disconnect 0 s7))\<lparr>ws_recv := RecvNotifying\<rparr>"
  define s9 where "s9 = (notifyConnect False s8)\<lparr>ws_recv := RecvWaiting, ws_locked := False\<rparr>"
  note defs = s1_def s2_def s3_def s4_def s5_def s6_def s7_def s8_def s9_def ws_start_def ws_ops
  have "?r ws_start" by (rule reachable.start) (rule refl)
  then have "?r s1" by (rule move(1)) (simp only: s1_def, rule recv_step.ready, simp add: ws_start_def)
  then have "?r s2" by (rule move(2)) (simp only: s2_def, rule connect_step.dialed, simp_all add: defs)
  then have "?r s3" by (rule move(2)) (simp only: s3_def, rule connect_step.starts_recv, simp add: defs)
  then have "?r s4" by (rule move(2)) (simp only: s4_def, rule connect_step.starts_send, simp add: defs)
  then have "?r s5" by (rule move(2)) (simp only: s5_def, rule connect_step.returns, simp add: defs)
  then have "?r s6" by (rule move(1)) (simp only: s6_def, rule recv_step.read, simp_all add: defs)
  then have "?r s7" by (rule move(1)) (simp only: s7_def, rule recv_step.fail, simp add: s6_def)
  then have "?r s8" by (rule move(1)) (simp only: s8_def, rule recv_step.disconnects [of _ 0], simp_all add: defs)
  then have "?r s9" by (rule move(1)) (simp only: s9_def, rule recv_step.notifies, simp add: s8_def)
  moreover have "ws_token s9 = 0" "ws_connectChan s9 = [True]" by (simp_all add: ws_token_def defs)
  ultimately show "\<exists>s. ?r s \<and> ws_connectChan s = [True] \<and> (\<forall>s'. ws_reaches s s' \<longrightarrow> \<not> ws_connected s')"
    using ws_token_lost by (intro exI [of _ s9]) blast
next
  show "\<forall>s. reachable (\<lambda>s. s = ws_start) ws_step s \<longrightarrow>
        ((\<exists>s'. ws_reaches s s' \<and> ws_connected s') \<longleftrightarrow> ws_token s = 1)"
  proof (intro allI impI)
    fix s
    assume "reachable (\<lambda>s. s = ws_start) ws_step s"
    then have inv: "ws_inv s" by (rule wsi.reachable_inv)
    then have "ws_token s \<le> 1" by (simp add: ws_inv_def ws_conns_def)
    then consider "ws_token s = 0" | "ws_token s = 1" by linarith
    then show "(\<exists>s'. ws_reaches s s' \<and> ws_connected s') \<longleftrightarrow> ws_token s = 1"
      using ws_token_lost ws_can_connect [OF inv] by cases auto
  qed
qed

theorem ws_may_give_up_witness:
  "\<exists>s'. ws_reaches ws_start s' \<and> ws_connected s'"
proof -
  have "reachable (\<lambda>s. s = ws_start) ws_step ws_start" by (rule reachable.start) (rule refl)
  moreover have "ws_token ws_start = 1" by (simp add: ws_token_def ws_start_def)
  ultimately show ?thesis using ws_may_give_up by blast
qed

theorem ws_one_connection_witness:
  "let s = (ConnectOnce ws_start)\<lparr>ws_connects := [] @ StartsRecv # []\<rparr>
   in ws_connected s \<and> ws_conn s = Some 0 \<and> ws_closes s = [] \<and> ws_bounds s"
proof -
  let ?s = "(ConnectOnce ws_start)\<lparr>ws_connects := [] @ StartsRecv # []\<rparr>"
  have c: "connect_step ws_start ?s" by (rule connect_step.dialed) (simp_all add: ws_start_def)
  have r: "reachable (\<lambda>s. s = ws_start) ws_step ws_start" by (rule reachable.start) (rule refl)
  have "reachable (\<lambda>s. s = ws_start) ws_step ?s" by (rule reachable.move [OF r ws_step.connect [OF c]])
  from ws_one_connection [OF this] show ?thesis by (simp add: ConnectOnce_def ws_start_def)
qed

section \<open>A start that is missed\<close>

text \<open>
  \<open>Connect\<close> starts the receiving goroutine without waiting for it. One that is not yet at its
  \<open>select\<close> misses the start, and then the client is connected and receives nothing.
\<close>

definition ws_deaf :: "wsclient \<Rightarrow> bool" where
  "ws_deaf s \<longleftrightarrow> ws_recv s \<in> {RecvStarting, RecvWaiting}
     \<and> StartsRecv \<notin> set (ws_connects s)"

lemma ws_deaf_step:
  "ws_deaf s \<Longrightarrow> ws_connected s \<Longrightarrow> ws_token s \<le> 1 \<Longrightarrow> ws_step s u s' \<Longrightarrow> ws_deaf s'"
  by (elim ws_elims) (auto simp: ws_deaf_def ws_token_def ws_ops split: if_splits)

lemma ws_deaf_while_connected:
  assumes "(\<lambda>s s'. ws_step s () s' \<and> ws_connected s)\<^sup>*\<^sup>* s s'" "ws_inv s" "ws_deaf s"
  shows "ws_deaf s' \<and> ws_received s' = ws_received s"
proof -
  have "ws_inv s' \<and> ws_deaf s' \<and> ws_received s' = ws_received s"
    using assms
  proof (induction rule: rtranclp_induct)
    case (step t u)
    then have t: "ws_inv t" "ws_deaf t" "ws_received t = ws_received s" and tu: "ws_step t () u" "ws_connected t" by auto
    have "ws_token t \<le> 1" using t(1) by (simp add: ws_inv_def ws_conns_def)
    with t tu have "ws_deaf u" by (blast intro: ws_deaf_step)
    moreover have "ws_received u = ws_received t"
      using tu(1) t(2) by (elim ws_elims) (auto simp: ws_deaf_def ws_ops split: if_splits)
    ultimately show ?case using t wsi.inv_step [OF t(1) tu(1)] by simp
  qed auto
  then show ?thesis by simp
qed

lemma ws_deaf_reachable: "\<exists>s. reachable (\<lambda>s. s = ws_start) ws_step s \<and> ws_connected s \<and> ws_deaf s"
proof -
  let ?r = "reachable (\<lambda>s. s = ws_start) ws_step"
  note move = reachable.move [where step = ws_step, OF _ ws_step.connect]
  define s1 where "s1 = (ConnectOnce ws_start)\<lparr>ws_connects := [] @ StartsRecv # []\<rparr>"
  define s2 where "s2 = (recvSync_Start s1)\<lparr>ws_connects := [] @ StartsSend # []\<rparr>"
  have "?r ws_start" by (rule reachable.start) (rule refl)
  then have "?r s1" by (rule move) (simp only: s1_def, rule connect_step.dialed, simp_all add: ws_start_def)
  then have "?r s2" by (rule move) (simp only: s2_def, rule connect_step.starts_recv, simp add: s1_def)
  moreover have "ws_connected s2" "ws_deaf s2"
    by (simp_all add: ws_deaf_def s2_def s1_def ws_start_def ws_ops)
  ultimately show ?thesis by blast
qed

section \<open>Dialing\<close>

text \<open>
  \<open>dialTimeout\<close>. The address is its scheme and its host; \<open>dial\<close> gives the error of dialing the host,
  with TLS and without verification or not, \<open>client\<close> that of the websocket handshake with the given
  headers, and \<open>b64\<close> is the base-64 encoding of the standard library.
\<close>

datatype dial_error = BadWebSocketLocation | BadWebSocketOrigin | DialBadScheme | DialFailed string | HandshakeFailed string

definition auth_header :: "(string \<Rightarrow> string) \<Rightarrow> ConnectionConfig \<Rightarrow> (string \<times> string) list" where
  "auth_header b64 cc =
     (if cc_Password cc = '''' then []
      else [(''Authorization'', ''Basic '' @ b64 (cc_User cc @ '':'' @ cc_Password cc))])"

definition skips_verification :: "string \<Rightarrow> ConnectionConfig \<Rightarrow> bool" where
  "skips_verification host cc \<longleftrightarrow> host = ''localhost:8443'' \<or> cc_UseInsecureSSL cc"

definition dialTimeout ::
  "(bool \<times> bool \<Rightarrow> string \<Rightarrow> string option) \<Rightarrow> ((string \<times> string) list \<Rightarrow> string option) \<Rightarrow> (string \<Rightarrow> string)
     \<Rightarrow> (string \<times> string) option \<Rightarrow> string option \<Rightarrow> (string \<times> string) list \<Rightarrow> ConnectionConfig
     \<Rightarrow> dial_error + (string \<times> string) list" where
  "dialTimeout dial client b64 location origin headers cc =
     (case location of
        None \<Rightarrow> Inl BadWebSocketLocation
      | Some (scheme, host) \<Rightarrow>
          if origin = None then Inl BadWebSocketOrigin
          else
            (case (if scheme = ''ws'' then Inr (dial (False, False) host)
                   else if scheme = ''wss'' then Inr (dial (True, skips_verification host cc) host)
                   else Inl ()) of
               Inl _ \<Rightarrow> Inl DialBadScheme
             | Inr (Some e) \<Rightarrow> Inl (DialFailed e)
             | Inr None \<Rightarrow>
                 (let headers = headers @ auth_header b64 cc
                  in case client headers of Some e \<Rightarrow> Inl (HandshakeFailed e) | None \<Rightarrow> Inr headers)))"

text \<open>Certificates are checked for every TLS host unless the configuration says otherwise, one test host apart.\<close>

lemma dialTimeout_verified:
  assumes "dialTimeout dial client b64 (Some (''wss'', host)) (Some origin) headers cc = Inr hs"
    and "\<not> cc_UseInsecureSSL cc" and "host \<noteq> ''localhost:8443''"
  shows "dial (True, False) host = None"
  using assms by (auto simp: dialTimeout_def skips_verification_def Let_def split: option.splits)

text \<open>
  A websocket link that the API connector has prepared is never refused for its scheme, and names a
  port that can be dialled.
\<close>

lemma prepared_link_dials:
  assumes "prepared a u v" and "ul_Scheme u \<in> {''ws'', ''wss''}"
  shows "dialTimeout dial client b64 (Some (ul_Scheme v, ul_Host v)) (Some origin) headers (GetConnectionConfig a) \<noteq> Inl DialBadScheme"
    and "CHR '':'' \<in> set (ul_Host v)"
    and "ssl a \<Longrightarrow> ul_Scheme v = ''wss''"
proof -
  have s: "ul_Scheme v = ''ws'' \<and> \<not> ssl a \<or> ul_Scheme v = ''wss''"
    using assms by (cases "ssl a") (auto simp: prepared_def)
  then show "dialTimeout dial client b64 (Some (ul_Scheme v, ul_Host v)) (Some origin) headers (GetConnectionConfig a) \<noteq> Inl DialBadScheme"
    by (auto simp: dialTimeout_def Let_def split: option.splits)
  show "CHR '':'' \<in> set (ul_Host v)" using s assms(1) by (auto simp: prepared_def)
  show "ul_Scheme v = ''wss''" if "ssl a" using s that by blast
qed

section \<open>Deadlines\<close>

text \<open>
  Sending and receiving one message: the deadline of the connection for the call, \<open>timeout\<close> seconds after
  the time \<open>now\<close> in nanoseconds or none, and what is set when the call returns. \<open>io\<close> is the call of the websocket library,
  which gets the connection with its deadline.
\<close>

record deadlines =
  dl_read :: "int option"
  dl_write :: "int option"

definition deadline_for :: "u64 \<Rightarrow> int \<Rightarrow> int option" where
  "deadline_for timeout now = (if timeout > 0 then Some (now + uint timeout * 1000000000) else None)"

definition ws_sendJSON :: "(deadlines \<Rightarrow> 'r) \<Rightarrow> u64 \<Rightarrow> int \<Rightarrow> deadlines \<Rightarrow> deadlines \<times> 'r" where
  "ws_sendJSON io timeout now c =
     (if timeout > 0 then
        (let c = c\<lparr>dl_write := deadline_for timeout now\<rparr> in (c\<lparr>dl_write := None\<rparr>, io c))
      else (let c = c\<lparr>dl_write := None\<rparr> in (c, io c)))"

definition ws_sendBytes :: "(deadlines \<Rightarrow> 'r) \<Rightarrow> u64 \<Rightarrow> int \<Rightarrow> deadlines \<Rightarrow> deadlines \<times> 'r" where
  "ws_sendBytes io timeout now c =
     (let c = (if timeout > 0 then c\<lparr>dl_write := deadline_for timeout now\<rparr> else c\<lparr>dl_write := None\<rparr>)
      in (c\<lparr>dl_write := None\<rparr>, io c))"

definition ws_recv_msg :: "(deadlines \<Rightarrow> 'r) \<Rightarrow> u64 \<Rightarrow> int \<Rightarrow> deadlines \<Rightarrow> deadlines \<times> 'r" where
  "ws_recv_msg io timeout now c =
     (if timeout > 0 then
        (let c = c\<lparr>dl_read := deadline_for timeout now\<rparr> in (c\<lparr>dl_read := None\<rparr>, io c))
      else (let c = c\<lparr>dl_read := None\<rparr> in (c, io c)))"

text \<open>
  A call never runs under the deadline of an earlier one and leaves none behind for a later one, and
  sending does not disturb a receive that is waiting.
\<close>

lemma deadlines_cleared:
  "ws_sendJSON io timeout now c = (c\<lparr>dl_write := None\<rparr>, io (c\<lparr>dl_write := deadline_for timeout now\<rparr>))"
  "ws_sendBytes io timeout now c = (c\<lparr>dl_write := None\<rparr>, io (c\<lparr>dl_write := deadline_for timeout now\<rparr>))"
  "ws_recv_msg io timeout now c = (c\<lparr>dl_read := None\<rparr>, io (c\<lparr>dl_read := deadline_for timeout now\<rparr>))"
  by (simp_all add: ws_sendJSON_def ws_sendBytes_def ws_recv_msg_def deadline_for_def Let_def)

end
