(* ===== verification/MySQLConn.thy ===== *)
theory MySQLConn
  imports Mrms Sys
begin

text \<open>
  The MySQL connection of \<open>mysql/mysql.go\<close> and \<open>mysql/error.go\<close>, which the services reach the server
  through: opening and closing the handle, setting and verifying global variables, reading typed
  variables and the uptime, the version constraints and the distribution. The driver and the server
  are parameters. The last section composes the connection with the restart checker.
\<close>

section \<open>Errors\<close>

text \<open>
  An error of the server with its number, one of the \<open>net\<close> package with its operation, cause, address
  and full text, and any other error with its text.
\<close>

datatype sql_error = MySQLError nat string | OpError string string string string | OtherError string

definition ErrNotConnected :: sql_error where "ErrNotConnected = OtherError ''not connected''"
definition ErrNoRows :: sql_error where "ErrNoRows = OtherError ''sql: no rows in result set''"
definition ErrScan :: sql_error where "ErrScan = OtherError ''sql: Scan error''"
definition ErrDBClosed :: sql_error where "ErrDBClosed = OtherError ''sql: database is closed''"

definition MySQLErrorCode :: "sql_error \<Rightarrow> nat" where
  "MySQLErrorCode err = (case err of MySQLError number _ \<Rightarrow> number | _ \<Rightarrow> 0)"

definition ER_SPECIFIC_ACCESS_DENIED_ERROR :: nat where "ER_SPECIFIC_ACCESS_DENIED_ERROR = 1227"
definition ER_SYNTAX_ERROR :: nat where "ER_SYNTAX_ERROR = 1064"
definition ER_USER_DENIED :: nat where "ER_USER_DENIED = 1142"

text \<open>
  The text of an error, as its \<open>Error\<close> method of the driver and of the \<open>net\<close> package prints it, and
  \<open>FormatError\<close>, which prints a failed dial as the cause and the address.
\<close>

definition error_text :: "sql_error \<Rightarrow> string" where
  "error_text err =
     (case err of
        MySQLError number msg \<Rightarrow> ''Error '' @ string_of_nat number @ '': '' @ msg
      | OpError op e addr full \<Rightarrow> full
      | OtherError msg \<Rightarrow> msg)"

definition FormatError :: "sql_error \<Rightarrow> string" where
  "FormatError err =
     (case err of
        OpError op e addr full \<Rightarrow> if op = ''dial'' then e @ '': '' @ addr else error_text err
      | _ \<Rightarrow> error_text err)"

section \<open>The connection and the driver\<close>

text \<open>
  What the driver and the server do: the error of \<open>sql.Open\<close> for a DSN, the answer to a ping, the
  effect of a statement, and the only row of a query, a value or NULL for each column.
\<close>

record 's driver =
  dr_open :: "string \<Rightarrow> sql_error option"
  dr_ping :: "'s \<Rightarrow> sql_error option"
  dr_exec :: "string \<Rightarrow> 's \<Rightarrow> 's \<times> sql_error option"
  dr_row :: "string \<Rightarrow> 's \<Rightarrow> sql_error + string option list"
  dr_hide :: "string \<Rightarrow> string"

text \<open>The handles of \<open>sql.Open\<close> that are not closed, the next one, and the state of the server.\<close>

record 's world =
  wo_open :: "nat list"
  wo_next :: nat
  wo_server :: 's

record Connection =
  co_dsn :: string
  co_conn :: "nat option"
  co_connected :: bool

definition NewConnection :: "string \<Rightarrow> Connection" where
  "NewConnection dsn = \<lparr>co_dsn = dsn, co_conn = None, co_connected = False\<rparr>"

definition cannot_connect :: "'s driver \<Rightarrow> Connection \<Rightarrow> sql_error \<Rightarrow> sql_error" where
  "cannot_connect d c err =
     OtherError (''Cannot connect to MySQL '' @ dr_hide d (co_dsn c) @ '': '' @ FormatError err)"

definition conn_Connect :: "'s driver \<Rightarrow> Connection \<Rightarrow> 's world \<Rightarrow> Connection \<times> 's world \<times> sql_error option" where
  "conn_Connect d c w =
     (if co_connected c then (c, w, None)
      else case dr_open d (co_dsn c) of
             Some err \<Rightarrow> (c, w, Some (cannot_connect d c err))
           | None \<Rightarrow>
               (let db = wo_next w;
                    w = w\<lparr>wo_next := db + 1, wo_open := db # wo_open w\<rparr>
                in case dr_ping d (wo_server w) of
                     Some err \<Rightarrow> (c, w\<lparr>wo_open := removeAll db (wo_open w)\<rparr>, Some (cannot_connect d c err))
                   | None \<Rightarrow> (c\<lparr>co_conn := Some db, co_connected := True\<rparr>, w, None)))"

definition conn_Close :: "Connection \<Rightarrow> 's world \<Rightarrow> Connection \<times> 's world" where
  "conn_Close c w =
     (if \<not> co_connected c then (c, w)
      else (case co_conn c of
              None \<Rightarrow> (c\<lparr>co_connected := False\<rparr>, w)
            | Some db \<Rightarrow> (c\<lparr>co_conn := None, co_connected := False\<rparr>, w\<lparr>wo_open := removeAll db (wo_open w)\<rparr>)))"

text \<open>
  \<open>conn.Exec\<close> and \<open>conn.QueryRow(..).Scan(..)\<close> on the handle of the connection: on a nil handle they
  panic, the value \<open>None\<close>; on a closed one they fail.
\<close>

definition db_exec :: "'s driver \<Rightarrow> Connection \<Rightarrow> string \<Rightarrow> 's world \<Rightarrow> ('s world \<times> sql_error option) option" where
  "db_exec d c q w =
     (case co_conn c of
        None \<Rightarrow> None
      | Some db \<Rightarrow>
          if db \<notin> set (wo_open w) then Some (w, Some ErrDBClosed)
          else (case dr_exec d q (wo_server w) of (s, e) \<Rightarrow> Some (w\<lparr>wo_server := s\<rparr>, e)))"

definition db_row :: "'s driver \<Rightarrow> Connection \<Rightarrow> string \<Rightarrow> 's world \<Rightarrow> (sql_error + string option list) option" where
  "db_row d c q w =
     (case co_conn c of
        None \<Rightarrow> None
      | Some db \<Rightarrow> if db \<notin> set (wo_open w) then Some (Inl ErrDBClosed) else Some (dr_row d q (wo_server w)))"

section \<open>Typed variables\<close>

text \<open>
  The conversions of \<open>Scan\<close> into \<open>sql.NullString\<close>, \<open>sql.NullBool\<close>, \<open>sql.NullInt64\<close> and
  \<open>sql.NullFloat64\<close>: NULL is the invalid value \<open>None\<close>. A floating-point number is a decimal
  fraction, as the server prints one.
\<close>

definition scan_string :: "string option \<Rightarrow> sql_error + string option" where
  "scan_string v = Inr v"

definition ParseBool :: "string \<Rightarrow> bool option" where
  "ParseBool s =
     (if s \<in> {''1'', ''t'', ''T'', ''TRUE'', ''true'', ''True''} then Some True
      else if s \<in> {''0'', ''f'', ''F'', ''FALSE'', ''false'', ''False''} then Some False
      else None)"

definition scan_bool :: "string option \<Rightarrow> sql_error + bool option" where
  "scan_bool v =
     (case v of
        None \<Rightarrow> Inr None
      | Some s \<Rightarrow> (case ParseBool s of None \<Rightarrow> Inl ErrScan | Some b \<Rightarrow> Inr (Some b)))"

definition scan_int :: "string option \<Rightarrow> sql_error + int option" where
  "scan_int v =
     (case v of
        None \<Rightarrow> Inr None
      | Some s \<Rightarrow> (case ParseInt s of Inl _ \<Rightarrow> Inl ErrScan | Inr n \<Rightarrow> Inr (Some n)))"

definition parse_unsigned_decimal :: "string \<Rightarrow> float64 option" where
  "parse_unsigned_decimal s =
     (let whole = takeWhile (\<lambda>c. c \<noteq> CHR ''.'') s;
          frac = drop (length whole + 1) s
      in if whole @ frac = [] then None
         else map_option (\<lambda>n. of_nat n / 10 ^ length frac) (parse_digits 0 (whole @ frac)))"

definition ParseDecimal :: "string \<Rightarrow> float64 option" where
  "ParseDecimal s =
     (if HasPrefix s ''-'' then map_option uminus (parse_unsigned_decimal (tl s))
      else parse_unsigned_decimal (if HasPrefix s ''+'' then tl s else s))"

definition scan_float :: "string option \<Rightarrow> sql_error + float64 option" where
  "scan_float v =
     (case v of
        None \<Rightarrow> Inr None
      | Some s \<Rightarrow> (case ParseDecimal s of None \<Rightarrow> Inl ErrScan | Some x \<Rightarrow> Inr (Some x)))"

text \<open>
  \<open>getGlobalVar\<close>: a variable the server does not know is read as NULL and not as an error.
\<close>

definition getGlobalVar ::
  "(string option \<Rightarrow> sql_error + 'v option) \<Rightarrow> 's driver \<Rightarrow> Connection \<Rightarrow> string \<Rightarrow> 's world \<Rightarrow>
   (sql_error + 'v option) option" where
  "getGlobalVar scan d c varName w =
     (if \<not> co_connected c then Some (Inl ErrNotConnected)
      else case db_row d c (''SELECT @@GLOBAL.'' @ varName) w of
             None \<Rightarrow> None
           | Some (Inl (MySQLError number msg)) \<Rightarrow>
               Some (if number = 1193 then Inr None else Inl (MySQLError number msg))
           | Some (Inl e) \<Rightarrow> Some (Inl e)
           | Some (Inr [v]) \<Rightarrow> Some (scan v)
           | Some (Inr _) \<Rightarrow> Some (Inl ErrScan))"

definition GetGlobalVarString :: "'s driver \<Rightarrow> Connection \<Rightarrow> string \<Rightarrow> 's world \<Rightarrow> (sql_error + string option) option" where
  "GetGlobalVarString = getGlobalVar scan_string"

definition GetGlobalVarBoolean :: "'s driver \<Rightarrow> Connection \<Rightarrow> string \<Rightarrow> 's world \<Rightarrow> (sql_error + bool option) option" where
  "GetGlobalVarBoolean = getGlobalVar scan_bool"

definition GetGlobalVarInteger :: "'s driver \<Rightarrow> Connection \<Rightarrow> string \<Rightarrow> 's world \<Rightarrow> (sql_error + int option) option" where
  "GetGlobalVarInteger = getGlobalVar scan_int"

definition GetGlobalVarNumeric :: "'s driver \<Rightarrow> Connection \<Rightarrow> string \<Rightarrow> 's world \<Rightarrow> (sql_error + float64 option) option" where
  "GetGlobalVarNumeric = getGlobalVar scan_float"

text \<open>The field \<open>String\<close> of a \<open>sql.NullString\<close>.\<close>

definition null_text :: "string option \<Rightarrow> string" where
  "null_text v = (case v of None \<Rightarrow> '''' | Some s \<Rightarrow> s)"

section \<open>Setting and verifying variables\<close>

record Query =
  qy_Set :: string
  qy_Verify :: string
  qy_Expect :: string

abbreviation sq :: string where "sq \<equiv> [CHR 0x27]"

definition not_set :: "string \<Rightarrow> string \<Rightarrow> string \<Rightarrow> sql_error" where
  "not_set name got want =
     OtherError (''Global variable '' @ sq @ name @ sq @ '' is set to '' @ sq @ got @ sq @ '' but needs to be '' @ sq @ want
       @ sq @ ''. Consult the MySQL manual, or contact Percona Support, for help configuring this variable, then try again.'')"

text \<open>The two halves of an iteration of the loop of \<open>Set\<close>.\<close>

definition set_exec :: "'s driver \<Rightarrow> Connection \<Rightarrow> Query \<Rightarrow> 's world \<Rightarrow> ('s world \<times> sql_error option) option" where
  "set_exec d c query w = (if qy_Set query \<noteq> '''' then db_exec d c (qy_Set query) w else Some (w, None))"

definition set_verify :: "'s driver \<Rightarrow> Connection \<Rightarrow> Query \<Rightarrow> 's world \<Rightarrow> sql_error option option" where
  "set_verify d c query w =
     (if qy_Verify query = '''' then Some None
      else case GetGlobalVarString d c (qy_Verify query) w of
             None \<Rightarrow> None
           | Some (Inl e) \<Rightarrow> Some (Some e)
           | Some (Inr got) \<Rightarrow>
               Some (if null_text got \<noteq> qy_Expect query
                     then Some (not_set (qy_Verify query) (null_text got) (qy_Expect query)) else None))"

fun set_loop :: "'s driver \<Rightarrow> Connection \<Rightarrow> Query list \<Rightarrow> 's world \<Rightarrow> ('s world \<times> sql_error option) option" where
  "set_loop d c [] w = Some (w, None)"
| "set_loop d c (query # queries) w =
     (case set_exec d c query w of
        None \<Rightarrow> None
      | Some (w, Some e) \<Rightarrow> Some (w, Some e)
      | Some (w, None) \<Rightarrow>
          (case set_verify d c query w of
             None \<Rightarrow> None
           | Some (Some e) \<Rightarrow> Some (w, Some e)
           | Some None \<Rightarrow> set_loop d c queries w))"

definition conn_Set :: "'s driver \<Rightarrow> Connection \<Rightarrow> Query list \<Rightarrow> 's world \<Rightarrow> ('s world \<times> sql_error option) option" where
  "conn_Set d c queries w =
     (if \<not> co_connected c then Some (w, Some ErrNotConnected) else set_loop d c queries w)"

fun exec_loop :: "'s driver \<Rightarrow> Connection \<Rightarrow> string list \<Rightarrow> 's world \<Rightarrow> ('s world \<times> sql_error option) option" where
  "exec_loop d c [] w = Some (w, None)"
| "exec_loop d c (query # queries) w =
     (case db_exec d c query w of
        None \<Rightarrow> None
      | Some (w, Some e) \<Rightarrow> Some (w, Some e)
      | Some (w, None) \<Rightarrow> exec_loop d c queries w)"

definition conn_Exec :: "'s driver \<Rightarrow> Connection \<Rightarrow> string list \<Rightarrow> 's world \<Rightarrow> ('s world \<times> sql_error option) option" where
  "conn_Exec d c queries w =
     (if \<not> co_connected c then Some (w, Some ErrNotConnected) else exec_loop d c queries w)"

section \<open>Uptime, versions and time zones\<close>

text \<open>The error of the query and of the scan is not looked at: the named result is still zero then.\<close>

definition conn_Uptime :: "'s driver \<Rightarrow> Connection \<Rightarrow> 's world \<Rightarrow> (sql_error + int) option" where
  "conn_Uptime d c w =
     (if \<not> co_connected c then Some (Inl ErrNotConnected)
      else case db_row d c (''SHOW STATUS LIKE '' @ sq @ ''Uptime'' @ sq) w of
             None \<Rightarrow> None
           | Some (Inr [Some varName, Some v]) \<Rightarrow> Some (Inr (case ParseInt v of Inl _ \<Rightarrow> 0 | Inr n \<Rightarrow> n))
           | Some _ \<Rightarrow> Some (Inr 0))"

definition conn_AtLeastVersion ::
  "(string \<Rightarrow> 'v option) \<Rightarrow> (string \<Rightarrow> ('v \<Rightarrow> bool) option) \<Rightarrow>
   's driver \<Rightarrow> Connection \<Rightarrow> string \<Rightarrow> 's world \<Rightarrow> (sql_error + bool) option" where
  "conn_AtLeastVersion newVersion newConstraint d c minVersion w =
     (case GetGlobalVarString d c ''version'' w of
        None \<Rightarrow> None
      | Some (Inl e) \<Rightarrow> Some (Inl e)
      | Some (Inr version) \<Rightarrow>
          Some (case AtLeastVersion newVersion newConstraint (null_text version) minVersion of
                  None \<Rightarrow> Inl (OtherError ''Malformed version'')
                | Some b \<Rightarrow> Inr b))"

definition conn_VersionConstraint ::
  "(string \<Rightarrow> 'v option) \<Rightarrow> (string \<Rightarrow> ('v \<Rightarrow> bool) option) \<Rightarrow>
   's driver \<Rightarrow> Connection \<Rightarrow> string \<Rightarrow> 's world \<Rightarrow> (sql_error + bool) option" where
  "conn_VersionConstraint newVersion newConstraint d c constraint w =
     (case GetGlobalVarString d c ''version'' w of
        None \<Rightarrow> None
      | Some (Inl e) \<Rightarrow> Some (Inl e)
      | Some (Inr version) \<Rightarrow>
          Some (case newVersion (strip_dash (null_text version)) of
                  None \<Rightarrow> Inl (OtherError ''Invalid Semantic Version'')
                | Some v \<Rightarrow>
                    (case newConstraint constraint of
                       None \<Rightarrow> Inl (OtherError ''improper constraint'')
                     | Some check \<Rightarrow> Inr (check v))))"

definition hours_query :: string where
  "hours_query = ''SELECT TIMESTAMPDIFF(HOUR, NOW(), UTC_TIMESTAMP())''"

definition time_zone_query :: string where
  "time_zone_query = ''SET time_zone='' @ sq @ ''SYSTEM'' @ sq"

definition row_hours :: "'s driver \<Rightarrow> Connection \<Rightarrow> 's world \<Rightarrow> (sql_error + i64) option" where
  "row_hours d c w =
     (case db_row d c hours_query w of
        None \<Rightarrow> None
      | Some (Inl e) \<Rightarrow> Some (Inl e)
      | Some (Inr [Some v]) \<Rightarrow> Some (case ParseInt v of Inl _ \<Rightarrow> Inl ErrScan | Inr n \<Rightarrow> Inr (word_of_int n))
      | Some (Inr _) \<Rightarrow> Some (Inl ErrScan))"

definition Hour :: i64 where "Hour = 3600000000000"

text \<open>The body of \<open>UTCOffset\<close> after the connection is made.\<close>

definition utc_offsets :: "'s driver \<Rightarrow> Connection \<Rightarrow> 's world \<Rightarrow> ('s world \<times> (sql_error + i64 \<times> i64)) option" where
  "utc_offsets d c w =
     (case row_hours d c w of
        None \<Rightarrow> None
      | Some (Inl e) \<Rightarrow> Some (w, Inl e)
      | Some (Inr curHours) \<Rightarrow>
          (case db_exec d c time_zone_query w of
             None \<Rightarrow> None
           | Some (w, Some e) \<Rightarrow> Some (w, Inl e)
           | Some (w, None) \<Rightarrow>
               (case row_hours d c w of
                  None \<Rightarrow> None
                | Some (Inl e) \<Rightarrow> Some (w, Inl e)
                | Some (Inr sysHours) \<Rightarrow> Some (w, Inr (curHours * Hour, sysHours * Hour)))))"

definition conn_UTCOffset ::
  "'s driver \<Rightarrow> Connection \<Rightarrow> 's world \<Rightarrow> (Connection \<times> 's world \<times> (sql_error + i64 \<times> i64)) option" where
  "conn_UTCOffset d c w =
     (if co_connected c then map_option (\<lambda>(w, r). (c, w, r)) (utc_offsets d c w)
      else case conn_Connect d c w of
             (c, w, Some e) \<Rightarrow> Some (c, w, Inl e)
           | (c, w, None) \<Rightarrow>
               map_option (\<lambda>(w, r). (case conn_Close c w of (c, w) \<Rightarrow> (c, w, r))) (utc_offsets d c w))"

text \<open>The regular expressions of \<open>Distro\<close> match a text that contains the name in any case.\<close>

fun Contains :: "string \<Rightarrow> string \<Rightarrow> bool" where
  "Contains [] sub = (sub = [])"
| "Contains (c # s) sub = (HasPrefix (c # s) sub \<or> Contains s sub)"

definition Distro :: "string \<Rightarrow> string" where
  "Distro distro =
     (if Contains (ToLower distro) ''percona server'' then ''Percona Server''
      else if Contains (ToLower distro) ''mariadb'' then ''MariaDB'' else ''MySQL'')"

lemma HasPrefix_append: "HasPrefix s p \<longleftrightarrow> (\<exists>q. s = p @ q)"
  by (induction s p rule: HasPrefix.induct) auto

lemma Contains_iff: "Contains s sub \<longleftrightarrow> (\<exists>p q. s = p @ sub @ q)"
proof (induction s)
  case (Cons c s)
  have "(\<exists>p q. c # s = p @ sub @ q) \<longleftrightarrow> (\<exists>q. c # s = sub @ q) \<or> (\<exists>p q. s = p @ sub @ q)"
    by (metis append_Cons append_Nil neq_Nil_conv list.inject)
  then show ?case using Cons.IH by (simp add: HasPrefix_append)
qed simp

section \<open>The connection object is well formed\<close>

text \<open>
  \<open>connected\<close> tells whether there is a handle, and the handle of the connection is the only one
  open.
\<close>

definition wf_conn :: "Connection \<Rightarrow> 's world \<Rightarrow> bool" where
  "wf_conn c w \<longleftrightarrow>
     (co_connected c \<longleftrightarrow> co_conn c \<noteq> None)
     \<and> wo_open w = (case co_conn c of None \<Rightarrow> [] | Some db \<Rightarrow> [db])"

lemma wf_connE:
  assumes "wf_conn c w"
  obtains (closed) "\<not> co_connected c" "co_conn c = None" "wo_open w = []"
  | (open_db) db where "co_connected c" "co_conn c = Some db" "wo_open w = [db]"
  using assms unfolding wf_conn_def by (cases "co_conn c") auto

lemma db_exec_wf:
  assumes "wf_conn c w" and "co_connected c"
  shows "db_exec d c q w =
    Some (w\<lparr>wo_server := fst (dr_exec d q (wo_server w))\<rparr>, snd (dr_exec d q (wo_server w)))"
  using assms by (elim wf_connE) (simp_all add: db_exec_def split: prod.splits)

lemma db_row_wf: "wf_conn c w \<Longrightarrow> co_connected c \<Longrightarrow> db_row d c q w = Some (dr_row d q (wo_server w))"
  by (elim wf_connE) (simp_all add: db_row_def)

lemma wf_conn_server [simp]: "wf_conn c (w\<lparr>wo_server := s\<rparr>) = wf_conn c w"
  by (simp add: wf_conn_def)

lemma conn_Connect_wf:
  assumes "wf_conn c w" and "conn_Connect d c w = (c', w', e)"
  shows "wf_conn c' w'" and "wo_server w' = wo_server w" and "e = None \<longleftrightarrow> co_connected c'"
  using assms
  by (elim wf_connE; auto simp: conn_Connect_def wf_conn_def Let_def split: option.splits if_splits)+

lemma conn_Close_wf:
  "wf_conn c w \<Longrightarrow> conn_Close c w = (c', w') \<Longrightarrow>
   wf_conn c' w' \<and> wo_server w' = wo_server w \<and> \<not> co_connected c' \<and> wo_open w' = []"
  by (elim wf_connE) (auto simp: conn_Close_def wf_conn_def)

text \<open>On a well-formed connection a global variable is what the server answers, and a read never panics.\<close>

definition server_var :: "'s driver \<Rightarrow> string \<Rightarrow> 's \<Rightarrow> sql_error + string option" where
  "server_var d name s =
     (case dr_row d (''SELECT @@GLOBAL.'' @ name) s of
        Inl e \<Rightarrow> if MySQLErrorCode e = 1193 then Inr None else Inl e
      | Inr [v] \<Rightarrow> Inr v
      | Inr _ \<Rightarrow> Inl ErrScan)"

lemma GetGlobalVarString_wf:
  "wf_conn c w \<Longrightarrow> co_connected c \<Longrightarrow> GetGlobalVarString d c name w = Some (server_var d name (wo_server w))"
  by (simp add: GetGlobalVarString_def getGlobalVar_def server_var_def db_row_wf scan_string_def MySQLErrorCode_def
      split: sum.splits sql_error.splits list.splits)

text \<open>The loops change nothing of the world but the state of the server, and never panic.\<close>

lemma wf_conn_open: "wo_open w' = wo_open w \<Longrightarrow> wf_conn c w' = wf_conn c w"
  by (simp add: wf_conn_def)

lemma set_exec_wf:
  assumes "wf_conn c w" and "co_connected c"
  shows "\<exists>w' e. set_exec d c q w = Some (w', e) \<and> wo_open w' = wo_open w"
  using assms by (simp add: set_exec_def db_exec_wf)

lemma set_verify_wf:
  "wf_conn c w \<Longrightarrow> co_connected c \<Longrightarrow> \<exists>e. set_verify d c q w = Some e"
  by (simp add: set_verify_def GetGlobalVarString_wf split: sum.splits)

lemma set_loop_wf:
  "wf_conn c w \<Longrightarrow> co_connected c \<Longrightarrow> \<exists>w' e. set_loop d c qs w = Some (w', e) \<and> wo_open w' = wo_open w"
proof (induction qs arbitrary: w)
  case (Cons q qs)
  obtain w' e where e: "set_exec d c q w = Some (w', e)" "wo_open w' = wo_open w"
    using set_exec_wf [OF Cons.prems] by blast
  then have w': "wf_conn c w'" using Cons.prems(1) wf_conn_open by blast
  obtain v where "set_verify d c q w' = Some v" using set_verify_wf [OF w' Cons.prems(2)] by blast
  then show ?case using e Cons.IH [OF w' Cons.prems(2)] by (auto split: option.splits)
qed simp

lemma exec_loop_wf:
  "wf_conn c w \<Longrightarrow> co_connected c \<Longrightarrow> \<exists>w' e. exec_loop d c qs w = Some (w', e) \<and> wo_open w' = wo_open w"
proof (induction qs arbitrary: w)
  case (Cons q qs)
  let ?w = "w\<lparr>wo_server := fst (dr_exec d q (wo_server w))\<rparr>"
  have "wf_conn c ?w" using Cons.prems by simp
  then show ?case using Cons.IH [of ?w] Cons.prems by (auto simp: db_exec_wf split: option.splits)
qed simp

lemma row_hours_wf: "wf_conn c w \<Longrightarrow> co_connected c \<Longrightarrow> \<exists>r. row_hours d c w = Some r"
  by (auto simp: row_hours_def db_row_wf split: sum.splits list.splits option.splits)

lemma utc_offsets_wf:
  assumes "wf_conn c w" and "co_connected c"
  shows "\<exists>w' r. utc_offsets d c w = Some (w', r) \<and> wo_open w' = wo_open w"
proof -
  let ?w = "w\<lparr>wo_server := fst (dr_exec d time_zone_query (wo_server w))\<rparr>"
  obtain r1 r2 where "row_hours d c w = Some r1" "row_hours d c ?w = Some r2"
    using row_hours_wf [OF assms] row_hours_wf [of c ?w] assms by fastforce
  then show ?thesis using db_exec_wf [OF assms, of d time_zone_query]
    by (auto simp: utc_offsets_def split: sum.splits option.splits)
qed

text \<open>The operations of the interface that a client calls one after another.\<close>

datatype conn_op = OpConnect | OpClose | OpSet "Query list" | OpExec "string list" | OpVar string | OpUptime | OpUTCOffset

definition conn_step :: "'s driver \<Rightarrow> conn_op \<Rightarrow> Connection \<times> 's world \<Rightarrow> (Connection \<times> 's world) option" where
  "conn_step d oper = (\<lambda>(c, w).
     case oper of
       OpConnect \<Rightarrow> Some (case conn_Connect d c w of (c, w, _) \<Rightarrow> (c, w))
     | OpClose \<Rightarrow> Some (conn_Close c w)
     | OpSet queries \<Rightarrow> map_option (\<lambda>(w, _). (c, w)) (conn_Set d c queries w)
     | OpExec queries \<Rightarrow> map_option (\<lambda>(w, _). (c, w)) (conn_Exec d c queries w)
     | OpVar name \<Rightarrow> map_option (\<lambda>_. (c, w)) (GetGlobalVarString d c name w)
     | OpUptime \<Rightarrow> map_option (\<lambda>_. (c, w)) (conn_Uptime d c w)
     | OpUTCOffset \<Rightarrow> map_option (\<lambda>(c, w, _). (c, w)) (conn_UTCOffset d c w))"

fun conn_run :: "'s driver \<Rightarrow> conn_op list \<Rightarrow> Connection \<times> 's world \<Rightarrow> (Connection \<times> 's world) option" where
  "conn_run d [] cw = Some cw"
| "conn_run d (oper # opers) cw = Option.bind (conn_step d oper cw) (conn_run d opers)"

lemma conn_UTCOffset_wf:
  assumes "wf_conn c w"
  shows "\<exists>c' w' r. conn_UTCOffset d c w = Some (c', w', r) \<and> wf_conn c' w'"
proof (cases "co_connected c")
  case True
  then show ?thesis using utc_offsets_wf [OF assms, of d] assms wf_conn_open
    by (fastforce simp: conn_UTCOffset_def)
next
  case False
  obtain c1 w1 e where e: "conn_Connect d c w = (c1, w1, e)" by (metis prod_cases3)
  note k = conn_Connect_wf [OF assms e]
  show ?thesis
  proof (cases e)
    case None
    obtain w2 r where u: "utc_offsets d c1 w1 = Some (w2, r)" and o: "wo_open w2 = wo_open w1"
      using utc_offsets_wf [OF k(1)] k(3) None by blast
    obtain c3 w3 where cl: "conn_Close c1 w2 = (c3, w3)" by (metis surj_pair)
    have "wf_conn c3 w3" using conn_Close_wf [OF _ cl] k(1) wf_conn_open [OF o] by blast
    then show ?thesis using False e None u cl by (simp add: conn_UTCOffset_def)
  next
    case (Some x)
    then show ?thesis using False e k(1) by (simp add: conn_UTCOffset_def)
  qed
qed

lemma conn_Uptime_wf: "wf_conn c w \<Longrightarrow> \<exists>r. conn_Uptime d c w = Some r"
  by (cases "co_connected c") (auto simp: conn_Uptime_def db_row_wf split: sum.splits list.splits option.splits)

lemma conn_step_wf:
  assumes "wf_conn c w"
  shows "\<exists>c' w'. conn_step d oper (c, w) = Some (c', w') \<and> wf_conn c' w'"
proof (cases oper)
  case OpConnect
  obtain c1 w1 e where "conn_Connect d c w = (c1, w1, e)" by (metis prod_cases3)
  then show ?thesis using conn_Connect_wf [OF assms] OpConnect by (simp add: conn_step_def)
next
  case OpClose
  then show ?thesis using conn_Close_wf [OF assms] by (cases "conn_Close c w") (simp add: conn_step_def)
next
  case (OpSet qs)
  show ?thesis
  proof (cases "co_connected c")
    case True
    then show ?thesis using set_loop_wf [OF assms True, of d qs] assms wf_conn_open OpSet
      by (fastforce simp: conn_step_def conn_Set_def)
  qed (simp add: conn_step_def conn_Set_def OpSet assms)
next
  case (OpExec qs)
  show ?thesis
  proof (cases "co_connected c")
    case True
    then show ?thesis using exec_loop_wf [OF assms True, of d qs] assms wf_conn_open OpExec
      by (fastforce simp: conn_step_def conn_Exec_def)
  qed (simp add: conn_step_def conn_Exec_def OpExec assms)
next
  case (OpVar name)
  then show ?thesis using GetGlobalVarString_wf [OF assms] assms
    by (cases "co_connected c") (simp_all add: conn_step_def GetGlobalVarString_def getGlobalVar_def)
next
  case OpUptime
  then show ?thesis using conn_Uptime_wf [OF assms, of d] assms by (auto simp: conn_step_def)
next
  case OpUTCOffset
  then show ?thesis using conn_UTCOffset_wf [OF assms, of d] by (auto simp: conn_step_def)
qed

text \<open>
  C28: a connection object stays well formed. Whatever sequence of operations a client calls on a new
  connection, in any order and whatever the server answers, no operation dereferences a nil handle,
  the connection says that it is connected exactly when it has a handle, and no handle is leaked: at
  any time the connection's own handle is the only one open, and none is after \<open>Close\<close>.
\<close>

theorem connection_well_formed:
  assumes "wo_open w = []"
  shows "\<exists>c' w'. conn_run d opers (NewConnection dsn, w) = Some (c', w') \<and> wf_conn c' w'
    \<and> wo_open (snd (conn_Close c' w')) = []"
proof -
  have "\<exists>c' w'. conn_run d opers (c, w) = Some (c', w') \<and> wf_conn c' w'" if "wf_conn c w" for c and w :: "'a world"
    using that
  proof (induction opers arbitrary: c w)
    case (Cons oper opers)
    then show ?case using conn_step_wf [OF Cons.prems, of d oper] by auto
  qed simp
  moreover have "wf_conn (NewConnection dsn) w" using assms by (simp add: wf_conn_def NewConnection_def)
  ultimately obtain c' w' where "conn_run d opers (NewConnection dsn, w) = Some (c', w')" and wf: "wf_conn c' w'"
    by blast
  moreover have "wo_open (snd (conn_Close c' w')) = []"
    using conn_Close_wf [OF wf] by (cases "conn_Close c' w'") simp
  ultimately show ?thesis by blast
qed

text \<open>
  A server for examples: its state is the value of one variable and whether it still answers;
  \<open>SET GLOBAL x=\<close> sets the variable.
\<close>

definition demo_driver :: "(string \<times> bool) driver" where
  "demo_driver =
     \<lparr>dr_open = (\<lambda>_. None), dr_ping = (\<lambda>_. None),
      dr_exec = (\<lambda>q (v, up). if \<not> up then ((v, up), Some (OtherError ''bad connection''))
                             else if HasPrefix q ''SET GLOBAL x='' then ((drop 13 q, up), None)
                             else ((v, up), Some (MySQLError 1064 ''syntax''))),
      dr_row = (\<lambda>q (v, up). if \<not> up then Inl (OtherError ''bad connection'')
                            else if q = ''SELECT @@GLOBAL.x'' then Inr [Some v]
                            else if HasPrefix q ''SHOW STATUS'' then Inr [Some ''Uptime'', Some ''100'']
                            else Inl (MySQLError 1193 ''Unknown system variable'')),
      dr_hide = (\<lambda>dsn. dsn)\<rparr>"

abbreviation demo_world :: "bool \<Rightarrow> (string \<times> bool) world" where
  "demo_world up \<equiv> \<lparr>wo_open = [], wo_next = 0, wo_server = (''1'', up)\<rparr>"

theorem connection_well_formed_witness:
  "\<exists>c' w'. conn_run demo_driver [OpUptime, OpConnect, OpConnect, OpUptime, OpClose, OpUTCOffset] (NewConnection ''dsn'', demo_world True)
     = Some (c', w') \<and> wf_conn c' w' \<and> wo_open (snd (conn_Close c' w')) = []"
  by (rule connection_well_formed) simp

section \<open>Set and verify\<close>

text \<open>What one query does on the server, and the error it has, if any.\<close>

definition query_effect :: "'s driver \<Rightarrow> Query \<Rightarrow> 's \<Rightarrow> 's" where
  "query_effect d q s = (if qy_Set q = '''' then s else fst (dr_exec d (qy_Set q) s))"

definition query_error :: "'s driver \<Rightarrow> Query \<Rightarrow> 's \<Rightarrow> sql_error option" where
  "query_error d q s =
     (case (if qy_Set q = '''' then None else snd (dr_exec d (qy_Set q) s)) of
        Some e \<Rightarrow> Some e
      | None \<Rightarrow>
          if qy_Verify q = '''' then None
          else (case server_var d (qy_Verify q) (query_effect d q s) of
                  Inl e \<Rightarrow> Some e
                | Inr v \<Rightarrow> if null_text v = qy_Expect q then None
                          else Some (not_set (qy_Verify q) (null_text v) (qy_Expect q))))"

definition server_after :: "'s driver \<Rightarrow> Query list \<Rightarrow> 's \<Rightarrow> 's" where
  "server_after d queries s = fold (query_effect d) queries s"

lemma set_loop_Cons_wf:
  assumes "wf_conn c w" and "co_connected c"
  shows "set_loop d c (q # qs) w =
    (let w' = w\<lparr>wo_server := query_effect d q (wo_server w)\<rparr>
     in case query_error d q (wo_server w) of Some e \<Rightarrow> Some (w', Some e) | None \<Rightarrow> set_loop d c qs w')"
proof -
  let ?w = "w\<lparr>wo_server := query_effect d q (wo_server w)\<rparr>"
  have "set_exec d c q w = Some (?w, if qy_Set q = '''' then None else snd (dr_exec d (qy_Set q) (wo_server w)))"
    using db_exec_wf [OF assms] by (simp add: set_exec_def query_effect_def)
  moreover have "GetGlobalVarString d c (qy_Verify q) ?w = Some (server_var d (qy_Verify q) (wo_server ?w))"
    using assms by (intro GetGlobalVarString_wf) simp_all
  ultimately show ?thesis
    by (simp add: query_error_def set_verify_def Let_def split: option.splits sum.splits)
qed

lemma set_loop_exact:
  assumes "wf_conn c w" and "co_connected c"
  shows "\<exists>k \<le> length qs.
    (\<forall>i < k. query_error d (qs ! i) (server_after d (take i qs) (wo_server w)) = None)
    \<and> (if k = length qs then set_loop d c qs w = Some (w\<lparr>wo_server := server_after d qs (wo_server w)\<rparr>, None)
       else query_error d (qs ! k) (server_after d (take k qs) (wo_server w)) \<noteq> None
         \<and> set_loop d c qs w =
             Some (w\<lparr>wo_server := server_after d (take (Suc k) qs) (wo_server w)\<rparr>,
                   query_error d (qs ! k) (server_after d (take k qs) (wo_server w))))"
  using assms
proof (induction qs arbitrary: w)
  case (Cons q qs)
  let ?w = "w\<lparr>wo_server := query_effect d q (wo_server w)\<rparr>"
  show ?case
  proof (cases "query_error d q (wo_server w)")
    case (Some e)
    then show ?thesis using set_loop_Cons_wf [OF Cons.prems, of d q qs]
      by (intro exI [of _ 0]) (simp add: server_after_def Let_def)
  next
    case None
    have "wf_conn c ?w" using Cons.prems by simp
    from Cons.IH [OF this Cons.prems(2)] obtain k where k: "k \<le> length qs"
      "\<forall>i < k. query_error d (qs ! i) (server_after d (take i qs) (wo_server ?w)) = None"
      "if k = length qs then set_loop d c qs ?w = Some (?w\<lparr>wo_server := server_after d qs (wo_server ?w)\<rparr>, None)
       else query_error d (qs ! k) (server_after d (take k qs) (wo_server ?w)) \<noteq> None
         \<and> set_loop d c qs ?w =
             Some (?w\<lparr>wo_server := server_after d (take (Suc k) qs) (wo_server ?w)\<rparr>,
                   query_error d (qs ! k) (server_after d (take k qs) (wo_server ?w)))"
      by blast
    have "\<forall>i < Suc k. query_error d ((q # qs) ! i) (server_after d (take i (q # qs)) (wo_server w)) = None"
    proof (intro allI impI)
      fix i assume "i < Suc k"
      then show "query_error d ((q # qs) ! i) (server_after d (take i (q # qs)) (wo_server w)) = None"
        using None k(2) by (cases i) (simp_all add: server_after_def)
    qed
    then show ?thesis using k(1,3) None set_loop_Cons_wf [OF Cons.prems, of d q qs]
      by (intro exI [of _ "Suc k"]) (auto simp: server_after_def Let_def)
  qed
qed (simp add: server_after_def)

text \<open>
  C29: \<open>Set\<close> stops at the first query that fails. On an open connection it runs the statements in
  order and reads back each variable right after its statement; it succeeds exactly when no query has
  an error in the state that the ones before it left, and then every statement has run. Otherwise
  the statements up to and including the first failing one have run, they are not undone, and the
  error is that query's: the driver's, or the report of the value found and the value wanted. On a
  connection that is not open nothing runs.
\<close>

theorem conn_Set_exact:
  assumes "wf_conn c w"
  shows "if co_connected c then
    \<exists>k \<le> length qs.
      (\<forall>i < k. query_error d (qs ! i) (server_after d (take i qs) (wo_server w)) = None)
      \<and> (if k = length qs then conn_Set d c qs w = Some (w\<lparr>wo_server := server_after d qs (wo_server w)\<rparr>, None)
         else query_error d (qs ! k) (server_after d (take k qs) (wo_server w)) \<noteq> None
           \<and> conn_Set d c qs w =
               Some (w\<lparr>wo_server := server_after d (take (Suc k) qs) (wo_server w)\<rparr>,
                     query_error d (qs ! k) (server_after d (take k qs) (wo_server w))))
    else conn_Set d c qs w = Some (w, Some ErrNotConnected)"
proof (cases "co_connected c")
  case True
  then have "conn_Set d c qs w = set_loop d c qs w" by (simp add: conn_Set_def)
  then show ?thesis using set_loop_exact [OF assms True, of qs d] True by (simp only: if_True)
qed (simp add: conn_Set_def)

definition demo_open :: "Connection" where
  "demo_open = \<lparr>co_dsn = ''dsn'', co_conn = Some 0, co_connected = True\<rparr>"

definition demo_open_world :: "(string \<times> bool) world" where
  "demo_open_world = \<lparr>wo_open = [0], wo_next = 1, wo_server = (''1'', True)\<rparr>"

definition demo_queries :: "Query list" where
  "demo_queries =
    [\<lparr>qy_Set = ''SET GLOBAL x=2'', qy_Verify = ''x'', qy_Expect = ''2''\<rparr>,
     \<lparr>qy_Set = ''SET GLOBAL x=3'', qy_Verify = ''x'', qy_Expect = ''4''\<rparr>,
     \<lparr>qy_Set = ''SET GLOBAL x=5'', qy_Verify = '''', qy_Expect = ''''\<rparr>]"

theorem conn_Set_exact_witness:
  "if co_connected demo_open then
    \<exists>k \<le> length demo_queries.
      (\<forall>i < k. query_error demo_driver (demo_queries ! i)
                  (server_after demo_driver (take i demo_queries) (wo_server demo_open_world)) = None)
      \<and> (if k = length demo_queries
         then conn_Set demo_driver demo_open demo_queries demo_open_world
                = Some (demo_open_world\<lparr>wo_server := server_after demo_driver demo_queries (wo_server demo_open_world)\<rparr>, None)
         else query_error demo_driver (demo_queries ! k)
                  (server_after demo_driver (take k demo_queries) (wo_server demo_open_world)) \<noteq> None
           \<and> conn_Set demo_driver demo_open demo_queries demo_open_world =
               Some (demo_open_world\<lparr>wo_server := server_after demo_driver (take (Suc k) demo_queries) (wo_server demo_open_world)\<rparr>,
                     query_error demo_driver (demo_queries ! k)
                       (server_after demo_driver (take k demo_queries) (wo_server demo_open_world))))
    else conn_Set demo_driver demo_open demo_queries demo_open_world = Some (demo_open_world, Some ErrNotConnected)"
  by (rule conn_Set_exact) (simp add: wf_conn_def demo_open_def demo_open_world_def)

lemma demo_Set:
  "conn_Set demo_driver demo_open demo_queries demo_open_world
     = Some (demo_open_world\<lparr>wo_server := (''3'', True)\<rparr>, Some (not_set ''x'' ''3'' ''4''))"
  by (simp add: conn_Set_def set_exec_def set_verify_def db_exec_def db_row_def GetGlobalVarString_def getGlobalVar_def
      scan_string_def null_text_def demo_driver_def demo_open_def demo_open_world_def demo_queries_def)

text \<open>A variable that the server does not know passes the verification when the empty text is expected.\<close>

lemma set_verify_unknown:
  assumes "wf_conn c w" "co_connected c" "dr_row d (''SELECT @@GLOBAL.'' @ qy_Verify q) (wo_server w) = Inl (MySQLError 1193 msg)"
  shows "set_verify d c q w =
    Some (if qy_Verify q = '''' \<or> qy_Expect q = '''' then None else Some (not_set (qy_Verify q) '''' (qy_Expect q)))"
  using assms by (auto simp: set_verify_def GetGlobalVarString_wf server_var_def MySQLErrorCode_def null_text_def)

text \<open>
  \<open>UTCOffset\<close> leaves the time zone of the session changed: called again on the same open connection,
  it takes the system's offset for the current one.
\<close>

lemma UTCOffset_twice:
  assumes "wf_conn c w" "co_connected c" "conn_UTCOffset d c w = Some (c1, w1, Inr (cur, sys))"
    and "dr_exec d time_zone_query (wo_server w1) = (wo_server w1, None)"
  shows "conn_UTCOffset d c1 w1 = Some (c1, w1, Inr (sys, sys))"
proof -
  let ?w = "w\<lparr>wo_server := fst (dr_exec d time_zone_query (wo_server w))\<rparr>"
  have u: "utc_offsets d c w = Some (w1, Inr (cur, sys))" and c: "c1 = c"
    using assms(2,3) by (auto simp: conn_UTCOffset_def)
  note e = db_exec_wf [OF assms(1,2), of d time_zone_query]
  obtain h1 where h1: "row_hours d c w = Some (Inr h1)"
    using u by (cases "row_hours d c w") (auto simp: utc_offsets_def split: sum.splits)
  obtain h2 where h2: "row_hours d c ?w = Some (Inr h2)" "w1 = ?w" "sys = h2 * Hour"
    using u h1 e by (auto simp: utc_offsets_def split: sum.splits option.splits)
  have "db_exec d c time_zone_query w1 = Some (w1, None)"
    using db_exec_wf [of c w1 d time_zone_query] assms h2(2) by simp
  then have "utc_offsets d c w1 = Some (w1, Inr (sys, sys))" using h2 by (simp add: utc_offsets_def)
  then show ?thesis using assms(2) c by (simp add: conn_UTCOffset_def)
qed

section \<open>The restart checker on a real connection\<close>

text \<open>\<open>Check\<close> of \<open>mrms/checker/mysql.go\<close> with the connection it holds: connect, read the uptime, close.\<close>

definition checker_Check_conn ::
  "'s driver \<Rightarrow> int \<Rightarrow> int \<Rightarrow> Connection \<Rightarrow> 's world \<Rightarrow> checker \<Rightarrow>
   (Connection \<times> 's world \<times> checker \<times> (check_error + bool)) option" where
  "checker_Check_conn d now1 now2 c w m =
     (case conn_Connect d c w of
        (c, w, Some e) \<Rightarrow>
          Some (c, w, checker_Check \<lparr>ce_connectErr = True, ce_uptime = None, ce_now1 = now1, ce_now2 = now2\<rparr> m)
      | (c, w, None) \<Rightarrow>
          (case conn_Uptime d c w of
             None \<Rightarrow> None
           | Some u \<Rightarrow>
               (let uptime = (case u of Inl _ \<Rightarrow> None | Inr n \<Rightarrow> Some n);
                    (c, w) = conn_Close c w
                in Some (c, w, checker_Check \<lparr>ce_connectErr = False, ce_uptime = uptime, ce_now1 = now1, ce_now2 = now2\<rparr> m))))"

text \<open>
  A query that fails is taken for a restart. When the connection is made and then the status
  query fails, the check of an instance whose uptime is known reports no error but a restart, in
  any case and although the server need not have restarted, and forgets the uptime; the check after
  it, at any later time and whatever uptime the server then reports, reports none, so that a real
  restart in between is not noticed. The connection is closed again.
\<close>

theorem uptime_error_is_restart:
  assumes "wf_conn c w" and "\<not> co_connected c"
    and "dr_open d (co_dsn c) = None" and "dr_ping d (wo_server w) = None"
    and "dr_row d (''SHOW STATUS LIKE '' @ sq @ ''Uptime'' @ sq) (wo_server w) = Inl e"
    and "1 \<le> ch_lastUptime m" and "ch_lastUptimeCheck m \<le> now1"
  shows "\<exists>w' m'. checker_Check_conn d now1 now2 c w m = Some (c, w', m', Inr True)
    \<and> wo_open w' = [] \<and> ch_lastUptime m' = 0
    \<and> (\<forall>b t. snd (checker_Check (check_at b t) m') = Inr False)"
proof -
  obtain c1 w1 e1 where c1: "conn_Connect d c w = (c1, w1, e1)" by (metis prod_cases3)
  have conn: "e1 = None" "co_connected c1" "co_dsn c1 = co_dsn c" "co_conn c = None"
    using c1 assms by (auto simp: conn_Connect_def wf_conn_def Let_def)
  note wf1 = conn_Connect_wf [OF assms(1) c1]
  have u: "conn_Uptime d c1 w1 = Some (Inr 0)"
    unfolding conn_Uptime_def db_row_wf [OF wf1(1) conn(2)] wf1(2) assms(5) by (simp add: conn(2))
  obtain c2 w2 where c2: "conn_Close c1 w1 = (c2, w2)" by (metis surj_pair)
  have "c2 = c" "wo_open w2 = []"
    using c2 conn conn_Close_wf [OF wf1(1) c2] assms(2)
    by (auto simp: conn_Close_def split: option.splits if_splits intro: Connection.equality)
  moreover have "unix_sec (ch_lastUptimeCheck m) \<le> unix_sec now1"
    using assms(7) by (simp add: unix_sec_def zdiv_mono1)
  ultimately show ?thesis using assms(6) c1 conn(1) u c2
    by (simp add: checker_Check_conn_def checker_Check_def check_at_def Let_def)
qed

theorem uptime_error_is_restart_witness:
  "\<exists>w' m'. checker_Check_conn (demo_driver\<lparr>dr_row := (\<lambda>_ _. Inl (OtherError ''bad connection''))\<rparr>) 20000000000 20000000000
       (NewConnection ''dsn'') (demo_world True) \<lparr>ch_lastUptime = 100, ch_lastUptimeCheck = 10000000000\<rparr>
     = Some (NewConnection ''dsn'', w', m', Inr True)
    \<and> wo_open w' = [] \<and> ch_lastUptime m' = 0
    \<and> (\<forall>b t. snd (checker_Check (check_at b t) m') = Inr False)"
  by (rule uptime_error_is_restart) (simp_all add: wf_conn_def NewConnection_def demo_driver_def)

section \<open>The variables that are shown\<close>

text \<open>
  \<open>ReadInfoFromShowGlobalStatus\<close> of \<open>qan/analyzer/mysql/config/config.go\<close>: the variables with their
  types, in the order this execution ranges over them, and their values under camel-case names.
\<close>

datatype MySQLVarType = MySQLVarTypeBoolean | MySQLVarTypeString | MySQLVarTypeInteger | MySQLVarTypeNumeric

definition mysqlVars :: "(string \<times> MySQLVarType) list" where
  "mysqlVars =
     [(''log_slow_admin_statements'', MySQLVarTypeBoolean),
      (''log_slow_slave_statements'', MySQLVarTypeBoolean),
      (''log_queries_not_using_indexes'', MySQLVarTypeBoolean),
      (''log_throttle_queries_not_using_indexes'', MySQLVarTypeInteger),
      (''log_output'', MySQLVarTypeString),
      (''log_timestamps'', MySQLVarTypeString),
      (''slow_query_log'', MySQLVarTypeBoolean),
      (''slow_query_log_file'', MySQLVarTypeString),
      (''log_slow_filter'', MySQLVarTypeString),
      (''log_slow_rate_type'', MySQLVarTypeString),
      (''log_slow_rate_limit'', MySQLVarTypeInteger),
      (''log_slow_sp_statements'', MySQLVarTypeBoolean),
      (''log_slow_verbosity'', MySQLVarTypeString),
      (''slow_query_log_use_global_control'', MySQLVarTypeString),
      (''slow_query_log_always_write_time'', MySQLVarTypeNumeric),
      (''performance_schema'', MySQLVarTypeBoolean),
      (''performance_schema_digests_size'', MySQLVarTypeInteger),
      (''performance_schema_max_digest_length'', MySQLVarTypeInteger),
      (''long_query_time'', MySQLVarTypeNumeric),
      (''min_examined_row_limit'', MySQLVarTypeInteger)]"

text \<open>
  \<open>strings.Title\<close> on ASCII text: a character after a separator is made a capital one, and everything
  but letters, digits and the underscore separates.
\<close>

definition is_separator :: "char \<Rightarrow> bool" where
  "is_separator c =
     (let n = of_char c :: nat in \<not> (48 \<le> n \<and> n \<le> 57 \<or> 97 \<le> n \<and> n \<le> 122 \<or> 65 \<le> n \<and> n \<le> 90 \<or> n = 95))"

fun title_from :: "char \<Rightarrow> string \<Rightarrow> string" where
  "title_from prev [] = []"
| "title_from prev (c # s) = (if is_separator prev then to_upper_char c else c) # title_from c s"

definition underscoreToCamelCase :: "string \<Rightarrow> string" where
  "underscoreToCamelCase s =
     filter (\<lambda>c. c \<noteq> CHR '' '') (title_from CHR '' '' (map (\<lambda>c. if c = CHR ''_'' then CHR '' '' else c) (ToLower s)))"

datatype var_info = VBoolInfo bool | VTextInfo string | VIntInfo int | VFloatInfo float64 | VNullInfo | VErrInfo string

definition info_of :: "('v \<Rightarrow> var_info) \<Rightarrow> (sql_error + 'v option) option \<Rightarrow> var_info option" where
  "info_of show_value r =
     (case r of
        None \<Rightarrow> None
      | Some (Inl e) \<Rightarrow> Some (VErrInfo (''unable to read global variable: '' @ error_text e))
      | Some (Inr None) \<Rightarrow> Some VNullInfo
      | Some (Inr (Some v)) \<Rightarrow> Some (show_value v))"

definition read_var :: "'s driver \<Rightarrow> Connection \<Rightarrow> 's world \<Rightarrow> string \<times> MySQLVarType \<Rightarrow> var_info option" where
  "read_var d c w = (\<lambda>(name, t).
     case t of
       MySQLVarTypeNumeric \<Rightarrow> info_of VFloatInfo (GetGlobalVarNumeric d c name w)
     | MySQLVarTypeInteger \<Rightarrow> info_of VIntInfo (GetGlobalVarInteger d c name w)
     | MySQLVarTypeBoolean \<Rightarrow> info_of VBoolInfo (GetGlobalVarBoolean d c name w)
     | MySQLVarTypeString \<Rightarrow> info_of VTextInfo (GetGlobalVarString d c name w))"

fun read_vars :: "'s driver \<Rightarrow> Connection \<Rightarrow> 's world \<Rightarrow> (string \<times> MySQLVarType) list \<Rightarrow> (string \<times> var_info) list \<Rightarrow> (string \<times> var_info) list option" where
  "read_vars d c w [] info = Some info"
| "read_vars d c w (v # vs) info =
     (case read_var d c w v of
        None \<Rightarrow> None
      | Some msg \<Rightarrow> read_vars d c w vs (alist_put (underscoreToCamelCase (fst v)) msg info))"

definition ReadInfoFromShowGlobalStatus :: "'s driver \<Rightarrow> Connection \<Rightarrow> 's world \<Rightarrow> (string \<times> var_info) list option" where
  "ReadInfoFromShowGlobalStatus d c w = read_vars d c w mysqlVars []"

lemma mysqlVars_names:
  "map (underscoreToCamelCase \<circ> fst) (take 10 mysqlVars) =
     [''LogSlowAdminStatements'', ''LogSlowSlaveStatements'', ''LogQueriesNotUsingIndexes'',
       ''LogThrottleQueriesNotUsingIndexes'', ''LogOutput'', ''LogTimestamps'', ''SlowQueryLog'',
       ''SlowQueryLogFile'', ''LogSlowFilter'', ''LogSlowRateType'']"
  "map (underscoreToCamelCase \<circ> fst) (drop 10 mysqlVars) =
     [''LogSlowRateLimit'', ''LogSlowSpStatements'', ''LogSlowVerbosity'', ''SlowQueryLogUseGlobalControl'',
       ''SlowQueryLogAlwaysWriteTime'', ''PerformanceSchema'', ''PerformanceSchemaDigestsSize'',
       ''PerformanceSchemaMaxDigestLength'', ''LongQueryTime'', ''MinExaminedRowLimit'']"
proof -
  show "map (underscoreToCamelCase \<circ> fst) (take 10 mysqlVars) =
     [''LogSlowAdminStatements'', ''LogSlowSlaveStatements'', ''LogQueriesNotUsingIndexes'',
       ''LogThrottleQueriesNotUsingIndexes'', ''LogOutput'', ''LogTimestamps'', ''SlowQueryLog'',
       ''SlowQueryLogFile'', ''LogSlowFilter'', ''LogSlowRateType'']" by code_simp
  show "map (underscoreToCamelCase \<circ> fst) (drop 10 mysqlVars) =
     [''LogSlowRateLimit'', ''LogSlowSpStatements'', ''LogSlowVerbosity'', ''SlowQueryLogUseGlobalControl'',
       ''SlowQueryLogAlwaysWriteTime'', ''PerformanceSchema'', ''PerformanceSchemaDigestsSize'',
       ''PerformanceSchemaMaxDigestLength'', ''LongQueryTime'', ''MinExaminedRowLimit'']" by code_simp
qed

lemma mysqlVars_distinct: "distinct (map (underscoreToCamelCase \<circ> fst) mysqlVars)"
proof -
  have "map (underscoreToCamelCase \<circ> fst) mysqlVars
    = map (underscoreToCamelCase \<circ> fst) (take 10 mysqlVars) @ map (underscoreToCamelCase \<circ> fst) (drop 10 mysqlVars)"
    by (metis append_take_drop_id map_append)
  then show ?thesis by (simp add: mysqlVars_names)
qed

lemma getGlobalVar_wf: "wf_conn c w \<Longrightarrow> \<exists>r. getGlobalVar scan d c name w = Some r"
  by (cases "co_connected c")
    (auto simp: getGlobalVar_def db_row_wf split: sum.splits sql_error.splits list.splits)

lemma info_of_wf: "wf_conn c w \<Longrightarrow> \<exists>msg. info_of f (getGlobalVar scan d c name w) = Some msg"
  using getGlobalVar_wf [of c w scan d name] by (fastforce simp: info_of_def split: option.splits sum.splits)

lemma read_var_wf:
  assumes "wf_conn c w"
  shows "\<exists>msg. read_var d c w v = Some msg"
  by (cases v; cases "snd v")
    (simp_all add: read_var_def GetGlobalVarNumeric_def GetGlobalVarInteger_def GetGlobalVarBoolean_def
      GetGlobalVarString_def info_of_wf [OF assms])

lemma read_vars_exact:
  assumes "wf_conn c w" and "distinct (map (underscoreToCamelCase \<circ> fst) vs)"
  shows "\<exists>res. read_vars d c w vs info = Some res
    \<and> (\<forall>v \<in> set vs. map_of res (underscoreToCamelCase (fst v)) = read_var d c w v)
    \<and> (\<forall>k. k \<notin> set (map (underscoreToCamelCase \<circ> fst) vs) \<longrightarrow> map_of res k = map_of info k)"
  using assms(2)
proof (induction vs arbitrary: info)
  case (Cons v vs)
  obtain msg where msg: "read_var d c w v = Some msg" using read_var_wf [OF assms(1)] by blast
  let ?info = "alist_put (underscoreToCamelCase (fst v)) msg info"
  obtain res where "read_vars d c w vs ?info = Some res"
    "\<forall>v \<in> set vs. map_of res (underscoreToCamelCase (fst v)) = read_var d c w v"
    "\<forall>k. k \<notin> set (map (underscoreToCamelCase \<circ> fst) vs) \<longrightarrow> map_of res k = map_of ?info k"
    using Cons.IH [of ?info] Cons.prems by auto
  then show ?case using msg Cons.prems by (auto simp: image_iff)
qed simp

text \<open>
  Every variable of the list is shown under a name of its own, one that the server does not know or
  cannot read as well, and an open connection is enough for the call to return.
\<close>

lemma ReadInfo_complete:
  assumes "wf_conn c w"
  shows "\<exists>info. ReadInfoFromShowGlobalStatus d c w = Some info
    \<and> (\<forall>v \<in> set mysqlVars. map_of info (underscoreToCamelCase (fst v)) = read_var d c w v)"
  unfolding ReadInfoFromShowGlobalStatus_def
  using read_vars_exact [OF assms mysqlVars_distinct, of d "[]"] by blast

end
