(* ===== verification/TableInfo.thy ===== *)
theory TableInfo
  imports MySQLConn
begin

text \<open>
  The command \<open>TableInfo\<close> of the query service, \<open>query/plugin/mysql/tableinfo/tableinfo.go\<close>: the
  statements \<open>SHOW CREATE TABLE\<close>, \<open>SHOW INDEX\<close> and \<open>SHOW TABLE STATUS\<close> for the tables of a request,
  with the quoting of their names, the scan of the rows into typed fields, and the errors collected
  for each table. What the server answers to a statement is a parameter.
\<close>

section \<open>Quoting\<close>

abbreviation bt :: string where "bt \<equiv> ''`''"

definition escape_char :: "char \<Rightarrow> string" where
  "escape_char c =
     (if c = CHR 0x00 then [CHR 0x5C, CHR ''0'']
      else if c = CHR 0x0A then [CHR 0x5C, CHR ''n'']
      else if c = CHR 0x0D then [CHR 0x5C, CHR ''r'']
      else if c = CHR 0x1A then [CHR 0x5C, CHR ''Z'']
      else if c = CHR 0x27 then [CHR 0x5C, CHR 0x27]
      else if c = CHR 0x22 then [CHR 0x5C, CHR 0x22]
      else if c = CHR 0x5C then [CHR 0x5C, CHR 0x5C]
      else [c])"

definition escapeString :: "string \<Rightarrow> string" where
  "escapeString v = concat (map escape_char v)"

definition ident :: "string \<Rightarrow> string \<Rightarrow> string" where
  "ident db table =
     (let db = (if db \<noteq> '''' then bt @ db @ bt else db);
          table = (if table \<noteq> '''' then bt @ table @ bt else table)
      in if db \<noteq> '''' \<and> table \<noteq> '''' then db @ ''.'' @ table
         else if table \<noteq> '''' then table else db)"

section \<open>Rows\<close>

text \<open>
  A column of a row as the driver gives it: NULL, text, or a time, when the data source asks for
  times. A destination of \<open>Scan\<close> has one of the kinds below.
\<close>

datatype dbval = DNull | DText string | DTime int

datatype kind = KString | KBool | KInt | KNullString | KNullInt | KNullFloat | KNullTime

datatype field =
    VText string | VBool bool | VInt int | VNullText "string option" | VNullInt "int option"
  | VNullFloat "float64 option" | VTime "int option"

fun zero_field :: "kind \<Rightarrow> field" where
  "zero_field KString = VText ''''"
| "zero_field KBool = VBool False"
| "zero_field KInt = VInt 0"
| "zero_field KNullString = VNullText None"
| "zero_field KNullInt = VNullInt None"
| "zero_field KNullFloat = VNullFloat None"
| "zero_field KNullTime = VTime None"

text \<open>
  \<open>None\<close> is the panic of \<open>NullTime.Scan\<close>, which asserts that a value that is not NULL is a time. The
  text of a time is not looked into.
\<close>

definition text_of :: "dbval \<Rightarrow> string option" where
  "text_of v = (case v of DNull \<Rightarrow> None | DText s \<Rightarrow> Some s | DTime t \<Rightarrow> Some ''time'')"

definition scan_field :: "kind \<Rightarrow> dbval \<Rightarrow> (sql_error + field) option" where
  "scan_field k v =
     (case k of
        KString \<Rightarrow> Some (case text_of v of None \<Rightarrow> Inl ErrScan | Some s \<Rightarrow> Inr (VText s))
      | KBool \<Rightarrow> Some (case scan_bool (text_of v) of Inr (Some b) \<Rightarrow> Inr (VBool b) | _ \<Rightarrow> Inl ErrScan)
      | KInt \<Rightarrow> Some (case scan_int (text_of v) of Inr (Some n) \<Rightarrow> Inr (VInt n) | _ \<Rightarrow> Inl ErrScan)
      | KNullString \<Rightarrow> Some (Inr (VNullText (text_of v)))
      | KNullInt \<Rightarrow> Some (case scan_int (text_of v) of Inl e \<Rightarrow> Inl e | Inr n \<Rightarrow> Inr (VNullInt n))
      | KNullFloat \<Rightarrow> Some (case scan_float (text_of v) of Inl e \<Rightarrow> Inl e | Inr x \<Rightarrow> Inr (VNullFloat x))
      | KNullTime \<Rightarrow> (case v of DNull \<Rightarrow> Some (Inr (VTime None)) | DTime t \<Rightarrow> Some (Inr (VTime (Some t))) | DText _ \<Rightarrow> None))"

text \<open>\<open>Scan\<close> wants as many destinations as there are columns and fills them in order.\<close>

fun scan_row :: "kind list \<Rightarrow> dbval list \<Rightarrow> (sql_error + field list) option" where
  "scan_row [] [] = Some (Inr [])"
| "scan_row (k # ks) (v # vs) =
     (if length ks \<noteq> length vs then Some (Inl ErrScan)
      else case scan_field k v of
             None \<Rightarrow> None
           | Some (Inl e) \<Rightarrow> Some (Inl e)
           | Some (Inr f) \<Rightarrow>
               (case scan_row ks vs of
                  None \<Rightarrow> None
                | Some (Inl e) \<Rightarrow> Some (Inl e)
                | Some (Inr fs) \<Rightarrow> Some (Inr (f # fs))))"
| "scan_row _ _ = Some (Inl ErrScan)"

text \<open>
  What the server answers: the row of a query that wants one, and for a query of many rows the
  number of columns, the rows, and the error after the last row.
\<close>

record answers =
  an_row :: "string \<Rightarrow> sql_error + dbval list"
  an_rows :: "string \<Rightarrow> sql_error + nat \<times> dbval list list \<times> sql_error option"

section \<open>The three statements\<close>

definition no_table :: "string \<Rightarrow> string \<Rightarrow> sql_error" where
  "no_table name suffix = OtherError (''table '' @ name @ '' doesn't exist'' @ suffix)"

definition create_kinds :: "kind list" where "create_kinds = [KString, KString]"

definition showCreate :: "answers \<Rightarrow> string \<Rightarrow> sql_error + string" where
  "showCreate an dbTable =
     (case an_row an (''SHOW CREATE TABLE '' @ dbTable) of
        Inl e \<Rightarrow> Inl (if e = ErrNoRows then no_table dbTable '' '' else e)
      | Inr row \<Rightarrow>
          (case scan_row create_kinds row of
             Some (Inr [VText tableName, VText tableDef]) \<Rightarrow> Inr tableDef
           | _ \<Rightarrow> Inl ErrScan))"

text \<open>The fields of \<open>ShowIndexRow\<close> in the order of the columns; the third is \<open>KeyName\<close>.\<close>

type_synonym ShowIndexRow = "field list"

definition index_kinds :: "kind list" where
  "index_kinds =
     [KString, KBool, KString, KInt, KString, KNullString, KNullInt, KNullInt, KNullString, KNullString,
      KString, KNullString, KNullString, KNullString]"

definition KeyName :: "ShowIndexRow \<Rightarrow> string" where
  "KeyName r = (case r ! 2 of VText s \<Rightarrow> s | _ \<Rightarrow> '''')"

definition scan_index_row :: "nat \<Rightarrow> dbval list \<Rightarrow> sql_error + ShowIndexRow" where
  "scan_index_row columns row =
     (let dest = (if columns < length index_kinds then take columns index_kinds else index_kinds)
      in case scan_row dest row of
           Some (Inr fs) \<Rightarrow> Inr (fs @ map zero_field (drop (length dest) index_kinds))
         | Some (Inl e) \<Rightarrow> Inl e
         | None \<Rightarrow> Inl ErrScan)"

text \<open>The body of the loop of \<open>showIndex\<close> after the scan, and the loop.\<close>

type_synonym indexes = "(string \<times> ShowIndexRow list) list"

definition add_index_row :: "ShowIndexRow \<Rightarrow> indexes \<times> string \<Rightarrow> indexes \<times> string" where
  "add_index_row indexRow = (\<lambda>(indexes, prevKeyName).
     let k = KeyName indexRow;
         (indexes, prevKeyName) = (if k \<noteq> prevKeyName then (alist_put k [] indexes, k) else (indexes, prevKeyName));
         old = (case map_of indexes k of None \<Rightarrow> [] | Some rs \<Rightarrow> rs)
     in (alist_put k (old @ [indexRow]) indexes, prevKeyName))"

fun index_loop :: "nat \<Rightarrow> dbval list list \<Rightarrow> indexes \<times> string \<Rightarrow> sql_error + indexes" where
  "index_loop columns [] st = Inr (fst st)"
| "index_loop columns (row # rows) st =
     (case scan_index_row columns row of
        Inl e \<Rightarrow> Inl e
      | Inr indexRow \<Rightarrow> index_loop columns rows (add_index_row indexRow st))"

text \<open>
  \<open>showIndex\<close>. \<open>ErrNoRows\<close> is an error of a scan and not one of \<open>Query\<close>, so that the branch for it, whose
  deferred \<open>Close\<close> would be one of nil rows, is never taken; the model gives it the error it makes.
\<close>

definition showIndex :: "answers \<Rightarrow> string \<Rightarrow> sql_error + indexes" where
  "showIndex an dbTable =
     (case an_rows an (''SHOW INDEX FROM '' @ dbTable) of
        Inl e \<Rightarrow> Inl (if e = ErrNoRows then no_table dbTable '''' else e)
      | Inr (columns, rows, rowsErr) \<Rightarrow>
          (case index_loop columns rows ([], '''') of
             Inl e \<Rightarrow> Inl e
           | Inr indexes \<Rightarrow> (case rowsErr of Some e \<Rightarrow> Inl e | None \<Rightarrow> Inr indexes)))"

definition status_kinds :: "kind list" where
  "status_kinds =
     [KString, KString, KString, KString, KNullInt, KNullInt, KNullInt, KNullInt, KNullInt, KNullInt, KNullInt,
      KNullTime, KNullTime, KNullTime, KNullString, KNullString, KNullString, KNullString]"

definition status_statement :: "string \<Rightarrow> string \<Rightarrow> string" where
  "status_statement db table = ''SHOW TABLE STATUS FROM '' @ db @ '' WHERE Name='' @ sq @ table @ sq"

definition showStatus :: "answers \<Rightarrow> string \<Rightarrow> string \<Rightarrow> (sql_error + field list) option" where
  "showStatus an db table =
     (case an_row an (status_statement db table) of
        Inl e \<Rightarrow> Some (Inl (if e = ErrNoRows then no_table (db @ ''.'' @ table) '''' else e))
      | Inr row \<Rightarrow> scan_row status_kinds row)"

section \<open>The command\<close>

record table_ref =
  tr_Db :: string
  tr_Table :: string

record table_query =
  tq_Create :: "table_ref list"
  tq_Index :: "table_ref list"
  tq_Status :: "table_ref list"

record tinfo =
  ti_Create :: string
  ti_Index :: "indexes option"
  ti_Status :: "field list option"
  ti_Errors :: "string list"

definition empty_tinfo :: tinfo where
  "empty_tinfo = \<lparr>ti_Create = '''', ti_Index = None, ti_Status = None, ti_Errors = []\<rparr>"

type_synonym tresult = "(string \<times> tinfo) list"

definition dbTable :: "table_ref \<Rightarrow> string" where
  "dbTable t = tr_Db t @ ''.'' @ tr_Table t"

definition entry :: "tresult \<Rightarrow> string \<Rightarrow> tinfo" where
  "entry res k = (case map_of res k of None \<Rightarrow> empty_tinfo | Some i \<Rightarrow> i)"

definition create_one :: "answers \<Rightarrow> tresult \<Rightarrow> table_ref \<Rightarrow> tresult" where
  "create_one an res t =
     (let tableInfo = entry res (dbTable t);
          db = escapeString (tr_Db t);
          table = escapeString (tr_Table t)
      in alist_put (dbTable t)
           (case showCreate an (ident db table) of
              Inl err \<Rightarrow>
                tableInfo\<lparr>ti_Errors := ti_Errors tableInfo @
                  [''SHOW CREATE TABLE '' @ tr_Table t @ '': '' @ error_text err]\<rparr>
            | Inr d \<Rightarrow> tableInfo\<lparr>ti_Create := d\<rparr>) res)"

definition index_one :: "answers \<Rightarrow> tresult \<Rightarrow> table_ref \<Rightarrow> tresult" where
  "index_one an res t =
     (let tableInfo = entry res (dbTable t);
          db = escapeString (tr_Db t);
          table = escapeString (tr_Table t)
      in alist_put (dbTable t)
           (case showIndex an (ident db table) of
              Inl err \<Rightarrow>
                tableInfo\<lparr>ti_Errors := ti_Errors tableInfo @
                  [''SHOW INDEX FROM '' @ tr_Db t @ ''.'' @ tr_Table t @ '': '' @ error_text err]\<rparr>
            | Inr indexes \<Rightarrow> tableInfo\<lparr>ti_Index := Some indexes\<rparr>) res)"

definition status_one :: "answers \<Rightarrow> tresult \<Rightarrow> table_ref \<Rightarrow> tresult option" where
  "status_one an res t =
     (let tableInfo = entry res (dbTable t);
          db = escapeString (tr_Db t);
          table = escapeString (tr_Table t)
      in map_option (\<lambda>r. alist_put (dbTable t)
           (case r of
              Inl err \<Rightarrow>
                tableInfo\<lparr>ti_Errors := ti_Errors tableInfo @
                  [''SHOW TABLE STATUS FROM '' @ tr_Db t @ '' WHERE Name='' @ sq @ tr_Table t @ sq @ '': '' @ error_text err]\<rparr>
            | Inr status \<Rightarrow> tableInfo\<lparr>ti_Status := Some status\<rparr>) res)
           (showStatus an (ident db '''') table))"

fun status_loop :: "answers \<Rightarrow> tresult \<Rightarrow> table_ref list \<Rightarrow> tresult option" where
  "status_loop an res [] = Some res"
| "status_loop an res (t # ts) = Option.bind (status_one an res t) (\<lambda>res. status_loop an res ts)"

text \<open>The command itself has no error: those of the statements are in its result.\<close>

definition TableInfo :: "answers \<Rightarrow> table_query \<Rightarrow> tresult option" where
  "TableInfo an tables =
     (let res = foldl (create_one an) [] (tq_Create tables);
          res = foldl (index_one an) res (tq_Index tables)
      in status_loop an res (tq_Status tables))"

section \<open>The keys of a table\<close>

text \<open>
  Rows of one key stand together. The server prints the rows of a key one after another.
\<close>

fun grouped :: "string \<Rightarrow> ShowIndexRow list \<Rightarrow> bool" where
  "grouped prev [] = True"
| "grouped prev (r # rs) =
     ((KeyName r = prev \<or> prev \<notin> KeyName ` set (r # rs)) \<and> grouped (KeyName r) rs)"

definition rows_of_key :: "string \<Rightarrow> ShowIndexRow list \<Rightarrow> ShowIndexRow list" where
  "rows_of_key k rs = filter (\<lambda>r. KeyName r = k) rs"

lemma add_index_row_lookup:
  "map_of (fst (add_index_row r (ix, p))) k =
     (if k = KeyName r
      then Some ((if KeyName r \<noteq> p then [] else (case map_of ix k of None \<Rightarrow> [] | Some rs \<Rightarrow> rs)) @ [r])
      else map_of ix k)"
  "snd (add_index_row r (ix, p)) = KeyName r"
  by (auto simp: add_index_row_def Let_def)

definition index_rows :: "ShowIndexRow list \<Rightarrow> indexes \<times> string \<Rightarrow> indexes \<times> string" where
  "index_rows rs st = fold add_index_row rs st"

lemma index_loop_scan:
  "(\<forall>row \<in> set rows. \<exists>r. scan_index_row n row = Inr r) \<Longrightarrow>
   index_loop n rows st = Inr (fst (index_rows (map (\<lambda>row. projr (scan_index_row n row)) rows) st))"
proof (induction rows arbitrary: st)
  case (Cons row rows)
  then obtain r where "scan_index_row n row = Inr r" by auto
  then show ?case using Cons.IH [of "add_index_row r st"] Cons.prems by (simp add: index_rows_def)
qed (simp add: index_rows_def)

lemma index_rows_other:
  assumes "k \<notin> KeyName ` set rs"
  shows "map_of (fst (index_rows rs (ix, p))) k = map_of ix k"
  using assms
proof (induction rs arbitrary: ix p)
  case (Cons r rs)
  obtain ix' p' where a: "add_index_row r (ix, p) = (ix', p')" by fastforce
  have "map_of ix' k = map_of ix k"
    using add_index_row_lookup(1) [of r ix p k] Cons.prems a by auto
  then show ?case using Cons.IH [of ix' p'] Cons.prems a by (simp add: index_rows_def)
qed (simp add: index_rows_def)

text \<open>
  While the rows of the previous key go on, they are appended to its entry; every other key that
  comes later gets exactly its rows.
\<close>

lemma index_rows_grouped:
  assumes "grouped p rs" and "k \<in> KeyName ` set rs"
  shows "map_of (fst (index_rows rs (ix, p))) k =
    Some ((if k = p then (case map_of ix k of None \<Rightarrow> [] | Some old \<Rightarrow> old) else []) @ rows_of_key k rs)"
  using assms
proof (induction rs arbitrary: ix p)
  case (Cons r rs)
  obtain ix' p' where a: "add_index_row r (ix, p) = (ix', p')" by fastforce
  have p': "p' = KeyName r" using add_index_row_lookup(2) [of r ix p] a by simp
  have look: "map_of ix' k =
     (if k = KeyName r then Some ((if KeyName r \<noteq> p then [] else (case map_of ix k of None \<Rightarrow> [] | Some rs \<Rightarrow> rs)) @ [r])
      else map_of ix k)" for k
    using add_index_row_lookup(1) [of r ix p k] a by simp
  have run: "index_rows (r # rs) (ix, p) = index_rows rs (ix', KeyName r)"
    using a p' by (simp add: index_rows_def)
  have g: "grouped (KeyName r) rs" using Cons.prems by simp
  show ?case
  proof (cases "k \<in> KeyName ` set rs")
    case True
    show ?thesis using Cons.IH [OF g True, of ix'] look [of k] Cons.prems True
      by (auto simp: run rows_of_key_def)
  next
    case False
    then have "k = KeyName r" using Cons.prems by auto
    moreover have "rows_of_key k rs = []" using False by (auto simp: rows_of_key_def filter_empty_conv)
    ultimately show ?thesis using index_rows_other [OF False, of ix' "KeyName r"] look [of k]
      by (auto simp: run rows_of_key_def)
  qed
qed simp

text \<open>
  C30: the keys of a table. When the rows of each key stand together, as the server prints them,
  the map that \<open>showIndex\<close> builds in one pass is the grouping of the rows by key: it has an entry
  exactly for the keys that occur, and the entry of a key holds all of its rows in their order.
\<close>

theorem showIndex_groups:
  assumes "an_rows an (''SHOW INDEX FROM '' @ t) = Inr (n, rows, None)"
    and "map (scan_index_row n) rows = map Inr rs" and "grouped '''' rs"
  shows "\<exists>ix. showIndex an t = Inr ix
    \<and> (\<forall>k. map_of ix k = (if k \<in> KeyName ` set rs then Some (rows_of_key k rs) else None))"
proof -
  have rs: "map (\<lambda>row. projr (scan_index_row n row)) rows = rs"
    using arg_cong [OF assms(2), of "map projr"] by (simp add: comp_def)
  have "\<forall>row \<in> set rows. \<exists>r. scan_index_row n row = Inr r"
    using arg_cong [OF assms(2), of set] by (auto simp: set_eq_iff image_iff)
  then have "showIndex an t = Inr (fst (index_rows rs ([], '''')))"
    using index_loop_scan [of rows n] assms(1) rs by (simp add: showIndex_def)
  then show ?thesis
    using index_rows_grouped [OF assms(3), of _ "[]"] index_rows_other [of _ rs "[]" "''''"] by auto
qed

definition demo_index_row :: "string \<Rightarrow> string \<Rightarrow> dbval list" where
  "demo_index_row key col = map DText [''t'', ''1'', key, ''1'', col, ''A'', ''7'', ''0'', '''', '''', ''BTREE'']"

definition demo_index_field :: "string \<Rightarrow> string \<Rightarrow> ShowIndexRow" where
  "demo_index_field key col =
     [VText ''t'', VBool True, VText key, VInt 1, VText col, VNullText (Some ''A''), VNullInt (Some 7), VNullInt (Some 0),
      VNullText (Some ''''), VNullText (Some ''''), VText ''BTREE'', VNullText None, VNullText None, VNullText None]"

lemma demo_index_scan: "scan_index_row 11 (demo_index_row key col) = Inr (demo_index_field key col)"
  by (simp add: scan_index_row_def demo_index_row_def demo_index_field_def index_kinds_def scan_field_def text_of_def
      scan_bool_def ParseBool_def scan_int_def ParseInt_def parse_unsigned_def check_int64_def is_digit_def digit_val_def
      in_int64_def int64_min_def int64_max_def)

theorem showIndex_groups_witness:
  "\<exists>ix. showIndex \<lparr>an_row = (\<lambda>_. Inl ErrNoRows),
        an_rows = (\<lambda>_. Inr (11, [demo_index_row ''a'' ''x'', demo_index_row ''a'' ''y'', demo_index_row ''b'' ''y''], None))\<rparr> ''`t`'' = Inr ix
    \<and> (\<forall>k. map_of ix k =
          (if k \<in> KeyName ` set [demo_index_field ''a'' ''x'', demo_index_field ''a'' ''y'', demo_index_field ''b'' ''y'']
           then Some (rows_of_key k [demo_index_field ''a'' ''x'', demo_index_field ''a'' ''y'', demo_index_field ''b'' ''y'']) else None))"
  by (rule showIndex_groups [where n = 11 and
        rows = "[demo_index_row ''a'' ''x'', demo_index_row ''a'' ''y'', demo_index_row ''b'' ''y'']"])
    (simp_all add: demo_index_scan KeyName_def demo_index_field_def)

text \<open>Rows that come back to an earlier key replace what the entry held.\<close>

lemma index_rows_not_grouped:
  assumes "KeyName a = KeyName c" and "KeyName a \<noteq> KeyName b"
  shows "map_of (fst (index_rows [a, b, c] ([], ''''))) (KeyName a) = Some [c]"
  using assms by (auto simp: index_rows_def add_index_row_def Let_def)

section \<open>Names in statements\<close>

text \<open>
  How the server reads a text between quotes, from behind the opening quote, and gives its value and
  what follows: backslash escapes and doubled quotes in a string literal, as in the manual's table of
  escape sequences; only doubled backticks in a quoted identifier.
\<close>

definition unescape :: "char \<Rightarrow> string" where
  "unescape e =
     (if e = CHR ''0'' then [CHR 0x00] else if e = CHR ''b'' then [CHR 0x08]
      else if e = CHR ''n'' then [CHR 0x0A] else if e = CHR ''r'' then [CHR 0x0D]
      else if e = CHR ''t'' then [CHR 0x09] else if e = CHR ''Z'' then [CHR 0x1A]
      else if e = CHR ''%'' \<or> e = CHR ''_'' then [CHR 0x5C, e] else [e])"

fun read_literal :: "string \<Rightarrow> (string \<times> string) option" where
  "read_literal [] = None"
| "read_literal [c] = (if c = CHR 0x27 then Some ([], []) else None)"
| "read_literal (c # e # s) =
     (if c = CHR 0x27 then
        (if e = CHR 0x27 then map_option (\<lambda>(v, r). (c # v, r)) (read_literal s) else Some ([], e # s))
      else if c = CHR 0x5C then map_option (\<lambda>(v, r). (unescape e @ v, r)) (read_literal s)
      else map_option (\<lambda>(v, r). (c # v, r)) (read_literal (e # s)))"

fun read_ident :: "string \<Rightarrow> (string \<times> string) option" where
  "read_ident [] = None"
| "read_ident [c] = (if c = CHR ''`'' then Some ([], []) else None)"
| "read_ident (c # e # s) =
     (if c = CHR ''`'' then
        (if e = CHR ''`'' then map_option (\<lambda>(v, r). (c # v, r)) (read_ident s) else Some ([], e # s))
      else map_option (\<lambda>(v, r). (c # v, r)) (read_ident (e # s)))"

definition special :: "char set" where
  "special = {CHR 0x00, CHR 0x0A, CHR 0x0D, CHR 0x1A, CHR 0x27, CHR 0x22, CHR 0x5C}"

lemma escapeString_simps [simp]:
  "escapeString [] = []" "escapeString (c # v) = escape_char c @ escapeString v"
  "escapeString (v @ w) = escapeString v @ escapeString w"
  by (simp_all add: escapeString_def)

lemma escape_char_cases:
  "escape_char c = (if c \<in> special then [CHR 0x5C] @ tl (escape_char c) else [c])"
  by (auto simp: escape_char_def special_def)

lemma read_literal_escape:
  assumes "s \<noteq> []"
  shows "read_literal (escape_char c @ s) = map_option (\<lambda>(v, r). (c # v, r)) (read_literal s)"
  using assms by (cases s) (auto simp: escape_char_def unescape_def)

text \<open>
  A name in a string literal. Whatever characters a table's name has, quotes, backslashes and
  control characters included, the server reads the literal that \<open>showStatus\<close> writes back as exactly
  that name, and what follows the closing quote is left as it is: the name cannot end the literal.
\<close>

theorem escapeString_roundtrip:
  assumes "\<not> HasPrefix rest sq"
  shows "read_literal (escapeString v @ sq @ rest) = Some (v, rest)"
proof (induction v)
  case Nil
  then show ?case using assms by (cases rest) auto
next
  case (Cons c v)
  have "escapeString v @ sq @ rest \<noteq> []" by simp
  then show ?case using Cons read_literal_escape by simp
qed

theorem escapeString_roundtrip_witness:
  "read_literal (escapeString (''it'' @ sq @ ''s a '' @ [CHR 0x5C, CHR 0x0A]) @ sq @ '' LIMIT 1'')
     = Some (''it'' @ sq @ ''s a '' @ [CHR 0x5C, CHR 0x0A], '' LIMIT 1'')"
  by (rule escapeString_roundtrip) simp

lemma read_ident_plain:
  "CHR ''`'' \<notin> set v \<Longrightarrow> \<not> HasPrefix rest bt \<Longrightarrow> read_ident (v @ bt @ rest) = Some (v, rest)"
proof (induction v)
  case Nil
  then show ?case by (cases rest) auto
next
  case (Cons c v)
  obtain e s where s: "v @ bt @ rest = e # s" by (cases "v @ bt @ rest") auto
  moreover have "c \<noteq> CHR ''`''" using Cons.prems by auto
  ultimately show ?case using Cons by simp
qed

lemma backtick_escape: "CHR ''`'' \<in> set (escapeString v) \<longleftrightarrow> CHR ''`'' \<in> set v"
  by (induction v) (auto simp: escape_char_def)

lemma escape_plain: "escapeString v = v \<longleftrightarrow> set v \<inter> special = {}"
proof (induction v)
  case (Cons c v)
  have len: "length v \<le> length (escapeString v)" for v by (induction v) (auto simp: escape_char_def)
  have two: "length (escape_char c) = 2" if "c \<in> special" using that by (auto simp: special_def escape_char_def)
  have "length (escapeString (c # v)) > length (c # v)" if "c \<in> special"
    using two [OF that] len [of v] by simp
  then have "escapeString (c # v) \<noteq> c # v" if "c \<in> special" using that by (metis less_irrefl)
  then show ?case using Cons.IH escape_char_cases [of c] by (cases "c \<in> special") auto
qed simp

lemma escapeString_not_backtick:
  "\<not> HasPrefix b bt \<Longrightarrow> b \<noteq> [] \<Longrightarrow> \<not> HasPrefix (escapeString b @ r) bt"
  by (cases b) (auto simp: escape_char_def)

text \<open>
  A name in backticks is not quoted by \<open>escapeString\<close>. In a quoted identifier the server knows no
  backslash escapes: a name without a backtick is read back as its escaped text, which is the name
  only if it has none of the seven escaped characters. A backtick in the name ends the identifier,
  and the rest of the name is read as a part of the statement.
\<close>

theorem ident_not_quoted:
  assumes "\<not> HasPrefix rest bt"
  shows "(CHR ''`'' \<notin> set v \<longrightarrow>
      read_ident (escapeString v @ bt @ rest) = Some (escapeString v, rest)
      \<and> (escapeString v = v \<longleftrightarrow> set v \<inter> special = {}))
    \<and> (CHR ''`'' \<notin> set a \<and> b \<noteq> [] \<and> \<not> HasPrefix b bt \<longrightarrow>
      read_ident (escapeString (a @ bt @ b) @ bt @ rest) = Some (escapeString a, escapeString b @ bt @ rest))"
proof -
  have "read_ident (escapeString a @ bt @ (escapeString b @ bt @ rest)) = Some (escapeString a, escapeString b @ bt @ rest)"
    if "CHR ''`'' \<notin> set a" "b \<noteq> []" "\<not> HasPrefix b bt"
    using that escapeString_not_backtick [OF that(3,2)] by (intro read_ident_plain) (simp_all add: backtick_escape)
  moreover have "escapeString bt = bt" by (simp add: escape_char_def)
  ultimately show ?thesis using read_ident_plain [OF _ assms] escape_plain by (simp add: backtick_escape)
qed

theorem ident_not_quoted_witness:
  "read_ident (escapeString (''t'' @ bt @ '' WHERE 1 -- '') @ bt @ '' X'') = Some (''t'', '' WHERE 1 -- '' @ bt @ '' X'')
   \<and> read_ident (escapeString ''a-b'' @ bt @ '' X'') = Some (''a-b'', '' X'')"
  using ident_not_quoted [of "'' X''" "''a-b''" "''t''" "'' WHERE 1 -- ''"]
  by (simp add: escape_char_def)

section \<open>What a request gives\<close>

text \<open>The statement for a table, and the errors of the tables that share a key of the result.\<close>

definition quoted :: "table_ref \<Rightarrow> string" where
  "quoted t = ident (escapeString (tr_Db t)) (escapeString (tr_Table t))"

definition create_errors :: "answers \<Rightarrow> string \<Rightarrow> table_ref \<Rightarrow> string list" where
  "create_errors an k t =
     (if dbTable t \<noteq> k then []
      else case showCreate an (quoted t) of
             Inl e \<Rightarrow> [''SHOW CREATE TABLE '' @ tr_Table t @ '': '' @ error_text e] | Inr _ \<Rightarrow> [])"

definition index_errors :: "answers \<Rightarrow> string \<Rightarrow> table_ref \<Rightarrow> string list" where
  "index_errors an k t =
     (if dbTable t \<noteq> k then []
      else case showIndex an (quoted t) of
             Inl e \<Rightarrow> [''SHOW INDEX FROM '' @ tr_Db t @ ''.'' @ tr_Table t @ '': '' @ error_text e] | Inr _ \<Rightarrow> [])"

definition status_errors :: "answers \<Rightarrow> string \<Rightarrow> table_ref \<Rightarrow> string list" where
  "status_errors an k t =
     (if dbTable t \<noteq> k then []
      else case showStatus an (ident (escapeString (tr_Db t)) '''') (escapeString (tr_Table t)) of
             Some (Inl e) \<Rightarrow>
               [''SHOW TABLE STATUS FROM '' @ tr_Db t @ '' WHERE Name='' @ sq @ tr_Table t @ sq @ '': '' @ error_text e]
           | _ \<Rightarrow> [])"

text \<open>The definition of the last table of a key whose statement succeeds.\<close>

definition last_create :: "answers \<Rightarrow> string \<Rightarrow> table_ref list \<Rightarrow> string" where
  "last_create an k ts =
     foldl (\<lambda>d t. if dbTable t \<noteq> k then d else case showCreate an (quoted t) of Inl _ \<Rightarrow> d | Inr d' \<Rightarrow> d') '''' ts"

lemma entry_put [simp]: "entry (alist_put k i res) k' = (if k' = k then i else entry res k')"
  by (simp add: entry_def)

lemma create_one_entry:
  "fst ` set (create_one an res t) = insert (dbTable t) (fst ` set res)"
  "ti_Errors (entry (create_one an res t) k) = ti_Errors (entry res k) @ create_errors an k t"
  "ti_Create (entry (create_one an res t) k) =
     (if dbTable t \<noteq> k then ti_Create (entry res k)
      else case showCreate an (quoted t) of Inl _ \<Rightarrow> ti_Create (entry res k) | Inr d \<Rightarrow> d)"
  by (auto simp: create_one_def create_errors_def quoted_def Let_def split: sum.split)

lemma index_one_entry:
  "fst ` set (index_one an res t) = insert (dbTable t) (fst ` set res)"
  "ti_Errors (entry (index_one an res t) k) = ti_Errors (entry res k) @ index_errors an k t"
  "ti_Create (entry (index_one an res t) k) = ti_Create (entry res k)"
  by (auto simp: index_one_def index_errors_def quoted_def Let_def split: sum.split)

lemma status_one_entry:
  assumes "status_one an res t = Some res'"
  shows "fst ` set res' = insert (dbTable t) (fst ` set res)"
    and "ti_Errors (entry res' k) = ti_Errors (entry res k) @ status_errors an k t"
    and "ti_Create (entry res' k) = ti_Create (entry res k)"
proof -
  obtain z where z: "showStatus an (ident (escapeString (tr_Db t)) '''') (escapeString (tr_Table t)) = Some z"
    using assms by (auto simp: status_one_def Let_def)
  have all: "fst ` set res' = insert (dbTable t) (fst ` set res)
    \<and> ti_Errors (entry res' k) = ti_Errors (entry res k) @ status_errors an k t
    \<and> ti_Create (entry res' k) = ti_Create (entry res k)"
  proof (cases z)
    case (Inl e)
    then show ?thesis using assms z by (clarsimp simp: status_one_def status_errors_def Let_def)
  next
    case (Inr f)
    then show ?thesis using assms z by (clarsimp simp: status_one_def status_errors_def Let_def)
  qed
  show "fst ` set res' = insert (dbTable t) (fst ` set res)" using all by (rule conjunct1)
  show "ti_Errors (entry res' k) = ti_Errors (entry res k) @ status_errors an k t" using all by simp
  show "ti_Create (entry res' k) = ti_Create (entry res k)" using all by simp
qed

lemma create_loop_entry:
  "fst ` set (foldl (create_one an) res ts) = fst ` set res \<union> dbTable ` set ts
   \<and> ti_Errors (entry (foldl (create_one an) res ts) k) = ti_Errors (entry res k) @ concat (map (create_errors an k) ts)
   \<and> ti_Create (entry (foldl (create_one an) res ts) k) =
       foldl (\<lambda>d t. if dbTable t \<noteq> k then d else case showCreate an (quoted t) of Inl _ \<Rightarrow> d | Inr d' \<Rightarrow> d')
         (ti_Create (entry res k)) ts"
proof (induction ts arbitrary: res)
  case (Cons t ts)
  show ?case using Cons.IH [of "create_one an res t"] by (simp add: create_one_entry)
qed simp

lemma index_loop_entry:
  "fst ` set (foldl (index_one an) res ts) = fst ` set res \<union> dbTable ` set ts
   \<and> ti_Errors (entry (foldl (index_one an) res ts) k) = ti_Errors (entry res k) @ concat (map (index_errors an k) ts)
   \<and> ti_Create (entry (foldl (index_one an) res ts) k) = ti_Create (entry res k)"
proof (induction ts arbitrary: res)
  case (Cons t ts)
  show ?case using Cons.IH [of "index_one an res t"] by (simp add: index_one_entry)
qed simp

lemma status_loop_entry:
  "status_loop an res ts = Some res' \<Longrightarrow>
   fst ` set res' = fst ` set res \<union> dbTable ` set ts
   \<and> ti_Errors (entry res' k) = ti_Errors (entry res k) @ concat (map (status_errors an k) ts)
   \<and> ti_Create (entry res' k) = ti_Create (entry res k)"
proof (induction ts arbitrary: res)
  case (Cons t ts)
  then obtain r where r: "status_one an res t = Some r" "status_loop an r ts = Some res'"
    by (auto split: bind_splits)
  then show ?case using Cons.IH [OF r(2)] status_one_entry [OF r(1)] by simp
qed simp

text \<open>
  One failing statement does not spoil the others. The result of a request has an entry for
  every table of it and for no other. The errors of an entry are those of the statements of its
  tables that failed, in the order \<open>CREATE\<close>, \<open>INDEX\<close>, \<open>STATUS\<close> and in the order of the request within
  each, and the definition is that of the last \<open>SHOW CREATE TABLE\<close> that succeeded. The entries are
  named by database, dot and table, so that two tables whose names are cut at different dots share
  one.
\<close>

theorem TableInfo_collects:
  assumes "TableInfo an q = Some res"
  shows "fst ` set res = dbTable ` (set (tq_Create q) \<union> set (tq_Index q) \<union> set (tq_Status q))
    \<and> ti_Errors (entry res k) =
        concat (map (create_errors an k) (tq_Create q)) @ concat (map (index_errors an k) (tq_Index q))
        @ concat (map (status_errors an k) (tq_Status q))
    \<and> ti_Create (entry res k) = last_create an k (tq_Create q)"
proof -
  have "entry [] k = empty_tinfo" by (simp add: entry_def)
  then show ?thesis
    using assms status_loop_entry [of an "foldl (index_one an) (foldl (create_one an) [] (tq_Create q)) (tq_Index q)" "tq_Status q" res k]
      index_loop_entry [of an "foldl (create_one an) [] (tq_Create q)" "tq_Index q" k] create_loop_entry [of an "[]" "tq_Create q" k]
    by (simp add: TableInfo_def empty_tinfo_def last_create_def image_Un Un_assoc)
qed

definition demo_answers :: answers where
  "demo_answers =
     \<lparr>an_row = (\<lambda>q. if q = ''SHOW CREATE TABLE `d`.`t`'' then Inr [DText ''t'', DText ''CREATE TABLE t'']
                   else Inl (MySQLError 1146 ''Table doesn't exist'')),
      an_rows = (\<lambda>q. Inl (MySQLError 1146 ''Table doesn't exist''))\<rparr>"

definition demo_request :: table_query where
  "demo_request =
     \<lparr>tq_Create = [\<lparr>tr_Db = ''d'', tr_Table = ''t''\<rparr>, \<lparr>tr_Db = ''d'', tr_Table = ''u''\<rparr>],
      tq_Index = [\<lparr>tr_Db = ''d'', tr_Table = ''t''\<rparr>], tq_Status = []\<rparr>"

theorem TableInfo_collects_witness:
  "\<exists>res. TableInfo demo_answers demo_request = Some res
    \<and> fst ` set res = {''d.t'', ''d.u''} \<and> ti_Create (entry res ''d.t'') = ''CREATE TABLE t''
    \<and> length (ti_Errors (entry res ''d.t'')) = 1 \<and> length (ti_Errors (entry res ''d.u'')) = 1"
proof -
  obtain res where res: "TableInfo demo_answers demo_request = Some res"
    by (simp add: TableInfo_def demo_request_def)
  note q = TableInfo_collects [OF res]
  let ?t = "\<lparr>tr_Db = ''d'', tr_Table = ''t''\<rparr>" and ?u = "\<lparr>tr_Db = ''d'', tr_Table = ''u''\<rparr>"
  have c: "showCreate demo_answers (quoted ?t) = Inr ''CREATE TABLE t''"
    "showCreate demo_answers (quoted ?u) = Inl (MySQLError 1146 ''Table doesn't exist'')"
    "showIndex demo_answers (quoted ?t) = Inl (MySQLError 1146 ''Table doesn't exist'')"
    by (simp_all add: showCreate_def showIndex_def quoted_def ident_def escape_char_def demo_answers_def create_kinds_def
        scan_field_def text_of_def ErrNoRows_def)
  have "fst ` set res = {''d.t'', ''d.u''}" using q [of "''d.t''"] by (auto simp: demo_request_def dbTable_def)
  moreover have "ti_Create (entry res ''d.t'') = ''CREATE TABLE t''" "length (ti_Errors (entry res ''d.t'')) = 1"
    using q [of "''d.t''"] c
    by (simp_all add: demo_request_def dbTable_def create_errors_def index_errors_def last_create_def)
  moreover have "length (ti_Errors (entry res ''d.u'')) = 1"
    using q [of "''d.u''"] c
    by (simp add: demo_request_def dbTable_def create_errors_def index_errors_def)
  ultimately show ?thesis using res by blast
qed

text \<open>Two tables of different databases that share an entry.\<close>

lemma dbTable_ambiguous:
  "dbTable \<lparr>tr_Db = ''a.b'', tr_Table = ''c''\<rparr> = dbTable \<lparr>tr_Db = ''a'', tr_Table = ''b.c''\<rparr>"
  by (simp add: dbTable_def)

text \<open>
  For a view the server answers \<open>SHOW TABLE STATUS\<close> with NULL in the column \<open>Engine\<close>, which the scan
  into a string refuses.
\<close>

lemma showStatus_of_view:
  "scan_row status_kinds (DText name # DNull # replicate 15 DNull @ [DText ''VIEW'']) = Some (Inl ErrScan)"
  by (simp add: status_kinds_def scan_field_def text_of_def numeral_eq_Suc)

end
