(* ===== verification/GoRegexp.thy ===== *)
theory GoRegexp
  imports Qan_Prelude
begin

text \<open>
  Go's regular expressions as the agent uses them: characters, sequences, alternatives, greedy and
  lazy repetition, groups, anchors and word boundaries, matched from the left with the preference
  of the alternatives as written (leftmost-first), which is how the package \<open>regexp\<close> chooses among the
  matches. The matcher passes the rest of the work on as a continuation.
\<close>

datatype re =
    REps
  | RSet "char \<Rightarrow> bool"
  | RSeq re re
  | RAlt re re
  | RStar bool re
  | RGroup nat re
  | RBegin
  | REnd
  | RWord

text \<open>The character before the position, the text after it, and what the groups matched.\<close>

record mst =
  m_prev :: "char option"
  m_rest :: string
  m_caps :: "nat \<Rightarrow> string"

definition is_word :: "char \<Rightarrow> bool" where
  "is_word c \<longleftrightarrow> is_digit c \<or> c = CHR ''_'' \<or> (97 \<le> (of_char (to_lower_char c) :: nat) \<and> (of_char (to_lower_char c) :: nat) \<le> 122)"

definition at_boundary :: "mst \<Rightarrow> bool" where
  "at_boundary st \<longleftrightarrow>
     (case m_prev st of None \<Rightarrow> False | Some c \<Rightarrow> is_word c) \<noteq> (case m_rest st of [] \<Rightarrow> False | c # _ \<Rightarrow> is_word c)"

definition or_else :: "'a option \<Rightarrow> 'a option \<Rightarrow> 'a option" where
  "or_else a b = (case a of None \<Rightarrow> b | Some x \<Rightarrow> Some x)"

lemma or_else_simps [simp]: "or_else None b = b" "or_else (Some x) b = Some x" "or_else a None = a"
  by (simp_all add: or_else_def split: option.split)

function (sequential) rmatch :: "re \<Rightarrow> mst \<Rightarrow> (mst \<Rightarrow> 'a option) \<Rightarrow> 'a option" where
  "rmatch REps st k = k st"
| "rmatch (RSet p) st k =
     (case m_rest st of
        [] \<Rightarrow> None
      | c # s \<Rightarrow> if p c then k (st\<lparr>m_prev := Some c, m_rest := s\<rparr>) else None)"
| "rmatch (RSeq a b) st k = rmatch a st (\<lambda>st'. rmatch b st' k)"
| "rmatch (RAlt a b) st k = or_else (rmatch a st k) (rmatch b st k)"
| "rmatch (RStar greedy r) st k =
     (if greedy
      then or_else (rmatch r st (\<lambda>st'. if length (m_rest st') < length (m_rest st) then rmatch (RStar greedy r) st' k else None)) (k st)
      else or_else (k st) (rmatch r st (\<lambda>st'. if length (m_rest st') < length (m_rest st) then rmatch (RStar greedy r) st' k else None)))"
| "rmatch (RGroup n r) st k =
     rmatch r st (\<lambda>st'. k (st'\<lparr>m_caps := (m_caps st')(n := take (length (m_rest st) - length (m_rest st')) (m_rest st))\<rparr>))"
| "rmatch RBegin st k = (if m_prev st = None then k st else None)"
| "rmatch REnd st k = (if m_rest st = [] then k st else None)"
| "rmatch RWord st k = (if at_boundary st then k st else None)"
  by pat_completeness auto

termination
  by (relation "measures [\<lambda>(r, st, k). size r, \<lambda>(r, st, k). length (m_rest st)]") auto

text \<open>The usual abbreviations. A literal of a pattern with the flag \<open>(?i)\<close> ignores case.\<close>

definition re_space :: re where "re_space = RSet is_space"
definition re_dot :: re where "re_dot = RSet (\<lambda>c. c \<noteq> CHR 0x0A)"
definition re_digit :: re where "re_digit = RSet is_digit"
definition re_opt :: "re \<Rightarrow> re" where "re_opt r = RAlt r REps"
definition re_plus :: "re \<Rightarrow> re" where "re_plus r = RSeq r (RStar True r)"

fun re_seq :: "re list \<Rightarrow> re" where
  "re_seq [] = REps"
| "re_seq [r] = r"
| "re_seq (r # rs) = RSeq r (re_seq rs)"

definition re_char :: "char \<Rightarrow> re" where
  "re_char x = RSet (\<lambda>c. to_lower_char c = to_lower_char x)"

definition re_lit :: "string \<Rightarrow> re" where "re_lit w = re_seq (map re_char w)"

text \<open>
  \<open>FindStringSubmatch\<close>: the groups of the match that begins first; a group that took no part is
  empty. \<open>None\<close> is the nil slice.
\<close>

fun find_from :: "re \<Rightarrow> char option \<Rightarrow> string \<Rightarrow> (nat \<Rightarrow> string) option" where
  "find_from r p [] = rmatch r \<lparr>m_prev = p, m_rest = [], m_caps = (\<lambda>_. [])\<rparr> (\<lambda>st. Some (m_caps st))"
| "find_from r p (c # s) =
     or_else (rmatch r \<lparr>m_prev = p, m_rest = c # s, m_caps = (\<lambda>_. [])\<rparr> (\<lambda>st. Some (m_caps st)))
       (find_from r (Some c) s)"

definition FindStringSubmatch :: "re \<Rightarrow> string \<Rightarrow> (nat \<Rightarrow> string) option" where
  "FindStringSubmatch r s = find_from r None s"

section \<open>Lemmas\<close>

definition here :: "char option \<Rightarrow> string \<Rightarrow> (nat \<Rightarrow> string) \<Rightarrow> mst" where
  "here p s caps = \<lparr>m_prev = p, m_rest = s, m_caps = caps\<rparr>"

lemma here_simps [simp]:
  "m_prev (here p s g) = p" "m_rest (here p s g) = s" "m_caps (here p s g) = g"
  "(here p s g)\<lparr>m_prev := p'\<rparr> = here p' s g" "(here p s g)\<lparr>m_rest := s'\<rparr> = here p s' g" "(here p s g)\<lparr>m_caps := g'\<rparr> = here p s g'"
  by (simp_all add: here_def)

lemma find_from_anchored: "find_from (RSeq RBegin r) (Some p) s = None"
  by (induction s arbitrary: p) simp_all

lemma FindStringSubmatch_anchored:
  "FindStringSubmatch (RSeq RBegin r) s = rmatch r (here None s (\<lambda>_. [])) (\<lambda>st. Some (m_caps st))"
  by (cases s) (simp_all add: FindStringSubmatch_def find_from_anchored here_def)

lemma rmatch_group_here [simp]:
  "rmatch (RGroup n r) (here p s g) k =
     rmatch r (here p s g) (\<lambda>st'. k (st'\<lparr>m_caps := (m_caps st')(n := take (length s - length (m_rest st')) s)\<rparr>))"
  by simp

declare rmatch.simps(5,6) [simp del]

text \<open>A star over one character: greedy and lazy.\<close>

lemma star_greedy:
  "rmatch (RStar True (RSet P)) (here p [] g) k = k (here p [] g)"
  "rmatch (RStar True (RSet P)) (here p (c # s) g) k =
     (if P c then or_else (rmatch (RStar True (RSet P)) (here (Some c) s g) k) (k (here p (c # s) g)) else k (here p (c # s) g))"
  by (simp_all add: rmatch.simps(5) [of True])

lemma star_lazy:
  "rmatch (RStar False (RSet P)) (here p [] g) k = k (here p [] g)"
  "rmatch (RStar False (RSet P)) (here p (c # s) g) k =
     or_else (k (here p (c # s) g)) (if P c then rmatch (RStar False (RSet P)) (here (Some c) s g) k else None)"
  by (simp_all add: rmatch.simps(5) [of False])

lemma rmatch_lit_Cons: "rmatch (re_lit (c # w)) st k = rmatch (re_char c) st (\<lambda>st'. rmatch (re_lit w) st' k)"
  by (cases w) (simp_all add: re_lit_def)

lemma rmatch_lit:
  assumes "map to_lower_char v = map to_lower_char w"
  shows "rmatch (re_lit w) (here p (v @ s) g) k = k (here (if v = [] then p else Some (last v)) s g)"
  using assms
proof (induction w arbitrary: v p)
  case Nil
  then show ?case by (simp add: re_lit_def)
next
  case (Cons c w)
  then obtain x v' where "v = x # v'" "to_lower_char x = to_lower_char c" "map to_lower_char v' = map to_lower_char w"
    by (cases v) auto
  then show ?case using Cons.IH [of v' "Some x"] by (simp add: rmatch_lit_Cons re_char_def)
qed

lemma rmatch_lit_mismatch:
  "to_lower_char c \<noteq> to_lower_char x \<Longrightarrow> rmatch (re_lit (x # w)) (here p (c # s) g) k = None"
  by (simp add: rmatch_lit_Cons re_char_def)

lemma rmatch_lit_empty: "rmatch (re_lit (x # w)) (here p [] g) k = None"
  by (simp add: rmatch_lit_Cons re_char_def)

text \<open>A lazy star passes over the characters at which the rest of the pattern does not match.\<close>

lemma rmatch_lazy_dot:
  assumes "CHR 0x0A \<notin> set v" and "\<And>u w q. v = u @ w \<Longrightarrow> w \<noteq> [] \<Longrightarrow> k (here q (w @ s) g) = None"
  shows "rmatch (RStar False re_dot) (here p (v @ s) g) k =
    rmatch (RStar False re_dot) (here (if v = [] then p else Some (last v)) s g) k"
  using assms
proof (induction v arbitrary: p)
  case (Cons c v)
  have "k (here p ((c # v) @ s) g) = None" using Cons.prems(2) [of "[]" "c # v"] by simp
  moreover have "k (here q (w @ s) g) = None" if "v = u @ w" "w \<noteq> []" for u w q
    using Cons.prems(2) [of "c # u" w] that by simp
  ultimately show ?case using Cons.IH [of "Some c"] Cons.prems(1) by (auto simp: re_dot_def star_lazy)
qed simp

lemma rmatch_lazy_dot_now:
  "k (here p s g) = Some y \<Longrightarrow> rmatch (RStar False re_dot) (here p s g) k = Some y"
  by (cases s) (simp_all add: re_dot_def star_lazy)

text \<open>White space that ends where other text begins.\<close>

lemma rmatch_spaces:
  assumes "\<forall>c \<in> set sp. is_space c" and "s = [] \<or> \<not> is_space (hd s)" and "sp \<noteq> []"
    and "\<And>u w q. sp = u @ w \<Longrightarrow> w \<noteq> [] \<Longrightarrow> u \<noteq> [] \<Longrightarrow> k (here q (w @ s) g) = None"
  shows "rmatch (re_plus re_space) (here p (sp @ s) g) k = k (here (Some (last sp)) s g)"
proof -
  have star: "rmatch (RStar True re_space) (here p (sp' @ s) g) k = k (here (if sp' = [] then p else Some (last sp')) s g)"
    if "sp = u @ sp'" "u \<noteq> []" for u sp' p
    using that
  proof (induction sp' arbitrary: u p)
    case Nil
    then show ?case using assms(2) by (cases s) (auto simp: re_space_def star_greedy)
  next
    case (Cons c sp')
    have "k (here p (c # sp' @ s) g) = None" using assms(4) [of u "c # sp'" p] Cons.prems by simp
    moreover have "is_space c" using assms(1) Cons.prems by simp
    ultimately show ?case using Cons.IH [of "u @ [c]" "Some c"] Cons.prems by (simp add: re_space_def star_greedy)
  qed
  obtain c sp' where sp: "sp = c # sp'" using assms(3) by (cases sp) auto
  then have "is_space c" using assms(1) by simp
  then show ?thesis using star [of "[c]" sp' "Some c"] sp by (simp add: re_plus_def re_space_def)
qed

lemma rmatch_space1:
  assumes "s = [] \<or> \<not> is_space (hd s)"
  shows "rmatch (re_plus re_space) (here p (CHR '' '' # s) g) k = k (here (Some (CHR '' '')) s g)"
proof -
  have "w = []" if "[CHR '' ''] = u @ w" "u \<noteq> []" for u w :: string using that by (cases u) auto
  then show ?thesis using rmatch_spaces [of "[CHR '' '']" s k g p] assms by (auto simp: is_space_def)
qed

lemma rmatch_space_mismatch:
  "s = [] \<or> \<not> is_space (hd s) \<Longrightarrow> rmatch (re_plus re_space) (here p s g) k = None"
  by (cases s) (auto simp: re_plus_def re_space_def)

text \<open>
  A lazy group takes the text up to the first place where the rest of the pattern matches; it stays
  empty when that is at once.
\<close>

lemma rmatch_group_lazy:
  assumes "CHR 0x0A \<notin> set v"
    and "\<And>u w q g'. v = u @ w \<Longrightarrow> w \<noteq> [] \<Longrightarrow> rmatch b (here q (w @ s) g') k = None"
    and "rmatch b (here (if v = [] then p else Some (last v)) s (g(n := v))) k = Some y"
  shows "rmatch (RSeq (RGroup n (RStar False re_dot)) b) (here p (v @ s) g) k = Some y"
proof -
  let ?k = "\<lambda>st'. rmatch b (st'\<lparr>m_caps := (m_caps st')(n := take (length (v @ s) - length (m_rest st')) (v @ s))\<rparr>) k"
  have "rmatch (RStar False re_dot) (here p (v @ s) g) ?k
      = rmatch (RStar False re_dot) (here (if v = [] then p else Some (last v)) s g) ?k"
    using assms(1,2) by (intro rmatch_lazy_dot) auto
  also have "\<dots> = Some y" using assms(3) by (intro rmatch_lazy_dot_now) simp
  finally show ?thesis by simp
qed

lemma rmatch_group_now:
  assumes "rmatch b (here p s (g(n := []))) k = Some y"
  shows "rmatch (RSeq (RGroup n (RStar False re_dot)) b) (here p s g) k = Some y"
  using rmatch_group_lazy [of "[]" b s k p g n y] assms by simp

text \<open>An optional part that does not match is passed over.\<close>

lemma rmatch_opt_none: "rmatch r st k = None \<Longrightarrow> rmatch (re_opt r) st k = k st"
  by (simp add: re_opt_def)

lemma rmatch_opt_some: "rmatch r st k = Some y \<Longrightarrow> rmatch (re_opt r) st k = Some y"
  by (simp add: re_opt_def)

end
