(* ===== verification/Explain.thy ===== *)
theory Explain
  imports TableInfo GoRegexp
begin

text \<open>
  The command \<open>Explain\<close> of the query service: \<open>query/plugin/mysql/explain/explain.go\<close>, which runs
  \<open>EXPLAIN\<close> in a transaction and, when the server refuses a statement that changes data, explains the
  \<open>SELECT\<close> that \<open>transform.go\<close> makes of it with regular expressions.
\<close>

section \<open>Statements that change data\<close>

definition dmlVerbs :: "string list" where
  "dmlVerbs = [''insert'', ''update'', ''delete'', ''replace'']"

definition isDMLQuery :: "string \<Rightarrow> bool" where
  "isDMLQuery query = list_ex (HasPrefix (ToLower (TrimSpace query))) dmlVerbs"

abbreviation lazy_any :: re where "lazy_any \<equiv> RStar False re_dot"
abbreviation any :: re where "any \<equiv> RStar True re_dot"
abbreviation spaces :: re where "spaces \<equiv> re_plus re_space"
abbreviation opt_spaces :: re where "opt_spaces \<equiv> RStar True re_space"

definition limit_tail :: re where
  "limit_tail =
     re_seq [spaces, re_lit ''limit'', opt_spaces, re_plus re_digit,
             re_opt (re_seq [opt_spaces, re_lit '','', opt_spaces, re_plus re_digit])]"

definition updateRe :: re where
  "updateRe =
     re_seq [RBegin, re_lit ''update'', spaces, re_opt (RAlt (re_lit ''low_priority'') (re_lit ''ignore'')), opt_spaces,
             RGroup 1 lazy_any, spaces, re_lit ''set'', spaces, RGroup 2 lazy_any,
             re_opt (re_seq [spaces, re_lit ''where'', spaces, RGroup 3 lazy_any]),
             re_opt limit_tail, REnd]"

definition deleteRe :: re where
  "deleteRe =
     re_seq [RBegin, re_lit ''delete'', spaces, RGroup 1 lazy_any, RWord, re_lit ''from'', spaces, RGroup 2 lazy_any, REnd]"

definition insert_verb :: re where
  "insert_verb = RAlt (RSeq (re_lit ''insert'') (re_opt (RSeq spaces (re_lit ''ignore'')))) (re_lit ''replace'')"

definition duplicate_tail :: re where
  "duplicate_tail = re_seq [re_lit ''on'', spaces, re_lit ''duplicate'', spaces, re_lit ''key'', any]"

definition insert_tail :: re where
  "insert_tail =
     re_seq [opt_spaces, re_opt (RAlt (re_seq [re_space, re_lit ''limit'', re_space]) duplicate_tail), opt_spaces, REnd]"

definition values_list :: "nat \<Rightarrow> re" where
  "values_list n =
     re_seq [opt_spaces, re_lit ''value'', re_opt (re_lit ''s''), opt_spaces, re_lit ''('', RGroup n lazy_any, re_lit '')'']"

definition insertRe :: re where
  "insertRe =
     re_seq [RBegin, insert_verb, spaces, lazy_any, RWord, re_lit ''into'', spaces, RGroup 1 lazy_any, re_lit ''('',
             RGroup 2 (re_plus (RSet (\<lambda>c. c \<noteq> CHR '')''))), re_lit '')'', values_list 3, insert_tail]"

definition insertReNoFields :: re where
  "insertReNoFields =
     re_seq [RBegin, insert_verb, spaces, lazy_any, RWord, re_lit ''into'', spaces, RGroup 1 lazy_any, values_list 2, insert_tail]"

definition insertSetRe :: re where
  "insertSetRe =
     re_seq [insert_verb, spaces, lazy_any, RWord, re_lit ''into'', spaces, RGroup 1 lazy_any, opt_spaces, re_lit ''set'', spaces,
             RGroup 2 lazy_any, opt_spaces, re_opt (RAlt (re_seq [RWord, re_lit ''limit'', RWord]) duplicate_tail),
             opt_spaces, REnd]"

text \<open>The argument of the functions below is the slice of the groups: \<open>m 1\<close> is \<open>matches[1]\<close>.\<close>

definition updateToSelect :: "(nat \<Rightarrow> string) \<Rightarrow> string" where
  "updateToSelect m =
     concat (map (\<lambda>(fmt, match). if match \<noteq> '''' then fmt @ match else '''')
       (zip [''SELECT '', '' FROM '', '' WHERE ''] [m 2, m 1, m 3]))"

definition deleteToSelect :: "(nat \<Rightarrow> string) \<Rightarrow> string" where
  "deleteToSelect m = (if Contains (m 2) ''join'' then ''SELECT 1 FROM '' @ m 2 else ''SELECT * FROM '' @ m 2)"

definition insertToSelect :: "(nat \<Rightarrow> string) \<Rightarrow> string" where
  "insertToSelect m =
     (let fields = split_on (CHR '','') (m 2);
          values = split_on (CHR '','') (m 3)
      in if length fields = length values then
           ''SELECT * FROM '' @ m 1 @ '' WHERE ''
             @ join_with '' and '' (map (\<lambda>(f, v). TrimSpace f @ ''='' @ v) (zip fields values))
         else ''SELECT * FROM '' @ m 1 @ '' LIMIT 1'')"

definition insertToSelectNoFields :: "(nat \<Rightarrow> string) \<Rightarrow> string" where
  "insertToSelectNoFields m = ''SELECT * FROM '' @ m 1 @ '' LIMIT 1''"

definition insertWithSetToSelect :: "(nat \<Rightarrow> string) \<Rightarrow> string" where
  "insertWithSetToSelect m =
     ''SELECT * FROM '' @ m 1 @ '' WHERE '' @ concat (map (\<lambda>c. if c = CHR '','' then '' AND '' else [c]) (m 2))"

definition dmlToSelect :: "string \<Rightarrow> string" where
  "dmlToSelect query =
     (case FindStringSubmatch updateRe query of
        Some m \<Rightarrow> updateToSelect m
      | None \<Rightarrow>
     (case FindStringSubmatch deleteRe query of
        Some m \<Rightarrow> deleteToSelect m
      | None \<Rightarrow>
     (case FindStringSubmatch insertRe query of
        Some m \<Rightarrow> insertToSelect m
      | None \<Rightarrow>
     (case FindStringSubmatch insertSetRe query of
        Some m \<Rightarrow> insertWithSetToSelect m
      | None \<Rightarrow>
     (case FindStringSubmatch insertReNoFields query of
        Some m \<Rightarrow> insertToSelectNoFields m
      | None \<Rightarrow> '''')))))"

section \<open>EXPLAIN\<close>

text \<open>
  What the server answers: to the begin of the transaction, to \<open>USE\<close>, and with the database in use
  to a query of many rows and to one of a single row; and the answer to the version constraint.
\<close>

record explain_env =
  ee_begin :: "sql_error option"
  ee_use :: "string \<Rightarrow> sql_error option"
  ee_rows :: "string \<Rightarrow> string \<Rightarrow> sql_error + nat \<times> dbval list list \<times> sql_error option"
  ee_row :: "string \<Rightarrow> string \<Rightarrow> sql_error + dbval list"
  ee_json :: "sql_error + bool"

type_synonym ExplainRow = "(string \<times> field) list"

record ExplainResult =
  er_Classic :: "ExplainRow list"
  er_JSON :: string

text \<open>The fields that the columns are scanned into, by the number of columns.\<close>

definition explain_columns :: "nat \<Rightarrow> (string \<times> kind) list option" where
  "explain_columns nCols =
     (let key_cols = [(''PossibleKeys'', KNullString), (''Key'', KNullString), (''KeyLen'', KNullString),
                      (''Ref'', KNullString), (''Rows'', KNullInt)];
          head_cols = [(''Id'', KNullInt), (''SelectType'', KNullString), (''Table'', KNullString)];
          partition_cols = [(''Partitions'', KNullString), (''Type'', KNullString)];
          extra_cols = [(''Extra'', KNullString)]
      in if nCols = 10 then Some (head_cols @ [(''Type'', KNullString)] @ key_cols @ extra_cols)
         else if nCols = 11 then Some (head_cols @ partition_cols @ key_cols @ extra_cols)
         else if nCols = 12 then Some (head_cols @ partition_cols @ key_cols @ [(''Filtered'', KNullFloat)] @ extra_cols)
         else None)"

text \<open>With another number of columns nothing is scanned and the row is empty.\<close>

definition scan_explain_row :: "nat \<Rightarrow> dbval list \<Rightarrow> sql_error + ExplainRow" where
  "scan_explain_row nCols row =
     (case explain_columns nCols of
        None \<Rightarrow> Inr []
      | Some cols \<Rightarrow>
          (case scan_row (map snd cols) row of
             Some (Inr fs) \<Rightarrow> Inr (zip (map fst cols) fs)
           | Some (Inl e) \<Rightarrow> Inl e
           | None \<Rightarrow> Inl ErrScan))"

fun classic_rows :: "nat \<Rightarrow> dbval list list \<Rightarrow> sql_error + ExplainRow list" where
  "classic_rows nCols [] = Inr []"
| "classic_rows nCols (row # rows) =
     (case scan_explain_row nCols row of
        Inl e \<Rightarrow> Inl e
      | Inr r \<Rightarrow> (case classic_rows nCols rows of Inl e \<Rightarrow> Inl e | Inr rs \<Rightarrow> Inr (r # rs)))"

definition classicExplain :: "explain_env \<Rightarrow> string \<Rightarrow> string \<Rightarrow> sql_error + ExplainRow list" where
  "classicExplain env db query =
     (if TrimSpace query = '''' then Inl (OtherError ''cannot run EXPLAIN on an empty query example'')
      else case ee_rows env db (''EXPLAIN '' @ query) of
             Inl e \<Rightarrow> Inl e
           | Inr (nCols, rows, rowsErr) \<Rightarrow>
               (case classic_rows nCols rows of
                  Inl e \<Rightarrow> Inl e
                | Inr rs \<Rightarrow> (case rowsErr of Some e \<Rightarrow> Inl e | None \<Rightarrow> Inr rs)))"

definition jsonExplain :: "explain_env \<Rightarrow> string \<Rightarrow> string \<Rightarrow> sql_error + string" where
  "jsonExplain env db query =
     (case ee_json env of
        Inl e \<Rightarrow> Inl e
      | Inr False \<Rightarrow> Inr ''''
      | Inr True \<Rightarrow>
          (case ee_row env db (''EXPLAIN FORMAT=JSON '' @ query) of
             Inl e \<Rightarrow> Inl e
           | Inr row \<Rightarrow> (case scan_row [KString] row of Some (Inr [VText s]) \<Rightarrow> Inr s | _ \<Rightarrow> Inl ErrScan)))"

definition explain_tx :: "explain_env \<Rightarrow> string \<Rightarrow> string \<Rightarrow> sql_error + ExplainResult" where
  "explain_tx env db query =
     (case ee_begin env of
        Some e \<Rightarrow> Inl e
      | None \<Rightarrow>
          (case (if db \<noteq> '''' then ee_use env (''USE '' @ db) else None) of
             Some e \<Rightarrow> Inl e
           | None \<Rightarrow>
               (case classicExplain env db query of
                  Inl e \<Rightarrow> Inl e
                | Inr classic \<Rightarrow>
                    (case jsonExplain env db query of
                       Inl e \<Rightarrow> Inl e
                     | Inr json \<Rightarrow> Inr \<lparr>er_Classic = classic, er_JSON = json\<rparr>))))"

definition quote_db :: "string \<Rightarrow> string" where
  "quote_db db = (if db \<noteq> '''' \<and> \<not> HasPrefix db bt then bt @ db @ bt else db)"

definition Explain :: "explain_env \<Rightarrow> string \<Rightarrow> string \<Rightarrow> bool \<Rightarrow> sql_error + ExplainResult" where
  "Explain env db query convert =
     (let db = quote_db db
      in case explain_tx env db query of
           Inr r \<Rightarrow> Inr r
         | Inl err \<Rightarrow>
             (if convert \<and> (MySQLErrorCode err = ER_SYNTAX_ERROR \<or> MySQLErrorCode err = ER_USER_DENIED) \<and> isDMLQuery query then
                (if dmlToSelect query = '''' then Inl (OtherError ''cannot convert query to SELECT'')
                 else explain_tx env db (dmlToSelect query))
              else Inl err))"

section \<open>What the conversion gives\<close>

lemma re_lit_head:
  "rmatch (re_lit (x # w)) (here p s g) k \<noteq> None \<Longrightarrow> s \<noteq> [] \<and> to_lower_char (hd s) = to_lower_char x"
  by (cases s) (auto simp: rmatch_lit_Cons re_char_def split: if_splits)

lemma rmatch_lit_prefix:
  "rmatch (re_lit w) (here p s g) k \<noteq> None \<Longrightarrow> HasPrefix (ToLower s) (ToLower w)"
proof (induction w arbitrary: p s)
  case (Cons x w)
  then obtain c s' where s: "s = c # s'" "to_lower_char c = to_lower_char x"
    using re_lit_head by (metis list.exhaust_sel)
  then have "rmatch (re_lit w) (here (Some c) s' g) k \<noteq> None"
    using Cons.prems by (simp add: rmatch_lit_Cons re_char_def)
  then show ?case using Cons.IH s by (simp add: ToLower_def)
qed (simp add: ToLower_def)

lemma rmatch_lit_none:
  "\<not> HasPrefix (ToLower s) (ToLower w) \<Longrightarrow> rmatch (re_lit w) (here p s g) k = None"
  using rmatch_lit_prefix [of w p s g k] by (cases "rmatch (re_lit w) (here p s g) k") auto

lemma insert_verb_prefix:
  assumes "\<not> HasPrefix (ToLower s) ''insert''" and "\<not> HasPrefix (ToLower s) ''replace''"
  shows "rmatch insert_verb (here p s g) k = None"
proof -
  have "ToLower ''insert'' = ''insert''" "ToLower ''replace'' = ''replace''"
    by (simp_all add: ToLower_def to_lower_char_def)
  then have "rmatch (re_lit ''insert'') (here p s g) k' = None" "rmatch (re_lit ''replace'') (here p s g) k = None" for k'
    using assms by (simp_all add: rmatch_lit_none)
  then show ?thesis by (simp add: insert_verb_def)
qed

lemma insertSetRe_none:
  assumes "\<not> Contains (ToLower s) ''insert''" and "\<not> Contains (ToLower s) ''replace''"
  shows "find_from insertSetRe p s = None"
  using assms
proof (induction s arbitrary: p)
  case Nil
  show ?case using insert_verb_prefix [of "[]"] Nil by (simp add: insertSetRe_def ToLower_def flip: here_def)
next
  case (Cons c s)
  have "\<not> HasPrefix (ToLower (c # s)) ''insert''" "\<not> HasPrefix (ToLower (c # s)) ''replace''"
    using Cons.prems by (simp_all add: ToLower_def)
  then have "rmatch insertSetRe (here p (c # s) (\<lambda>_. [])) (\<lambda>st. Some (m_caps st)) = None"
    using insert_verb_prefix [of "c # s"] by (simp add: insertSetRe_def)
  moreover have "\<not> Contains (ToLower s) ''insert''" "\<not> Contains (ToLower s) ''replace''"
    using Cons.prems by (simp_all add: ToLower_def)
  ultimately show ?case using Cons.IH by (simp add: here_def)
qed

text \<open>The anchored patterns, by the first letter of the statement.\<close>

lemma updateRe_none:
  "to_lower_char c \<noteq> CHR ''u'' \<Longrightarrow> FindStringSubmatch updateRe (c # s) = None"
  by (simp add: updateRe_def FindStringSubmatch_anchored rmatch_lit_mismatch to_lower_char_def)

lemma deleteRe_none:
  "to_lower_char c \<noteq> CHR ''d'' \<Longrightarrow> FindStringSubmatch deleteRe (c # s) = None"
  by (simp add: deleteRe_def FindStringSubmatch_anchored rmatch_lit_mismatch to_lower_char_def)

lemma insertRe_none:
  assumes "to_lower_char c \<notin> {CHR ''i'', CHR ''r''}"
  shows "FindStringSubmatch insertRe (c # s) = None" "FindStringSubmatch insertReNoFields (c # s) = None"
proof -
  have "rmatch insert_verb (here p (c # s) g) k = None" for p g and k :: "mst \<Rightarrow> (nat \<Rightarrow> string) option"
    using assms by (intro insert_verb_prefix) (auto simp: ToLower_def)
  then show "FindStringSubmatch insertRe (c # s) = None" "FindStringSubmatch insertReNoFields (c # s) = None"
    by (simp_all add: insertRe_def insertReNoFields_def FindStringSubmatch_anchored)
qed

lemma not_prefix_not_contains: "\<not> Contains s sub \<Longrightarrow> s = u @ v \<Longrightarrow> \<not> HasPrefix v sub"
  by (auto simp: Contains_iff HasPrefix_append)

text \<open>
  A statement that begins with white space is recognised and not converted. \<open>isDMLQuery\<close> trims
  the text and \<open>dmlToSelect\<close> does not: of a statement that follows white space it makes nothing,
  unless the words \<open>insert\<close> or \<open>replace\<close> occur in it, so that \<open>Explain\<close> answers that the query cannot be
  converted where it explains the same text without the white space.
\<close>

theorem leading_space_not_converted:
  assumes "is_space c" and "\<not> Contains (ToLower q) ''insert''" and "\<not> Contains (ToLower q) ''replace''"
    and "explain_tx env (quote_db db) (c # q) = Inl err" and "isDMLQuery q"
    and "MySQLErrorCode err = ER_SYNTAX_ERROR \<or> MySQLErrorCode err = ER_USER_DENIED"
  shows "isDMLQuery (c # q) \<and> dmlToSelect (c # q) = ''''
    \<and> Explain env db (c # q) True = Inl (OtherError ''cannot convert query to SELECT'')"
proof -
  have c: "to_lower_char c \<notin> {CHR ''i'', CHR ''r'', CHR ''u'', CHR ''d''}" and tr: "is_trim c"
    using assms(1) by (auto simp: is_space_def to_lower_char_def is_trim_def)
  have "\<not> Contains (ToLower (c # q)) ''insert''" "\<not> Contains (ToLower (c # q)) ''replace''"
    using assms(2,3) c by (simp_all add: ToLower_def)
  then have "FindStringSubmatch insertSetRe (c # q) = None"
    unfolding FindStringSubmatch_def by (rule insertSetRe_none)
  then have none: "dmlToSelect (c # q) = ''''"
    using c updateRe_none [of c q] deleteRe_none [of c q] insertRe_none [of c q]
    by (simp add: dmlToSelect_def)
  moreover have "isDMLQuery (c # q)" using assms(5) tr by (simp add: isDMLQuery_def TrimSpace_def)
  ultimately show ?thesis using assms(4,6) by (auto simp: Explain_def Let_def)
qed

definition demo_explain_env :: explain_env where
  "demo_explain_env =
     \<lparr>ee_begin = None, ee_use = (\<lambda>_. None),
      ee_rows = (\<lambda>db q. if HasPrefix q ''EXPLAIN SELECT'' then Inr (10, [], None) else Inl (MySQLError 1064 ''syntax'')),
      ee_row = (\<lambda>db q. Inl ErrNoRows), ee_json = Inr False\<rparr>"

lemma demo_explain_refused:
  "TrimSpace q \<noteq> '''' \<Longrightarrow> \<not> HasPrefix q ''SELECT'' \<Longrightarrow> explain_tx demo_explain_env db q = Inl (MySQLError 1064 ''syntax'')"
  by (simp add: explain_tx_def demo_explain_env_def classicExplain_def)

theorem leading_space_not_converted_witness:
  "isDMLQuery '' delete from t'' \<and> dmlToSelect '' delete from t'' = ''''
   \<and> Explain demo_explain_env '''' '' delete from t'' True = Inl (OtherError ''cannot convert query to SELECT'')"
proof (rule leading_space_not_converted)
  show "explain_tx demo_explain_env (quote_db '''') '' delete from t'' = Inl (MySQLError 1064 ''syntax'')"
    by (rule demo_explain_refused) (simp_all add: TrimSpace_def is_trim_def is_space_def)
qed (simp_all add: is_space_def ToLower_def to_lower_char_def isDMLQuery_def TrimSpace_def is_trim_def dmlVerbs_def
      MySQLErrorCode_def ER_SYNTAX_ERROR_def)

text \<open>The last group of a pattern, up to the end of the text.\<close>

lemma rmatch_group_to_end:
  assumes "CHR 0x0A \<notin> set x"
  shows "rmatch (re_seq [RGroup n lazy_any, REnd]) (here p x g) k =
    k (here (if x = [] then p else Some (last x)) [] (g(n := x)))"
proof -
  let ?k = "\<lambda>st'. (if m_rest st' = []
    then k (st'\<lparr>m_caps := (m_caps st')(n := take (length x - length (m_rest st')) x)\<rparr>) else None)"
  have "rmatch lazy_any (here p (x @ []) g) ?k = rmatch lazy_any (here (if x = [] then p else Some (last x)) [] g) ?k"
    using assms by (intro rmatch_lazy_dot) auto
  then show ?thesis by (simp add: re_dot_def star_lazy)
qed

lemma lower_word:
  assumes "map to_lower_char w = ''from''"
  shows "w \<noteq> []" "is_word (hd w)" "\<not> is_space (hd w)" "\<not> is_space (last w)" "last w \<noteq> CHR '' ''"
proof -
  have "to_lower_char (hd w) = CHR ''f''" "to_lower_char (last w) = CHR ''m''" "w \<noteq> []"
    using assms arg_cong [OF assms, of hd] arg_cong [OF assms, of last]
    by (auto simp: hd_map last_map)
  then show "w \<noteq> []" "is_word (hd w)" "\<not> is_space (hd w)" "\<not> is_space (last w)" "last w \<noteq> CHR '' ''"
    by (auto simp: is_word_def is_space_def to_lower_char_def)
qed

lemma deleteRe_match:
  assumes "map to_lower_char d = ''delete''" and "map to_lower_char f = ''from''"
    and "CHR 0x0A \<notin> set x" and "x = [] \<or> \<not> is_space (hd x)"
  shows "FindStringSubmatch deleteRe (d @ '' '' @ f @ '' '' @ x) = Some ((\<lambda>_. [])(1 := [], 2 := x))"
proof -
  let ?k = "\<lambda>st :: mst. Some (m_caps st)"
  define r where "r = f @ '' '' @ x"
  define tail where "tail = re_seq [RWord, re_lit ''from'', spaces, RGroup 2 lazy_any, REnd]"
  have low: "map to_lower_char ''delete'' = ''delete''" "map to_lower_char ''from'' = ''from''"
    by (simp_all add: to_lower_char_def)
  note fw = lower_word [OF assms(2)]
  have "at_boundary (here (Some (CHR '' '')) r g)" for g
    using fw by (cases f) (simp_all add: r_def at_boundary_def is_word_def is_digit_def to_lower_char_def)
  then have "rmatch tail (here (Some (CHR '' '')) r g) ?k =
      rmatch (re_lit ''from'') (here (Some (CHR '' '')) r g) (\<lambda>st. rmatch (re_seq [spaces, RGroup 2 lazy_any, REnd]) st ?k)" for g
    by (simp add: tail_def)
  also have "\<dots> g = rmatch (re_seq [spaces, RGroup 2 lazy_any, REnd]) (here (Some (last f)) (CHR '' '' # x) g) ?k" for g
    using rmatch_lit [of f "''from''" _ "'' '' @ x"] assms(2) low fw(1) by (simp add: r_def)
  also have "\<dots> g = rmatch (re_seq [RGroup 2 lazy_any, REnd]) (here (Some (CHR '' '')) x g) ?k" for g
    by (simp add: rmatch_space1 [OF assms(4)])
  also have "\<dots> g = Some (g(2 := x))" for g
    using rmatch_group_to_end [OF assms(3), of 2 _ g ?k] by (simp only: here_simps)
  finally have tail: "rmatch tail (here (Some (CHR '' '')) r g) ?k = Some (g(2 := x))" for g .
  define body where "body = RSeq (RGroup 1 lazy_any) tail"
  have lz: "rmatch body (here (Some (CHR '' '')) r g) ?k = Some (g(1 := [], 2 := x))" for g
    unfolding body_def by (rule rmatch_group_now) (rule tail)
  have r: "r = [] \<or> \<not> is_space (hd r)" using fw by (cases f) (simp_all add: r_def)
  have del: "deleteRe = RSeq RBegin (RSeq (re_lit ''delete'') (RSeq spaces body))"
    by (simp add: deleteRe_def tail_def body_def)
  have "FindStringSubmatch deleteRe (d @ '' '' @ r) =
      rmatch (re_lit ''delete'') (here None (d @ '' '' @ r) (\<lambda>_. [])) (\<lambda>st. rmatch spaces st (\<lambda>st. rmatch body st ?k))"
    unfolding del FindStringSubmatch_anchored by simp
  also have "\<dots> = rmatch spaces (here (Some (last d)) (CHR '' '' # r) (\<lambda>_. [])) (\<lambda>st. rmatch body st ?k)"
    using rmatch_lit [of d "''delete''" None "'' '' @ r"] assms(1) low(1) by (auto split: if_splits)
  also have "\<dots> = Some ((\<lambda>_. [])(1 := [], 2 := x))" by (simp add: rmatch_space1 [OF r] lz)
  finally show ?thesis by (simp add: r_def)
qed

lemma TrimSpace_prefix:
  assumes "d \<noteq> []" and "\<forall>c \<in> set d. \<not> is_trim c"
  shows "\<exists>z. TrimSpace (d @ y) = d @ z"
proof -
  have hd: "dropWhile is_trim (d @ y) = d @ y" using assms by (cases d) simp_all
  have "rev d \<noteq> [] \<and> \<not> is_trim (hd (rev d))" using assms by (simp add: hd_rev)
  then have rd: "dropWhile is_trim (rev d) = rev d" by (metis dropWhile.simps(2) list.exhaust_sel)
  show ?thesis
  proof (cases "\<forall>c \<in> set y. is_trim c")
    case True
    then have "dropWhile is_trim (rev y @ rev d) = rev d" using rd by (subst dropWhile_append2) auto
    then show ?thesis using hd by (simp add: TrimSpace_def)
  next
    case False
    then obtain c where "c \<in> set (rev y)" "\<not> is_trim c" by auto
    then show ?thesis using hd by (simp add: TrimSpace_def dropWhile_append1)
  qed
qed

text \<open>A verb of the statement, in any case.\<close>

lemma isDMLQuery_verb:
  assumes "map to_lower_char d \<in> set dmlVerbs"
  shows "isDMLQuery (d @ y)"
proof -
  have "\<not> is_trim c" if "c \<in> set d" for c
  proof -
    have "to_lower_char c \<in> set (map to_lower_char d)" using that by simp
    then show ?thesis using assms by (auto simp: dmlVerbs_def is_trim_def is_space_def to_lower_char_def)
  qed
  moreover have "d \<noteq> []" using assms by (auto simp: dmlVerbs_def)
  ultimately obtain z where "TrimSpace (d @ y) = d @ z" using TrimSpace_prefix by blast
  then have "HasPrefix (ToLower (TrimSpace (d @ y))) (map to_lower_char d)"
    by (simp add: ToLower_def HasPrefix_append)
  then show ?thesis using assms by (auto simp: isDMLQuery_def list_ex_iff)
qed

lemma delete_select:
  assumes "map to_lower_char d = ''delete''" and "map to_lower_char f = ''from''"
    and "CHR 0x0A \<notin> set x" and "x = [] \<or> \<not> is_space (hd x)"
    and "query = d @ '' '' @ f @ '' '' @ x"
    and "select = (if Contains x ''join'' then ''SELECT 1 FROM '' else ''SELECT * FROM '') @ x"
  shows "dmlToSelect query = select" "isDMLQuery query"
proof -
  obtain c d' where d: "d = c # d'" "to_lower_char c = CHR ''d''" using assms(1) by (cases d) auto
  have "FindStringSubmatch updateRe query = None" using updateRe_none [of c] d assms(5) by simp
  moreover have "FindStringSubmatch deleteRe query = Some ((\<lambda>_. [])(1 := [], 2 := x))"
    unfolding assms(5) using assms(1-4) by (rule deleteRe_match)
  ultimately show "dmlToSelect query = select"
    using assms(6) by (simp add: dmlToSelect_def deleteToSelect_def)
  show "isDMLQuery query" unfolding assms(5) by (rule isDMLQuery_verb) (simp add: assms(1) dmlVerbs_def)
qed

lemma Explain_converted:
  assumes "isDMLQuery query" and "dmlToSelect query = select" and "select \<noteq> ''''"
    and "explain_tx env (quote_db db) query = Inl err"
    and "MySQLErrorCode err = ER_SYNTAX_ERROR \<or> MySQLErrorCode err = ER_USER_DENIED"
  shows "Explain env db query True = explain_tx env (quote_db db) select"
  using assms by (auto simp: Explain_def Let_def)

text \<open>
  A \<open>DELETE\<close> is explained as the \<open>SELECT\<close> of its rows. For \<open>DELETE FROM\<close> in any case, followed by any
  text on one line, the conversion gives \<open>SELECT * FROM\<close>, or \<open>SELECT 1 FROM\<close> when the text contains \<open>join\<close>
  in lower case, followed by exactly that text; and \<open>Explain\<close>, when the server refuses the statement
  for its syntax or the privileges and the conversion is asked for, answers with the explanation of
  that statement in the same database.
\<close>

theorem delete_explained:
  assumes "map to_lower_char d = ''delete''" and "map to_lower_char f = ''from''"
    and "CHR 0x0A \<notin> set x" and "x = [] \<or> \<not> is_space (hd x)"
    and "query = d @ '' '' @ f @ '' '' @ x"
    and "select = (if Contains x ''join'' then ''SELECT 1 FROM '' else ''SELECT * FROM '') @ x"
  shows "dmlToSelect query = select
    \<and> (explain_tx env (quote_db db) query = Inl err
        \<and> (MySQLErrorCode err = ER_SYNTAX_ERROR \<or> MySQLErrorCode err = ER_USER_DENIED) \<longrightarrow>
        Explain env db query True = explain_tx env (quote_db db) select)"
proof -
  note sel = delete_select [OF assms]
  have "select \<noteq> ''''" using assms(6) by simp
  then show ?thesis using sel Explain_converted [OF sel(2,1)] by blast
qed

theorem delete_explained_witness:
  "dmlToSelect ''Delete FROM t where id = 5'' = ''SELECT * FROM t where id = 5''
   \<and> Explain demo_explain_env ''db'' ''Delete FROM t where id = 5'' True
       = explain_tx demo_explain_env (quote_db ''db'') ''SELECT * FROM t where id = 5''"
proof -
  have "explain_tx demo_explain_env (quote_db ''db'') ''Delete FROM t where id = 5'' = Inl (MySQLError 1064 ''syntax'')"
    by (rule demo_explain_refused) (simp_all add: TrimSpace_def is_trim_def is_space_def)
  moreover have "map to_lower_char ''Delete'' = ''delete''" "map to_lower_char ''FROM'' = ''from''" by code_simp+
  ultimately show ?thesis
    using delete_explained [of "''Delete''" "''FROM''" "''t where id = 5''" "''Delete FROM t where id = 5''"
        "''SELECT * FROM t where id = 5''" demo_explain_env "''db''" "MySQLError 1064 ''syntax''"]
    by (simp add: is_space_def MySQLErrorCode_def ER_SYNTAX_ERROR_def)
qed

section \<open>UPDATE\<close>

text \<open>A part of a statement that has no white space in it.\<close>

definition plain :: "string \<Rightarrow> bool" where
  "plain v \<longleftrightarrow> v \<noteq> [] \<and> (\<forall>c \<in> set v. \<not> is_space c)"

lemma plainD:
  assumes "plain v"
  shows "v \<noteq> []" "CHR 0x0A \<notin> set v" "\<not> is_space (hd v)" "v @ s = [] \<or> \<not> is_space (hd (v @ s))"
    "v = u @ w \<Longrightarrow> w \<noteq> [] \<Longrightarrow> w @ s = [] \<or> \<not> is_space (hd (w @ s))"
  using assms by (auto simp: plain_def is_space_def)

lemma optional_tail_none:
  fixes k :: "mst \<Rightarrow> 'a option"
  assumes "s \<noteq> []" and "\<not> is_space (hd s)"
  shows "rmatch (re_seq [re_opt (re_seq (spaces # a # as)), re_opt limit_tail, REnd]) (here p s g) k = None"
    and "rmatch (re_seq [re_opt limit_tail, REnd]) (here p s g) k = None"
proof -
  have sp: "rmatch spaces (here p s g) k' = None" for k' :: "mst \<Rightarrow> 'a option"
    using rmatch_space_mismatch [of s p g k'] assms by simp
  then have "rmatch limit_tail (here p s g) k' = None" for k' :: "mst \<Rightarrow> 'a option"
    by (simp add: limit_tail_def)
  then show "rmatch (re_seq [re_opt limit_tail, REnd]) (here p s g) k = None"
    "rmatch (re_seq [re_opt (re_seq (spaces # a # as)), re_opt limit_tail, REnd]) (here p s g) k = None"
    using assms(1) sp by (simp_all add: re_opt_def)
qed

lemma rmatch_word:
  assumes "map to_lower_char v = w" and "map to_lower_char w = w" and "w \<noteq> []" and "s = [] \<or> \<not> is_space (hd s)"
  shows "rmatch (RSeq (re_lit w) (RSeq spaces r)) (here p (v @ '' '' @ s) g) k = rmatch r (here (Some (CHR '' '')) s g) k"
proof -
  have "rmatch (re_lit w) (here p (v @ '' '' @ s) g) (\<lambda>st. rmatch (RSeq spaces r) st k) =
      rmatch (RSeq spaces r) (here (Some (last v)) ('' '' @ s) g) k"
    using rmatch_lit [of v w p "'' '' @ s" g "\<lambda>st. rmatch (RSeq spaces r) st k"] assms(1-3) by (cases "v = []") auto
  also have "\<dots> = rmatch r (here (Some (CHR '' '')) s g) k" by (simp add: rmatch_space1 [OF assms(4)])
  finally show ?thesis by simp
qed

definition where_part :: re where
  "where_part = re_seq [spaces, re_lit ''where'', spaces, RGroup 3 lazy_any]"

definition update_end :: re where "update_end = re_seq [re_opt where_part, re_opt limit_tail, REnd]"

definition update_set :: re where
  "update_set = RSeq spaces (RSeq (re_lit ''set'') (RSeq spaces (RSeq (RGroup 2 lazy_any) update_end)))"

definition update_table :: re where
  "update_table = RSeq opt_spaces (RSeq (RGroup 1 lazy_any) update_set)"

definition update_prio :: re where
  "update_prio = RAlt (re_lit ''low_priority'') (re_lit ''ignore'')"

lemma updateRe_parts:
  "updateRe = RSeq RBegin (RSeq (re_lit ''update'') (RSeq spaces (RSeq (re_opt update_prio) update_table)))"
  by (simp add: updateRe_def update_table_def update_set_def update_end_def where_part_def update_prio_def)

lemma lower_verbs:
  "map to_lower_char ''update'' = ''update''" "map to_lower_char ''set'' = ''set''" "map to_lower_char ''where'' = ''where''"
  "map to_lower_char ''ignore'' = ''ignore''" "map to_lower_char ''low_priority'' = ''low_priority''"
  by code_simp+

lemma not_space_word:
  "map to_lower_char v = x # w \<Longrightarrow> \<not> is_space x \<Longrightarrow> v @ s = [] \<or> \<not> is_space (hd (v @ s))"
  by (cases v) (auto simp: is_space_def to_lower_char_def split: if_splits)

abbreviation caps_of :: "mst \<Rightarrow> (nat \<Rightarrow> string) option" where "caps_of \<equiv> \<lambda>st. Some (m_caps st)"

text \<open>The end of the statement, without and with a \<open>WHERE\<close> clause.\<close>

lemma update_end_plain:
  assumes "plain v"
    and "v = u @ w" and "w \<noteq> []"
  shows "rmatch update_end (here p (w @ s) g) k = None"
  unfolding update_end_def where_part_def
  using plainD(5) [OF assms, of s] assms(3) by (intro optional_tail_none(1)) auto

lemma update_end_empty: "rmatch update_end (here p [] g) caps_of = Some g"
proof -
  have "rmatch spaces (here p [] g) k = None" for k :: "mst \<Rightarrow> (nat \<Rightarrow> string) option"
    by (rule rmatch_space_mismatch) simp
  then show ?thesis by (simp add: update_end_def where_part_def limit_tail_def re_opt_def)
qed

lemma update_end_where:
  assumes "map to_lower_char h = ''where''" and "plain W"
  shows "rmatch update_end (here p ('' '' @ h @ '' '' @ W) g) caps_of = Some (g(3 := W))"
proof -
  define b where "b = re_seq [re_opt limit_tail, REnd]"
  have "rmatch spaces (here q [] g') k = None" for q g' and k :: "mst \<Rightarrow> (nat \<Rightarrow> string) option"
    by (rule rmatch_space_mismatch) simp
  then have stop: "rmatch b (here q [] g') caps_of = Some g'" for q g'
    by (simp add: b_def limit_tail_def re_opt_def)
  have "rmatch b (here q (w @ []) g') caps_of = None" if "W = u @ w" "w \<noteq> []" for u w q g'
    unfolding b_def using plainD(5) [OF assms(2) that, of "[]"] that(2) by (intro optional_tail_none(2)) auto
  then have "rmatch (RSeq (RGroup 3 lazy_any) b) (here (Some (CHR '' '')) (W @ []) g) caps_of = Some (g(3 := W))"
    using plainD(2) [OF assms(2)] stop by (intro rmatch_group_lazy) auto
  moreover have "rmatch (RSeq (re_lit ''where'') (RSeq spaces (RSeq (RGroup 3 lazy_any) b))) (here (Some (CHR '' '')) (h @ '' '' @ W) g) caps_of
      = rmatch (RSeq (RGroup 3 lazy_any) b) (here (Some (CHR '' '')) W g) caps_of"
    using plainD(4) [OF assms(2), of "[]"] assms(1) lower_verbs by (intro rmatch_word) simp_all
  moreover have "h @ '' '' @ W = [] \<or> \<not> is_space (hd (h @ '' '' @ W))"
    by (rule not_space_word [OF assms(1)]) (simp add: is_space_def)
  note sp = rmatch_space1 [OF this, of p g
      "\<lambda>st. rmatch (RSeq (re_lit ''where'') (RSeq spaces (RSeq (RGroup 3 lazy_any) b))) st caps_of"]
  ultimately have "rmatch (RSeq where_part b) (here p ('' '' @ h @ '' '' @ W) g) caps_of = Some (g(3 := W))"
    using sp by (simp add: where_part_def)
  then show ?thesis unfolding update_end_def b_def by (simp add: re_opt_def)
qed

text \<open>The table, the assignments and the end, in a statement whose parts have no white space.\<close>

lemma update_table_match:
  assumes "plain T" and "plain F" and "map to_lower_char e = ''set''"
    and "\<And>q g'. rmatch update_end (here q R g') caps_of = Some (ends g')"
  shows "rmatch update_table (here p (T @ '' '' @ e @ '' '' @ F @ R) g) caps_of = Some (ends (g(1 := T, 2 := F)))"
proof -
  define b where "b = RSeq (RGroup 2 lazy_any) update_end"
  have fields: "rmatch b (here q (F @ R) g') caps_of = Some (ends (g'(2 := F)))" for q g'
    unfolding b_def using plainD(2) [OF assms(2)] assms(4)
    by (intro rmatch_group_lazy) (auto intro: update_end_plain [OF assms(2)])
  have "e @ '' '' @ F @ R = [] \<or> \<not> is_space (hd (e @ '' '' @ F @ R))"
    by (rule not_space_word [OF assms(3)]) (simp add: is_space_def)
  note sp = rmatch_space1 [OF this]
  have "rmatch (RSeq (re_lit ''set'') (RSeq spaces b)) (here q (e @ '' '' @ F @ R) g') caps_of
      = rmatch b (here (Some (CHR '' '')) (F @ R) g') caps_of" for q g'
    using plainD(4) [OF assms(2)] assms(3) lower_verbs by (intro rmatch_word) simp_all
  then have set: "rmatch update_set (here q ('' '' @ e @ '' '' @ F @ R) g') caps_of = Some (ends (g'(2 := F)))" for q g'
    using fields sp [of q g' "\<lambda>st. rmatch (RSeq (re_lit ''set'') (RSeq spaces b)) st caps_of"]
    unfolding update_set_def b_def [symmetric] by simp
  have none: "rmatch update_set (here q (w @ s) g') caps_of = None" if "T = u @ w" "w \<noteq> []" for u w q s g'
    using rmatch_space_mismatch [OF plainD(5) [OF assms(1) that]] by (simp add: update_set_def)
  define c where "c = RSeq (RGroup 1 lazy_any) update_set"
  have "rmatch c (here p (T @ '' '' @ e @ '' '' @ F @ R) g) caps_of = Some (ends (g(1 := T, 2 := F)))"
    unfolding c_def using plainD(2) [OF assms(1)] none set by (intro rmatch_group_lazy) auto
  moreover have "rmatch opt_spaces (here p (T @ s) g) k = k (here p (T @ s) g)" for s and k :: "mst \<Rightarrow> (nat \<Rightarrow> string) option"
    using plainD(1,3) [OF assms(1)] by (cases T) (simp_all add: re_space_def star_greedy)
  ultimately show ?thesis unfolding update_table_def c_def [symmetric] by simp
qed

lemma HasPrefix_before_space:
  "HasPrefix (a @ CHR '' '' # b) p \<Longrightarrow> CHR '' '' \<notin> set p \<Longrightarrow> HasPrefix a p"
  by (induction a p rule: HasPrefix.induct) auto

lemma update_prio_none:
  assumes "\<not> HasPrefix (ToLower T) ''ignore''" and "\<not> HasPrefix (ToLower T) ''low_priority''"
  shows "rmatch update_prio (here p (T @ '' '' @ s) g) k = None"
proof -
  have "ToLower (T @ '' '' @ s) = ToLower T @ CHR '' '' # ToLower s" by (simp add: ToLower_def to_lower_char_def)
  then have "\<not> HasPrefix (ToLower (T @ '' '' @ s)) ''ignore''" "\<not> HasPrefix (ToLower (T @ '' '' @ s)) ''low_priority''"
    using assms HasPrefix_before_space [of "ToLower T" "ToLower s"] by auto
  then show ?thesis using lower_verbs by (simp add: update_prio_def rmatch_lit_none ToLower_def)
qed

lemma updateRe_match:
  assumes "map to_lower_char u = ''update''" and "plain T" and "s = T @ '' '' @ s'"
    and "\<And>q g. rmatch update_table (here q s g) caps_of = Some (m g)"
    and "\<not> HasPrefix (ToLower T) ''ignore''" and "\<not> HasPrefix (ToLower T) ''low_priority''"
  shows "FindStringSubmatch updateRe (u @ '' '' @ s) = Some (m (\<lambda>_. []))"
proof -
  have "rmatch (re_opt update_prio) (here q s g) (\<lambda>st. rmatch update_table st caps_of) = Some (m g)" for q g
    unfolding assms(3) using assms(4) [unfolded assms(3)]
    by (subst rmatch_opt_none [OF update_prio_none [OF assms(5,6)]])
  moreover have "rmatch (RSeq (re_lit ''update'') (RSeq spaces (RSeq (re_opt update_prio) update_table)))
      (here None (u @ '' '' @ s) (\<lambda>_. [])) caps_of
    = rmatch (RSeq (re_opt update_prio) update_table) (here (Some (CHR '' '')) s (\<lambda>_. [])) caps_of"
    using plainD(4) [OF assms(2), of "'' '' @ s'"] assms(1,3) lower_verbs(1) by (intro rmatch_word) simp_all
  ultimately show ?thesis unfolding updateRe_parts FindStringSubmatch_anchored by simp
qed

text \<open>The optional word \<open>ignore\<close> is taken off a name that begins with it.\<close>

lemma updateRe_ignore:
  assumes "map to_lower_char u = ''update''" and "map to_lower_char i = ''ignore''"
    and "\<And>q g. rmatch update_table (here q s g) caps_of = Some (m g)"
  shows "FindStringSubmatch updateRe (u @ '' '' @ i @ s) = Some (m (\<lambda>_. []))"
proof -
  obtain c i' where i: "i = c # i'" "to_lower_char c = CHR ''i''" using assms(2) by (cases i) auto
  have "rmatch (re_lit ''low_priority'') (here q (i @ s) g) k = None" for q g and k :: "mst \<Rightarrow> (nat \<Rightarrow> string) option"
    using i by (simp add: rmatch_lit_mismatch to_lower_char_def)
  moreover have "rmatch (re_lit ''ignore'') (here q (i @ s) g) (\<lambda>st. rmatch update_table st caps_of) = Some (m g)" for q g
    using rmatch_lit [of i "''ignore''" q s g "\<lambda>st. rmatch update_table st caps_of"] assms(2,3) lower_verbs by simp
  ultimately have "rmatch (re_opt update_prio) (here q (i @ s) g) (\<lambda>st. rmatch update_table st caps_of) = Some (m g)" for q g
    by (simp add: re_opt_def update_prio_def)
  moreover have "i @ s = [] \<or> \<not> is_space (hd (i @ s))"
    by (rule not_space_word [OF assms(2)]) (simp add: is_space_def)
  then have "rmatch (RSeq (re_lit ''update'') (RSeq spaces (RSeq (re_opt update_prio) update_table)))
      (here None (u @ '' '' @ i @ s) (\<lambda>_. [])) caps_of
    = rmatch (RSeq (re_opt update_prio) update_table) (here (Some (CHR '' '')) (i @ s) (\<lambda>_. [])) caps_of"
    using assms(1) lower_verbs(1) by (intro rmatch_word) simp_all
  ultimately show ?thesis unfolding updateRe_parts FindStringSubmatch_anchored by simp
qed

text \<open>
  C31: an \<open>UPDATE\<close> is converted to the \<open>SELECT\<close> of its fields. For a table, assignments and a condition
  without white space, in any case of the key words, the conversion gives the assignments as the
  fields selected, from that table, with that condition if there is one; the name of the table must
  not begin with \<open>ignore\<close> or \<open>low_priority\<close>. From a name that begins with \<open>ignore\<close> the pattern, which
  asks for no space after the optional word, takes it off: another table is selected from.
\<close>

theorem update_converted:
  assumes "map to_lower_char u = ''update''" and "map to_lower_char e = ''set''"
    and "map to_lower_char h = ''where''" and "map to_lower_char i = ''ignore''"
    and "plain T" and "plain F" and "plain W"
  shows "(\<not> HasPrefix (ToLower T) ''ignore'' \<and> \<not> HasPrefix (ToLower T) ''low_priority'' \<longrightarrow>
      dmlToSelect (u @ '' '' @ T @ '' '' @ e @ '' '' @ F) = ''SELECT '' @ F @ '' FROM '' @ T
      \<and> dmlToSelect (u @ '' '' @ T @ '' '' @ e @ '' '' @ F @ '' '' @ h @ '' '' @ W)
          = ''SELECT '' @ F @ '' FROM '' @ T @ '' WHERE '' @ W)
    \<and> dmlToSelect (u @ '' '' @ (i @ T) @ '' '' @ e @ '' '' @ F) = ''SELECT '' @ F @ '' FROM '' @ T"
proof -
  have t1: "rmatch update_table (here q (T @ '' '' @ e @ '' '' @ F) g) caps_of = Some (g(1 := T, 2 := F))" for q g
    using update_table_match [OF assms(5,6,2), of "[]" "\<lambda>g. g" q g] update_end_empty by simp
  have t2: "rmatch update_table (here q (T @ '' '' @ e @ '' '' @ F @ '' '' @ h @ '' '' @ W) g) caps_of
      = Some (g(1 := T, 2 := F, 3 := W))" for q g
    using update_table_match [OF assms(5,6,2), of "'' '' @ h @ '' '' @ W" "\<lambda>g. g(3 := W)" q g]
      update_end_where [OF assms(3,7)] by blast
  note ne = plainD(1) [OF assms(5)] plainD(1) [OF assms(6)] plainD(1) [OF assms(7)]
  have ign: "FindStringSubmatch updateRe (u @ '' '' @ i @ T @ '' '' @ e @ '' '' @ F) = Some ((\<lambda>_. [])(1 := T, 2 := F))"
    by (rule updateRe_ignore [OF assms(1,4) t1])
  have "dmlToSelect (u @ '' '' @ T @ '' '' @ e @ '' '' @ F) = ''SELECT '' @ F @ '' FROM '' @ T
      \<and> dmlToSelect (u @ '' '' @ T @ '' '' @ e @ '' '' @ F @ '' '' @ h @ '' '' @ W)
          = ''SELECT '' @ F @ '' FROM '' @ T @ '' WHERE '' @ W"
    if np: "\<not> HasPrefix (ToLower T) ''ignore''" "\<not> HasPrefix (ToLower T) ''low_priority''"
  proof -
    have "FindStringSubmatch updateRe (u @ '' '' @ T @ '' '' @ e @ '' '' @ F) = Some ((\<lambda>_. [])(1 := T, 2 := F))"
      by (rule updateRe_match [OF assms(1,5) refl t1 np])
    moreover have "FindStringSubmatch updateRe (u @ '' '' @ T @ '' '' @ e @ '' '' @ F @ '' '' @ h @ '' '' @ W)
        = Some ((\<lambda>_. [])(1 := T, 2 := F, 3 := W))"
      by (rule updateRe_match [OF assms(1,5) refl t2 np])
    ultimately show ?thesis using ne by (simp add: dmlToSelect_def updateToSelect_def)
  qed
  then show ?thesis using ign ne by (simp add: dmlToSelect_def updateToSelect_def)
qed

theorem update_converted_witness:
  "dmlToSelect ''UPDATE t SET a=1 WHERE id=5'' = ''SELECT a=1 FROM t WHERE id=5''
   \<and> dmlToSelect ''UPDATE ignored SET a=1'' = ''SELECT a=1 FROM d''"
proof -
  have "map to_lower_char ''UPDATE'' = ''update''" "map to_lower_char ''SET'' = ''set''"
    "map to_lower_char ''WHERE'' = ''where''" "map to_lower_char ''ignore'' = ''ignore''" by code_simp+
  moreover have "plain ''t''" "plain ''d''" "plain ''a=1''" "plain ''id=5''" by (simp_all add: plain_def is_space_def)
  moreover have "\<not> HasPrefix (ToLower ''t'') ''ignore''" "\<not> HasPrefix (ToLower ''t'') ''low_priority''"
    by (simp_all add: ToLower_def to_lower_char_def)
  ultimately show ?thesis
    using update_converted [of "''UPDATE''" "''SET''" "''WHERE''" "''ignore''" "''t''" "''a=1''" "''id=5''"]
      update_converted [of "''UPDATE''" "''SET''" "''WHERE''" "''ignore''" "''d''" "''a=1''" "''id=5''"]
    by simp
qed

end
