(* ===== verification/Files.thy ===== *)
theory Files
  imports Sys
begin

text \<open>
  The files of the agent, \<open>pct/basedir.go\<close>, with the functions of \<open>path/filepath\<close> that its names are
  made with, and the external programs of \<open>pct/cmd/cmd.go\<close>. The file system is a map from paths to
  contents; the encoding of values as JSON is a parameter.
\<close>

section \<open>Paths\<close>

text \<open>
  \<open>filepath.Clean\<close>, \<open>filepath.Join\<close>, \<open>filepath.Abs\<close> and \<open>path.Dir\<close> on a Unix system. The accumulator holds
  the components kept so far, the last one first.
\<close>

fun clean_comps :: "bool \<Rightarrow> string list \<Rightarrow> string list \<Rightarrow> string list" where
  "clean_comps rooted acc [] = rev acc"
| "clean_comps rooted acc (c # cs) =
     (if c = '''' \<or> c = ''.'' then clean_comps rooted acc cs
      else if c = ''..'' then
        (case acc of
           [] \<Rightarrow> clean_comps rooted (if rooted then [] else [''..'']) cs
         | a # acc' \<Rightarrow> clean_comps rooted (if a = ''..'' then ''..'' # acc else acc') cs)
      else clean_comps rooted (c # acc) cs)"

definition path_Clean :: "string \<Rightarrow> string" where
  "path_Clean s =
     (let rooted = HasPrefix s ''/'';
          r = (if rooted then ''/'' else '''') @ join_with ''/'' (clean_comps rooted [] (split_on (CHR ''/'') s))
      in if r = '''' then ''.'' else r)"

definition path_Join :: "string list \<Rightarrow> string" where
  "path_Join elems =
     (let es = filter (\<lambda>e. e \<noteq> '''') elems in if es = [] then '''' else path_Clean (join_with ''/'' es))"

definition path_Abs :: "string \<Rightarrow> string \<Rightarrow> string" where
  "path_Abs cwd path = (if HasPrefix path ''/'' then path_Clean path else path_Join [cwd, path])"

definition path_Dir :: "string \<Rightarrow> string" where
  "path_Dir s = path_Clean (rev (dropWhile (\<lambda>c. c \<noteq> CHR ''/'') (rev s)))"

section \<open>The base directory\<close>

definition CONFIG_FILE_SUFFIX :: string where "CONFIG_FILE_SUFFIX = ''.conf''"
definition INSTANCE_FILE_SUFFIX :: string where "INSTANCE_FILE_SUFFIX = ''.json''"

record basedir =
  bd_path :: string
  bd_configDir :: string
  bd_instanceDir :: string
  bd_dataDir :: string
  bd_binDir :: string
  bd_trashDir :: string

definition zero_basedir :: basedir where
  "zero_basedir =
     \<lparr>bd_path = '''', bd_configDir = '''', bd_instanceDir = '''', bd_dataDir = '''', bd_binDir = '''', bd_trashDir = ''''\<rparr>"

text \<open>
  \<open>Init\<close>. \<open>absPath\<close> is the result of \<open>filepath.Abs\<close>, \<open>None\<close> when the working directory is not known;
  \<open>mk\<close> and \<open>chmod\<close> give the error of making a directory and of setting its mode. Each step names a
  directory in its field, makes it and, for a private one, sets its mode; the steps stop at the first
  error. The second part of the state lists the directories made.
\<close>

type_synonym init_state = "basedir \<times> string list \<times> string option"

definition init_dir ::
  "(string \<Rightarrow> string option) \<Rightarrow> (string \<Rightarrow> string option) \<Rightarrow> bool \<Rightarrow> (string \<Rightarrow> basedir \<Rightarrow> basedir) \<Rightarrow> string \<Rightarrow> init_state \<Rightarrow> init_state" where
  "init_dir mk chmod private name dir = (\<lambda>(b, made, err).
     if err \<noteq> None then (b, made, err)
     else case mk dir of
            Some e \<Rightarrow> (name dir b, made, Some e)
          | None \<Rightarrow> (name dir b, made @ [dir], if private then chmod dir else None))"

definition basedir_Init :: "string option \<Rightarrow> (string \<Rightarrow> string option) \<Rightarrow> (string \<Rightarrow> string option) \<Rightarrow> init_state" where
  "basedir_Init absPath mk chmod =
     (case absPath of
        None \<Rightarrow> (zero_basedir, [], Some ''getwd'')
      | Some path \<Rightarrow>
          (let st = init_dir mk chmod False (\<lambda>d b. b\<lparr>bd_path := d\<rparr>) path (zero_basedir, [], None);
               st = init_dir mk chmod True (\<lambda>d b. b\<lparr>bd_configDir := d\<rparr>) (path_Join [path, ''config'']) st;
               st = init_dir mk chmod True (\<lambda>d b. b\<lparr>bd_instanceDir := d\<rparr>) (path_Join [path, ''instance'']) st;
               st = init_dir mk chmod False (\<lambda>d b. b\<lparr>bd_dataDir := d\<rparr>) (path_Join [path, ''data'']) st;
               st = init_dir mk chmod False (\<lambda>d b. b\<lparr>bd_binDir := d\<rparr>) (path_Join [path, ''bin'']) st
           in init_dir mk chmod False (\<lambda>d b. b\<lparr>bd_trashDir := d\<rparr>) (path_Join [path, ''trash'']) st))"

text \<open>\<open>Dir\<close> and \<open>File\<close> panic, the value \<open>None\<close>, for a name they do not know.\<close>

definition basedir_Dir :: "basedir \<Rightarrow> string \<Rightarrow> string option" where
  "basedir_Dir b service =
     (if service = ''config'' then Some (bd_configDir b)
      else if service = ''instance'' then Some (bd_instanceDir b)
      else if service = ''data'' then Some (bd_dataDir b)
      else if service = ''bin'' then Some (bd_binDir b)
      else if service = ''trash'' then Some (bd_trashDir b)
      else None)"

definition basedir_File :: "basedir \<Rightarrow> string \<Rightarrow> string option" where
  "basedir_File b file =
     (if file = ''start-lock'' then Some (path_Join [bd_path b, ''start.lock''])
      else if file = ''start-script'' then Some (path_Join [bd_path b, ''start.sh''])
      else None)"

definition ConfigFile :: "basedir \<Rightarrow> string \<Rightarrow> string" where
  "ConfigFile b service = path_Join [bd_configDir b, service @ CONFIG_FILE_SUFFIX]"

definition InstanceFile :: "basedir \<Rightarrow> string \<Rightarrow> string" where
  "InstanceFile b uuid = path_Join [bd_instanceDir b, uuid @ INSTANCE_FILE_SUFFIX]"

text \<open>
  Files: the contents, and the paths that cannot be read or written. The result of a read is the
  text and the value decoded, \<open>None\<close> when the destination is left as it was.
\<close>

record filesystem =
  fs_data :: "string \<rightharpoonup> bytes"
  fs_readErr :: "string \<Rightarrow> bool"
  fs_writeErr :: "string \<Rightarrow> bool"

datatype file_error = FileNotFound | FileError | JsonFailed

definition readFile :: "(bytes \<Rightarrow> 'v option) \<Rightarrow> filesystem \<Rightarrow> string \<Rightarrow> string \<times> 'v option \<times> file_error option" where
  "readFile decode fs file =
     (if fs_readErr fs file then ('''', None, Some FileError)
      else case fs_data fs file of
             None \<Rightarrow> ('''', None, Some FileNotFound)
           | Some data \<Rightarrow>
               if length data > 0 then
                 (case decode data of None \<Rightarrow> (data, None, Some JsonFailed) | Some v \<Rightarrow> (data, Some v, None))
               else (data, None, None))"

definition writeFile :: "('v \<Rightarrow> bytes option) \<Rightarrow> filesystem \<Rightarrow> string \<Rightarrow> 'v \<Rightarrow> filesystem \<times> file_error option" where
  "writeFile encode fs filePath config =
     (case encode config of
        None \<Rightarrow> (fs, Some JsonFailed)
      | Some data \<Rightarrow>
          if fs_writeErr fs filePath then (fs, Some FileError)
          else (fs\<lparr>fs_data := (fs_data fs)(filePath \<mapsto> data)\<rparr>, None))"

definition ReadConfig :: "(bytes \<Rightarrow> 'v option) \<Rightarrow> basedir \<Rightarrow> filesystem \<Rightarrow> string \<Rightarrow> string \<times> 'v option \<times> file_error option" where
  "ReadConfig decode b fs name = readFile decode fs (ConfigFile b name)"

definition WriteConfig :: "('v \<Rightarrow> bytes option) \<Rightarrow> basedir \<Rightarrow> filesystem \<Rightarrow> string \<Rightarrow> 'v \<Rightarrow> filesystem \<times> file_error option" where
  "WriteConfig encode b fs name v = writeFile encode fs (ConfigFile b name) v"

definition RemoveConfig :: "basedir \<Rightarrow> (string \<Rightarrow> stat) \<Rightarrow> string \<Rightarrow> (string \<Rightarrow> stat) \<times> string option" where
  "RemoveConfig b st service = RemoveFile st (ConfigFile b service)"

definition WriteConfigString :: "basedir \<Rightarrow> filesystem \<Rightarrow> string \<Rightarrow> string \<Rightarrow> filesystem \<times> file_error option" where
  "WriteConfigString b fs service config =
     (if fs_writeErr fs (ConfigFile b service) then (fs, Some FileError)
      else (fs\<lparr>fs_data := (fs_data fs)(ConfigFile b service \<mapsto> config)\<rparr>, None))"

definition ReadInstance :: "(bytes \<Rightarrow> 'v option) \<Rightarrow> basedir \<Rightarrow> filesystem \<Rightarrow> string \<Rightarrow> 'v option \<times> file_error option" where
  "ReadInstance decode b fs uuid = snd (readFile decode fs (InstanceFile b uuid))"

definition WriteInstance :: "('v \<Rightarrow> bytes option) \<Rightarrow> basedir \<Rightarrow> filesystem \<Rightarrow> string \<Rightarrow> 'v \<Rightarrow> filesystem \<times> file_error option" where
  "WriteInstance encode b fs uuid v = writeFile encode fs (InstanceFile b uuid) v"

section \<open>The names of the files\<close>

definition proper :: "string \<Rightarrow> bool" where
  "proper c \<longleftrightarrow> c \<noteq> '''' \<and> c \<noteq> ''.'' \<and> c \<noteq> ''..'' \<and> CHR ''/'' \<notin> set c"

definition abs_path :: "string list \<Rightarrow> string" where
  "abs_path cs = ''/'' @ join_with ''/'' cs"

lemma split_on_join:
  "cs \<noteq> [] \<Longrightarrow> \<forall>c \<in> set cs. CHR ''/'' \<notin> set c \<Longrightarrow> split_on (CHR ''/'') (join_with ''/'' cs) = cs"
proof (induction cs rule: induct_list012)
  case (3 c d cs)
  then show ?case by (simp add: split_on_append_sep)
qed simp_all

lemma clean_comps_proper: "\<forall>c \<in> set cs. proper c \<Longrightarrow> clean_comps r acc cs = rev acc @ cs"
  by (induction cs arbitrary: acc) (auto simp: proper_def)

lemma clean_comps_skip: "clean_comps r acc ('''' # cs) = clean_comps r acc cs"
  by simp

lemma path_Clean_abs:
  assumes "\<forall>c \<in> set cs. proper c"
  shows "path_Clean (abs_path cs) = abs_path cs"
proof (cases cs)
  case Nil
  then show ?thesis by (simp add: path_Clean_def abs_path_def Let_def)
next
  case (Cons c cs')
  then have "split_on (CHR ''/'') (abs_path cs) = '''' # cs"
    using assms split_on_join [of cs] by (auto simp: abs_path_def proper_def)
  moreover have "HasPrefix (abs_path cs) ''/''" by (simp add: abs_path_def)
  ultimately show ?thesis
    using clean_comps_proper [OF assms, of True "[]"] by (simp add: path_Clean_def abs_path_def Let_def)
qed

text \<open>Components below a clean directory: an unclean part is resolved component by component.\<close>

lemma path_Join_below:
  assumes "\<forall>c \<in> set cs. proper c" and "f \<noteq> ''''"
  shows "path_Join [abs_path cs, f] = abs_path (clean_comps True (rev cs) (split_on (CHR ''/'') f))"
proof -
  have step: "clean_comps True acc (cs @ ds) = clean_comps True (rev cs @ acc) ds" if "\<forall>c \<in> set cs. proper c" for acc cs ds
    using that by (induction cs arbitrary: acc) (auto simp: proper_def)
  have "split_on (CHR ''/'') (abs_path cs @ ''/'' @ f) = ([''''] @ (if cs = [] then [''''] else cs)) @ split_on (CHR ''/'') f"
  proof (cases cs)
    case (Cons c cs')
    have "split_on (CHR ''/'') (join_with ''/'' cs @ CHR ''/'' # f) = cs @ split_on (CHR ''/'') f" if "\<forall>c \<in> set cs. proper c" "cs \<noteq> []" for cs
      using that
    proof (induction cs rule: induct_list012)
      case (3 c d cs)
      then show ?case by (simp add: split_on_append_sep proper_def)
    qed (auto simp: split_on_append_sep proper_def)
    then show ?thesis using assms(1) Cons by (simp add: abs_path_def)
  qed (simp add: abs_path_def)
  then have "clean_comps True [] (split_on (CHR ''/'') (abs_path cs @ ''/'' @ f)) = clean_comps True (rev cs) (split_on (CHR ''/'') f)"
    using step [OF assms(1), of "[]"] by (cases "cs = []") auto
  moreover have "HasPrefix (abs_path cs @ ''/'' @ f) ''/''" by (simp add: abs_path_def)
  ultimately show ?thesis using assms(2) by (simp add: path_Join_def path_Clean_def Let_def abs_path_def)
qed

lemma path_Join_proper:
  "\<forall>c \<in> set cs. proper c \<Longrightarrow> proper f \<Longrightarrow> path_Join [abs_path cs, f] = abs_path (cs @ [f])"
  by (subst path_Join_below) (auto simp: proper_def)

lemma clean_comps_result:
  assumes "\<forall>c \<in> set acc. proper c" and "\<forall>c \<in> set cs. CHR ''/'' \<notin> set c"
  shows "\<forall>c \<in> set (clean_comps True acc cs). proper c"
  using assms
proof (induction cs arbitrary: acc)
  case (Cons c cs)
  have cs: "\<forall>c \<in> set cs. CHR ''/'' \<notin> set c" using Cons.prems(2) by simp
  consider "c = '''' \<or> c = ''.''" | "c = ''..''" | "proper c" "c \<noteq> ''..''" "c \<noteq> ''''" "c \<noteq> ''.''"
    using Cons.prems(2) by (auto simp: proper_def)
  then show ?case
  proof cases
    case 2
    have "clean_comps True acc (c # cs) = clean_comps True (tl acc) cs"
      using 2 Cons.prems(1) by (cases acc) (simp_all add: proper_def)
    moreover have "\<forall>c \<in> set (tl acc). proper c" using Cons.prems(1) by (cases acc) simp_all
    ultimately show ?thesis using Cons.IH [of "tl acc"] cs by (simp only: simp_thms)
  next
    case 3
    then have "\<forall>c \<in> set (c # acc). proper c" using Cons.prems(1) by simp
    moreover have "clean_comps True acc (c # cs) = clean_comps True (c # acc) cs" using 3 by simp
    ultimately show ?thesis using Cons.IH [of "c # acc"] cs by (simp only: simp_thms)
  qed (use Cons.IH [OF Cons.prems(1) cs] in auto)
qed simp

lemma split_on_no_slash: "p \<in> set (split_on c s) \<Longrightarrow> c \<notin> set p"
  by (induction s arbitrary: p) (auto split: if_splits list.splits)

text \<open>The absolute path of the base directory is clean, whatever path the user gives.\<close>

lemma path_Clean_rooted:
  assumes "HasPrefix s ''/''"
  shows "\<exists>cs. path_Clean s = abs_path cs \<and> (\<forall>c \<in> set cs. proper c)"
  using assms clean_comps_result [of "[]" "split_on (CHR ''/'') s"] split_on_no_slash [of _ "CHR ''/''" s]
  by (intro exI [of _ "clean_comps True [] (split_on (CHR ''/'') s)"]) (auto simp: path_Clean_def abs_path_def Let_def)

lemma path_Abs_clean:
  assumes "HasPrefix cwd ''/''"
  shows "\<exists>cs. path_Abs cwd p = abs_path cs \<and> (\<forall>c \<in> set cs. proper c)"
proof (cases "HasPrefix p ''/''")
  case True
  then show ?thesis using path_Clean_rooted by (simp add: path_Abs_def)
next
  case False
  have "cwd \<noteq> ''''" using assms by auto
  moreover have "HasPrefix (cwd @ s) ''/''" for s using assms by (cases cwd) auto
  ultimately show ?thesis using False assms path_Clean_rooted [of cwd] path_Clean_rooted [of "cwd @ ''/'' @ p"]
    by (cases "p = ''''") (simp_all add: path_Abs_def path_Join_def)
qed

lemma join_with_snoc: "xs \<noteq> [] \<Longrightarrow> join_with sep (xs @ [y]) = join_with sep xs @ sep @ y"
  by (induction xs rule: induct_list012) simp_all

lemma abs_path_snoc: "cs \<noteq> [] \<Longrightarrow> abs_path (cs @ [f]) = abs_path cs @ ''/'' @ f"
  by (simp add: abs_path_def join_with_snoc)

lemma proper_suffix: "CHR ''/'' \<notin> set u \<Longrightarrow> 3 \<le> length e \<Longrightarrow> CHR ''/'' \<notin> set e \<Longrightarrow> proper (u @ e)"
  by (auto simp: proper_def dest: arg_cong [where f = length])

text \<open>Where the directories are after a successful start.\<close>

lemma basedir_Init_dirs:
  assumes "basedir_Init (Some path) mk chmod = (b, made, None)" and "path = abs_path cs" and "\<forall>c \<in> set cs. proper c"
  shows "bd_path b = abs_path cs" "bd_configDir b = abs_path (cs @ [''config''])"
    "bd_instanceDir b = abs_path (cs @ [''instance''])" "bd_dataDir b = abs_path (cs @ [''data''])"
    "bd_binDir b = abs_path (cs @ [''bin''])" "bd_trashDir b = abs_path (cs @ [''trash''])"
proof -
  have d: "path_Join [path, d] = abs_path (cs @ [d])" if "proper d" for d
    using path_Join_proper [OF assms(3) that] assms(2) by simp
  have p: "proper ''config''" "proper ''instance''" "proper ''data''" "proper ''bin''" "proper ''trash''"
    by (simp_all add: proper_def)
  have step: "\<exists>b' made'. st = (b', made', None) \<and> b2 = name dir b'"
    if "init_dir mk chmod pr name dir st = (b2, made2, None)" for pr name dir st b2 made2
    using that by (cases st) (auto simp: init_dir_def split: if_splits option.splits)
  note i = assms(1) [unfolded basedir_Init_def option.case Let_def]
  have "b = zero_basedir\<lparr>bd_path := path, bd_configDir := path_Join [path, ''config''],
      bd_instanceDir := path_Join [path, ''instance''], bd_dataDir := path_Join [path, ''data''],
      bd_binDir := path_Join [path, ''bin''], bd_trashDir := path_Join [path, ''trash'']\<rparr>"
    using step [OF i] by (elim exE conjE) ((drule step, elim exE conjE)+, simp)
  then show "bd_path b = abs_path cs" "bd_configDir b = abs_path (cs @ [''config''])"
    "bd_instanceDir b = abs_path (cs @ [''instance''])" "bd_dataDir b = abs_path (cs @ [''data''])"
    "bd_binDir b = abs_path (cs @ [''bin''])" "bd_trashDir b = abs_path (cs @ [''trash''])"
    using d [OF p(1)] d [OF p(2)] d [OF p(3)] d [OF p(4)] d [OF p(5)] assms(2) by simp_all
qed

text \<open>
  C32: the files of the agent. After a successful start from any path, the file of an instance whose
  UUID has no slash is the entry \<open>UUID.json\<close> of the instance directory and the configuration of a
  service without a slash in its name the entry \<open>service.conf\<close> of the configuration directory, so that
  different instances and services have different files. A name with slashes is resolved: a UUID
  that begins with \<open>../config/\<close> names a file of the configuration directory.
\<close>

theorem agent_files:
  assumes "HasPrefix cwd ''/''" and "basedir_Init (Some (path_Abs cwd path)) mk chmod = (b, made, None)"
    and "CHR ''/'' \<notin> set u" and "CHR ''/'' \<notin> set v"
  shows "InstanceFile b u = bd_instanceDir b @ ''/'' @ u @ ''.json''
    \<and> ConfigFile b u = bd_configDir b @ ''/'' @ u @ ''.conf''
    \<and> (InstanceFile b u = InstanceFile b v \<longleftrightarrow> u = v) \<and> (ConfigFile b u = ConfigFile b v \<longleftrightarrow> u = v)
    \<and> InstanceFile b u \<noteq> ConfigFile b v
    \<and> InstanceFile b (''../config/'' @ u) = bd_configDir b @ ''/'' @ u @ ''.json''"
proof -
  obtain cs where cs: "path_Abs cwd path = abs_path cs" "\<forall>c \<in> set cs. proper c"
    using path_Abs_clean [OF assms(1)] by blast
  note d = basedir_Init_dirs [OF assms(2) cs]
  have sub: "\<forall>c \<in> set (cs @ [''instance'']). proper c" "\<forall>c \<in> set (cs @ [''config'']). proper c"
    using cs(2) by (simp_all add: proper_def)
  have path: "InstanceFile b x = bd_instanceDir b @ ''/'' @ x @ ''.json''"
    "ConfigFile b x = bd_configDir b @ ''/'' @ x @ ''.conf''" if "CHR ''/'' \<notin> set x" for x
    using path_Join_proper [OF sub(1) proper_suffix [OF that, of "''.json''"]]
      path_Join_proper [OF sub(2) proper_suffix [OF that, of "''.conf''"]]
      abs_path_snoc [of "cs @ [''instance'']"] abs_path_snoc [of "cs @ [''config'']"]
    by (simp_all add: InstanceFile_def ConfigFile_def d INSTANCE_FILE_SUFFIX_def CONFIG_FILE_SUFFIX_def)
  have "InstanceFile b (''../config/'' @ u) = abs_path (clean_comps True (rev (cs @ [''instance''])) [''..'', ''config'', u @ ''.json''])"
    using path_Join_below [OF sub(1), of "''../config/'' @ u @ ''.json''"] assms(3)
    by (simp add: InstanceFile_def d INSTANCE_FILE_SUFFIX_def)
  also have "\<dots> = abs_path ((cs @ [''config'']) @ [u @ ''.json''])"
    using clean_comps_proper [of "[''config'', u @ ''.json'']" True "rev cs"] proper_suffix [OF assms(3), of "''.json''"]
    by (simp add: proper_def)
  also have "\<dots> = bd_configDir b @ ''/'' @ u @ ''.json''" using abs_path_snoc [of "cs @ [''config'']"] d by simp
  finally have esc: "InstanceFile b (''../config/'' @ u) = bd_configDir b @ ''/'' @ u @ ''.json''" .
  have "InstanceFile b u \<noteq> ConfigFile b v"
    using arg_cong [of "InstanceFile b u" "ConfigFile b v" last] path [OF assms(3)] path [OF assms(4)] by auto
  then show ?thesis using path [OF assms(3)] path [OF assms(4)] esc by auto
qed

theorem agent_files_witness:
  "\<exists>b made. basedir_Init (Some (path_Abs ''/root'' ''x/../agent'')) (\<lambda>_. None) (\<lambda>_. None) = (b, made, None)
    \<and> InstanceFile b ''123'' = bd_instanceDir b @ ''/'' @ ''123'' @ ''.json''
    \<and> InstanceFile b ''../config/123'' = bd_configDir b @ ''/'' @ ''123'' @ ''.json''"
proof -
  obtain b made where b: "basedir_Init (Some (path_Abs ''/root'' ''x/../agent'')) (\<lambda>_. None) (\<lambda>_. None) = (b, made, None)"
    by (simp add: basedir_Init_def init_dir_def Let_def)
  show ?thesis using agent_files [OF _ b, of "''123''" "''124''"] b by auto
qed

text \<open>
  A configuration that was written is read back. When the encoding of a value is not empty and
  is decoded to that value, a read after a successful write gives the value and the text in the file,
  and every other file is as it was. A file that is empty, as one is that was opened for writing and
  not yet written, is read without an error and leaves the destination as it was.
\<close>

theorem config_roundtrip:
  assumes "encode v = Some text" and "text \<noteq> []" and "decode text = Some v"
    and "\<not> fs_readErr fs (ConfigFile b name)" and "WriteConfig encode b fs name v = (fs', None)"
  shows "ReadConfig decode b fs' name = (text, Some v, None)
    \<and> (\<forall>f. f \<noteq> ConfigFile b name \<longrightarrow> fs_data fs' f = fs_data fs f)
    \<and> ReadConfig decode b (fs\<lparr>fs_data := (fs_data fs)(ConfigFile b name \<mapsto> [])\<rparr>) name = ([], None, None)"
  using assms by (auto simp: ReadConfig_def WriteConfig_def readFile_def writeFile_def split: if_splits)

theorem config_roundtrip_witness:
  "\<exists>b fs fs'. WriteConfig (\<lambda>n. Some (string_of_nat n)) b fs ''qan'' 42 = (fs', None)
    \<and> ReadConfig (parse_digits 0) b fs' ''qan'' = (''42'', Some 42, None)"
proof -
  let ?fs = "\<lparr>fs_data = Map.empty, fs_readErr = (\<lambda>_. False), fs_writeErr = (\<lambda>_. False)\<rparr>"
  have t: "string_of_nat 42 = ''42''" by code_simp
  have d: "parse_digits 0 ''42'' = Some 42" by code_simp
  obtain fs' where w: "WriteConfig (\<lambda>n. Some (string_of_nat n)) zero_basedir ?fs ''qan'' 42 = (fs', None)"
    by (simp add: WriteConfig_def writeFile_def)
  show ?thesis
    using config_roundtrip [of "\<lambda>n. Some (string_of_nat n)" 42 "''42''" "parse_digits 0" ?fs zero_basedir "''qan''" fs'] w t d
    by auto
qed

section \<open>External programs\<close>

text \<open>
  What a run of a program meets: the search path, the path of the executable (\<open>None\<close> when it is not
  known), the name the agent was started with, the home directory, the error of creating the output
  file, and how the program ends: with its output and an error, or not in time, when it is killed.
\<close>

datatype run_error = ExecNotFound | ExecFailed string

datatype run_end = Finished string "run_error option" | NotInTime bool

record cmd_env =
  xe_PATH :: string
  xe_Executable :: "string option"
  xe_Arg0 :: string
  xe_HOME :: string
  xe_create :: "string \<Rightarrow> string option"
  xe_run :: "string \<Rightarrow> string list \<Rightarrow> run_end"

datatype cmd_error = ErrNotFound | ErrTimeout | ErrKillProcessAfterTimeout | CreateFailed string | ProcessFailed string

text \<open>The arguments up to a redirection, and the file that the output is redirected to.\<close>

fun redirect :: "string list \<Rightarrow> string list \<times> string" where
  "redirect [] = ([], '''')"
| "redirect (arg # args) =
     (if HasPrefix arg ''>'' then ([], TrimSpace (tl arg))
      else (case redirect args of (as, out) \<Rightarrow> (arg # as, out)))"

text \<open>
  \<open>Run\<close>: the process that is started, with its search path, its arguments and the file its output
  goes to, if one is started; then the output and the error. The search path of the agent is set
  back when \<open>Run\<close> returns.
\<close>

record process =
  pr_PATH :: string
  pr_args :: "string list"
  pr_stdout :: "string option"
  pr_home :: "string option"

definition cmd_path :: "cmd_env \<Rightarrow> string" where
  "cmd_path env =
     (case xe_Executable env of
        None \<Rightarrow> path_Dir '''' @ ''/bin/'' @ '':'' @ xe_PATH env
      | Some _ \<Rightarrow> path_Dir (xe_Arg0 env) @ '':'' @ xe_PATH env)"

text \<open>The output that \<open>runCmd\<close> passes on: that of the process, or the name of the file it was redirected to.\<close>

definition runCmd :: "string \<Rightarrow> string \<Rightarrow> string" where
  "runCmd redirectFile out = (if redirectFile = '''' then out else redirectFile)"

definition cmd_Run :: "cmd_env \<Rightarrow> string \<Rightarrow> string list \<Rightarrow> process option \<times> string \<times> cmd_error option" where
  "cmd_Run env name cargs =
     (case redirect cargs of
        (args, outFilename) \<Rightarrow>
          (case (if outFilename \<noteq> '''' then xe_create env outFilename else None) of
             Some e \<Rightarrow> (None, '''', Some (CreateFailed e))
           | None \<Rightarrow>
               (let p = \<lparr>pr_PATH = cmd_path env, pr_args = args,
                         pr_stdout = (if outFilename \<noteq> '''' then Some outFilename else None),
                         pr_home = (if xe_HOME env = '''' then Some ''/root'' else None)\<rparr>
                in case xe_run env name args of
                     NotInTime killFailed \<Rightarrow> (Some p, '''', Some (if killFailed then ErrKillProcessAfterTimeout else ErrTimeout))
                   | Finished out err \<Rightarrow>
                       (case err of
                          Some ExecNotFound \<Rightarrow> (Some p, '''', Some ErrNotFound)
                        | Some (ExecFailed e) \<Rightarrow>
                            (Some p, runCmd outFilename out, Some (ProcessFailed e))
                        | None \<Rightarrow> (Some p, runCmd outFilename out, None)))))"

text \<open>
  The directory of the executable is used when it is not known and not used when it is: the
  programs beside the executable are found only through the name the agent was started with.
\<close>

lemma cmd_path_inverted:
  "xe_Executable env = Some exe \<Longrightarrow> cmd_path env = cmd_path (env\<lparr>xe_Executable := Some exe'\<rparr>)"
  "xe_Executable env = None \<Longrightarrow> cmd_path env = ''./bin/:'' @ xe_PATH env"
  by (simp_all add: cmd_path_def path_Dir_def path_Clean_def Let_def)

text \<open>
  The arguments after the first one that begins with \<open>>\<close> are dropped, and that one is never passed on.
\<close>

lemma redirect_exact:
  "redirect args =
     (takeWhile (\<lambda>a. \<not> HasPrefix a ''>'') args,
      case dropWhile (\<lambda>a. \<not> HasPrefix a ''>'') args of [] \<Rightarrow> '''' | a # _ \<Rightarrow> TrimSpace (tl a))"
  by (induction args) auto

end
