(* ===== verification/QueryService.thy ===== *)
theory QueryService
  imports Explain Files InstanceRepo Agent
begin

text \<open>
  The query service: \<open>query/manager.go\<close>, which answers commands about an instance through the plugin of
  its subsystem, and the plugins \<open>query/plugin/mysql\<close>, \<open>query/plugin/mongo\<close> and \<open>query/plugin/os\<close>, with the
  arguments of the summary programs.
\<close>

section \<open>Summaries\<close>

text \<open>\<open>net.SplitHostPort\<close>: \<open>None\<close> stands for its errors.\<close>

definition SplitHostPort :: "string \<Rightarrow> (string \<times> string) option" where
  "SplitHostPort hostport =
     (if CHR '':'' \<notin> set hostport then None
      else
        (let port = rev (takeWhile (\<lambda>c. c \<noteq> CHR '':'') (rev hostport));
             before = take (length hostport - length port - 1) hostport
         in if HasPrefix hostport ''['' then
              (let host = takeWhile (\<lambda>c. c \<noteq> CHR '']'') (tl hostport)
               in if before = ''['' @ host @ '']'' \<and> CHR ''['' \<notin> set (host @ port) \<and> CHR '']'' \<notin> set port
                  then Some (host, port) else None)
            else if CHR '':'' \<in> set before \<or> CHR ''['' \<in> set hostport \<or> CHR '']'' \<in> set hostport then None
            else Some (before, port)))"

text \<open>
  The arguments of \<open>pt-mysql-summary\<close>. The flags are ranged over as a map, in an order Go does not
  specify: \<open>userFirst\<close> is the choice of this execution.
\<close>

definition mysql_authArgs :: "bool \<Rightarrow> string \<Rightarrow> string \<Rightarrow> string list" where
  "mysql_authArgs userFirst username password =
     (let u = (if username \<noteq> '''' then [''--user'', username] else []);
          p = (if password \<noteq> '''' then [''--password'', password] else [])
      in if userFirst then u @ p else p @ u)"

definition mysql_addrArgs :: "string \<Rightarrow> string \<Rightarrow> string + string list" where
  "mysql_addrArgs protocol addr =
     (if protocol = ''tcp'' then
        (case SplitHostPort addr of
           None \<Rightarrow> Inl (''address '' @ addr)
         | Some (host, port) \<Rightarrow> Inr [''--host'', host, ''--port'', port])
      else if protocol = ''unix'' then Inr [''--socket'', addr]
      else Inr [])"

record dsn_config =
  dc_User :: string
  dc_Passwd :: string
  dc_Net :: string
  dc_Addr :: string

definition cmd_error_text :: "cmd_error \<Rightarrow> string" where
  "cmd_error_text e =
     (case e of
        ErrNotFound \<Rightarrow> ''Executable file not found in $PATH''
      | ErrTimeout \<Rightarrow> ''Timeout''
      | ErrKillProcessAfterTimeout \<Rightarrow> ''Failed to kill process after timeout''
      | CreateFailed m \<Rightarrow> m
      | ProcessFailed m \<Rightarrow> m)"

definition run_summary :: "cmd_env \<Rightarrow> string \<Rightarrow> string list \<Rightarrow> string \<times> string option" where
  "run_summary cenv name args =
     (case cmd_Run cenv name args of (_, out, err) \<Rightarrow> (out, map_option cmd_error_text err))"

definition mysql_Summary ::
  "(string \<Rightarrow> string + dsn_config) \<Rightarrow> bool \<Rightarrow> cmd_env \<Rightarrow> string \<Rightarrow> string \<times> string option" where
  "mysql_Summary parseDSN userFirst cenv dsn =
     (case parseDSN dsn of
        Inl e \<Rightarrow> ('''', Some e)
      | Inr cfg \<Rightarrow>
          (case mysql_addrArgs (dc_Net cfg) (dc_Addr cfg) of
             Inl e \<Rightarrow> ('''', Some e)
           | Inr a \<Rightarrow> run_summary cenv ''pt-mysql-summary'' (mysql_authArgs userFirst (dc_User cfg) (dc_Passwd cfg) @ a)))"

text \<open>The arguments of \<open>pt-mongodb-summary\<close>.\<close>

record dial_info =
  di_Username :: string
  di_Password :: string
  di_Source :: string
  di_Addrs :: "string list"

definition mongo_authArgs :: "string \<Rightarrow> string \<Rightarrow> string \<Rightarrow> string list" where
  "mongo_authArgs username password authDatabase =
     (if username \<noteq> '''' then [''--username='' @ username] else [])
     @ (if password \<noteq> '''' then [''--password='' @ password] else [])
     @ (if authDatabase \<noteq> '''' then [''--authenticationDatabase='' @ password] else [])"

definition mongo_addrArgs :: "string list \<Rightarrow> string list" where
  "mongo_addrArgs addrs = (case addrs of [] \<Rightarrow> [] | a # _ \<Rightarrow> [a])"

definition mongo_Summary :: "(string \<Rightarrow> string + dial_info) \<Rightarrow> cmd_env \<Rightarrow> string \<Rightarrow> string \<times> string option" where
  "mongo_Summary parseURL cenv dsn =
     (case parseURL dsn of
        Inl e \<Rightarrow> ('''', Some e)
      | Inr d \<Rightarrow>
          run_summary cenv ''pt-mongodb-summary''
            (mongo_authArgs (di_Username d) (di_Password d) (di_Source d) @ mongo_addrArgs (di_Addrs d)))"

definition os_Summary :: "cmd_env \<Rightarrow> string \<times> string option" where
  "os_Summary cenv = run_summary cenv ''pt-summary'' []"

text \<open>The authentication database that is passed on is the password.\<close>

lemma mongo_authArgs_password:
  assumes "username \<noteq> ''''" "password \<noteq> ''''" "authDatabase \<noteq> ''''"
  shows "mongo_authArgs username password authDatabase =
    [''--username='' @ username, ''--password='' @ password, ''--authenticationDatabase='' @ password]"
  using assms by (simp add: mongo_authArgs_def)

section \<open>Plugins\<close>

text \<open>
  What the plugins meet outside of the agent, by the data source of the instance: the connection and
  the answers of a MySQL server, MongoDB's answers, the decoding of the data of a command, the parsers
  of the data sources, and the environment of external programs.
\<close>

record explain_query =
  eq_Db :: string
  eq_Query :: string
  eq_Convert :: bool

record plugin_env =
  pe_connect :: "string \<Rightarrow> sql_error option"
  pe_explain :: "string \<Rightarrow> explain_env"
  pe_tables :: "string \<Rightarrow> answers"
  pe_mongo_explain :: "string \<Rightarrow> string \<Rightarrow> string \<Rightarrow> string + string"
  pe_explain_query :: "bytes \<Rightarrow> string + explain_query"
  pe_table_query :: "bytes \<Rightarrow> string + table_query"
  pe_parseDSN :: "string \<Rightarrow> string + dsn_config"
  pe_parseURL :: "string \<Rightarrow> string + dial_info"
  pe_userFirst :: bool
  pe_cmd :: cmd_env

datatype query_data = QExplain ExplainResult | QTables tresult | QText string

datatype plugin_error = UnknownCommand string | PluginFailed string

definition plugin_error_text :: "plugin_error \<Rightarrow> string" where
  "plugin_error_text e = (case e of UnknownCommand c \<Rightarrow> ''Unknown command: '' @ c | PluginFailed m \<Rightarrow> m)"

type_synonym plugin_out = "query_data option \<times> plugin_error option"

definition text_out :: "string \<times> string option \<Rightarrow> plugin_out" where
  "text_out r = (Some (QText (fst r)), map_option PluginFailed (snd r))"

definition mysql_explain :: "plugin_env \<Rightarrow> Cmd \<Rightarrow> inst \<Rightarrow> plugin_out" where
  "mysql_explain env c i =
     (case pe_connect env (in_DSN i) of
        Some e \<Rightarrow> (None, Some (PluginFailed (error_text e)))
      | None \<Rightarrow>
          (case pe_explain_query env (cm_Data c) of
             Inl e \<Rightarrow> (None, Some (PluginFailed e))
           | Inr q \<Rightarrow>
               (case Explain (pe_explain env (in_DSN i)) (eq_Db q) (eq_Query q) (eq_Convert q) of
                  Inl e \<Rightarrow> (None, Some (PluginFailed (error_text e)))
                | Inr r \<Rightarrow> (Some (QExplain r), None))))"

definition mysql_tableInfo :: "plugin_env \<Rightarrow> Cmd \<Rightarrow> inst \<Rightarrow> plugin_out option" where
  "mysql_tableInfo env c i =
     (case pe_connect env (in_DSN i) of
        Some e \<Rightarrow> Some (None, Some (PluginFailed (error_text e)))
      | None \<Rightarrow>
          (case pe_table_query env (cm_Data c) of
             Inl e \<Rightarrow> Some (None, Some (PluginFailed e))
           | Inr q \<Rightarrow> map_option (\<lambda>res. (Some (QTables res), None)) (TableInfo (pe_tables env (in_DSN i)) q)))"

text \<open>The \<open>Handle\<close> methods; \<open>None\<close> is a panic.\<close>

definition mysql_Handle :: "plugin_env \<Rightarrow> Cmd \<Rightarrow> inst \<Rightarrow> plugin_out option" where
  "mysql_Handle env c i =
     (if cm_Cmd c = ''Explain'' then Some (mysql_explain env c i)
      else if cm_Cmd c = ''TableInfo'' then mysql_tableInfo env c i
      else if cm_Cmd c = ''Summary'' then
        Some (text_out (mysql_Summary (pe_parseDSN env) (pe_userFirst env) (pe_cmd env) (in_DSN i)))
      else Some (None, Some (UnknownCommand (cm_Cmd c))))"

definition mongo_explain :: "plugin_env \<Rightarrow> Cmd \<Rightarrow> inst \<Rightarrow> plugin_out" where
  "mongo_explain env c i =
     (case pe_explain_query env (cm_Data c) of
        Inl e \<Rightarrow> (None, Some (PluginFailed e))
      | Inr q \<Rightarrow>
          (case pe_mongo_explain env (in_DSN i) (eq_Db q) (eq_Query q) of
             Inl e \<Rightarrow> (None, Some (PluginFailed e))
           | Inr json \<Rightarrow> (Some (QExplain \<lparr>er_Classic = [], er_JSON = json\<rparr>), None)))"

definition mongo_Handle :: "plugin_env \<Rightarrow> Cmd \<Rightarrow> inst \<Rightarrow> plugin_out option" where
  "mongo_Handle env c i =
     Some (if cm_Cmd c = ''Explain'' then mongo_explain env c i
           else if cm_Cmd c = ''Summary'' then text_out (mongo_Summary (pe_parseURL env) (pe_cmd env) (in_DSN i))
           else (None, Some (UnknownCommand (cm_Cmd c))))"

definition os_Handle :: "plugin_env \<Rightarrow> Cmd \<Rightarrow> inst \<Rightarrow> plugin_out option" where
  "os_Handle env c i =
     Some (if cm_Cmd c = ''Summary'' then text_out (os_Summary (pe_cmd env)) else (None, Some (UnknownCommand (cm_Cmd c))))"

section \<open>The manager\<close>

definition QUERY_SERVICE :: string where "QUERY_SERVICE = ''query''"

type_synonym plugin = "plugin_env \<Rightarrow> Cmd \<Rightarrow> inst \<Rightarrow> plugin_out option"

record query_manager =
  qm_plugins :: "(string \<times> plugin) list"
  qm_running :: bool
  qm_status :: status

definition NewQueryManager :: query_manager where
  "NewQueryManager = \<lparr>qm_plugins = [], qm_running = False, qm_status = NewStatus [QUERY_SERVICE]\<rparr>"

definition unloadPlugins :: "query_manager \<Rightarrow> query_manager" where
  "unloadPlugins m = m\<lparr>qm_plugins := []\<rparr>"

definition loadPlugins :: "query_manager \<Rightarrow> query_manager" where
  "loadPlugins m =
     (unloadPlugins m)\<lparr>qm_plugins := [(''mysql'', mysql_Handle), (''mongo'', mongo_Handle), (''os'', os_Handle)]\<rparr>"

definition query_Start :: "query_manager \<Rightarrow> query_manager \<times> string option" where
  "query_Start m =
     (if qm_running m then (m, Some (QUERY_SERVICE @ '' service is running''))
      else ((loadPlugins m)\<lparr>qm_running := True, qm_status := status_Update QUERY_SERVICE ''Idle'' (qm_status m)\<rparr>, None))"

definition query_Stop :: "query_manager \<Rightarrow> query_manager \<times> string option" where
  "query_Stop m =
     (if \<not> qm_running m then (m, None)
      else ((unloadPlugins m)\<lparr>qm_running := False, qm_status := status_Update QUERY_SERVICE ''Stopped'' (qm_status m)\<rparr>, None))"

record query_reply =
  qr_Id :: string
  qr_Cmd :: string
  qr_Error :: string
  qr_Data :: "query_data option"

definition query_Reply :: "Cmd \<Rightarrow> query_data option \<Rightarrow> string \<Rightarrow> query_reply" where
  "query_Reply c d err = \<lparr>qr_Id = cm_Id c, qr_Cmd = cm_Cmd c, qr_Error = err, qr_Data = d\<rparr>"

definition repo_error_text :: "repo_error \<Rightarrow> string" where
  "repo_error_text e = (case e of ErrInstanceNotFound \<Rightarrow> ''instance not found'' | _ \<Rightarrow> ''instance repository failed'')"

text \<open>
  \<open>Handle\<close>. \<open>json\<close> decodes the data of the command as an instance and gives its UUID. While a command
  is handled the status is \<open>Handling\<close>; it is \<open>Idle\<close> again when \<open>Handle\<close> returns. The reply is \<open>None\<close> when
  a plugin panics.
\<close>

definition query_dispatch ::
  "plugin_env \<Rightarrow> (bytes \<Rightarrow> string + string) \<Rightarrow> bool \<Rightarrow> bool \<Rightarrow> Cmd \<Rightarrow> query_manager \<Rightarrow> repo \<Rightarrow> repo \<times> query_reply option" where
  "query_dispatch env json readErr writeErr c m r =
     (case json (cm_Data c) of
        Inl e \<Rightarrow> (r, Some (query_Reply c None e))
      | Inr uuid \<Rightarrow>
          (case repo_Get readErr writeErr uuid False r of
             (r, Inl e) \<Rightarrow> (r, Some (query_Reply c None (repo_error_text e)))
           | (r, Inr i) \<Rightarrow>
               (case map_of (qm_plugins m) (in_Subsystem i) of
                  None \<Rightarrow> (r, Some (query_Reply c None (''can't query '' @ in_Subsystem i)))
                | Some p \<Rightarrow>
                    (r, case p env c i of
                          None \<Rightarrow> None
                        | Some (d, None) \<Rightarrow> Some (query_Reply c d '''')
                        | Some (d, Some (UnknownCommand x)) \<Rightarrow> Some (query_Reply c None (plugin_error_text (UnknownCommand x)))
                        | Some (d, Some (PluginFailed e)) \<Rightarrow>
                            Some (query_Reply c d (''cmd '' @ sq @ cm_Cmd c @ sq @ '' for subsystem '' @ sq @ in_Subsystem i
                                    @ sq @ '' failed: '' @ e))))))"

definition query_Handle ::
  "plugin_env \<Rightarrow> (bytes \<Rightarrow> string + string) \<Rightarrow> bool \<Rightarrow> bool \<Rightarrow> Cmd \<Rightarrow> query_manager \<Rightarrow> repo
     \<Rightarrow> query_manager \<times> repo \<times> query_reply option" where
  "query_Handle env json readErr writeErr c m r =
     (if \<not> qm_running m then (m, r, Some (query_Reply c None '' service is not running''))
      else
        (let m = m\<lparr>qm_status := status_UpdateRe QUERY_SERVICE ''Handling'' (cm_Cmd c) (qm_status m)\<rparr>;
             (r, reply) = query_dispatch env json readErr writeErr c m r
         in (m\<lparr>qm_status := status_Update QUERY_SERVICE ''Idle'' (qm_status m)\<rparr>, r, reply)))"

section \<open>What the service answers\<close>

text \<open>The plugins are loaded exactly while the service runs.\<close>

definition query_inv :: "query_manager \<Rightarrow> bool" where
  "query_inv m \<longleftrightarrow>
     qm_plugins m = (if qm_running m then [(''mysql'', mysql_Handle), (''mongo'', mongo_Handle), (''os'', os_Handle)] else [])
     \<and> dom (qm_status m) = {QUERY_SERVICE}"

lemma query_inv_ops:
  assumes "query_inv m"
  shows "query_inv (fst (query_Start m))" "query_inv (fst (query_Stop m))"
    "query_inv (fst (query_Handle env json readErr writeErr c m r))"
  using assms
  by (auto simp: query_inv_def query_Start_def query_Stop_def query_Handle_def loadPlugins_def unloadPlugins_def Let_def
      split: prod.splits)

lemma query_inv_new: "query_inv NewQueryManager"
  by (auto simp: query_inv_def NewQueryManager_def NewStatus_def dom_def)

lemma plugins_panic:
  assumes "p env c i = None" and "p \<in> {mysql_Handle, mongo_Handle, os_Handle}"
  shows "p = mysql_Handle \<and> cm_Cmd c = ''TableInfo''"
  using assms by (auto simp: mysql_Handle_def mongo_Handle_def os_Handle_def split: if_splits)

lemma query_dispatch_id:
  "snd (query_dispatch env json readErr writeErr c m r) = Some rep \<Longrightarrow> qr_Id rep = cm_Id c \<and> qr_Cmd rep = cm_Cmd c"
  by (auto simp: query_dispatch_def query_Reply_def split: sum.splits prod.splits option.splits plugin_error.splits)


definition demo_cmd_env :: cmd_env where
  "demo_cmd_env =
     \<lparr>xe_PATH = ''/bin'', xe_Executable = Some ''/agent'', xe_Arg0 = ''/agent'', xe_HOME = ''/root'', xe_create = (\<lambda>_. None),
      xe_run = (\<lambda>_ _. Finished ''ok'' None)\<rparr>"

definition demo_plugin_env :: "string \<Rightarrow> plugin_env" where
  "demo_plugin_env query =
     \<lparr>pe_connect = (\<lambda>_. None), pe_explain = (\<lambda>_. demo_explain_env), pe_tables = (\<lambda>_. demo_answers),
      pe_mongo_explain = (\<lambda>_ _ _. Inl ''mongo''), pe_explain_query = (\<lambda>_. Inr \<lparr>eq_Db = ''db'', eq_Query = query, eq_Convert = True\<rparr>),
      pe_table_query = (\<lambda>_. Inl ''json''), pe_parseDSN = (\<lambda>_. Inl ''dsn''), pe_parseURL = (\<lambda>_. Inl ''url''),
      pe_userFirst = True, pe_cmd = demo_cmd_env\<rparr>"

definition demo_inst :: inst where
  "demo_inst = \<lparr>in_UUID = ''u'', in_Subsystem = ''mysql'', in_Name = ''n'', in_DSN = ''dsn'', in_Distro = '''', in_Version = ''''\<rparr>"

definition demo_repo :: repo where
  "demo_repo = \<lparr>rp_instances = [(''u'', demo_inst)], rp_files = Map.empty\<rparr>"

definition demo_query_cmd :: Cmd where
  "demo_query_cmd = \<lparr>cm_Id = ''7'', cm_Service = ''query'', cm_Cmd = ''Explain'', cm_Data = []\<rparr>"

abbreviation demo_running :: query_manager where
  "demo_running \<equiv> fst (query_Start NewQueryManager)"


text \<open>
  From a command to the converted statement. While the service runs, the command \<open>Explain\<close> for a
  MySQL instance of the repository, with a \<open>DELETE FROM\<close> that the server refuses for its syntax or the
  privileges and the conversion asked for, is answered with the explanation the server gives for the
  \<open>SELECT\<close> of the same rows in the same database, without an error.
\<close>

theorem query_explains_delete:
  assumes "query_inv m" and "qm_running m" and "cm_Cmd c = ''Explain''"
    and "json (cm_Data c) = Inr uuid" and "rp_inst r uuid = Some i" and "in_Subsystem i = ''mysql''"
    and "pe_connect env (in_DSN i) = None" and "pe_explain_query env (cm_Data c) = Inr q" and "eq_Convert q"
    and "map to_lower_char d = ''delete''" and "map to_lower_char f = ''from''"
    and "CHR 0x0A \<notin> set x" and "x = [] \<or> \<not> is_space (hd x)" and "eq_Query q = d @ '' '' @ f @ '' '' @ x"
    and "select = (if Contains x ''join'' then ''SELECT 1 FROM '' else ''SELECT * FROM '') @ x"
    and "explain_tx (pe_explain env (in_DSN i)) (quote_db (eq_Db q)) (eq_Query q) = Inl err"
    and "MySQLErrorCode err = ER_SYNTAX_ERROR \<or> MySQLErrorCode err = ER_USER_DENIED"
    and "explain_tx (pe_explain env (in_DSN i)) (quote_db (eq_Db q)) select = Inr res"
  shows "snd (snd (query_Handle env json readErr writeErr c m r)) = Some (query_Reply c (Some (QExplain res)) '''')"
proof -
  note sel = delete_select [OF assms(10-15)]
  have "select \<noteq> ''''" using assms(15) by simp
  then have "Explain (pe_explain env (in_DSN i)) (eq_Db q) (eq_Query q) (eq_Convert q) = Inr res"
    using Explain_converted [OF sel(2,1) _ assms(16,17)] assms(9,18) by simp
  then have "mysql_Handle env c i = Some (Some (QExplain res), None)"
    using assms(3,7,8) by (simp add: mysql_Handle_def mysql_explain_def)
  moreover have "repo_Get readErr writeErr uuid False r = (r, Inr i)" using assms(5) by (simp add: repo_Get_def)
  ultimately show ?thesis
    using assms(1,2,4,6) by (simp add: query_Handle_def query_dispatch_def query_inv_def Let_def split: prod.splits)
qed

theorem query_explains_delete_witness:
  "snd (snd (query_Handle (demo_plugin_env ''delete from t'') (\<lambda>_. Inr ''u'') False False demo_query_cmd demo_running demo_repo))
     = Some (query_Reply demo_query_cmd (Some (QExplain \<lparr>er_Classic = [], er_JSON = ''''\<rparr>)) '''')"
proof (rule query_explains_delete [where uuid = "''u''" and i = demo_inst and d = "''delete''" and f = "''from''" and x = "''t''"
      and q = "\<lparr>eq_Db = ''db'', eq_Query = ''delete from t'', eq_Convert = True\<rparr>" and err = "MySQLError 1064 ''syntax''"
      and select = "''SELECT * FROM t''"])
  show "query_inv demo_running" using query_inv_ops(1) query_inv_new by blast
  show "map to_lower_char ''delete'' = ''delete''" "map to_lower_char ''from'' = ''from''" by code_simp+
  show "explain_tx (pe_explain (demo_plugin_env ''delete from t'') (in_DSN demo_inst))
      (quote_db (eq_Db \<lparr>eq_Db = ''db'', eq_Query = ''delete from t'', eq_Convert = True\<rparr>))
      (eq_Query \<lparr>eq_Db = ''db'', eq_Query = ''delete from t'', eq_Convert = True\<rparr>) = Inl (MySQLError 1064 ''syntax'')"
    using demo_explain_refused [of "''delete from t''"]
    by (simp add: demo_plugin_env_def TrimSpace_def is_trim_def is_space_def)
qed (simp_all add: query_Start_def NewQueryManager_def demo_query_cmd_def demo_repo_def demo_inst_def demo_plugin_env_def
      is_space_def MySQLErrorCode_def ER_SYNTAX_ERROR_def explain_tx_def demo_explain_env_def classicExplain_def
      jsonExplain_def TrimSpace_def is_trim_def)

end
