(* ===== verification/InstanceManager.thy ===== *)
theory InstanceManager
  imports InstanceRepo Api MySQLConn
begin

text \<open>
  The instance manager, \<open>instance/manager.go\<close>: its start and stop over the repository, the goroutine
  that reacts to restarts and the one that updates the instances on the API after a start, on the
  models of the MySQL connection and of the API connector. The servers, one for each DSN, and the HTTP
  client are arguments, and so are \<open>json.Marshal\<close> and \<open>dsn.HidePassword\<close>.
\<close>

section \<open>The information of a server\<close>

definition mysql_info_query :: string where
  "mysql_info_query =
     ''SELECT /* percona-qan-agent */ CONCAT_WS('' @ sq @ ''.'' @ sq @ '', @@hostname, IF(@@port='' @ sq @ ''3306'' @ sq
     @ '',NULL,@@port)) AS Hostname, @@version_comment AS Distro, @@version AS Version''"

definition GetMySQLInfo_conn :: "'s driver \<Rightarrow> inst \<Rightarrow> 's world \<Rightarrow> ('s world \<times> (sql_error + inst)) option" where
  "GetMySQLInfo_conn d i w =
     (case conn_Connect d (NewConnection (in_DSN i)) w of
        (c, w, Some e) \<Rightarrow> Some (w, Inl e)
      | (c, w, None) \<Rightarrow>
          map_option
            (\<lambda>row. (snd (conn_Close c w),
              case row of
                Inl e \<Rightarrow> Inl e
              | Inr [Some hostname, Some distro, Some version] \<Rightarrow> Inr (i\<lparr>in_Distro := distro, in_Version := version\<rparr>)
              | Inr _ \<Rightarrow> Inl ErrScan))
            (db_row d c mysql_info_query w))"

section \<open>The manager\<close>

text \<open>
  The channel of restarts has room for one instance. \<open>im_stopped\<close> says that the stop channel is
  closed; \<open>im_loops\<close> and \<open>im_updaters\<close> count the goroutines in \<open>monitor\<close> and in
  \<open>updateMySQLInstances\<close>; \<open>im_put\<close> lists what was handed to the API.
\<close>

record imanager =
  im_status :: status
  im_repo :: repo
  im_api :: API
  im_restart :: "inst option"
  im_stopped :: bool
  im_loops :: nat
  im_updaters :: nat
  im_put :: "(string \<times> inst) list"

definition im_update_status :: "string \<Rightarrow> string \<Rightarrow> imanager \<Rightarrow> imanager" where
  "im_update_status proc st m = m\<lparr>im_status := status_Update proc st (im_status m)\<rparr>"

definition NewInstanceManager :: "(string \<rightharpoonup> inst option) \<Rightarrow> API \<Rightarrow> imanager" where
  "NewInstanceManager files api =
     \<lparr>im_status = NewStatus [''instance'', ''instance-repo'', ''instance-mrms''], im_repo = NewRepo files, im_api = api,
      im_restart = None, im_stopped = False, im_loops = 0, im_updaters = 0, im_put = []\<rparr>"

text \<open>\<open>err_text\<close> is the text of an error of the repository; \<open>readErr\<close> and \<open>keys\<close> are those of its \<open>Init\<close>.\<close>

definition im_Start ::
  "(repo_error \<Rightarrow> string) \<Rightarrow> (string \<Rightarrow> bool) \<Rightarrow> string list \<Rightarrow> imanager \<Rightarrow> imanager \<times> string option" where
  "im_Start err_text readErr keys m =
     (let m = im_update_status ''instance'' ''Starting'' m
      in case repo_Init readErr keys (im_repo m) of
           (r, Some e) \<Rightarrow>
             (let m = im_update_status ''instance'' (''Failed to start repo: '' @ err_text e) (m\<lparr>im_repo := r\<rparr>);
                  m = im_update_status ''instance-repo'' (''Failed to start: '' @ err_text e) m
              in (m, Some (''cannot start repo: '' @ err_text e)))
         | (r, None) \<Rightarrow>
             (let m = im_update_status ''instance-repo'' ''Idle'' (m\<lparr>im_repo := r\<rparr>);
                  m = m\<lparr>im_updaters := im_updaters m + 1, im_loops := im_loops m + 1\<rparr>
              in (im_update_status ''instance'' ''Running'' m, None)))"

text \<open>Closing a closed channel panics, the value \<open>None\<close>.\<close>

definition im_Stop :: "imanager \<Rightarrow> imanager option" where
  "im_Stop m =
     (if im_stopped m then None
      else Some (im_update_status ''instance-repo'' ''Stopped''
             (im_update_status ''instance'' ''Stopped'' (m\<lparr>im_stopped := True\<rparr>))))"

text \<open>The request of \<open>updateInstance\<close>: it is done, fails, or panics in the API connector.\<close>

datatype update_result = Updated | UpdateErr string | UpdatePanic

definition im_updateInstance :: "(inst \<Rightarrow> bytes) \<Rightarrow> http \<Rightarrow> (string \<Rightarrow> string) \<Rightarrow> inst \<Rightarrow> imanager \<Rightarrow> imanager \<times> update_result" where
  "im_updateInstance marshal http hide i m =
     (let m = im_update_status ''instance-mrms'' (''Updating info '' @ in_UUID i) m;
          i = i\<lparr>in_DSN := hide (in_DSN i)\<rparr>;
          data = marshal i;
          link = EntryLink (im_api m) ''instances''
      in if link = '''' then (m, UpdateErr ''no instances link from API'')
         else
           (let link = link @ ''/'' @ in_UUID i;
                m = m\<lparr>im_put := im_put m @ [(link, i)]\<rparr>
            in (m, case api_Put http (im_api m) link data of
                     None \<Rightarrow> UpdatePanic
                   | Some (_, _, Some e) \<Rightarrow> UpdateErr e
                   | Some (None, _, None) \<Rightarrow> UpdatePanic
                   | Some (Some resp, body, None) \<Rightarrow>
                       if rs_StatusCode resp \<ge> 400
                       then UpdateErr (''PUT '' @ link @ '' failed: code '' @ string_of_int (rs_StatusCode resp) @ '': '' @ body)
                       else Updated)))"

text \<open>
  What the loop of \<open>monitor\<close> does with a restart it received. The deferred function recovers from a
  panic: the loop is over and the service reports a crash.
\<close>

definition im_on_restart ::
  "(string \<Rightarrow> 's driver) \<Rightarrow> (inst \<Rightarrow> bytes) \<Rightarrow> http \<Rightarrow> (string \<Rightarrow> string) \<Rightarrow> inst \<Rightarrow> imanager \<Rightarrow> 's world \<Rightarrow> imanager \<times> 's world" where
  "im_on_restart drv marshal http hide i m w =
     (let m = im_update_status ''instance-mrms'' (''Getting info '' @ hide (in_DSN i)) m;
          crash = (\<lambda>m. im_update_status ''instance-mrms'' ''Crashed'' (m\<lparr>im_loops := im_loops m - 1\<rparr>));
          idle = im_update_status ''instance-mrms'' ''Idle''
      in case GetMySQLInfo_conn (drv (in_DSN i)) i w of
           None \<Rightarrow> (crash m, w)
         | Some (w, Inl e) \<Rightarrow> (idle m, w)
         | Some (w, Inr i) \<Rightarrow>
             (case im_updateInstance marshal http hide i m of
                (m, UpdatePanic) \<Rightarrow> (crash m, w)
              | (m, _) \<Rightarrow> (idle m, w)))"

text \<open>
  \<open>updateMySQLInstances\<close>: the wait for the link, once a second for a minute, \<open>apis n\<close> being the API
  connector after \<open>n\<close> seconds, and the update of every instance. A panic is not recovered from here
  and ends the program, the value \<open>None\<close>.
\<close>

fun wait_link :: "(nat \<Rightarrow> API) \<Rightarrow> nat \<Rightarrow> nat \<Rightarrow> nat option" where
  "wait_link apis n 0 = None"
| "wait_link apis n (Suc tries) = (if EntryLink (apis n) ''instances'' = '''' then wait_link apis (n + 1) tries else Some n)"

fun update_instances ::
  "(string \<Rightarrow> 's driver) \<Rightarrow> (inst \<Rightarrow> bytes) \<Rightarrow> http \<Rightarrow> (string \<Rightarrow> string) \<Rightarrow> inst list \<Rightarrow> imanager \<Rightarrow> 's world
     \<Rightarrow> (imanager \<times> 's world) option" where
  "update_instances drv marshal http hide [] m w = Some (m, w)"
| "update_instances drv marshal http hide (i # is) m w =
     (let m = im_update_status ''instance'' (''Getting info '' @ hide (in_DSN i)) m
      in case GetMySQLInfo_conn (drv (in_DSN i)) i w of
           None \<Rightarrow> None
         | Some (w, Inl e) \<Rightarrow> update_instances drv marshal http hide is m w
         | Some (w, Inr i) \<Rightarrow>
             (case im_updateInstance marshal http hide i m of
                (m, UpdatePanic) \<Rightarrow> None
              | (m, _) \<Rightarrow> update_instances drv marshal http hide is m w))"

definition updateMySQLInstances ::
  "(string \<Rightarrow> 's driver) \<Rightarrow> (inst \<Rightarrow> bytes) \<Rightarrow> http \<Rightarrow> (string \<Rightarrow> string) \<Rightarrow> (nat \<Rightarrow> API) \<Rightarrow> imanager \<Rightarrow> 's world
     \<Rightarrow> (imanager \<times> 's world) option" where
  "updateMySQLInstances drv marshal http hide apis m w =
     (let m = m\<lparr>im_updaters := im_updaters m - 1\<rparr>
      in case wait_link apis 0 60 of
           None \<Rightarrow> Some (m, w)
         | Some n \<Rightarrow> update_instances drv marshal http hide (repo_List ''mysql'' (im_repo m)) (m\<lparr>im_api := apis n\<rparr>) w)"

text \<open>
  The steps of the goroutine in \<open>monitor\<close> and of the restart monitor, which sends only when there is
  room. With the stop channel closed and a restart in the channel, \<open>select\<close> takes either.
\<close>

inductive im_step ::
  "(string \<Rightarrow> 's driver) \<Rightarrow> (inst \<Rightarrow> bytes) \<Rightarrow> http \<Rightarrow> (string \<Rightarrow> string) \<Rightarrow> imanager \<times> 's world \<Rightarrow> imanager \<times> 's world \<Rightarrow> bool"
  for drv marshal http hide where
  notified: "im_restart m = None \<Longrightarrow> im_step drv marshal http hide (m, w) (m\<lparr>im_restart := Some i\<rparr>, w)"
| restarted: "0 < im_loops m \<Longrightarrow> im_restart m = Some i \<Longrightarrow>
    im_step drv marshal http hide (m, w) (im_on_restart drv marshal http hide i (m\<lparr>im_restart := None\<rparr>) w)"
| stopped: "0 < im_loops m \<Longrightarrow> im_stopped m \<Longrightarrow>
    im_step drv marshal http hide (m, w)
      (im_update_status ''instance-mrms'' ''Stopped'' (m\<lparr>im_loops := im_loops m - 1\<rparr>), w)"

section \<open>The information that is read\<close>

text \<open>
  What the server of a DSN tells, and the handles of the world: those that are open were made before.
  Then the query over a connection implements the one the commands are modelled with, and leaves no
  handle open, on every path.
\<close>

definition info_at :: "(string \<Rightarrow> 's driver) \<Rightarrow> 's \<Rightarrow> string \<Rightarrow> (string \<times> string) option" where
  "info_at drv s dsn =
     (if dr_open (drv dsn) dsn \<noteq> None \<or> dr_ping (drv dsn) s \<noteq> None then None
      else case dr_row (drv dsn) mysql_info_query s of
             Inr [Some hostname, Some distro, Some version] \<Rightarrow> Some (distro, version)
           | _ \<Rightarrow> None)"

definition handles_ok :: "'s world \<Rightarrow> bool" where
  "handles_ok w \<longleftrightarrow> (\<forall>h \<in> set (wo_open w). h < wo_next w)"

lemma removeAll_fresh: "handles_ok w \<Longrightarrow> removeAll (wo_next w) (wo_open w) = wo_open w"
  by (intro removeAll_id) (auto simp: handles_ok_def)

lemma GetMySQLInfo_conn_refines:
  assumes "handles_ok w"
  shows "\<exists>w' r. GetMySQLInfo_conn (drv (in_DSN i)) i w = Some (w', r)
    \<and> wo_open w' = wo_open w \<and> wo_server w' = wo_server w \<and> handles_ok w'
    \<and> (case r of Inl _ \<Rightarrow> GetMySQLInfo (info_at drv (wo_server w)) i = Inl InfoFailed
               | Inr j \<Rightarrow> GetMySQLInfo (info_at drv (wo_server w)) i = Inr j)"
proof -
  let ?d = "drv (in_DSN i)"
  consider (no_open) e where "dr_open ?d (in_DSN i) = Some e"
    | (ping) e where "dr_open ?d (in_DSN i) = None" "dr_ping ?d (wo_server w) = Some e"
    | (row) "dr_open ?d (in_DSN i) = None" "dr_ping ?d (wo_server w) = None"
    by (metis not_None_eq)
  then show ?thesis
  proof cases
    case no_open then show ?thesis using assms
      by (simp add: GetMySQLInfo_conn_def conn_Connect_def NewConnection_def GetMySQLInfo_def info_at_def)
  next
    case ping then show ?thesis using assms
      by (auto simp: GetMySQLInfo_conn_def conn_Connect_def NewConnection_def GetMySQLInfo_def info_at_def Let_def
          removeAll_fresh handles_ok_def)
  next
    case row then show ?thesis using assms
      by (auto simp: GetMySQLInfo_conn_def conn_Connect_def conn_Close_def NewConnection_def GetMySQLInfo_def info_at_def
          Let_def removeAll_fresh db_row_def handles_ok_def split: sum.splits list.splits option.splits)
  qed
qed

section \<open>The update of the instances\<close>

definition update_of :: "(string \<Rightarrow> 's driver) \<Rightarrow> 's \<Rightarrow> (string \<Rightarrow> string) \<Rightarrow> string \<Rightarrow> inst \<Rightarrow> (string \<times> inst) list" where
  "update_of drv s hide link i =
     (case GetMySQLInfo (info_at drv s) i of
        Inl _ \<Rightarrow> []
      | Inr j \<Rightarrow> [(link @ ''/'' @ in_UUID j, j\<lparr>in_DSN := hide (in_DSN j)\<rparr>)])"

lemma im_update_status_simps [simp]:
  "im_repo (im_update_status p st m) = im_repo m" "im_api (im_update_status p st m) = im_api m"
  "im_put (im_update_status p st m) = im_put m" "im_stopped (im_update_status p st m) = im_stopped m"
  "im_loops (im_update_status p st m) = im_loops m" "im_restart (im_update_status p st m) = im_restart m"
  by (simp_all add: im_update_status_def)

lemma api_Put_answers:
  assumes "\<forall>rq e. http rq \<noteq> BadRequest e"
  shows "api_Put http a link data \<noteq> None" and "api_Put http a link data \<noteq> Some (None, body, None)"
  using assms by (auto simp: api_Put_def api_send_def split: http_out.splits sum.splits)

lemma im_updateInstance_exact:
  assumes "\<forall>rq e. http rq \<noteq> BadRequest e" and "im_updateInstance marshal http hide i m = (m', u)"
  shows "u \<noteq> UpdatePanic" and "im_api m' = im_api m" and "im_loops m' = im_loops m"
    and "im_put m' = im_put m @ (if EntryLink (im_api m) ''instances'' = '''' then []
           else [(EntryLink (im_api m) ''instances'' @ ''/'' @ in_UUID i, i\<lparr>in_DSN := hide (in_DSN i)\<rparr>)])"
  using assms(2)
  by (auto simp: im_updateInstance_def Let_def api_Put_answers [OF assms(1)] split: if_splits option.splits)

lemma update_instances_exact:
  assumes "\<forall>rq e. http rq \<noteq> BadRequest e" and "handles_ok w" and "EntryLink (im_api m) ''instances'' = link" and "link \<noteq> ''''"
  shows "\<exists>m' w'. update_instances drv marshal http hide is m w = Some (m', w')
    \<and> wo_open w' = wo_open w \<and> wo_server w' = wo_server w
    \<and> im_put m' = im_put m @ concat (map (update_of drv (wo_server w) hide link) is)"
  using assms(2, 3)
proof (induction "is" arbitrary: m w)
  case (Cons i "is")
  let ?m = "im_update_status ''instance'' (''Getting info '' @ hide (in_DSN i)) m"
  obtain w1 r where w1: "GetMySQLInfo_conn (drv (in_DSN i)) i w = Some (w1, r)"
    "wo_open w1 = wo_open w" "wo_server w1 = wo_server w" "handles_ok w1"
    and r: "case r of Inl _ \<Rightarrow> GetMySQLInfo (info_at drv (wo_server w)) i = Inl InfoFailed
               | Inr j \<Rightarrow> GetMySQLInfo (info_at drv (wo_server w)) i = Inr j"
    using GetMySQLInfo_conn_refines [OF Cons.prems(1)] by blast
  show ?case
  proof (cases r)
    case (Inl e)
    then show ?thesis using Cons.IH [OF w1(4), of ?m] Cons.prems(2) w1 r by (auto simp: update_of_def)
  next
    case (Inr j)
    obtain m2 u where u: "im_updateInstance marshal http hide j ?m = (m2, u)" by (metis surj_pair)
    note ex = im_updateInstance_exact [OF assms(1) u]
    have "update_instances drv marshal http hide (i # is) m w = update_instances drv marshal http hide is m2 w1"
      using w1(1) Inr u ex(1) by (cases u) (auto simp: Let_def)
    then show ?thesis using Cons.IH [OF w1(4), of m2] Cons.prems(2) w1 r Inr ex assms(4) by (auto simp: update_of_def)
  qed
qed simp

lemma wait_link_find: "wait_link apis n k = find (\<lambda>n. EntryLink (apis n) ''instances'' \<noteq> '''') [n..<n + k]"
  by (induction k arbitrary: n) (simp_all add: upt_rec)

text \<open>
  C35: the update after a start waits for the API's link for instances for at most sixty seconds. When
  the link is there in time, exactly the MySQL instances of the repository whose server tells its
  version are sent, each once, in the order of their UUIDs, with the distribution and the version that
  the server told and with the password of the DSN hidden; when it is not, nothing is sent. Either way
  the update ends and no connection stays open, if the requests are well formed.
\<close>

theorem updateMySQLInstances_exact:
  assumes "\<forall>rq e. http rq \<noteq> BadRequest e" and "handles_ok w"
  shows "\<exists>m' w'. updateMySQLInstances drv marshal http hide apis m w = Some (m', w')
    \<and> wo_open w' = wo_open w
    \<and> im_put m' = im_put m @
        (case find (\<lambda>n. EntryLink (apis n) ''instances'' \<noteq> '''') [0..<60] of
           None \<Rightarrow> []
         | Some n \<Rightarrow>
             concat (map (update_of drv (wo_server w) hide (EntryLink (apis n) ''instances'')) (repo_List ''mysql'' (im_repo m))))"
proof (cases "wait_link apis 0 60")
  case None
  then show ?thesis by (simp add: updateMySQLInstances_def wait_link_find Let_def)
next
  case (Some n)
  then have n: "find (\<lambda>n. EntryLink (apis n) ''instances'' \<noteq> '''') [0..<60] = Some n" by (simp add: wait_link_find)
  then have "EntryLink (apis n) ''instances'' \<noteq> ''''" by (auto simp: find_Some_iff)
  then show ?thesis
    using update_instances_exact [OF assms, of "m\<lparr>im_updaters := im_updaters m - 1, im_api := apis n\<rparr>"
        "EntryLink (apis n) ''instances''" drv marshal hide "repo_List ''mysql'' (im_repo m)"]
    by (auto simp: updateMySQLInstances_def Some n Let_def)
qed

text \<open>An example: a server that answers for one DSN only, and an API whose links come after two seconds.\<close>

definition info_driver :: "string \<Rightarrow> unit driver" where
  "info_driver dsn =
     \<lparr>dr_open = (\<lambda>_. None), dr_ping = (\<lambda>_. if dsn = ''down'' then Some (OtherError ''refused'') else None),
      dr_exec = (\<lambda>_ s. (s, None)), dr_row = (\<lambda>_ _. Inr [Some ''host'', Some ''Percona'', Some ''5.7'']), dr_hide = (\<lambda>_. ''***'')\<rparr>"

definition demo_repo :: repo where
  "demo_repo = \<lparr>rp_instances =
     [(''2'', (demo_inst ''2'')\<lparr>in_Subsystem := ''mysql'', in_DSN := ''up''\<rparr>),
      (''1'', (demo_inst ''1'')\<lparr>in_Subsystem := ''mysql'', in_DSN := ''down''\<rparr>)], rp_files = Map.empty\<rparr>"

definition late_api :: "nat \<Rightarrow> API" where
  "late_api n = (NewAPI ''h'' '''' '''' False False)\<lparr>ap_entryLinks := (if n < 2 then [] else [(''instances'', ''http://a/i'')])\<rparr>"

theorem updateMySQLInstances_exact_witness:
  "\<exists>m' w'. updateMySQLInstances info_driver (\<lambda>_. '''') demo_http (\<lambda>_. ''***'') late_api
       ((NewInstanceManager Map.empty (late_api 0))\<lparr>im_repo := demo_repo\<rparr>) \<lparr>wo_open = [], wo_next = 0, wo_server = ()\<rparr> = Some (m', w')
    \<and> wo_open w' = []
    \<and> im_put m' = [(''http://a/i/2'', (demo_inst ''2'')\<lparr>in_Subsystem := ''mysql'', in_DSN := ''***'', in_Distro := ''Percona'', in_Version := ''5.7''\<rparr>)]"
proof -
  let ?m = "(NewInstanceManager Map.empty (late_api 0))\<lparr>im_repo := demo_repo\<rparr>"
  have ok: "\<forall>rq e. demo_http rq \<noteq> BadRequest e" by (simp add: demo_http_def)
  have link: "find (\<lambda>n. EntryLink (late_api n) ''instances'' \<noteq> '''') [0..<60] = Some 2"
    by (simp add: late_api_def EntryLink_def upt_rec numeral_eq_Suc)
  have list: "repo_List ''mysql'' demo_repo =
      [(demo_inst ''1'')\<lparr>in_Subsystem := ''mysql'', in_DSN := ''down''\<rparr>, (demo_inst ''2'')\<lparr>in_Subsystem := ''mysql'', in_DSN := ''up''\<rparr>]"
    by (simp add: repo_List_def demo_repo_def demo_inst_def less_list_code)
  have entry: "EntryLink (late_api 2) ''instances'' = ''http://a/i''" by (simp add: late_api_def EntryLink_def)
  show ?thesis
    using updateMySQLInstances_exact [OF ok, of "\<lparr>wo_open = [], wo_next = 0, wo_server = ()\<rparr>" info_driver "\<lambda>_. ''''" "\<lambda>_. ''***''" late_api ?m]
    by (simp add: link list entry handles_ok_def NewInstanceManager_def update_of_def GetMySQLInfo_def info_at_def info_driver_def demo_inst_def)
qed

section \<open>Stopping and starting again\<close>

lemma repo_Init_loads:
  assumes "repo_Init readErr ks r = (r', None)"
  shows "rp_files r' = rp_files r" and "\<forall>k i. rp_inst r k = Some i \<longrightarrow> rp_inst r' k \<noteq> None"
    and "\<forall>k \<in> set ks. \<not> readErr k \<and> (\<exists>i. rp_files r k = Some (Some i) \<and> rp_inst r' (in_UUID i) \<noteq> None)"
  using assms
  by (induction ks arbitrary: r) (fastforce simp: repo_add_def split: if_splits option.splits)+

text \<open>
  The instance manager cannot be started again. After a start that loaded at least one instance
  file and a stop, the next start fails, with an unchanged directory, since every file it reads is
  taken for a duplicate of what the repository still holds; no goroutine is started, and a second
  stop panics, the stop channel being closed. With no instance file the start succeeds, but the
  goroutine it starts finds the stop channel closed and may end at once.
\<close>

theorem instance_manager_no_restart:
  assumes "im_Start err_text readErr keys m = (m1, None)" and "im_Stop m1 = Some m2"
  shows "\<exists>m3 e. im_Start err_text readErr keys m2 = (m3, e) \<and> im_Stop m3 = None
    \<and> (if keys \<noteq> [] then e = Some (''cannot start repo: '' @ err_text (AddFailed ErrDuplicateInstance)) \<and> im_loops m3 = im_loops m2
       else e = None \<and> im_step drv marshal http hide (m3, w)
         (im_update_status ''instance-mrms'' ''Stopped'' (m3\<lparr>im_loops := im_loops m2\<rparr>), w))"
proof -
  obtain r where r: "repo_Init readErr keys (im_repo m) = (r, None)" "im_repo m1 = r"
    using assms(1) by (auto simp: im_Start_def Let_def split: prod.splits option.splits)
  have m2: "im_repo m2 = r" "im_stopped m2" using assms(2) r(2) by (auto simp: im_Stop_def split: if_splits)
  show ?thesis
  proof (cases keys)
    case Nil
    then show ?thesis using m2 im_step.stopped [of "fst (im_Start err_text readErr [] m2)" drv marshal http hide w]
      by (auto simp: im_Start_def im_Stop_def Let_def)
  next
    case (Cons k ks)
    obtain i where "\<not> readErr k" "rp_files r k = Some (Some i)" "rp_inst r (in_UUID i) \<noteq> None"
      using repo_Init_loads [OF r(1)] Cons by auto
    then have "repo_Init readErr keys r = (r, Some (AddFailed ErrDuplicateInstance))" by (simp add: Cons repo_add_def)
    then show ?thesis using m2 by (simp add: im_Start_def im_Stop_def Cons [THEN arg_cong [of _ _ "\<lambda>ks. ks = []"]] Let_def)
  qed
qed

theorem instance_manager_no_restart_witness:
  "\<exists>m1 m2 m3. im_Start (\<lambda>_. ''e'') (\<lambda>_. False) [''1''] (NewInstanceManager [''1'' \<mapsto> Some (demo_inst ''1'')] (late_api 0)) = (m1, None)
    \<and> im_Stop m1 = Some m2 \<and> im_Start (\<lambda>_. ''e'') (\<lambda>_. False) [''1''] m2 = (m3, Some ''cannot start repo: e'')"
proof -
  let ?m = "NewInstanceManager [''1'' \<mapsto> Some (demo_inst ''1'')] (late_api 0)"
  obtain m1 where m1: "im_Start (\<lambda>_. ''e'') (\<lambda>_. False) [''1''] ?m = (m1, None)" "\<not> im_stopped m1"
    by (simp add: im_Start_def NewInstanceManager_def NewRepo_def repo_add_def demo_inst_def Let_def)
  then obtain m2 where m2: "im_Stop m1 = Some m2" by (simp add: im_Stop_def)
  show ?thesis using instance_manager_no_restart [OF m1(1) m2] m1(1) m2 by auto
qed

section \<open>The goroutine that reacts to restarts\<close>

definition im_hidden :: "(string \<Rightarrow> string) \<Rightarrow> imanager \<Rightarrow> bool" where
  "im_hidden hide m \<longleftrightarrow> list_all (\<lambda>(link, i). in_DSN i \<in> range hide) (im_put m)"

lemma im_updateInstance_hidden:
  "im_hidden hide m \<Longrightarrow> im_updateInstance marshal http hide i m = (m', u) \<Longrightarrow>
   im_hidden hide m' \<and> im_stopped m' = im_stopped m \<and> im_loops m' = im_loops m"
  by (auto simp: im_updateInstance_def im_hidden_def Let_def split: if_splits)

text \<open>
  The state of the goroutine relative to the one it started in: what was sent hides the passwords, no
  handle is left open, a channel once closed stays closed, and without bad requests a goroutine ends
  only when it was told to.
\<close>

definition im_inv :: "http \<Rightarrow> (string \<Rightarrow> string) \<Rightarrow> imanager \<times> 's world \<Rightarrow> imanager \<times> 's world \<Rightarrow> bool" where
  "im_inv http hide = (\<lambda>(m0, w0) (m, w). im_hidden hide m \<and> handles_ok w \<and> wo_open w = wo_open w0
     \<and> im_stopped m = im_stopped m0 \<and> im_loops m \<le> im_loops m0
     \<and> ((\<forall>rq e. http rq \<noteq> BadRequest e) \<longrightarrow> \<not> im_stopped m0 \<longrightarrow> im_loops m = im_loops m0))"

lemma im_on_restart_inv:
  assumes "im_inv http hide s (m, w)"
  shows "im_inv http hide s (im_on_restart drv marshal http hide i m w)"
proof -
  let ?m = "im_update_status ''instance-mrms'' (''Getting info '' @ hide (in_DSN i)) m"
  have inv: "im_inv http hide s (?m, w)" using assms by (auto simp: im_inv_def im_hidden_def)
  obtain w1 r where w1: "GetMySQLInfo_conn (drv (in_DSN i)) i w = Some (w1, r)" "wo_open w1 = wo_open w" "handles_ok w1"
    using GetMySQLInfo_conn_refines [of w drv i] assms by (auto simp: im_inv_def)
  show ?thesis
  proof (cases r)
    case (Inl e)
    then show ?thesis using inv w1 by (auto simp: im_on_restart_def im_inv_def im_hidden_def Let_def)
  next
    case (Inr j)
    obtain m2 u where u: "im_updateInstance marshal http hide j ?m = (m2, u)" by (metis surj_pair)
    have "im_hidden hide m2 \<and> im_stopped m2 = im_stopped m \<and> im_loops m2 = im_loops m"
      using im_updateInstance_hidden [OF _ u] inv by (auto simp: im_inv_def)
    moreover have "(\<forall>rq e. http rq \<noteq> BadRequest e) \<Longrightarrow> u \<noteq> UpdatePanic" using im_updateInstance_exact(1) [OF _ u] .
    ultimately show ?thesis using inv w1 Inr u
      by (cases u) (auto simp: im_on_restart_def im_inv_def im_hidden_def Let_def)
  qed
qed

lemma im_step_inv: "im_step drv marshal http hide t t' \<Longrightarrow> im_inv http hide s t \<Longrightarrow> im_inv http hide s t'"
proof (induction rule: im_step.induct)
  case (restarted m i w)
  then show ?case by (intro im_on_restart_inv) (auto simp: im_inv_def im_hidden_def)
qed (auto simp: im_inv_def im_hidden_def)



text \<open>A URL that is refused ends the goroutine, although the panic is recovered from.\<close>

lemma bad_request_ends_monitor:
  assumes "GetMySQLInfo_conn (drv (in_DSN i)) i w = Some (w1, Inr j)" and "EntryLink (im_api m) ''instances'' \<noteq> ''''"
    and "\<forall>rq. \<exists>e. http rq = BadRequest e"
  shows "im_loops (fst (im_on_restart drv marshal http hide i m w)) = im_loops m - 1"
proof -
  have "api_Put http a link data = None" for a link data
  proof -
    obtain e where "http \<lparr>rq_Method = ''PUT'', rq_URL = setURLSchema a link,
        rq_Header = version_headers VERSION proto_VERSION, rq_Body = data\<rparr> = BadRequest e" using assms(3) by blast
    then show ?thesis by (simp add: api_Put_def api_send_def)
  qed
  then show ?thesis using assms(1, 2) by (simp add: im_on_restart_def im_updateInstance_def Let_def)
qed

end
