(* ===== verification/IterFactory.thy ===== *)
theory IterFactory
  imports Analyzer Files MySQLConn
begin

text \<open>
  The factory of the interval iterators, \<open>qan/analyzer/mysql/factory/iter.go\<close>, with the function that
  looks up the slow log, and the uses of the same connection in the slow log worker,
  \<open>qan/analyzer/mysql/worker/slowlog/worker.go\<close>: its creation and the queries of a rotation. The
  analyzer hands one connection to the iterator and to the worker, which run in goroutines of their own.
\<close>

section \<open>The iterator\<close>

definition AbsDataFile :: "string \<Rightarrow> string \<Rightarrow> string" where
  "AbsDataFile dataDir fileName = (if HasPrefix fileName ''/'' then fileName else path_Join [dataDir, fileName])"

definition read_slow_log :: "'s driver \<Rightarrow> Connection \<Rightarrow> 's world \<Rightarrow> (sql_error + string) option" where
  "read_slow_log d c w =
     (case GetGlobalVarString d c ''datadir'' w of
        None \<Rightarrow> None
      | Some (Inl e) \<Rightarrow> Some (Inl e)
      | Some (Inr dataDir) \<Rightarrow>
          (case GetGlobalVarString d c ''slow_query_log_file'' w of
             None \<Rightarrow> None
           | Some (Inl e) \<Rightarrow> Some (Inl e)
           | Some (Inr slowQueryLogFile) \<Rightarrow> Some (Inr (AbsDataFile (null_text dataDir) (null_text slowQueryLogFile)))))"

definition getSlowLogFunc :: "'s driver \<Rightarrow> Connection \<Rightarrow> 's world \<Rightarrow> (Connection \<times> 's world \<times> (sql_error + string)) option" where
  "getSlowLogFunc d c w =
     (case conn_Connect d c w of
        (c, w, Some e) \<Rightarrow> Some (c, w, Inl e)
      | (c, w, None) \<Rightarrow>
          map_option (\<lambda>r. (case conn_Close c w of (c, w) \<Rightarrow> (c, w, r))) (read_slow_log d c w))"

text \<open>An unknown type panics, the value \<open>None\<close>.\<close>

datatype interval_iter = SlowLogIter siter | PerfSchemaIter piter

definition iter_factory_Make :: "string \<Rightarrow> interval_iter option" where
  "iter_factory_Make analyzerType =
     (if analyzerType = ''slowlog'' then Some (SlowLogIter NewIter)
      else if analyzerType = ''perfschema'' then Some (PerfSchemaIter piter_start)
      else None)"

section \<open>The worker\<close>

text \<open>The parts of the worker that \<open>NewWorker\<close> reads from the server; an error is only logged.\<close>

record slow_worker =
  sw_utcOffset :: i64
  sw_outlierTime :: float64

definition slow_NewWorker :: "'s driver \<Rightarrow> Connection \<Rightarrow> 's world \<Rightarrow> (Connection \<times> 's world \<times> slow_worker) option" where
  "slow_NewWorker d c w =
     (case conn_UTCOffset d c w of
        None \<Rightarrow> None
      | Some (c, w, offsets) \<Rightarrow>
          (let utcOffset = (case offsets of Inl _ \<Rightarrow> 0 | Inr (_, sys) \<Rightarrow> sys);
               (c, w, _) = conn_Connect d c w
           in map_option
                (\<lambda>v. (let outlierTime = (case v of Inl _ \<Rightarrow> 0 | Inr None \<Rightarrow> 0 | Inr (Some t) \<Rightarrow> t);
                          (c, w) = conn_Close c w
                      in (c, w, \<lparr>sw_utcOffset = utcOffset, sw_outlierTime = outlierTime\<rparr>)))
                (GetGlobalVarNumeric d c ''slow_query_log_always_write_time'' w)))"

text \<open>
  The queries of \<open>rotateSlowLog\<close>, before the file is renamed and after. A failing query closes the
  connection, as the deferred call does; \<open>None\<close> is a panic.
\<close>

definition rotate_stop :: "'s driver \<Rightarrow> string list \<Rightarrow> Connection \<Rightarrow> 's world \<Rightarrow> (Connection \<times> 's world \<times> sql_error option) option" where
  "rotate_stop d stop c w =
     (case conn_Connect d c w of
        (c, w, Some e) \<Rightarrow> Some (c, w, Some e)
      | (c, w, None) \<Rightarrow>
          map_option (\<lambda>(w, e). if e = None then (c, w, None) else (case conn_Close c w of (c, w) \<Rightarrow> (c, w, e)))
            (conn_Exec d c stop w))"

definition flush_slow_logs :: "'s driver \<Rightarrow> Connection \<Rightarrow> 's world \<Rightarrow> ('s world \<times> sql_error option) option" where
  "flush_slow_logs d c w =
     (case conn_Exec d c [''FLUSH NO_WRITE_TO_BINLOG SLOW LOGS''] w of
        None \<Rightarrow> None
      | Some (w, None) \<Rightarrow> Some (w, None)
      | Some (w, Some _) \<Rightarrow> conn_Exec d c [''FLUSH LOGS''] w)"

definition rotate_start :: "'s driver \<Rightarrow> string list \<Rightarrow> Connection \<Rightarrow> 's world \<Rightarrow> (Connection \<times> 's world \<times> sql_error option) option" where
  "rotate_start d start c w =
     map_option (\<lambda>(w, e). (case conn_Close c w of (c, w) \<Rightarrow> (c, w, e)))
       (case conn_Exec d c start w of
          None \<Rightarrow> None
        | Some (w, Some e) \<Rightarrow> Some (w, Some e)
        | Some (w, None) \<Rightarrow> flush_slow_logs d c w)"

section \<open>The slow log that is found\<close>

lemma read_slow_log_wf:
  assumes "wf_conn c w" and "co_connected c"
  shows "read_slow_log d c w =
    Some (case server_var d ''datadir'' (wo_server w) of
            Inl e \<Rightarrow> Inl e
          | Inr dir \<Rightarrow>
              (case server_var d ''slow_query_log_file'' (wo_server w) of
                 Inl e \<Rightarrow> Inl e
               | Inr file \<Rightarrow> Inr (AbsDataFile (null_text dir) (null_text file))))"
  by (simp add: read_slow_log_def GetGlobalVarString_wf [OF assms] split: sum.splits)

lemma AbsDataFile_below:
  assumes "\<forall>c \<in> set cs. proper c" and "f \<noteq> ''''"
  shows "AbsDataFile (abs_path cs) f =
    (if HasPrefix f ''/'' then f else abs_path (clean_comps True (rev cs) (split_on (CHR ''/'') f)))"
  using path_Join_below [OF assms] by (simp add: AbsDataFile_def)

text \<open>A server that does not know the variable makes the iterator look at the data directory itself.\<close>

lemma AbsDataFile_unknown:
  assumes "\<forall>c \<in> set cs. proper c"
  shows "AbsDataFile (abs_path cs) (null_text None) = abs_path cs"
  using path_Clean_abs [OF assms] by (simp add: AbsDataFile_def path_Join_def null_text_def abs_path_def Let_def)

lemma getSlowLogFunc_closes:
  assumes "wf_conn c w" and "getSlowLogFunc d c w = Some (c', w', r)"
  shows "wf_conn c' w' \<and> wo_server w' = wo_server w \<and> \<not> co_connected c'"
proof -
  obtain c1 w1 e where c1: "conn_Connect d c w = (c1, w1, e)" by (metis prod_cases3)
  note wf1 = conn_Connect_wf [OF assms(1) c1]
  obtain c2 w2 where c2: "conn_Close c1 w1 = (c2, w2)" by (metis surj_pair)
  show ?thesis using assms(2) c1 c2 wf1 conn_Close_wf [OF wf1(1) c2]
    by (cases e) (auto simp: getSlowLogFunc_def)
qed

section \<open>One connection, two goroutines\<close>

definition exec_effect :: "'s driver \<Rightarrow> string list \<Rightarrow> 's \<Rightarrow> 's" where
  "exec_effect d qs s = fold (\<lambda>q s. fst (dr_exec d q s)) qs s"

lemma exec_loop_done:
  assumes "wf_conn c w" and "co_connected c" and "exec_loop d c qs w = Some (w', None)"
  shows "w' = w\<lparr>wo_server := exec_effect d qs (wo_server w)\<rparr>"
  using assms
proof (induction qs arbitrary: w)
  case (Cons q qs)
  let ?w = "w\<lparr>wo_server := fst (dr_exec d q (wo_server w))\<rparr>"
  have "exec_loop d c qs ?w = Some (w', None)"
    using Cons.prems by (auto simp: db_exec_wf split: option.splits)
  then show ?case using Cons.IH [of ?w] Cons.prems(1, 2) by (simp add: exec_effect_def)
qed (simp add: exec_effect_def)

lemma exec_loop_succeeds:
  assumes "wf_conn c w" and "co_connected c" and "\<forall>q \<in> set qs. \<forall>s. snd (dr_exec d q s) = None"
  shows "\<exists>w'. exec_loop d c qs w = Some (w', None)"
  using assms by (induction qs arbitrary: w) (simp_all add: db_exec_wf)

lemma conn_Exec_succeeds:
  assumes "wf_conn c w" and "co_connected c" and "\<forall>q \<in> set qs. \<forall>s. snd (dr_exec d q s) = None"
  shows "conn_Exec d c qs w = Some (w\<lparr>wo_server := exec_effect d qs (wo_server w)\<rparr>, None)"
  using exec_loop_succeeds [OF assms] exec_loop_done [OF assms(1, 2)] assms(2) by (auto simp: conn_Exec_def)

lemma rotate_stop_done:
  assumes "wf_conn c w" and "rotate_stop d stop c w = Some (c', w', None)"
  shows "wf_conn c' w'" and "co_connected c'" and "wo_server w' = exec_effect d stop (wo_server w)"
proof -
  obtain c1 w1 e where c1: "conn_Connect d c w = (c1, w1, e)" by (metis prod_cases3)
  note wf1 = conn_Connect_wf [OF assms(1) c1]
  have e: "e = None" and ex: "conn_Exec d c1 stop w1 = Some (w', None)" and c': "c' = c1"
    using assms(2) c1 by (auto simp: rotate_stop_def split: option.splits if_splits prod.splits)
  then show "co_connected c'" using wf1(3) by simp
  then have "w' = w1\<lparr>wo_server := exec_effect d stop (wo_server w1)\<rparr>"
    using exec_loop_done [OF wf1(1)] ex c' by (simp add: conn_Exec_def)
  then show "wf_conn c' w'" and "wo_server w' = exec_effect d stop (wo_server w)" using wf1 c' by simp_all
qed

text \<open>
  C9: the iterator and the worker share one connection, and each closes it when it is done. When the
  iterator looks up the slow log between the two halves of a rotation, it finds the worker's connection
  open and closes it: the worker's queries that switch the slow log on again are then refused, whatever
  the server could do, and the server is left as the stop queries made it, with the slow log off. When
  the iterator does not come in between and the server executes the queries, the same rotation leaves
  the server as the stop, the start and the flush queries make it, with no connection open.
\<close>

theorem shared_connection_race:
  assumes "wf_conn c w" and "rotate_stop d stop c w = Some (c1, w1, None)"
    and "getSlowLogFunc d c1 w1 = Some (c2, w2, r)"
  shows "rotate_start d start c2 w2 = Some (c2, w2, Some ErrNotConnected)
    \<and> wo_server w2 = exec_effect d stop (wo_server w)
    \<and> ((\<forall>q \<in> set (start @ [''FLUSH NO_WRITE_TO_BINLOG SLOW LOGS'']). \<forall>s. snd (dr_exec d q s) = None) \<longrightarrow>
        (\<exists>c3 w3. rotate_start d start c1 w1 = Some (c3, w3, None) \<and> wo_open w3 = []
           \<and> wo_server w3 = exec_effect d (stop @ start @ [''FLUSH NO_WRITE_TO_BINLOG SLOW LOGS'']) (wo_server w)))"
proof (intro conjI impI)
  note before = rotate_stop_done [OF assms(1, 2)]
  note closed = getSlowLogFunc_closes [OF before(1) assms(3)]
  then show "rotate_start d start c2 w2 = Some (c2, w2, Some ErrNotConnected)"
    by (simp add: rotate_start_def conn_Exec_def conn_Close_def)
  show "wo_server w2 = exec_effect d stop (wo_server w)" using closed before(3) by simp
  assume ok: "\<forall>q \<in> set (start @ [''FLUSH NO_WRITE_TO_BINLOG SLOW LOGS'']). \<forall>s. snd (dr_exec d q s) = None"
  let ?w = "w1\<lparr>wo_server := exec_effect d (start @ [''FLUSH NO_WRITE_TO_BINLOG SLOW LOGS'']) (wo_server w1)\<rparr>"
  obtain c3 w3 where c3: "conn_Close c1 ?w = (c3, w3)" by (metis surj_pair)
  have "conn_Exec d c1 start w1 = Some (w1\<lparr>wo_server := exec_effect d start (wo_server w1)\<rparr>, None)"
    using conn_Exec_succeeds [OF before(1, 2)] ok by simp
  moreover have "flush_slow_logs d c1 (w1\<lparr>wo_server := exec_effect d start (wo_server w1)\<rparr>) = Some (?w, None)"
    using conn_Exec_succeeds [of c1 "w1\<lparr>wo_server := exec_effect d start (wo_server w1)\<rparr>" "[''FLUSH NO_WRITE_TO_BINLOG SLOW LOGS'']" d] before(1, 2) ok
    by (simp add: flush_slow_logs_def exec_effect_def)
  ultimately have "rotate_start d start c1 w1 = Some (c3, w3, None)" using c3 by (simp add: rotate_start_def)
  then show "\<exists>c3 w3. rotate_start d start c1 w1 = Some (c3, w3, None) \<and> wo_open w3 = []
      \<and> wo_server w3 = exec_effect d (stop @ start @ [''FLUSH NO_WRITE_TO_BINLOG SLOW LOGS'']) (wo_server w)"
    using conn_Close_wf [OF _ c3] before(1, 3) by (simp add: exec_effect_def)
qed

text \<open>An example: a server whose state is whether the slow log is on.\<close>

definition switch_driver :: "bool driver" where
  "switch_driver =
     \<lparr>dr_open = (\<lambda>_. None), dr_ping = (\<lambda>_. None),
      dr_exec = (\<lambda>q on. (if q = ''SET GLOBAL slow_query_log=OFF'' then False
                         else if q = ''SET GLOBAL slow_query_log=ON'' then True else on, None)),
      dr_row = (\<lambda>q _. Inr [Some (if q = ''SELECT @@GLOBAL.datadir'' then ''/data'' else ''slow.log'')]), dr_hide = (\<lambda>dsn. dsn)\<rparr>"

theorem shared_connection_race_witness:
  "\<exists>c1 w1 c2 w2 w3. rotate_stop switch_driver [''SET GLOBAL slow_query_log=OFF''] (NewConnection ''dsn'')
       \<lparr>wo_open = [], wo_next = 0, wo_server = True\<rparr> = Some (c1, w1, None)
    \<and> getSlowLogFunc switch_driver c1 w1 = Some (c2, w2, Inr ''/data/slow.log'')
    \<and> rotate_start switch_driver [''SET GLOBAL slow_query_log=ON''] c2 w2 = Some (c2, w3, Some ErrNotConnected)
    \<and> \<not> wo_server w3"
proof -
  let ?w = "\<lparr>wo_open = [], wo_next = 0, wo_server = True\<rparr>"
  have wf: "wf_conn (NewConnection ''dsn'') ?w" by (simp add: wf_conn_def NewConnection_def)
  obtain c1 w1 where r: "rotate_stop switch_driver [''SET GLOBAL slow_query_log=OFF''] (NewConnection ''dsn'') ?w = Some (c1, w1, None)"
    by (simp add: rotate_stop_def conn_Connect_def NewConnection_def switch_driver_def conn_Exec_def db_exec_def Let_def)
  note before = rotate_stop_done [OF wf r]
  have "AbsDataFile ''/data'' ''slow.log'' = ''/data/slow.log''"
    by (simp add: AbsDataFile_def path_Join_def path_Clean_def Let_def)
  then have "read_slow_log switch_driver c1 w1 = Some (Inr ''/data/slow.log'')"
    unfolding read_slow_log_wf [OF before(1, 2)] by (simp add: server_var_def switch_driver_def null_text_def)
  then obtain c2 w2 where g: "getSlowLogFunc switch_driver c1 w1 = Some (c2, w2, Inr ''/data/slow.log'')"
    using before(2) by (cases "conn_Close c1 w1") (simp add: getSlowLogFunc_def conn_Connect_def)
  show ?thesis
    using shared_connection_race [OF wf r g, of "[''SET GLOBAL slow_query_log=ON'']"] r g
    by (simp add: exec_effect_def switch_driver_def)
qed

text \<open>A worker made while the server is down takes its offset for zero, and never looks again.\<close>

lemma slow_NewWorker_down:
  assumes "wf_conn c w" and "\<not> co_connected c" and "dr_open d (co_dsn c) = Some e"
  shows "slow_NewWorker d c w = Some (c, w, \<lparr>sw_utcOffset = 0, sw_outlierTime = 0\<rparr>)"
  using assms by (simp add: slow_NewWorker_def conn_UTCOffset_def conn_Connect_def GetGlobalVarNumeric_def getGlobalVar_def
      conn_Close_def Let_def)

section \<open>The configuration that is shown\<close>

text \<open>\<open>GetDefaults\<close> of the proxy, over a connection of its own; the error of \<open>Connect\<close> is not looked at.\<close>

definition opt_info :: "('v \<Rightarrow> var_info) \<Rightarrow> 'v option \<Rightarrow> var_info" where
  "opt_info f v = (case v of None \<Rightarrow> VNullInfo | Some x \<Rightarrow> f x)"

definition mysql_GetDefaults ::
  "'s driver \<Rightarrow> string \<Rightarrow> mysql_analyzer \<Rightarrow> 's world \<Rightarrow> ('s world \<times> (string \<times> var_info) list) option" where
  "mysql_GetDefaults d dsn m w =
     (let cf = my_config m;
          cfg = [(''CollectFrom'', VTextInfo (qn_CollectFrom cf)), (''Interval'', VIntInfo (uint (qn_Interval cf))),
                 (''MaxSlowLogSize'', VIntInfo (qn_MaxSlowLogSize cf)), (''RetainSlowLogs'', opt_info VIntInfo (qn_RetainSlowLogs cf)),
                 (''SlowLogRotation'', opt_info VBoolInfo (qn_SlowLogRotation cf)),
                 (''ExampleQueries'', opt_info VBoolInfo (qn_ExampleQueries cf)), (''ReportLimit'', VIntInfo (uint (qn_ReportLimit cf)))];
          (c, w, _) = conn_Connect d (NewConnection dsn) w
      in map_option (\<lambda>info. (snd (conn_Close c w), fold (\<lambda>(k, v). alist_put k v) info cfg)) (ReadInfoFromShowGlobalStatus d c w))"

lemma mysql_GetDefaults_closes:
  assumes "wo_open w = []"
  shows "\<exists>w' cfg. mysql_GetDefaults d dsn m w = Some (w', cfg) \<and> wo_open w' = [] \<and> wo_server w' = wo_server w"
proof -
  obtain c1 w1 e where c1: "conn_Connect d (NewConnection dsn) w = (c1, w1, e)" by (metis prod_cases3)
  have "wf_conn (NewConnection dsn) w" using assms by (simp add: wf_conn_def NewConnection_def)
  note wf1 = conn_Connect_wf [OF this c1]
  obtain c2 w2 where c2: "conn_Close c1 w1 = (c2, w2)" by (metis surj_pair)
  obtain info where "ReadInfoFromShowGlobalStatus d c1 w1 = Some info" using ReadInfo_complete [OF wf1(1)] by blast
  then show ?thesis using c1 c2 conn_Close_wf [OF wf1(1) c2] wf1(2) by (simp add: mysql_GetDefaults_def Let_def)
qed

end
