(* ===== verification/PerfRows.thy ===== *)
theory PerfRows
  imports PerfSchema MySQLConn
begin

text \<open>
  The queries of the performance schema worker, \<open>qan/analyzer/mysql/worker/perfschema/worker.go\<close>: the
  rows of the digest table, read by \<open>GetDigestRows\<close> and sent to \<open>getSnapshot\<close>, and the goroutine that
  collects an example of each query. What the server answers is an argument: the error of the query, or
  the columns of each row and whether the iteration ends with an error.
\<close>

section \<open>The rows of the digest table\<close>

type_synonym columns = "string option list"

definition digest_columns :: "string list" where
  "digest_columns =
     [''COALESCE(SCHEMA_NAME, '' @ sq @ sq @ '')'', ''COALESCE(DIGEST, '' @ sq @ sq @ '')'', ''COALESCE(DIGEST_TEXT, '' @ sq @ sq @ '')'',
      ''COUNT_STAR'', ''SUM_TIMER_WAIT'', ''MIN_TIMER_WAIT'', ''AVG_TIMER_WAIT'', ''MAX_TIMER_WAIT'', ''SUM_LOCK_TIME'', ''SUM_ERRORS'',
      ''SUM_WARNINGS'', ''SUM_ROWS_AFFECTED'', ''SUM_ROWS_SENT'', ''SUM_ROWS_EXAMINED'', ''SUM_CREATED_TMP_DISK_TABLES'',
      ''SUM_CREATED_TMP_TABLES'', ''SUM_SELECT_FULL_JOIN'', ''SUM_SELECT_FULL_RANGE_JOIN'', ''SUM_SELECT_RANGE'',
      ''SUM_SELECT_RANGE_CHECK'', ''SUM_SELECT_SCAN'', ''SUM_SORT_MERGE_PASSES'', ''SUM_SORT_RANGE'', ''SUM_SORT_ROWS'',
      ''SUM_SORT_SCAN'', ''SUM_NO_INDEX_USED'', ''SUM_NO_GOOD_INDEX_USED'']"

definition nl :: string where "nl = [CHR 10]"
definition tab :: string where "tab = [CHR 9]"

definition digest_query :: "float64 \<Rightarrow> string" where
  "digest_query lastFetchSeconds =
     nl @ ''SELECT'' @ nl @ tab @ join_with ('','' @ nl @ tab) digest_columns
     @ nl @ tab @ ''FROM performance_schema.events_statements_summary_by_digest'' @ nl
     @ (if lastFetchSeconds \<ge> 0
        then '' WHERE LAST_SEEN >= NOW() - INTERVAL '' @ string_of_int (go_trunc lastFetchSeconds) @ '' SECOND'' else '''')"

text \<open>\<open>Scan\<close> into an unsigned integer and into a string: NULL is an error for both.\<close>

definition scan_u64 :: "string option \<Rightarrow> u64 option" where
  "scan_u64 v =
     (case v of
        None \<Rightarrow> None
      | Some s \<Rightarrow> (case parse_unsigned s of Inl _ \<Rightarrow> None | Inr n \<Rightarrow> if n < 2 ^ 64 then Some (of_nat n) else None))"

fun scan_all :: "columns \<Rightarrow> u64 list option" where
  "scan_all [] = Some []"
| "scan_all (v # vs) =
     (case (scan_u64 v, scan_all vs) of (Some n, Some ns) \<Rightarrow> Some (n # ns) | _ \<Rightarrow> None)"

text \<open>The sum columns in the order of the query, after the three statistics of the timer.\<close>

definition sum_columns :: "sum_col list" where
  "sum_columns =
     [SumLockTime, SumErrors, SumWarnings, SumRowsAffected, SumRowsSent, SumRowsExamined, SumCreatedTmpDiskTables,
      SumCreatedTmpTables, SumSelectFullJoin, SumSelectFullRangeJoin, SumSelectRange, SumSelectRangeCheck, SumSelectScan,
      SumSortMergePasses, SumSortRange, SumSortRows, SumSortScan, SumNoIndexUsed, SumNoGoodIndexUsed]"

definition sums_of :: "u64 \<Rightarrow> u64 list \<Rightarrow> sum_col \<Rightarrow> u64" where
  "sums_of wait ns c =
     (if c = SumTimerWait then wait else case map_of (zip sum_columns ns) c of None \<Rightarrow> 0 | Some n \<Rightarrow> n)"

definition scan_digest_row :: "columns \<Rightarrow> DigestRow option" where
  "scan_digest_row cols =
     (if length cols \<noteq> length digest_columns then None
      else case cols of
             Some schema # Some digest # Some txt # nums \<Rightarrow>
               (case scan_all nums of
                  Some (cnt # wait # mn # av # mx # ns) \<Rightarrow>
                    Some \<lparr>dr_Schema = schema, dr_Digest = digest, dr_DigestText = TrimSpace txt, dr_CountStar = cnt,
                          dr_Sum = sums_of wait ns, dr_MinTimerWait = mn, dr_AvgTimerWait = av, dr_MaxTimerWait = mx\<rparr>
                | _ \<Rightarrow> None)
           | _ \<Rightarrow> None)"

text \<open>The goroutine: it sends each row and ends at the first that cannot be read.\<close>

fun send_rows :: "columns list \<Rightarrow> bool \<Rightarrow> DigestRow list \<times> bool" where
  "send_rows [] iterErr = ([], iterErr)"
| "send_rows (cols # rest) iterErr =
     (case scan_digest_row cols of
        None \<Rightarrow> ([], True)
      | Some row \<Rightarrow> (case send_rows rest iterErr of (rows, err) \<Rightarrow> (row # rows, err)))"

type_synonym query_fn = "string \<Rightarrow> sql_error + columns list \<times> bool"

definition GetDigestRows :: "query_fn \<Rightarrow> float64 \<Rightarrow> rows_result" where
  "GetDigestRows query lastFetchSeconds =
     (case query (digest_query lastFetchSeconds) of
        Inl e \<Rightarrow> if e = ErrNoRows then NoRows else QueryError
      | Inr (rows, iterErr) \<Rightarrow> (case send_rows rows iterErr of (rs, err) \<Rightarrow> Rows rs err))"

lemma string_of_nat_u64: "scan_u64 (Some (string_of_nat (unat n))) = Some (n::u64)"
proof -
  have "unat n < 2 ^ LENGTH(64)" by (rule unsigned_less)
  then show ?thesis by (simp add: scan_u64_def)
qed

text \<open>How the server prints a row, in the order of the columns of the query.\<close>

definition print_row :: "DigestRow \<Rightarrow> columns" where
  "print_row r =
     map Some [dr_Schema r, dr_Digest r, dr_DigestText r]
     @ map (\<lambda>n. Some (string_of_nat (unat n)))
         ([dr_CountStar r, dr_Sum r SumTimerWait, dr_MinTimerWait r, dr_AvgTimerWait r, dr_MaxTimerWait r]
          @ map (dr_Sum r) sum_columns)"

lemma scan_all_print: "scan_all (map (\<lambda>n. Some (string_of_nat (unat n))) ns) = Some ns"
  by (induction ns) (simp_all add: string_of_nat_u64)

lemma sums_of_columns: "sums_of (f SumTimerWait) (map f sum_columns) = f"
proof
  fix c show "sums_of (f SumTimerWait) (map f sum_columns) c = f c"
    by (cases c) (simp_all add: sums_of_def sum_columns_def)
qed

lemma scan_print_row: "scan_digest_row (print_row r) = Some (r\<lparr>dr_DigestText := TrimSpace (dr_DigestText r)\<rparr>)"
proof -
  have "length (print_row r) = length digest_columns"
    by (simp add: print_row_def digest_columns_def sum_columns_def)
  then show ?thesis
    using scan_all_print [of "[dr_CountStar r, dr_Sum r SumTimerWait, dr_MinTimerWait r, dr_AvgTimerWait r, dr_MaxTimerWait r]
        @ map (dr_Sum r) sum_columns"] sums_of_columns [of "dr_Sum r"]
    by (simp add: scan_digest_row_def print_row_def)
qed

lemma send_rows_print:
  "send_rows (map print_row rows @ bad) err =
   (case send_rows bad err of (rs, e) \<Rightarrow> (map (\<lambda>r. r\<lparr>dr_DigestText := TrimSpace (dr_DigestText r)\<rparr>) rows @ rs, e))"
  by (induction rows) (simp_all add: scan_print_row split: prod.splits)

text \<open>
  The rows reach the worker as the server prints them: every column in its field, in order, up to the
  first row that cannot be read, and then an error is reported; the query asks for all rows when there
  is no earlier snapshot.
\<close>

lemma GetDigestRows_exact:
  assumes "query (digest_query s) = Inr (map print_row rows @ bad, err)"
  shows "GetDigestRows query s =
    (let rs = map (\<lambda>r. r\<lparr>dr_DigestText := TrimSpace (dr_DigestText r)\<rparr>) rows
     in case send_rows bad err of (rs', e) \<Rightarrow> Rows (rs @ rs') e)"
  using assms by (simp add: GetDigestRows_def send_rows_print Let_def split: prod.splits)

section \<open>The rows that a fetch leaves out\<close>

text \<open>
  The condition of the query as the server evaluates it, \<open>now\<close> and the time \<open>seen\<close> of the last
  execution of a query being nanoseconds of the same clock: \<open>NOW()\<close> and \<open>LAST_SEEN\<close> are whole seconds.
\<close>

definition fetched :: "float64 \<Rightarrow> int \<Rightarrow> int \<Rightarrow> bool" where
  "fetched lastFetchSeconds now seen \<longleftrightarrow>
     lastFetchSeconds < 0 \<or> unix_sec seen \<ge> unix_sec now - go_trunc lastFetchSeconds"

lemma le_div_iff:
  fixes k a s :: int
  assumes "0 < s"
  shows "k \<le> a div s \<longleftrightarrow> k * s \<le> a"
proof
  assume "k \<le> a div s"
  then have "k * s \<le> a div s * s" using assms by simp
  also have "\<dots> \<le> a" using assms by (simp add: div_mult_mod_eq minus_mod_eq_div_mult [symmetric])
  finally show "k * s \<le> a" .
next
  assume "k * s \<le> a"
  then have "k * s div s \<le> a div s" by (rule zdiv_mono1 [OF _ assms])
  then show "k \<le> a div s" using assms by simp
qed



section \<open>The examples of queries\<close>

record perfSchemaExample =
  px_Schema :: "string option"
  px_SQLText :: "string option"
  px_LastSeen :: int

definition history_query :: string where
  "history_query = ''SELECT DIGEST, CURRENT_SCHEMA, SQL_TEXT FROM performance_schema.events_statements_history''"

text \<open>
  The rows of one tick: a row that cannot be read and a row without a digest are left out; the slice of
  a digest of less than 32 characters panics, the value \<open>None\<close>.
\<close>

fun collect_examples :: "int \<Rightarrow> columns list \<Rightarrow> (string \<rightharpoonup> perfSchemaExample) \<Rightarrow> (string \<rightharpoonup> perfSchemaExample) option" where
  "collect_examples now [] ex = Some ex"
| "collect_examples now (cols # rest) ex =
     (case cols of
        [Some digest, schema, sqlText] \<Rightarrow>
          if length digest < 32 then None
          else collect_examples now rest
            (ex(ToUpper (take 16 (drop 16 digest)) \<mapsto> \<lparr>px_Schema = schema, px_SQLText = sqlText, px_LastSeen = now\<rparr>))
      | _ \<Rightarrow> collect_examples now rest ex)"

text \<open>The example of a class in a result.\<close>

definition example_of :: "perfSchemaExample \<Rightarrow> example" where
  "example_of ex =
     \<lparr>ex_QueryTime = of_int (unix_sec (px_LastSeen ex)), ex_Db = null_text (px_Schema ex), ex_Query = null_text (px_SQLText ex)\<rparr>"

text \<open>
  The ticker and the goroutines of the worker: \<open>xc_live\<close> counts those whose ticker ticks, \<open>xc_leaked\<close>
  those that wait on a ticker that was stopped, whose channel is never closed.
\<close>

record collector =
  xc_collectExamples :: bool
  xc_ticker :: bool
  xc_live :: nat
  xc_leaked :: nat

definition NewCollector :: collector where
  "NewCollector = \<lparr>xc_collectExamples = False, xc_ticker = False, xc_live = 0, xc_leaked = 0\<rparr>"

text \<open>A configuration without the field panics, the value \<open>None\<close>.\<close>

definition pworker_SetConfig :: "bool option \<Rightarrow> collector \<Rightarrow> collector option" where
  "pworker_SetConfig exampleQueries x =
     map_option
       (\<lambda>b. let x = x\<lparr>xc_collectExamples := b\<rparr>
            in if b \<and> \<not> xc_ticker x then x\<lparr>xc_ticker := True, xc_live := 1\<rparr> else x)
       exampleQueries"

definition pworker_Stop :: "collector \<Rightarrow> collector" where
  "pworker_Stop x =
     (if xc_ticker x then x\<lparr>xc_ticker := False, xc_leaked := xc_leaked x + xc_live x, xc_live := 0\<rparr> else x)"

text \<open>
  The goroutine \<open>getQueryExamples\<close> between its ticks, and the run of the worker, which opens and closes
  the same connection. The local variable that should keep a tick from overlapping is never set, and
  the goroutine never closes the connection.
\<close>

datatype ex_pc = XWait | XQuery | XReturned | XPanicked

record 's ex_state =
  es_conn :: Connection
  es_world :: "'s world"
  es_pc :: ex_pc
  es_examples :: "string \<rightharpoonup> perfSchemaExample"

inductive ex_step :: "'s driver \<Rightarrow> (int \<Rightarrow> query_fn) \<Rightarrow> 's ex_state \<Rightarrow> 's ex_state \<Rightarrow> bool" for d query where
  tick_connect: "es_pc s = XWait \<Longrightarrow> conn_Connect d (es_conn s) (es_world s) = (c, w, None) \<Longrightarrow>
    ex_step d query s (s\<lparr>es_conn := c, es_world := w, es_pc := XQuery\<rparr>)"
| tick_refused: "es_pc s = XWait \<Longrightarrow> conn_Connect d (es_conn s) (es_world s) = (c, w, Some e) \<Longrightarrow>
    ex_step d query s (s\<lparr>es_conn := c, es_world := w\<rparr>)"
| query_nil: "es_pc s = XQuery \<Longrightarrow> co_conn (es_conn s) = None \<Longrightarrow> ex_step d query s (s\<lparr>es_pc := XPanicked\<rparr>)"
| query_fails: "es_pc s = XQuery \<Longrightarrow> co_conn (es_conn s) = Some db \<Longrightarrow> query now history_query = Inl e \<Longrightarrow>
    ex_step d query s (s\<lparr>es_pc := XReturned\<rparr>)"
| query_rows: "es_pc s = XQuery \<Longrightarrow> co_conn (es_conn s) = Some db \<Longrightarrow> query now history_query = Inr (rows, err) \<Longrightarrow>
    collect_examples now rows (es_examples s) = Some ex \<Longrightarrow>
    ex_step d query s (s\<lparr>es_examples := ex, es_pc := XWait\<rparr>)"
| query_short: "es_pc s = XQuery \<Longrightarrow> co_conn (es_conn s) = Some db \<Longrightarrow> query now history_query = Inr (rows, err) \<Longrightarrow>
    collect_examples now rows (es_examples s) = None \<Longrightarrow> ex_step d query s (s\<lparr>es_pc := XPanicked\<rparr>)"
| run_connect: "es_pc s \<noteq> XPanicked \<Longrightarrow> conn_Connect d (es_conn s) (es_world s) = (c, w, e) \<Longrightarrow>
    ex_step d query s (s\<lparr>es_conn := c, es_world := w\<rparr>)"
| run_close: "es_pc s \<noteq> XPanicked \<Longrightarrow> conn_Close (es_conn s) (es_world s) = (c, w) \<Longrightarrow>
    ex_step d query s (s\<lparr>es_conn := c, es_world := w\<rparr>)"

text \<open>The example of a class is the last row with a digest of the class, if there is one.\<close>

definition class_row :: "string \<Rightarrow> columns \<Rightarrow> bool" where
  "class_row classId cols \<longleftrightarrow> (\<exists>digest schema txt. cols = [Some digest, schema, txt] \<and> ToUpper (take 16 (drop 16 digest)) = classId)"

fun row_example :: "int \<Rightarrow> columns \<Rightarrow> perfSchemaExample" where
  "row_example now [_, schema, txt] = \<lparr>px_Schema = schema, px_SQLText = txt, px_LastSeen = now\<rparr>"
| "row_example now _ = \<lparr>px_Schema = None, px_SQLText = None, px_LastSeen = now\<rparr>"

lemma collect_examples_last:
  assumes "collect_examples now rows ex = Some ex'"
  shows "ex' classId =
    (case filter (class_row classId) rows of [] \<Rightarrow> ex classId | r # rs \<Rightarrow> Some (row_example now (last (r # rs))))"
  using assms
proof (induction rows arbitrary: ex)
  case (Cons cols rows)
  show ?case
  proof (cases "\<exists>digest schema sqlt. cols = [Some digest, schema, sqlt]")
    case True
    then obtain digest schema sqlt where c: "cols = [Some digest, schema, sqlt]" by blast
    let ?ex = "ex(ToUpper (take 16 (drop 16 digest)) \<mapsto> \<lparr>px_Schema = schema, px_SQLText = sqlt, px_LastSeen = now\<rparr>)"
    have "collect_examples now rows ?ex = Some ex'" using Cons.prems c by (simp split: if_splits)
    from Cons.IH [OF this] show ?thesis using c by (auto simp: class_row_def split: list.splits)
  next
    case False
    then have "collect_examples now rows ex = Some ex'" and "\<not> class_row classId cols"
      using Cons.prems by (auto simp: class_row_def split: list.splits option.splits)
    then show ?thesis using Cons.IH by simp
  qed
qed simp

lemma class_row_class_id:
  assumes "32 \<le> length (dr_Digest r)"
  shows "class_row (class_id r) [Some (dr_Digest r), schema, txt]"
  using assms by (simp add: class_row_def class_id_def)

text \<open>
  C38: the goroutine that collects examples and the run of the worker share the connection. From any
  state in which the goroutine waits for its ticker and the server accepts connections, the run can
  close the connection after the goroutine has opened it and before it asks for the handle: the
  goroutine then calls a method of a nil handle and panics, which nothing recovers from. A goroutine
  whose query fails once ends instead, and no step brings it back.
\<close>

theorem examples_race:
  assumes "wf_conn (es_conn s) (es_world s)" and "es_pc s = XWait"
    and "dr_open d (co_dsn (es_conn s)) = None" and "dr_ping d (wo_server (es_world s)) = None"
  shows "(\<exists>s'. (ex_step d query)\<^sup>*\<^sup>* s s' \<and> es_pc s' = XPanicked)
    \<and> (\<forall>t t'. (ex_step d query)\<^sup>*\<^sup>* t t' \<and> es_pc t = XReturned \<longrightarrow> es_pc t' = XReturned \<and> es_examples t' = es_examples t)"
proof (intro conjI allI impI)
  obtain c1 w1 where c1: "conn_Connect d (es_conn s) (es_world s) = (c1, w1, None)"
    using assms(3, 4) by (cases "co_connected (es_conn s)") (simp_all add: conn_Connect_def Let_def)
  note wf1 = conn_Connect_wf [OF assms(1) c1]
  obtain c2 w2 where c2: "conn_Close c1 w1 = (c2, w2)" by (metis surj_pair)
  then have nil: "co_conn c2 = None" using conn_Close_wf [OF wf1(1) c2] by (auto simp: wf_conn_def)
  let ?s1 = "s\<lparr>es_conn := c1, es_world := w1, es_pc := XQuery\<rparr>"
  let ?s2 = "?s1\<lparr>es_conn := c2, es_world := w2\<rparr>"
  have "ex_step d query s ?s1" using assms(2) c1 by (rule ex_step.tick_connect)
  moreover have "ex_step d query ?s1 ?s2" using c2 by (intro ex_step.run_close) simp_all
  moreover have "ex_step d query ?s2 (?s2\<lparr>es_pc := XPanicked\<rparr>)" using nil by (intro ex_step.query_nil) simp_all
  ultimately have "(ex_step d query)\<^sup>*\<^sup>* s (?s2\<lparr>es_pc := XPanicked\<rparr>)"
    by (meson converse_rtranclp_into_rtranclp rtranclp.rtrancl_refl)
  then show "\<exists>s'. (ex_step d query)\<^sup>*\<^sup>* s s' \<and> es_pc s' = XPanicked" by force
next
  fix t t' assume "(ex_step d query)\<^sup>*\<^sup>* t t' \<and> es_pc t = XReturned"
  then have "(ex_step d query)\<^sup>*\<^sup>* t t'" and "es_pc t = XReturned" by simp_all
  then have "es_pc t' = XReturned \<and> es_examples t' = es_examples t"
    by (induction rule: rtranclp_induct) (auto elim: ex_step.cases)
  then show "es_pc t' = XReturned" and "es_examples t' = es_examples t" by simp_all
qed

theorem examples_race_witness:
  "\<exists>s'. (ex_step demo_driver (\<lambda>_ _. Inr ([], False)))\<^sup>*\<^sup>*
       \<lparr>es_conn = NewConnection ''dsn'', es_world = demo_world True, es_pc = XWait, es_examples = Map.empty\<rparr> s'
     \<and> es_pc s' = XPanicked"
  using examples_race [of "\<lparr>es_conn = NewConnection ''dsn'', es_world = demo_world True, es_pc = XWait, es_examples = Map.empty\<rparr>"
      demo_driver "\<lambda>_ _. Inr ([], False)"]
  by (simp add: wf_conn_def NewConnection_def demo_driver_def)

text \<open>
  Every stop leaves the goroutine behind, and a goroutine that ended is not replaced while its ticker
  is there.
\<close>

lemma pworker_Stop_leaks:
  "pworker_SetConfig (Some True) x = Some x' \<Longrightarrow> \<not> xc_ticker x \<Longrightarrow>
   xc_leaked (pworker_Stop x') = xc_leaked x + 1 \<and> xc_live (pworker_Stop x') = 0"
  by (auto simp: pworker_SetConfig_def pworker_Stop_def Let_def)

lemma pworker_SetConfig_keeps:
  "xc_ticker x \<Longrightarrow> pworker_SetConfig (Some b) x = Some (x\<lparr>xc_collectExamples := b\<rparr>)"
  by (simp add: pworker_SetConfig_def Let_def)

end
