(* ===== verification/AgentInfo.thy ===== *)
theory AgentInfo
  imports Agent Files
begin

text \<open>
  The commands of \<open>agent/agent.go\<close> that gather data: the defaults of the services, the version, and
  the collection of diagnostic files, which runs external programs, packs their output into an archive
  and sends it in base64; and the order in which the agent stops its services. The archive format of
  \<open>archive/zip\<close> is an argument, a function of the names and contents of the packed files.
\<close>

section \<open>Base64\<close>

definition b64_alphabet :: string where
  "b64_alphabet = ''ABCDEFGHIJKLMNOPQRSTUVWXYZabcdefghijklmnopqrstuvwxyz0123456789+/''"

definition b64_char :: "nat \<Rightarrow> char" where
  "b64_char i = b64_alphabet ! i"

definition byte :: "char \<Rightarrow> nat" where
  "byte c = of_char c"

definition b64_four :: "nat \<Rightarrow> string" where
  "b64_four n = [b64_char (n div 262144 mod 64), b64_char (n div 4096 mod 64), b64_char (n div 64 mod 64), b64_char (n mod 64)]"

text \<open>\<open>base64.StdEncoding\<close>: three bytes are four characters; a last group of one or two is padded.\<close>

fun base64 :: "bytes \<Rightarrow> string" where
  "base64 [] = []"
| "base64 [a] = take 2 (b64_four (byte a * 65536)) @ ''==''"
| "base64 [a, b] = take 3 (b64_four (byte a * 65536 + byte b * 256)) @ ''=''"
| "base64 (a # b # c # rest) = b64_four (byte a * 65536 + byte b * 256 + byte c) @ base64 rest"

text \<open>The decoding of the receiver.\<close>

definition b64_val :: "char \<Rightarrow> nat" where
  "b64_val c = (case map_of (zip b64_alphabet [0..<64]) c of None \<Rightarrow> 0 | Some i \<Rightarrow> i)"

definition b64_value :: "char \<Rightarrow> char \<Rightarrow> char \<Rightarrow> char \<Rightarrow> nat" where
  "b64_value w x y z = ((b64_val w * 64 + b64_val x) * 64 + b64_val y) * 64 + b64_val z"

fun base64_decode :: "string \<Rightarrow> bytes" where
  "base64_decode (w # x # y # z # rest) =
     (let n = b64_value w x y z;
          bs = [char_of (n div 65536), char_of (n div 256 mod 256), char_of (n mod 256)]
      in (if y = CHR ''='' then take 1 bs else if z = CHR ''='' then take 2 bs else bs) @ base64_decode rest)"
| "base64_decode _ = []"

lemma b64_val_char:
  assumes "i < 64"
  shows "b64_val (b64_char i) = i" and "b64_char i \<noteq> CHR ''=''"
proof -
  have "list_all (\<lambda>i. b64_val (b64_char i) = i \<and> b64_char i \<noteq> CHR ''='') [0..<64]" by code_simp
  then show "b64_val (b64_char i) = i" and "b64_char i \<noteq> CHR ''=''" using assms by (auto simp: list_all_iff)
qed

lemma b64_val_pad: "b64_val (CHR ''='') = 0"
  by code_simp

lemma sextets:
  assumes "n < 16777216"
  shows "((n div 262144 mod 64 * 64 + n div 4096 mod 64) * 64 + n div 64 mod 64) * 64 + n mod 64 = (n::nat)"
proof -
  have "n div 262144 = n div 4096 div 64" and "n div 4096 = n div 64 div 64" by (simp_all flip: div_mult2_eq)
  moreover have "n div 262144 < 64" using assms by simp
  ultimately show ?thesis using div_mult_mod_eq [of n 64] div_mult_mod_eq [of "n div 64" 64] div_mult_mod_eq [of "n div 4096" 64]
    by (metis mod_less)
qed

lemma byte_less: "byte c < 256"
  by (simp add: byte_def of_char_eq_iff)

lemma byte_char: "char_of (byte c) = c"
  by (simp add: byte_def)

lemma b64_value_four:
  "n < 16777216 \<Longrightarrow> b64_four n = [w, x, y, z] \<Longrightarrow> b64_value w x y z = n"
  using sextets [of n] by (auto simp: b64_four_def b64_value_def b64_val_char)

lemma three_bytes:
  fixes a b c :: nat
  assumes "a < 256" and "b < 256" and "c < 256"
  shows "(a * 65536 + b * 256 + c) div 65536 = a" and "(a * 65536 + b * 256 + c) div 256 mod 256 = b"
    and "(a * 65536 + b * 256 + c) mod 256 = c"
proof -
  have eq: "a * 65536 + b * 256 + c = c + (a * 256 + b) * 256" and m: "a * 256 + b = b + a * 256" by simp_all
  have d: "(a * 65536 + b * 256 + c) div 256 = a * 256 + b" unfolding eq using assms(3) by simp
  then show "(a * 65536 + b * 256 + c) div 256 mod 256 = b" using assms(2) by simp
  have "(a * 65536 + b * 256 + c) div 65536 = (a * 65536 + b * 256 + c) div 256 div 256" by (simp flip: div_mult2_eq)
  then show "(a * 65536 + b * 256 + c) div 65536 = a" unfolding d m using assms(2) by simp
  show "(a * 65536 + b * 256 + c) mod 256 = c" unfolding eq using assms(3) by (simp only: mod_mult_self1 mod_less)
qed

lemma three_bytes_less:
  fixes a b c :: nat
  shows "a < 256 \<Longrightarrow> b < 256 \<Longrightarrow> c < 256 \<Longrightarrow> a * 65536 + b * 256 + c < 16777216"
  by linarith

text \<open>A padded group has zeros for the missing bytes, so that the cut digits are zero.\<close>

lemma b64_four_ends:
  "b64_four (a * 65536 + b * 256) = [w, x, y, z] \<Longrightarrow> z = b64_char 0"
  "b64_four (a * 65536) = [w, x, y, z] \<Longrightarrow> y = b64_char 0 \<and> z = b64_char 0"
proof -
  have "a * 65536 + b * 256 = (a * 1024 + b * 4) * 64" and "a * 65536 = a * 16 * 64 * 64" by simp_all
  then show "b64_four (a * 65536 + b * 256) = [w, x, y, z] \<Longrightarrow> z = b64_char 0"
    and "b64_four (a * 65536) = [w, x, y, z] \<Longrightarrow> y = b64_char 0 \<and> z = b64_char 0"
    by (auto simp: b64_four_def)
qed

lemma b64_value_pad:
  "b64_value w x y (CHR ''='') = b64_value w x y (b64_char 0)"
  "b64_value w x (CHR ''='') z = b64_value w x (b64_char 0) z"
  by (simp_all add: b64_value_def b64_val_pad b64_val_char)

lemma b64_four_proper:
  "b64_four n = [w, x, y, z] \<Longrightarrow> y \<noteq> CHR ''='' \<and> z \<noteq> CHR ''=''"
  by (auto simp: b64_four_def b64_val_char)

lemma b64_four_cases: obtains w x y z where "b64_four n = [w, x, y, z]"
  by (simp add: b64_four_def)

text \<open>What the receiver decodes is what was encoded.\<close>

lemma base64_roundtrip: "base64_decode (base64 data) = data"
proof (induction data rule: base64.induct)
  case (2 a)
  obtain w x y z where f: "b64_four (byte a * 65536) = [w, x, y, z]" by (rule b64_four_cases)
  moreover have "byte a * 65536 < 16777216" using byte_less [of a] by linarith
  ultimately have "b64_value w x (CHR ''='') (CHR ''='') = byte a * 65536"
    using b64_value_four b64_four_ends(2) [of "byte a"] by (metis b64_value_pad)
  then show ?case using f byte_less [of a] by (simp add: byte_char)
next
  case (3 a b)
  let ?n = "byte a * 65536 + byte b * 256"
  obtain w x y z where f: "b64_four ?n = [w, x, y, z]" by (rule b64_four_cases)
  moreover have "?n < 16777216" using three_bytes_less [OF byte_less [of a] byte_less [of b], of 0] by simp
  ultimately have "b64_value w x y (CHR ''='') = ?n"
    using b64_value_four b64_four_ends(1) by (metis b64_value_pad(1))
  then have "base64_decode (base64 [a, b]) = [char_of (?n div 65536), char_of (?n div 256 mod 256)]"
    using f b64_four_proper [OF f] by simp
  also have "\<dots> = [a, b]"
    using three_bytes(1, 2) [OF byte_less [of a] byte_less [of b], of 0] by (simp only: add_0_right zero_less_numeral byte_char)
  finally show ?case .
next
  case (4 a b c rest)
  let ?n = "byte a * 65536 + byte b * 256 + byte c"
  obtain w x y z where f: "b64_four ?n = [w, x, y, z]" by (rule b64_four_cases)
  then have "b64_value w x y z = ?n"
    using b64_value_four three_bytes_less [OF byte_less byte_less byte_less] by blast
  then have "base64_decode (base64 (a # b # c # rest)) =
      [char_of (?n div 65536), char_of (?n div 256 mod 256), char_of (?n mod 256)] @ base64_decode (base64 rest)"
    using f b64_four_proper [OF f] by (simp add: Let_def)
  also have "\<dots> = a # b # c # rest"
    unfolding 4 three_bytes [OF byte_less [of a] byte_less [of b] byte_less [of c]] byte_char by simp
  finally show ?case .
qed simp

section \<open>The collection of diagnostic files\<close>

text \<open>
  A point in time as \<open>time.Format\<close> prints it. The layout of the file name asks for the hour twice, of
  24 and of 12 hours, and then for the minute.
\<close>

record clock_time =
  ct_year :: nat
  ct_month :: nat
  ct_day :: nat
  ct_hour :: nat
  ct_minute :: nat
  ct_second :: nat

definition hour12 :: "nat \<Rightarrow> nat" where
  "hour12 h = (if h mod 12 = 0 then 12 else h mod 12)"

definition two :: "nat \<Rightarrow> string" where
  "two n = pad_left 2 (string_of_nat n)"

definition zip_name :: "clock_time \<Rightarrow> string" where
  "zip_name t =
     ''collect_'' @ pad_left 4 (string_of_nat (ct_year t)) @ ''-'' @ two (ct_month t) @ ''-'' @ two (ct_day t) @ ''_'' @ two (ct_hour t)
     @ ''_'' @ two (hour12 (ct_hour t)) @ ''_'' @ two (ct_minute t) @ ''.zip''"

text \<open>
  One program: \<open>runRealCmd\<close> with the argument that redirects its output. A file for the output is made
  before the program is started.
\<close>

definition run_into :: "cmd_env \<Rightarrow> string \<Rightarrow> string \<Rightarrow> filesystem \<Rightarrow> filesystem \<times> cmd_error option" where
  "run_into env name outFile fs =
     (case cmd_Run env name [''> '' @ outFile] of
        (None, _, err) \<Rightarrow> (fs, err)
      | (Some p, _, err) \<Rightarrow>
          (let out = (case xe_run env name (pr_args p) of Finished out _ \<Rightarrow> out | NotInTime _ \<Rightarrow> '''')
           in (case pr_stdout p of None \<Rightarrow> fs | Some f \<Rightarrow> fs\<lparr>fs_data := (fs_data fs)(f \<mapsto> out)\<rparr>, err)))"

definition out_file :: "string \<Rightarrow> string \<Rightarrow> string" where
  "out_file tmpDir cmd = path_Join [tmpDir, cmd @ ''.out'']"

fun run_programs :: "cmd_env \<Rightarrow> string \<Rightarrow> string list \<Rightarrow> filesystem \<Rightarrow> filesystem \<times> cmd_error option" where
  "run_programs env tmpDir [] fs = (fs, None)"
| "run_programs env tmpDir (cmd # cmds) fs =
     (case run_into env cmd (out_file tmpDir cmd) fs of
        (fs, Some e) \<Rightarrow> (fs, Some e)
      | (fs, None) \<Rightarrow> run_programs env tmpDir cmds fs)"

text \<open>
  The files are packed under their base names, up to the first that cannot be read; the archive is
  written even then, since its writer is closed when the function returns.
\<close>

definition base_name :: "string \<Rightarrow> string" where
  "base_name f = rev (takeWhile (\<lambda>c. c \<noteq> CHR ''/'') (rev f))"

fun zip_entries :: "filesystem \<Rightarrow> string list \<Rightarrow> (string \<times> bytes) list \<times> file_error option" where
  "zip_entries fs [] = ([], None)"
| "zip_entries fs (f # files) =
     (if fs_readErr fs f then ([], Some FileError)
      else case fs_data fs f of
             None \<Rightarrow> ([], Some FileNotFound)
           | Some data \<Rightarrow> (case zip_entries fs files of (es, err) \<Rightarrow> ((base_name f, data) # es, err)))"

definition zipFiles ::
  "((string \<times> bytes) list \<Rightarrow> bytes) \<Rightarrow> filesystem \<Rightarrow> string \<Rightarrow> string list \<Rightarrow> filesystem \<times> file_error option" where
  "zipFiles archive fs filename files =
     (if fs_writeErr fs filename then (fs, Some FileError)
      else (case zip_entries fs files of
              (es, err) \<Rightarrow> (fs\<lparr>fs_data := (fs_data fs)(filename \<mapsto> archive es)\<rparr>, err)))"

definition base64Encode :: "filesystem \<Rightarrow> string \<Rightarrow> file_error + string" where
  "base64Encode fs filename =
     (if fs_readErr fs filename then Inl FileError
      else case fs_data fs filename of None \<Rightarrow> Inl FileNotFound | Some data \<Rightarrow> Inr (base64 data))"

fun removeFiles :: "filesystem \<Rightarrow> string list \<Rightarrow> filesystem \<times> file_error option" where
  "removeFiles fs [] = (fs, None)"
| "removeFiles fs (f # files) =
     (if fs_data fs f = None then (fs, Some FileNotFound)
      else removeFiles (fs\<lparr>fs_data := (fs_data fs)(f := None)\<rparr>) files)"

datatype collect_error = NoTempDir string | ProgramFailed cmd_error | EncodeFailed file_error

record CollectInfoData =
  ci_Filename :: string
  ci_Data :: string

definition handleCollectInfo ::
  "cmd_env \<Rightarrow> ((string \<times> bytes) list \<Rightarrow> bytes) \<Rightarrow> string + string \<Rightarrow> clock_time \<Rightarrow> filesystem \<Rightarrow> filesystem \<times> (collect_error + CollectInfoData)" where
  "handleCollectInfo env archive tempDir now fs =
     (case tempDir of
        Inl e \<Rightarrow> (fs, Inl (NoTempDir e))
      | Inr tmpDir \<Rightarrow>
          (let cmds = [''pt-summary'', ''pt-mysql-summary''];
               outFiles = map (out_file tmpDir) cmds
           in case run_programs env tmpDir cmds fs of
                (fs, Some e) \<Rightarrow> (fs, Inl (ProgramFailed e))
              | (fs, None) \<Rightarrow>
                  (let zipFilename = zip_name now;
                       zipFilePath = path_Join [tmpDir, zipFilename];
                       (fs, _) = zipFiles archive fs zipFilePath outFiles
                   in case base64Encode fs zipFilePath of
                        Inl e \<Rightarrow> (fs, Inl (EncodeFailed e))
                      | Inr b64data \<Rightarrow>
                          (let (fs, _) = removeFiles fs (outFiles @ [zipFilename])
                           in (fs, Inr \<lparr>ci_Filename = zipFilename, ci_Data = b64data\<rparr>)))))"

lemma zip_name_no_seconds: "zip_name (t\<lparr>ct_second := s\<rparr>) = zip_name t"
  by (simp add: zip_name_def)

section \<open>What is collected\<close>

lemma abs_path_snoc_if: "abs_path (cs @ [a]) = (if cs = [] then '''' else abs_path cs) @ ''/'' @ a"
  by (simp add: abs_path_def join_with_snoc)

lemma abs_path_snoc_eq: "abs_path (cs @ [a]) = abs_path (cs @ [b]) \<longleftrightarrow> a = b"
  by (simp add: abs_path_snoc_if)

lemma base_name_abs:
  assumes "proper a"
  shows "base_name (abs_path (cs @ [a])) = a"
proof -
  have "takeWhile (\<lambda>c. c \<noteq> CHR ''/'') (rev a @ CHR ''/'' # s) = rev a" for s
    using assms by (subst takeWhile_append2) (auto simp: proper_def)
  then show ?thesis by (simp add: base_name_def abs_path_snoc_if)
qed

lemma hd_abs_path: "hd (abs_path cs) = CHR ''/''"
  by (simp add: abs_path_def)

lemma TrimSpace_trimmed:
  assumes "s \<noteq> []" and "\<not> is_trim (hd s)" and "\<not> is_trim (last s)"
  shows "TrimSpace (CHR '' '' # s) = s"
proof -
  have "dropWhile is_trim s = s" using assms(1, 2) by (cases s) simp_all
  moreover have "dropWhile is_trim (rev s) = rev s" using assms(1, 3) by (cases s rule: rev_cases) simp_all
  ultimately show ?thesis by (simp add: TrimSpace_def is_trim_def is_space_def)
qed

lemma proper_out: "proper ''pt-summary.out''" "proper ''pt-mysql-summary.out''"
  by (simp_all add: proper_def)

lemma digits_no_slash: "CHR ''/'' \<notin> set (string_of_nat n)"
  using string_of_nat_digits [of "CHR ''/''" n] by (auto simp: is_digit_def)

lemma proper_zip_name: "proper (zip_name t)"
  by (simp add: proper_def zip_name_def two_def pad_left_def digits_no_slash)

lemma run_into_done:
  assumes "\<forall>c \<in> set cs. proper c" and "\<forall>f. xe_create env f = None" and "xe_run env name [] = Finished out None" and "name \<noteq> ''''"
    and "proper (name @ ''.out'')"
  shows "run_into env name (out_file (abs_path cs) name) fs =
    (fs\<lparr>fs_data := (fs_data fs)(abs_path (cs @ [name @ ''.out'']) \<mapsto> out)\<rparr>, None)"
proof -
  let ?f = "abs_path (cs @ [name @ ''.out''])"
  have f: "out_file (abs_path cs) name = ?f" using path_Join_proper [OF assms(1, 5)] by (simp add: out_file_def)
  have "?f \<noteq> ''''" "last ?f = CHR ''t''" by (simp_all add: abs_path_snoc_if)
  moreover have "hd ?f = CHR ''/''" by (rule hd_abs_path)
  ultimately have "TrimSpace (CHR '' '' # ?f) = ?f" by (intro TrimSpace_trimmed) (simp_all add: is_trim_def is_space_def)
  then show ?thesis using assms(2, 3) \<open>?f \<noteq> ''''\<close> by (simp add: run_into_def f cmd_Run_def runCmd_def Let_def)
qed

text \<open>
  C39: the collection of diagnostic files sends what it collected. When the two programs end without an
  error and the files can be read and written, the data of the reply decode to the archive of exactly
  their two outputs, under the names of the programs; the output files are removed again. The archive
  itself is left behind in the temporary directory, since its removal is asked for by its bare name.
\<close>

theorem collect_info_sends:
  assumes "\<forall>c \<in> set cs. proper c" and "\<forall>f. xe_create env f = None"
    and "\<forall>f. \<not> fs_readErr fs f" and "\<forall>f. \<not> fs_writeErr fs f"
    and "xe_run env ''pt-summary'' [] = Finished out1 None" and "xe_run env ''pt-mysql-summary'' [] = Finished out2 None"
  shows "\<exists>fs' r. handleCollectInfo env archive (Inr (abs_path cs)) now fs = (fs', Inr r)
    \<and> ci_Filename r = zip_name now
    \<and> base64_decode (ci_Data r) = archive [(''pt-summary.out'', out1), (''pt-mysql-summary.out'', out2)]
    \<and> fs_data fs' (abs_path (cs @ [''pt-summary.out''])) = None
    \<and> fs_data fs' (abs_path (cs @ [''pt-mysql-summary.out''])) = None
    \<and> fs_data fs' (abs_path (cs @ [zip_name now])) = Some (archive [(''pt-summary.out'', out1), (''pt-mysql-summary.out'', out2)])"
proof -
  let ?o1 = "abs_path (cs @ [''pt-summary.out''])" and ?o2 = "abs_path (cs @ [''pt-mysql-summary.out''])"
  let ?z = "abs_path (cs @ [zip_name now])" and ?a = "archive [(''pt-summary.out'', out1), (''pt-mysql-summary.out'', out2)]"
  let ?fs = "fs\<lparr>fs_data := (fs_data fs)(?o1 \<mapsto> out1, ?o2 \<mapsto> out2)\<rparr>"
  have o: "out_file (abs_path cs) ''pt-summary'' = ?o1" "out_file (abs_path cs) ''pt-mysql-summary'' = ?o2"
    using path_Join_proper [OF assms(1)] proper_out by (simp_all add: out_file_def)
  have run: "run_programs env (abs_path cs) [''pt-summary'', ''pt-mysql-summary''] fs = (?fs, None)"
    using run_into_done [OF assms(1, 2, 5)] run_into_done [OF assms(1, 2, 6)] proper_out by simp
  have z: "path_Join [abs_path cs, zip_name now] = ?z" using path_Join_proper [OF assms(1) proper_zip_name] .
  have rel: "zip_name now \<noteq> abs_path ds" for ds by (simp add: zip_name_def abs_path_def)
  have ne: "?o1 \<noteq> ?o2" "?z \<noteq> ?o1" "?z \<noteq> ?o2" unfolding abs_path_snoc_eq by (simp_all add: zip_name_def)
  have entries: "zip_entries ?fs [?o1, ?o2] = ([(''pt-summary.out'', out1), (''pt-mysql-summary.out'', out2)], None)"
    using assms(3) ne base_name_abs [OF proper_out(1)] base_name_abs [OF proper_out(2)] by simp
  have zip: "zipFiles archive ?fs ?z [?o1, ?o2] = (?fs\<lparr>fs_data := (fs_data ?fs)(?z \<mapsto> ?a)\<rparr>, None)"
    unfolding zipFiles_def entries using assms(4) by simp
  let ?fs2 = "?fs\<lparr>fs_data := (fs_data ?fs)(?z \<mapsto> ?a)\<rparr>"
  have enc: "base64Encode ?fs2 ?z = Inr (base64 ?a)" using assms(3) by (simp add: base64Encode_def)
  obtain fs' e where rm: "removeFiles ?fs2 ([?o1, ?o2] @ [zip_name now]) = (fs', e)" by (metis surj_pair)
  then have left: "fs_data fs' ?o1 = None" "fs_data fs' ?o2 = None" "fs_data fs' ?z = Some ?a"
    using ne rel rel [symmetric] by (auto split: if_splits)
  have "handleCollectInfo env archive (Inr (abs_path cs)) now fs = (fs', Inr \<lparr>ci_Filename = zip_name now, ci_Data = base64 ?a\<rparr>)"
    unfolding handleCollectInfo_def Let_def sum.case run prod.case option.case list.map o z zip enc rm ..
  then show ?thesis using left base64_roundtrip [of ?a] by simp
qed

theorem collect_info_sends_witness:
  "\<exists>fs' r. handleCollectInfo
       \<lparr>xe_PATH = '''', xe_Executable = None, xe_Arg0 = '''', xe_HOME = '''', xe_create = (\<lambda>_. None), xe_run = (\<lambda>n _. Finished n None)\<rparr>
       (\<lambda>es. concat (map snd es)) (Inr (abs_path [''tmp'', ''x''])) \<lparr>ct_year = 2020, ct_month = 1, ct_day = 2, ct_hour = 3, ct_minute = 4, ct_second = 5\<rparr>
       \<lparr>fs_data = Map.empty, fs_readErr = (\<lambda>_. False), fs_writeErr = (\<lambda>_. False)\<rparr> = (fs', Inr r)
    \<and> base64_decode (ci_Data r) = ''pt-summarypt-mysql-summary''"
  using collect_info_sends [of "[''tmp'', ''x'']"
      "\<lparr>xe_PATH = '''', xe_Executable = None, xe_Arg0 = '''', xe_HOME = '''', xe_create = (\<lambda>_. None), xe_run = (\<lambda>n _. Finished n None)\<rparr>"
      "\<lparr>fs_data = Map.empty, fs_readErr = (\<lambda>_. False), fs_writeErr = (\<lambda>_. False)\<rparr>" "''pt-summary''" "''pt-mysql-summary''"
      "\<lambda>es. concat (map snd es)" "\<lparr>ct_year = 2020, ct_month = 1, ct_day = 2, ct_hour = 3, ct_minute = 4, ct_second = 5\<rparr>"]
  by (auto simp: proper_def)

section \<open>Defaults, version and stop\<close>

text \<open>
  \<open>GetDefaults\<close>: the decoded data of the command are an argument, and so are the defaults of a service,
  \<open>None\<close> for one that has none. Values are given as texts.
\<close>

definition agent_GetDefaults ::
  "string \<Rightarrow> ('s \<Rightarrow> string \<Rightarrow> (string \<times> string) list option) \<Rightarrow> string + (string \<times> string) list \<Rightarrow> 's agent
     \<Rightarrow> (string \<times> (string \<times> string) list) list option \<times> string list" where
  "agent_GetDefaults basedir defs data a =
     (case data of
        Inl e \<Rightarrow> (None, [''agent.GetDefaults: cannot unmarshal cmd. '' @ e])
      | Inr d \<Rightarrow>
          (case map_of d ''UUID'' of
             None \<Rightarrow> (None, [''missing uuid in GetDefaults call''])
           | Some uuid \<Rightarrow>
               (Some (foldl (\<lambda>defaults (service, m). case defs m uuid of None \<Rightarrow> defaults | Some def \<Rightarrow> alist_put service def defaults)
                  [(''bin'', [(''basedir'', basedir)]),
                   (''agent'', [(''KeepAlive'', string_of_nat (unat DEFAULT_KEEPALIVE)), (''Listen'', ''127.0.0.1:9000'')])]
                  (ag_services a)), [])))"

text \<open>\<open>handleVersion\<close>: the running version and, when the executable is found and runs, the installed one.\<close>

record version_data =
  ve_Running :: string
  ve_Installed :: string

definition handleVersion :: "string \<Rightarrow> string + string \<Rightarrow> (string \<Rightarrow> string + string) \<Rightarrow> version_data \<times> string list" where
  "handleVersion running absPath exec =
     (let v = \<lparr>ve_Running = running, ve_Installed = ''''\<rparr>
      in case absPath of
           Inl e \<Rightarrow> (v, [e])
         | Inr bin \<Rightarrow>
             (case exec bin of Inl e \<Rightarrow> (v, [e]) | Inr out \<Rightarrow> (v\<lparr>ve_Installed := TrimSpace out\<rparr>, [])))"

text \<open>
  \<open>stop\<close>: the handler of commands first, then the services but the log, and the handler of status
  requests last; \<open>None\<close> when a handler does not answer. The errors of the services are only logged.
\<close>

definition stop_service :: "'s service_ops \<Rightarrow> string \<times> 's \<Rightarrow> string \<times> 's" where
  "stop_service ops = (\<lambda>(service, m). if service = ''log'' then (service, m) else (service, fst (so_Stop ops m)))"

definition stop_text :: "(string \<times> 's) list \<Rightarrow> string list" where
  "stop_text services =
     ''Stopping cmdHandler'' # map (\<lambda>(service, m). ''Stopping '' @ service) (filter (\<lambda>(service, m). service \<noteq> ''log'') services)
     @ [''Stopping statusHandler'']"

definition agent_stop ::
  "'s service_ops \<Rightarrow> string \<Rightarrow> SyncChan \<Rightarrow> SyncChan \<Rightarrow> 's agent \<Rightarrow> ('s agent \<times> SyncChan \<times> SyncChan) option" where
  "agent_stop ops cmdText cmdHandlerSync statusHandlerSync a =
     (case sync_stop cmdHandlerSync of
        None \<Rightarrow> None
      | Some cs \<Rightarrow>
          (let a = a\<lparr>ag_services := map (stop_service ops) (ag_services a),
                     ag_status := foldl (\<lambda>st t. status_UpdateRe ''agent'' t cmdText st) (ag_status a) (stop_text (ag_services a))\<rparr>
           in map_option (\<lambda>ss. (a, cs, ss)) (sync_stop statusHandlerSync)))"

text \<open>Every service but the log is stopped exactly once, and a fresh handshake does not block the stop.\<close>

lemma agent_stop_stops:
  "\<exists>a' cs ss. agent_stop ops cmdText NewSyncChan NewSyncChan a = Some (a', cs, ss)
    \<and> (\<forall>service. map_of (ag_services a') service =
         map_option (\<lambda>m. if service = ''log'' then m else fst (so_Stop ops m)) (map_of (ag_services a) service))"
proof -
  have "map_of (map (stop_service ops) xs) service =
      map_option (\<lambda>m. if service = ''log'' then m else fst (so_Stop ops m)) (map_of xs service)" for xs service
    by (induction xs) (auto simp: stop_service_def)
  moreover have "sync_stop NewSyncChan \<noteq> None" by code_simp
  ultimately show ?thesis by (auto simp: agent_stop_def Let_def)
qed

text \<open>The defaults of a service are those it gives, and a command without a UUID is refused.\<close>

lemma defaults_fold:
  "wf_alist xs \<Longrightarrow> map_of (foldl (\<lambda>ds (service, m). case defs m uuid of None \<Rightarrow> ds | Some def \<Rightarrow> alist_put service def ds) acc xs) k =
    (case Option.bind (map_of xs k) (\<lambda>m. defs m uuid) of None \<Rightarrow> map_of acc k | Some d \<Rightarrow> Some d)"
proof (induction xs arbitrary: acc)
  case (Cons x xs)
  obtain s m where x: "x = (s, m)" by fastforce
  have wf: "wf_alist xs" and "map_of xs s = None" using Cons.prems x by (auto simp: wf_alist_def map_of_eq_None_iff)
  then show ?case using Cons.IH [OF wf] x by (cases "s = k") (auto split: option.splits)
qed simp

lemma agent_GetDefaults_exact:
  assumes "wf_alist (ag_services a)" and "map_of d ''UUID'' = Some uuid" and "map_of (ag_services a) service = Some m"
    and "defs m uuid = Some def"
  shows "\<exists>ds. agent_GetDefaults basedir defs (Inr d) a = (Some ds, []) \<and> map_of ds service = Some def"
  using assms by (simp add: agent_GetDefaults_def defaults_fold)

end
