(* ===== verification/Installer.thy ===== *)
theory Installer
  imports Api Files InstanceRepo Agent
begin

text \<open>
  The installer, \<open>bin/percona-qan-agent-installer\<close>, which registers the host and the agent with the API
  and writes the configuration of the agent, and the start of the agent, \<open>bin/percona-qan-agent/main.go\<close>,
  which reads it: the options, the order in which the services are started, and the loop that waits for
  the end of the agent or a signal. The encoding as JSON, the UUIDs and the HTTP client are arguments.
\<close>

section \<open>The URLs of the API\<close>

text \<open>The path of a URL without escaped characters: what is before a query or a fragment.\<close>

definition url_Path :: "url \<Rightarrow> string" where
  "url_Path u = takeWhile (\<lambda>c. c \<noteq> CHR ''?'' \<and> c \<noteq> CHR ''#'') (ul_rest u)"

text \<open>
  \<open>URL\<close> of \<open>pct/api.go\<close>: the paths are resolved relative to the URL of the API, as
  \<open>url.ResolveReference\<close> does: dots are dropped and double dots take the last element away. \<open>None\<close>
  is a text without a scheme, which the source does not expect: for some it panics.
\<close>

fun resolve_elems :: "string list \<Rightarrow> string list \<Rightarrow> string list" where
  "resolve_elems dst [] = dst"
| "resolve_elems dst (elem # src) =
     resolve_elems (if elem = ''.'' then dst else if elem = ''..'' then butlast dst else dst @ [elem]) src"

definition resolve_path :: "string \<Rightarrow> string" where
  "resolve_path full =
     (let src = split_on (CHR ''/'') full;
          dst = resolve_elems [] src;
          dst = (if last src = ''.'' \<or> last src = ''..'' then dst @ [''''] else dst);
          joined = join_with ''/'' dst
      in ''/'' @ (if HasPrefix joined ''/'' then tl joined else joined))"

definition relative_path :: "string list \<Rightarrow> string" where
  "relative_path paths =
     (case paths @ [''''] of
        [] \<Rightarrow> ''''
      | p # ps \<Rightarrow> join_with ''/'' ((if HasPrefix p ''/'' then ''.'' @ p else ''./'' @ p) # ps))"

definition URL :: "string \<Rightarrow> string list \<Rightarrow> string option" where
  "URL hostname paths =
     map_option
       (\<lambda>u. let base = url_Path u;
                base = (if base \<noteq> '''' \<and> last base = CHR ''/'' then base else base @ ''/'')
            in url_String (u\<lparr>ul_rest := resolve_path (base @ relative_path paths)\<rparr>))
       (url_Parse hostname)"

definition slashed :: "string list \<Rightarrow> string" where
  "slashed cs = concat (map (\<lambda>c. ''/'' @ c) cs)"

lemma slashed_join: "cs \<noteq> [] \<Longrightarrow> join_with ''/'' ('''' # cs) = slashed cs"
proof -
  have "join_with ''/'' (c # cs) = c @ slashed cs" for c cs
    by (induction cs arbitrary: c) (simp_all add: slashed_def)
  then show ?thesis by simp
qed

lemma slashed_append: "slashed (cs @ ds) = slashed cs @ slashed ds"
  by (simp add: slashed_def)

lemma resolve_elems_proper:
  "\<forall>c \<in> set cs. c \<noteq> ''.'' \<and> c \<noteq> ''..'' \<Longrightarrow> resolve_elems dst (cs @ ds) = resolve_elems (dst @ cs) ds"
  by (induction cs arbitrary: dst) simp_all

text \<open>A link of the API: the paths follow the path of the API's own URL, and a slash ends the link.\<close>

lemma URL_appends:
  assumes "url_Parse h = Some u" and "url_Path u = slashed bs" and "\<forall>c \<in> set (bs @ p # ps). proper c"
  shows "URL h ((''/'' @ p) # ps) = Some (url_String (u\<lparr>ul_rest := slashed (bs @ p # ps) @ ''/''\<rparr>))"
proof -
  have base: "(if slashed bs \<noteq> '''' \<and> last (slashed bs) = CHR ''/'' then slashed bs else slashed bs @ ''/'') = slashed bs @ ''/''"
  proof (cases bs rule: rev_cases)
    case (snoc cs c)
    then have "last (slashed bs) = last c" "CHR ''/'' \<notin> set c" "c \<noteq> []" using assms(3) by (auto simp: slashed_def proper_def)
    then show ?thesis by (metis last_in_set)
  qed (simp add: slashed_def)
  have rel: "relative_path ((''/'' @ p) # ps) = ''.'' @ slashed (p # ps @ [''''])"
  proof -
    have "join_with ''/'' ((''./'' @ p) # ps @ ['''']) = ''./'' @ p @ slashed (ps @ [''''])"
      using slashed_join [of "ps @ ['''']"] by (induction ps) (simp_all add: slashed_def)
    then show ?thesis by (simp add: relative_path_def slashed_def)
  qed
  let ?src = "'''' # bs @ [''.''] @ p # ps @ ['''']"
  have full: "(slashed bs @ ''/'') @ relative_path ((''/'' @ p) # ps) = join_with ''/'' ?src"
    unfolding rel by (subst slashed_join) (simp_all add: slashed_def)
  have "\<forall>c \<in> set ?src. CHR ''/'' \<notin> set c" using assms(3) by (auto simp: proper_def)
  then have split: "split_on (CHR ''/'') (join_with ''/'' ?src) = ?src" by (intro split_on_join) simp_all
  have "resolve_elems [] ?src = '''' # bs @ p # ps @ ['''']"
    using resolve_elems_proper [of bs "['''']" "[''.''] @ p # ps @ ['''']"] resolve_elems_proper [of "p # ps @ ['''']" "'''' # bs" "[]"] assms(3)
    by (simp add: proper_def)
  then have "resolve_path (join_with ''/'' ?src) = slashed (bs @ p # ps @ [''''])"
    using slashed_join [of "bs @ p # ps @ ['''']"] unfolding resolve_path_def split Let_def
    by (cases bs) (simp_all add: slashed_def)
  then have "resolve_path (join_with ''/'' ?src) = slashed (bs @ p # ps) @ ''/''" by (simp add: slashed_def)
  then show ?thesis unfolding URL_def assms(1) option.map Let_def assms(2) base full by (rule arg_cong)
qed

section \<open>The installer\<close>

record proto_instance = inst +
  pi_ParentUUID :: string
  pi_Links :: "(string \<times> string) list"

definition new_instance :: "string \<Rightarrow> string \<Rightarrow> string \<Rightarrow> string \<Rightarrow> string \<Rightarrow> proto_instance" where
  "new_instance subsystem uuid name parent version =
     \<lparr>in_UUID = uuid, in_Subsystem = subsystem, in_Name = name, in_DSN = '''', in_Distro = '''', in_Version = version,
      pi_ParentUUID = parent, pi_Links = []\<rparr>"

text \<open>\<open>newUUID\<close>: the random UUID without its dashes, or nothing when there is none.\<close>

definition newUUID :: "string option \<Rightarrow> string" where
  "newUUID v4 = (case v4 of None \<Rightarrow> '''' | Some u \<Rightarrow> filter (\<lambda>c. c \<noteq> CHR ''-'') u)"

record install_env =
  ie_http :: http
  ie_encode :: "proto_instance \<Rightarrow> bytes option"
  ie_decode :: "bytes \<Rightarrow> proto_instance option"
  ie_mkURL :: "string \<Rightarrow> string list \<Rightarrow> string"
  ie_marshal :: "agent_config \<Rightarrow> bytes option"
  ie_repoErr :: "repo_error \<Rightarrow> string"
  ie_writeErr :: bool
  ie_osUUID :: "string option"
  ie_agentUUID :: "string option"

record installer =
  il_api :: API
  il_repo :: repo
  il_agentConfig :: agent_config
  il_hostname :: string
  il_os :: "proto_instance option"
  il_agent :: "proto_instance option"

text \<open>\<open>None\<close> is the panic of the API connector.\<close>

definition CreateOSInstance :: "install_env \<Rightarrow> installer \<Rightarrow> (installer \<times> string option) option" where
  "CreateOSInstance e i =
     (let os = new_instance ''os'' (newUUID (ie_osUUID e)) (il_hostname i) '''' ''''
      in case CreateInstance (ie_http e) (ie_encode e) (ie_decode e) (ie_mkURL e) (il_api i) ''/instances'' os of
           None \<Rightarrow> None
         | Some (created, Inl err) \<Rightarrow> Some (i\<lparr>il_os := Some os\<rparr>, Some err)
         | Some (created, Inr os) \<Rightarrow>
             (case repo_Add (ie_writeErr e) (inst.truncate os) True (il_repo i) of
                (r, err) \<Rightarrow> Some (i\<lparr>il_os := Some os, il_repo := r\<rparr>, map_option (ie_repoErr e) err)))"

text \<open>The OS instance that is referred to is nil when it was not made: then the value is \<open>None\<close>, too.\<close>

definition CreateAgent :: "install_env \<Rightarrow> installer \<Rightarrow> (installer \<times> string option) option" where
  "CreateAgent e i =
     (case il_os i of
        None \<Rightarrow> None
      | Some os \<Rightarrow>
          (let agent = new_instance ''agent'' (newUUID (ie_agentUUID e)) (in_Name os) (in_UUID os) VERSION
           in case CreateInstance (ie_http e) (ie_encode e) (ie_decode e) (ie_mkURL e) (il_api i) ''/instances'' agent of
                None \<Rightarrow> None
              | Some (created, Inl err) \<Rightarrow> Some (i\<lparr>il_agent := Some agent\<rparr>, Some err)
              | Some (created, Inr agent) \<Rightarrow>
                  Some (i\<lparr>il_agent := Some agent,
                          il_agentConfig := (il_agentConfig i)\<lparr>ac_UUID := in_UUID agent, ac_Links := pi_Links agent\<rparr>\<rparr>, None)))"

definition getAgentConfig :: "install_env \<Rightarrow> installer \<Rightarrow> string + AgentConfig" where
  "getAgentConfig e i =
     (case ie_marshal e (il_agentConfig i) of
        None \<Rightarrow> Inl ''json.Marshal''
      | Some configJson \<Rightarrow> Inr \<lparr>cf_Service = ''agent'', cf_UUID = '''', cf_Set = configJson, cf_Running = ''''\<rparr>)"

definition GetDefaultConfigs :: "install_env \<Rightarrow> installer \<Rightarrow> string + AgentConfig list" where
  "GetDefaultConfigs e i = (case getAgentConfig e i of Inl err \<Rightarrow> Inl err | Inr c \<Rightarrow> Inr [c])"

fun writeConfigs :: "basedir \<Rightarrow> AgentConfig list \<Rightarrow> filesystem \<Rightarrow> filesystem \<times> file_error option" where
  "writeConfigs b [] fs = (fs, None)"
| "writeConfigs b (config # configs) fs =
     (let name = cf_Service config;
          name = (if name = ''qan'' then name @ ''-'' @ cf_UUID config else name)
      in case WriteConfigString b fs name (cf_Set config) of
           (fs, Some e) \<Rightarrow> (fs, Some e)
         | (fs, None) \<Rightarrow> writeConfigs b configs fs)"

definition installer_Run ::
  "install_env \<Rightarrow> basedir \<Rightarrow> installer \<Rightarrow> filesystem \<Rightarrow> (installer \<times> filesystem \<times> string option) option" where
  "installer_Run e b i fs =
     (case CreateOSInstance e i of
        None \<Rightarrow> None
      | Some (i, Some err) \<Rightarrow> Some (i, fs, Some (''Failed to create OS instance: '' @ err))
      | Some (i, None) \<Rightarrow>
          (case CreateAgent e i of
             None \<Rightarrow> None
           | Some (i, Some err) \<Rightarrow> Some (i, fs, Some (''Failed to create agent instance: '' @ err))
           | Some (i, None) \<Rightarrow>
               (case GetDefaultConfigs e i of
                  Inl err \<Rightarrow> Some (i, fs, Some err)
                | Inr configs \<Rightarrow>
                    (case writeConfigs b configs fs of
                       (fs, Some err) \<Rightarrow> Some (i, fs, Some ''Failed to write configs'')
                     | (fs, None) \<Rightarrow> Some (i, fs, None)))))"

section \<open>The main function of the installer\<close>

definition parseURLParam :: "string \<Rightarrow> url option" where
  "parseURLParam args0 =
     url_Parse (if \<not> HasPrefix args0 ''http://'' \<and> \<not> HasPrefix args0 ''https://'' then ''http://'' @ args0 else args0)"

record install_flags =
  if_ServerUser :: string
  if_ServerPass :: string
  if_UseSSL :: bool
  if_UseInsecureSSL :: bool
  if_Hostname :: string

definition flag_config :: "install_flags \<Rightarrow> url \<Rightarrow> agent_config" where
  "flag_config f u =
     \<lparr>ac_UUID = '''', ac_ApiHostname = ul_Host u, ac_ApiPath = url_Path u, ac_Keepalive = 0, ac_PidFile = '''', ac_Links = [],
      ac_ServerUser = if_ServerUser f, ac_ServerPassword = if_ServerPass f,
      ac_ServerSSL = (ul_Scheme u = ''https'' \<or> if_UseSSL f), ac_ServerInsecureSSL = if_UseInsecureSSL f\<rparr>"

text \<open>
  \<open>main\<close>, after the options are parsed: the exit code with the files and the installer at the end.
  \<open>host\<close> is the name of the machine, which the API connector keeps; \<open>baseErr\<close> tells whether the base
  directory cannot be made. \<open>None\<close> is a panic.
\<close>

definition installer_main ::
  "install_env \<Rightarrow> install_flags \<Rightarrow> string \<Rightarrow> basedir \<Rightarrow> bool \<Rightarrow> string list \<Rightarrow> filesystem \<Rightarrow> (nat \<times> filesystem \<times> installer option) option" where
  "installer_main e f host b baseErr args fs =
     (case args of
        [arg] \<Rightarrow>
          (case parseURLParam arg of
             None \<Rightarrow> Some (1, fs, None)
           | Some u \<Rightarrow>
               (let agentConfig = flag_config f u;
                    api = NewAPI host (if_ServerUser f) (if_ServerPass f) (ac_ServerSSL agentConfig) (if_UseInsecureSSL f)
                in case api_Init (ie_http e) (url_String u) api of
                     (api, code, Some err) \<Rightarrow> Some (1, fs, None)
                   | (api, code, None) \<Rightarrow>
                       if baseErr then Some (1, fs, None)
                       else
                         (let i = \<lparr>il_api = api, il_repo = NewRepo Map.empty, il_agentConfig = agentConfig,
                                   il_hostname = if_Hostname f, il_os = None, il_agent = None\<rparr>
                          in map_option (\<lambda>(i, fs, err). (if err = None then 0 else 1, fs, Some i)) (installer_Run e b i fs))))
      | _ \<Rightarrow> Some (1, fs, None))"

section \<open>The main function of the agent\<close>

definition zero_agent_config :: agent_config where
  "zero_agent_config =
     \<lparr>ac_UUID = '''', ac_ApiHostname = '''', ac_ApiPath = '''', ac_Keepalive = 0, ac_PidFile = '''', ac_Links = [],
      ac_ServerUser = '''', ac_ServerPassword = '''', ac_ServerSSL = False, ac_ServerInsecureSSL = False\<rparr>"

text \<open>\<open>LoadConfig\<close> on the file of the base directory; an empty file leaves the configuration zero.\<close>

definition read_agent_config :: "(bytes \<Rightarrow> agent_config option) \<Rightarrow> basedir \<Rightarrow> filesystem \<Rightarrow> load_error + agent_config" where
  "read_agent_config decode b fs =
     (case ReadConfig decode b fs ''agent'' of
        (_, _, Some e) \<Rightarrow> LoadConfig None
      | (_, v, None) \<Rightarrow> LoadConfig (Some (case v of None \<Rightarrow> zero_agent_config | Some c \<Rightarrow> c)))"

datatype main_end = Exit nat | RunAgent agent_config

definition agent_main ::
  "http \<Rightarrow> (bytes \<Rightarrow> agent_config option) \<Rightarrow> basedir \<Rightarrow> bool \<Rightarrow> bool \<Rightarrow> bool \<Rightarrow> filesystem \<Rightarrow> main_end" where
  "agent_main http decode b baseErr flagVersion flagPing fs =
     (if flagVersion then Exit 0
      else if baseErr then Exit 1
      else if fs_data fs (ConfigFile b ''agent'') = None then Exit 1
      else case read_agent_config decode b fs of
             Inl _ \<Rightarrow> Exit 1
           | Inr agentConfig \<Rightarrow>
               (let apiURL = ac_ApiHostname agentConfig @ ac_ApiPath agentConfig
                in if flagPing then
                     (case Ping http apiURL of
                        (code, err) \<Rightarrow> if err \<noteq> None \<or> code \<noteq> 200 then Exit 1 else Exit 0)
                   else RunAgent agentConfig))"

text \<open>
  \<open>run\<close>: the services in the order in which they are started, each with the error of its start. At the
  first error the function returns, and what was started is not stopped.
\<close>

fun start_services :: "(string \<times> string option) list \<Rightarrow> string list \<Rightarrow> string list \<times> string option" where
  "start_services [] started = (started, None)"
| "start_services ((service, err) # rest) started =
     (case err of
        Some e \<Rightarrow> (started, Some ((if service = ''qan'' then ''Error'' else ''error'') @ '' starting '' @ service @ '' manager: '' @ e))
      | None \<Rightarrow> start_services rest (started @ [service]))"

definition service_order :: "string list" where
  "service_order = [''log'', ''mrms'', ''instance'', ''data'', ''query'', ''qan'']"

text \<open>The loop that waits: what it receives, one after the other, and how often it asked for a new connection.\<close>

datatype main_event = AgentStopped "string option" | TermSignal | IntSignal | HupSignal

fun signal_loop :: "main_event list \<Rightarrow> nat \<Rightarrow> (string option \<times> nat) option" where
  "signal_loop [] reconnects = None"
| "signal_loop (ev # evs) reconnects =
     (case ev of
        AgentStopped err \<Rightarrow> Some (err, reconnects)
      | TermSignal \<Rightarrow> Some (None, reconnects)
      | IntSignal \<Rightarrow> Some (None, reconnects)
      | HupSignal \<Rightarrow> signal_loop evs (reconnects + 1))"

text \<open>The run of the agent: the services stopped at the end, and the error; \<open>None\<close> while it still waits.\<close>

definition agent_run :: "(string \<Rightarrow> string option) \<Rightarrow> main_event list \<Rightarrow> (string list \<times> string list \<times> string option) option" where
  "agent_run startErr evs =
     (case start_services (map (\<lambda>s. (s, startErr s)) service_order) [] of
        (started, Some e) \<Rightarrow> Some (started, [], Some e)
      | (started, None) \<Rightarrow> map_option (\<lambda>(stopErr, n). (started, [''qan''], stopErr)) (signal_loop evs 0))"

text \<open>The connection to the API is tried every three seconds until it succeeds.\<close>

definition connect_at :: "(nat \<Rightarrow> http) \<Rightarrow> (bytes \<Rightarrow> (string \<times> string) list option) \<Rightarrow> agent_config \<Rightarrow> API \<Rightarrow> nat \<Rightarrow> API \<times> string option" where
  "connect_at http decode c a n = api_Connect (http n) decode (ac_ApiHostname c) (ac_ApiPath c) (ac_UUID c) a"

partial_function (option) connect_loop ::
  "(nat \<Rightarrow> http) \<Rightarrow> (bytes \<Rightarrow> (string \<times> string) list option) \<Rightarrow> agent_config \<Rightarrow> API \<Rightarrow> nat \<Rightarrow> (API \<times> nat) option" where
  "connect_loop http decode c a n =
     (case connect_at http decode c a n of
        (a', Some e) \<Rightarrow> connect_loop http decode c a' (n + 1)
      | (a', None) \<Rightarrow> Some (a', n))"

section \<open>The configuration that is installed\<close>

lemma CreateOSInstance_kept:
  "CreateOSInstance e i = Some (i', err) \<Longrightarrow> il_agentConfig i' = il_agentConfig i"
  by (auto simp: CreateOSInstance_def Let_def split: option.splits sum.splits prod.splits)

lemma CreateAgent_config:
  assumes "CreateAgent e i = Some (i', None)"
  shows "\<exists>agent. il_agent i' = Some agent
    \<and> il_agentConfig i' = (il_agentConfig i)\<lparr>ac_UUID := in_UUID agent, ac_Links := pi_Links agent\<rparr>"
  using assms by (auto simp: CreateAgent_def Let_def split: option.splits sum.splits prod.splits)

lemma installer_Run_writes:
  assumes "installer_Run e b i fs = Some (i', fs', None)"
  shows "\<exists>data agent. ie_marshal e (il_agentConfig i') = Some data
    \<and> fs' = fs\<lparr>fs_data := (fs_data fs)(ConfigFile b ''agent'' \<mapsto> data)\<rparr>
    \<and> il_agent i' = Some agent
    \<and> il_agentConfig i' = (il_agentConfig i)\<lparr>ac_UUID := in_UUID agent, ac_Links := pi_Links agent\<rparr>"
proof -
  obtain i1 where i1: "CreateOSInstance e i = Some (i1, None)"
    using assms by (auto simp: installer_Run_def split: option.splits)
  obtain i2 where i2: "CreateAgent e i1 = Some (i2, None)"
    using assms i1 by (auto simp: installer_Run_def split: option.splits)
  obtain data where data: "ie_marshal e (il_agentConfig i2) = Some data"
    using assms i1 i2 by (auto simp: installer_Run_def GetDefaultConfigs_def getAgentConfig_def split: option.splits)
  then have "i' = i2" and "fs' = fs\<lparr>fs_data := (fs_data fs)(ConfigFile b ''agent'' \<mapsto> data)\<rparr>"
    using assms i1 i2
    by (auto simp: installer_Run_def GetDefaultConfigs_def getAgentConfig_def WriteConfigString_def Let_def split: if_splits)
  then show ?thesis using CreateAgent_config [OF i2] CreateOSInstance_kept [OF i1] data by simp
qed


text \<open>An example: an API that has an agent with the UUID \<open>7\<close>.\<close>

definition install_http :: http where
  "install_http rq =
     Response \<lparr>rs_StatusCode = (if rq_Method rq = ''POST'' then 201 else 200), rs_ContentType = '''', rs_Location = ''instances/7'',
               rs_raw = Inr ''i'', rs_gunzip = Inl '''', rs_gzip_header = None\<rparr>"

text \<open>An encoding of the fields that the installer sets, for the example: enough to read them back.\<close>

definition demo_env :: "agent_config \<Rightarrow> install_env" where
  "demo_env c0 =
     \<lparr>ie_http = install_http, ie_encode = (\<lambda>_. Some ''i''), ie_decode = (\<lambda>_. Some (new_instance ''agent'' ''7'' ''n'' '''' '''')),
      ie_mkURL = (\<lambda>h ps. h @ concat ps), ie_marshal = (\<lambda>c. if c = c0 then Some ''c'' else None), ie_repoErr = (\<lambda>_. ''''),
      ie_writeErr = False, ie_osUUID = None, ie_agentUUID = None\<rparr>"

definition demo_flags :: install_flags where
  "demo_flags = \<lparr>if_ServerUser = ''pmm'', if_ServerPass = '''', if_UseSSL = False, if_UseInsecureSSL = False, if_Hostname = ''h''\<rparr>"


section \<open>The ping option\<close>

lemma takeWhile_before: "x \<in> set xs \<Longrightarrow> \<exists>ys. xs = takeWhile (\<lambda>c. c \<noteq> x) xs @ x # ys"
  by (induction xs) auto

lemma no_scheme:
  assumes "CHR ''/'' \<notin> set host" and "host \<noteq> ''''" and "last host \<noteq> CHR '':''" and "hd tail = CHR ''/''" and "tail \<noteq> ''''"
  shows "url_Parse (host @ tail) = None"
proof (cases "CHR '':'' \<in> set host")
  case False
  have "scheme_ok (takeWhile (\<lambda>c. c \<noteq> CHR '':'') (host @ tail)) = False"
  proof -
    have "takeWhile (\<lambda>c. c \<noteq> CHR '':'') (host @ tail) = host @ takeWhile (\<lambda>c. c \<noteq> CHR '':'') tail"
      using False by (subst takeWhile_append2) auto
    moreover obtain t where "tail = CHR ''/'' # t" using assms(4, 5) by (cases tail) auto
    ultimately have "CHR ''/'' \<in> set (takeWhile (\<lambda>c. c \<noteq> CHR '':'') (host @ tail))" by simp
    moreover have "\<not> is_letter (CHR ''/'')" "\<not> is_digit (CHR ''/'')" by code_simp+
    ultimately show ?thesis by (auto simp: scheme_ok_def)
  qed
  then show ?thesis by (simp add: url_Parse_def Let_def)
next
  case True
  let ?h = "takeWhile (\<lambda>c. c \<noteq> CHR '':'') host"
  obtain p where p: "host = ?h @ CHR '':'' # p" using takeWhile_before [OF True] by blast
  have tw: "takeWhile (\<lambda>c. c \<noteq> CHR '':'') (host @ tail) = ?h" using True by (simp add: takeWhile_append1)
  have "p \<noteq> []" using p assms(3) by (metis last_snoc)
  then have "hd p \<noteq> CHR ''/''" using p assms(1) by (metis Un_iff hd_in_set list.set_intros(2) set_append)
  moreover have "drop (length ?h) (host @ tail) = CHR '':'' # p @ tail"
    by (subst (2) p) simp
  ultimately have "\<not> HasPrefix (drop (length ?h) (host @ tail)) ''://''"
    using \<open>p \<noteq> []\<close> by (cases p) simp_all
  then show ?thesis by (simp add: url_Parse_def tw Let_def)
qed

text \<open>
  The option \<open>-ping\<close> never succeeds. The installer keeps the host without its scheme, and the agent
  pings the text of host and path. A client that sends no request without a scheme, as that of Go, then
  answers with an error whatever the API does, and the program exits with the code 1, although the same
  configuration is good for running the agent.
\<close>

theorem ping_never_succeeds:
  assumes "read_agent_config decode b fs = Inr c" and "fs_data fs (ConfigFile b ''agent'') \<noteq> None"
    and "CHR ''/'' \<notin> set (ac_ApiHostname c)" and "ac_ApiHostname c \<noteq> ''''" and "last (ac_ApiHostname c) \<noteq> CHR '':''"
    and "ac_ApiPath c = '''' \<or> hd (ac_ApiPath c) = CHR ''/''"
    and "\<forall>rq resp. url_Parse (rq_URL rq) = None \<longrightarrow> http rq \<noteq> Response resp"
  shows "agent_main http decode b False False True fs = Exit 1 \<and> agent_main http decode b False False False fs = RunAgent c"
proof -
  let ?uri = "(ac_ApiHostname c @ ac_ApiPath c) @ ''/ping''"
  have "url_Parse ?uri = None"
    using no_scheme [OF assms(3, 4, 5), of "ac_ApiPath c @ ''/ping''"] assms(6) by (cases "ac_ApiPath c") auto
  then have "\<forall>resp. http \<lparr>rq_Method = ''GET'', rq_URL = ?uri, rq_Header = version_headers VERSION proto_VERSION, rq_Body = []\<rparr> \<noteq> Response resp"
    using assms(7) by simp
  then have "snd (Ping http (ac_ApiHostname c @ ac_ApiPath c)) \<noteq> None"
    by (auto simp: Ping_def Let_def split: http_out.splits)
  then show ?thesis using assms(1, 2) by (cases "Ping http (ac_ApiHostname c @ ac_ApiPath c)") (auto simp: agent_main_def Let_def)
qed

theorem ping_never_succeeds_witness:
  "let c = zero_agent_config\<lparr>ac_UUID := ''7'', ac_ApiHostname := ''api:80'', ac_ApiPath := ''/qan'', ac_Keepalive := 76\<rparr>;
       fs = \<lparr>fs_data = [ConfigFile zero_basedir ''agent'' \<mapsto> ''c''], fs_readErr = (\<lambda>_. False), fs_writeErr = (\<lambda>_. False)\<rparr>
   in agent_main (\<lambda>rq. if url_Parse (rq_URL rq) = None then DoFailed ''unsupported protocol scheme'' else install_http rq)
        (\<lambda>_. Some c) zero_basedir False False True fs = Exit 1"
  unfolding Let_def
  by (rule conjunct1 [OF ping_never_succeeds
        [where c = "zero_agent_config\<lparr>ac_UUID := ''7'', ac_ApiHostname := ''api:80'', ac_ApiPath := ''/qan'', ac_Keepalive := 76\<rparr>"]])
    (simp_all add: read_agent_config_def ReadConfig_def readFile_def LoadConfig_def zero_agent_config_def)

section \<open>Starting and waiting\<close>

lemma start_services_Some:
  "start_services xs started = (st, Some e) \<Longrightarrow>
   \<exists>k < length xs. st = started @ map fst (take k xs) \<and> snd (xs ! k) \<noteq> None \<and> (\<forall>j < k. snd (xs ! j) = None)"
proof (induction xs arbitrary: started)
  case (Cons x xs)
  obtain s err where x: "x = (s, err)" by fastforce
  show ?case
  proof (cases err)
    case None
    then obtain k where "k < length xs" "st = (started @ [s]) @ map fst (take k xs)" "snd (xs ! k) \<noteq> None" "\<forall>j < k. snd (xs ! j) = None"
      using Cons x by fastforce
    then show ?thesis using x None by (intro exI [of _ "Suc k"]) (auto simp: less_Suc_eq_0_disj)
  next
    case (Some e')
    then show ?thesis using Cons.prems x by (intro exI [of _ 0]) auto
  qed
qed simp

lemma signal_loop_ends:
  "signal_loop evs n =
    (case dropWhile (\<lambda>ev. ev = HupSignal) evs of
       [] \<Rightarrow> None
     | ev # _ \<Rightarrow> Some (case ev of AgentStopped err \<Rightarrow> err | _ \<Rightarrow> None, n + length (takeWhile (\<lambda>ev. ev = HupSignal) evs)))"
proof (induction evs arbitrary: n)
  case (Cons ev evs)
  then show ?case by (cases ev) (simp_all del: dropWhile_eq_Nil_conv split: list.split)
qed simp

lemma start_services_None: "start_services xs started = (st, None) \<Longrightarrow> st = started @ map fst xs"
  by (induction xs arbitrary: started) (force split: option.splits)+

text \<open>
  The run of the agent: when a service does not start, exactly the services before it were started, and
  none of them is stopped; otherwise the first event that is no hangup ends the run, and of all services
  the query analytics alone is stopped.
\<close>

lemma agent_run_ends:
  "agent_run startErr evs = Some (started, stopped, err) \<Longrightarrow>
   (\<exists>k < length service_order. started = take k service_order \<and> startErr (service_order ! k) \<noteq> None \<and> stopped = [])
   \<or> started = service_order \<and> stopped = [''qan''] \<and> (\<exists>ev \<in> set evs. ev \<noteq> HupSignal)"
proof -
  assume run: "agent_run startErr evs = Some (started, stopped, err)"
  let ?xs = "map (\<lambda>s. (s, startErr s)) service_order"
  obtain st e where st: "start_services ?xs [] = (st, e)" by fastforce
  show ?thesis
  proof (cases e)
    case None
    then have "st = service_order" using start_services_None [of ?xs "[]"] st by (simp add: comp_def)
    moreover have ne: "dropWhile (\<lambda>ev. ev = HupSignal) evs \<noteq> []" and "started = st" and "stopped = [''qan'']"
      using run st None by (simp_all add: agent_run_def signal_loop_ends del: dropWhile_eq_Nil_conv split: list.splits)
    moreover have "\<exists>ev \<in> set evs. ev \<noteq> HupSignal" using ne unfolding dropWhile_eq_Nil_conv by blast
    ultimately show ?thesis by blast
  next
    case (Some e')
    then show ?thesis using run st start_services_Some [of ?xs "[]" st e']
      by (auto simp: agent_run_def take_map comp_def)
  qed
qed

text \<open>The goroutine that connects ends with the first attempt that succeeds, whatever failed before.\<close>

lemma connect_loop_step:
  "connect_loop http decode c a n =
     (case connect_at http decode c a n of (a', Some e) \<Rightarrow> connect_loop http decode c a' (n + 1) | (a', None) \<Rightarrow> Some (a', n))"
  by (rule connect_loop.simps)

lemma connect_loop_returns:
  assumes "\<forall>j < k. \<exists>e. connect_at http decode c a (n + j) = (a, Some e)" and "connect_at http decode c a (n + k) = (a', None)"
  shows "connect_loop http decode c a n = Some (a', n + k)"
  using assms
proof (induction k arbitrary: n)
  case 0
  then show ?case by (subst connect_loop_step) simp
next
  case (Suc k)
  have "\<exists>e. connect_at http decode c a n = (a, Some e)" using Suc.prems(1) by force
  moreover have "connect_loop http decode c a (n + 1) = Some (a', n + 1 + k)"
    using Suc.prems by (intro Suc.IH) auto
  ultimately show ?case by (subst connect_loop_step) auto
qed

end
