(* ===== verification/Lifecycle.thy ===== *)
theory Lifecycle
  imports MongoProfiler Analyzer
begin

text \<open>
  The start and stop of the services that own one goroutine: the collector, the parser and the sender
  of the MongoDB profiler, \<open>qan/analyzer/mongo/profiler\<close>, and the MySQL analyzer,
  \<open>qan/analyzer/mysql/analyzer.go\<close>. A start makes a channel and a goroutine; a stop closes the channel
  and waits for the goroutine, which ends when it sees the channel closed. What the goroutines do
  meanwhile is modelled with the components.
\<close>

section \<open>The contract\<close>

text \<open>A sequence of calls: \<open>True\<close> is a start, \<open>False\<close> a stop.\<close>

definition life_calls :: "('s \<Rightarrow> 's) \<Rightarrow> ('s \<Rightarrow> 's) \<Rightarrow> 's \<Rightarrow> bool list \<Rightarrow> 's" where
  "life_calls start stop new bs = fold (\<lambda>b s. if b then start s else stop s) bs new"

text \<open>
  A service that is started at most once and can be stopped and started again: \<open>alive\<close> counts its
  goroutines.
\<close>

locale lifecycle =
  fixes new :: 's and start :: "'s \<Rightarrow> 's" and stop :: "'s \<Rightarrow> 's" and running :: "'s \<Rightarrow> bool" and alive :: "'s \<Rightarrow> nat"
  assumes new: "\<not> running new" "alive new = 0"
    and start: "\<not> running s \<Longrightarrow> running (start s) \<and> alive (start s) = alive s + 1"
    and start_again: "running s \<Longrightarrow> start s = s"
    and stop: "running s \<Longrightarrow> \<not> running (stop s) \<and> alive (stop s) = alive s - 1"
    and stop_again: "\<not> running s \<Longrightarrow> stop s = s"
begin

lemma calls_snoc:
  "life_calls start stop new (bs @ [b]) =
     (if b then start (life_calls start stop new bs) else stop (life_calls start stop new bs))"
  by (simp add: life_calls_def)

text \<open>The last call decides whether the service runs, and then it has exactly one goroutine.\<close>

lemma calls_state:
  "running (life_calls start stop new bs) = (bs \<noteq> [] \<and> last bs)
   \<and> alive (life_calls start stop new bs) = (if bs \<noteq> [] \<and> last bs then 1 else 0)"
proof (induction bs rule: rev_induct)
  case Nil
  then show ?case using new by (simp add: life_calls_def)
next
  case (snoc b bs)
  let ?s = "life_calls start stop new bs"
  show ?case
  proof (cases "running ?s")
    case True
    then show ?thesis using snoc start_again [OF True] stop [OF True] by (auto simp: calls_snoc)
  next
    case False
    then show ?thesis using snoc start [OF False] stop_again [OF False] by (auto simp: calls_snoc)
  qed
qed

end

section \<open>Parser and sender\<close>

text \<open>\<open>doneChan\<close> is nil, open or closed; the statistics are made anew by every start.\<close>

record 'st worker_life =
  wl_running :: bool
  wl_doneClosed :: "bool option"
  wl_alive :: nat
  wl_stats :: "'st option"

definition parser_New :: "parser_stats worker_life" where
  "parser_New = \<lparr>wl_running = False, wl_doneClosed = None, wl_alive = 0, wl_stats = None\<rparr>"

definition parser_Start :: "parser_stats worker_life \<Rightarrow> parser_stats worker_life" where
  "parser_Start p =
     (if wl_running p then p
      else p\<lparr>wl_doneClosed := Some False, wl_stats := Some \<lparr>ps_InDocs = 0, ps_OkDocs = 0, ps_ErrFingerprint = 0, ps_ErrParse = 0\<rparr>,
             wl_alive := wl_alive p + 1, wl_running := True\<rparr>)"

text \<open>The goroutine has ended when the wait is over.\<close>

definition parser_Stop :: "parser_stats worker_life \<Rightarrow> parser_stats worker_life" where
  "parser_Stop p =
     (if \<not> wl_running p then p
      else p\<lparr>wl_running := False, wl_doneClosed := Some True, wl_alive := wl_alive p - 1\<rparr>)"

definition parser_Status :: "parser_stats worker_life \<Rightarrow> parser_stats option" where
  "parser_Status p = (if \<not> wl_running p then None else wl_stats p)"

definition msender_New :: "sender_stats worker_life" where
  "msender_New = \<lparr>wl_running = False, wl_doneClosed = None, wl_alive = 0, wl_stats = None\<rparr>"

definition msender_Start :: "sender_stats worker_life \<Rightarrow> sender_stats worker_life" where
  "msender_Start p =
     (if wl_running p then p
      else p\<lparr>wl_doneClosed := Some False, wl_stats := Some \<lparr>ss_In = 0, ss_Out = 0, ss_ErrIter = 0\<rparr>,
             wl_alive := wl_alive p + 1, wl_running := True\<rparr>)"

definition msender_Stop :: "sender_stats worker_life \<Rightarrow> sender_stats worker_life" where
  "msender_Stop p =
     (if \<not> wl_running p then p
      else p\<lparr>wl_running := False, wl_doneClosed := Some True, wl_alive := wl_alive p - 1\<rparr>)"

definition msender_Status :: "sender_stats worker_life \<Rightarrow> sender_stats option" where
  "msender_Status p = (if \<not> wl_running p then None else wl_stats p)"

section \<open>Collector\<close>

text \<open>
  The collector provides the channel of documents: a capacity of 100, what is in it, and whether it is
  closed. A second start returns a nil channel and no error.
\<close>

record collector_life = "collector_stats worker_life" +
  cl_docsChan :: "(SystemProfile list \<times> bool) option"

definition collector_New :: collector_life where
  "collector_New = \<lparr>wl_running = False, wl_doneClosed = None, wl_alive = 0, wl_stats = None, cl_docsChan = None\<rparr>"

definition collector_Start :: "collector_life \<Rightarrow> collector_life \<times> (SystemProfile list \<times> bool) option" where
  "collector_Start c =
     (if wl_running c then (c, None)
      else
        (let c = c\<lparr>cl_docsChan := Some ([], False), wl_doneClosed := Some False,
                   wl_stats := Some \<lparr>cs_In = 0, cs_Out = 0, cs_IteratorCounter = 0, cs_IteratorRestart = 0, cs_IteratorErr = 0,
                                     cs_IteratorTimeout = 0\<rparr>,
                   wl_alive := wl_alive c + 1, wl_running := True\<rparr>
         in (c, cl_docsChan c)))"

definition collector_Stop :: "collector_life \<Rightarrow> collector_life" where
  "collector_Stop c =
     (if \<not> wl_running c then c
      else c\<lparr>wl_running := False, wl_doneClosed := Some True, wl_alive := wl_alive c - 1,
             cl_docsChan := map_option (\<lambda>(docs, _). (docs, True)) (cl_docsChan c)\<rparr>)"

text \<open>The status adds the profiling level of the database, which is an argument.\<close>

definition collector_Status :: "string \<Rightarrow> collector_life \<Rightarrow> (collector_stats \<times> string) option" where
  "collector_Status profile c = (if \<not> wl_running c then None else map_option (\<lambda>st. (st, profile)) (wl_stats c))"

section \<open>The MySQL analyzer\<close>

record real_analyzer =
  ra_name :: string
  ra_config :: QAN
  ra_running :: bool
  ra_closed :: "bool option"
  ra_alive :: nat
  ra_status :: status

definition NewRealAnalyzer :: "string \<Rightarrow> QAN \<Rightarrow> real_analyzer" where
  "NewRealAnalyzer name config =
     \<lparr>ra_name = name, ra_config = config, ra_running = False, ra_closed = None, ra_alive = 0,
      ra_status = NewStatus [name, name @ ''-last-interval'', name @ ''-next-interval'']\<rparr>"

definition ra_Start :: "real_analyzer \<Rightarrow> real_analyzer" where
  "ra_Start a =
     (if ra_running a then a else a\<lparr>ra_closed := Some False, ra_alive := ra_alive a + 1, ra_running := True\<rparr>)"

definition ra_Stop :: "real_analyzer \<Rightarrow> real_analyzer" where
  "ra_Stop a =
     (if \<not> ra_running a then a else a\<lparr>ra_closed := Some True, ra_alive := ra_alive a - 1, ra_running := False\<rparr>)"

text \<open>\<open>eta\<close> is the formatted time until the next tick; the status is merged with that of the worker.\<close>

definition ra_Status :: "string \<Rightarrow> status \<Rightarrow> real_analyzer \<Rightarrow> real_analyzer \<times> status" where
  "ra_Status eta worker a =
     (let a = a\<lparr>ra_status := status_Update (ra_name a @ ''-next-interval'') (if ra_running a then eta else '''') (ra_status a)\<rparr>
      in (a, status_Merge (ra_status a) [worker]))"

definition ra_Config :: "real_analyzer \<Rightarrow> QAN" where "ra_Config a = ra_config a"

definition ra_SetConfig :: "QAN \<Rightarrow> real_analyzer \<Rightarrow> real_analyzer" where
  "ra_SetConfig c a = a\<lparr>ra_config := c\<rparr>"

text \<open>The run loop ends with a panic, which it recovers from: the goroutine is gone and nobody is told.\<close>

definition ra_crash :: "real_analyzer \<Rightarrow> real_analyzer" where
  "ra_crash a =
     (if ra_alive a = 0 then a else a\<lparr>ra_alive := ra_alive a - 1, ra_status := status_Update (ra_name a) ''Crashed'' (ra_status a)\<rparr>)"

section \<open>Every service keeps the contract\<close>

interpretation pl: lifecycle parser_New parser_Start parser_Stop wl_running wl_alive
  by unfold_locales (auto simp: parser_New_def parser_Start_def parser_Stop_def)

interpretation sl: lifecycle msender_New msender_Start msender_Stop wl_running wl_alive
  by unfold_locales (auto simp: msender_New_def msender_Start_def msender_Stop_def)

interpretation cl: lifecycle collector_New "\<lambda>c. fst (collector_Start c)" collector_Stop wl_running wl_alive
  by unfold_locales (auto simp: collector_New_def collector_Start_def collector_Stop_def Let_def)

interpretation rl: lifecycle "NewRealAnalyzer name config" ra_Start ra_Stop ra_running ra_alive
  by unfold_locales (auto simp: NewRealAnalyzer_def ra_Start_def ra_Stop_def)

text \<open>
  The services with a goroutine of their own never have two. After any sequence of starts and stops,
  of which some may be superfluous, the collector, the parser, the sender and the MySQL analyzer run
  exactly when the last call was a start, with one goroutine, and otherwise have none.
\<close>

theorem services_one_goroutine:
  "let on = (bs \<noteq> [] \<and> last bs);
       c = life_calls (\<lambda>c. fst (collector_Start c)) collector_Stop collector_New bs;
       p = life_calls parser_Start parser_Stop parser_New bs;
       s = life_calls msender_Start msender_Stop msender_New bs;
       a = life_calls ra_Start ra_Stop (NewRealAnalyzer name config) bs
   in (wl_running c, wl_alive c) = (on, if on then 1 else 0) \<and> (wl_running p, wl_alive p) = (on, if on then 1 else 0)
    \<and> (wl_running s, wl_alive s) = (on, if on then 1 else 0) \<and> (ra_running a, ra_alive a) = (on, if on then 1 else 0)"
  unfolding Let_def using cl.calls_state pl.calls_state sl.calls_state rl.calls_state by simp

text \<open>
  A second start of the collector gives a channel that is nil; the one that was made stays open until
  the stop, which closes it.
\<close>

lemma collector_Start_again:
  "wl_running c \<Longrightarrow> snd (collector_Start c) = None"
  "\<not> wl_running c \<Longrightarrow> snd (collector_Start c) = Some ([], False)
     \<and> cl_docsChan (collector_Stop (fst (collector_Start c))) = Some ([], True)"
  by (simp_all add: collector_Start_def collector_Stop_def Let_def)

text \<open>An analyzer whose loop crashed is not started again by a start, but by a stop and a start.\<close>

lemma ra_crash_restart:
  assumes "ra_running a" and "ra_alive a = 1"
  shows "ra_alive (ra_Start (ra_crash a)) = 0" and "ra_alive (ra_Start (ra_Stop (ra_crash a))) = 1"
  using assms by (simp_all add: ra_crash_def ra_Start_def ra_Stop_def)

end
