(* ===== verification/Delivery.thy ===== *)
theory Delivery
  imports Analyzer Sender
begin

text \<open>
  The way of a report from the analyzer to the API: \<open>runWorker\<close> of \<open>qan/analyzer/mysql/analyzer.go\<close>
  makes it and writes it to the spooler, the run loop of \<open>data/spooler.go\<close> takes it from the data
  channel to the disk, and \<open>send\<close> of \<open>data/sender.go\<close> posts what is on the disk. The calls of the
  analyzer and the turns of the spooler interleave in any order.
\<close>

section \<open>What a run of the sender posts\<close>

text \<open>
  A connection that works: \<open>got\<close> are the messages that have arrived at the API, which takes every
  one of them and answers with the code 200.
\<close>

definition api_accepts :: "'w ws_ops \<Rightarrow> ('w \<Rightarrow> bytes list) \<Rightarrow> bool" where
  "api_accepts c got \<longleftrightarrow>
     (\<forall>w. got (fst (wc_Now c w)) = got w \<and> got (wc_DisconnectOnce c w) = got w
        \<and> got (fst (wc_ConnectOnce c w)) = got w \<and> snd (wc_ConnectOnce c w)
        \<and> got (fst (wc_Recv c w)) = got w \<and> snd (wc_Recv c w) = Some 200
        \<and> (\<forall>b. got (fst (wc_SendBytes c b w)) = got w @ [b] \<and> snd (wc_SendBytes c b w)))"

definition in_time :: "'w ws_ops \<Rightarrow> sender \<Rightarrow> int \<Rightarrow> bool" where
  "in_time c sd start \<longleftrightarrow> (\<forall>w. \<not> send_timed_out sd start (snd (wc_Now c w)))"

lemma in_time_cong: "sd_timeout sd' = sd_timeout sd \<Longrightarrow> in_time c sd' = in_time c sd"
  by (simp add: in_time_def send_timed_out_def fun_eq_iff)

context spool_reliable
begin

lemma send_file_posts:
  assumes "ok (ts_spool t)" and "view (ts_spool t) nm = Some d" and "api_accepts c got"
    and "in_time c (ts_sender t) start" and "\<not> sd_blackhole (ts_sender t)"
  shows "got (ts_world (fst (send_file c so start nm t))) = got (ts_world t) @ (if d = [] then [] else [d])"
    and "sd_blackhole (ts_sender (fst (send_file c so start nm t))) = sd_blackhole (ts_sender t)"
  using assms read_all [OF assms(1,2)]
  by (simp_all add: send_defs Let_def split_beta api_accepts_def in_time_def)

lemma send_files_posts:
  assumes "ok (ts_spool t)" and "distinct files" and "set files \<subseteq> dom (view (ts_spool t))"
    and "in_time c (ts_sender t) start" and "\<not> sd_blackhole (ts_sender t)" and c: "api_accepts c got"
  shows "got (ts_world (fst (send_files c so start files t)))
    = got (ts_world t) @ filter (\<lambda>d. d \<noteq> []) (map (\<lambda>f. the (view (ts_spool t) f)) files)"
  using assms(1-5)
proof (induction files arbitrary: t)
  case Nil
  then show ?case by simp
next
  case (Cons nm files)
  let ?t1 = "fst (send_file c so start nm t)"
  obtain d where d: "view (ts_spool t) nm = Some d" using Cons.prems(3) by auto
  have works: "\<And>w. \<not> send_timed_out (ts_sender t) start (snd (wc_Now c w))"
      "\<And>b w. snd (wc_SendBytes c b w)" "\<And>w. snd (wc_Recv c w) = Some 200"
    using Cons.prems(4) c by (simp_all add: in_time_def api_accepts_def)
  note f = send_file_done [OF Cons.prems(1) d works]
  note p = send_file_posts [OF Cons.prems(1) d c Cons.prems(4,5)]
  have same: "map (\<lambda>f. the (view (ts_spool ?t1) f)) files = map (\<lambda>f. the (view (ts_spool t) f)) files"
    using Cons.prems(2) by (auto simp: f(2))
  have "set files \<subseteq> dom (view (ts_spool ?t1))"
    using Cons.prems(2,3) by (auto simp: f(2))
  with Cons.prems f(1,4) p(2) in_time_cong [OF f(4), of c]
  have "got (ts_world (fst (send_files c so start files ?t1)))
    = got (ts_world ?t1) @ filter (\<lambda>d. d \<noteq> []) (map (\<lambda>f. the (view (ts_spool t) f)) files)"
    unfolding same [symmetric] by (intro Cons.IH) simp_all
  with p(1) d f(3) show ?case by (simp add: Let_def split_beta)
qed

lemma sender_send_posts:
  assumes "ok sp" and "in_time c sd (snd (wc_Now c w))" and "\<not> sd_blackhole sd" and c: "api_accepts c got"
  shows "got (ts_world (fst (sender_send fm c so sd sp w)))
    = got w @ filter (\<lambda>d. d \<noteq> []) (map (\<lambda>f. the (view sp f)) (snd (so_Files so sp)))"
proof -
  have go: "send_go_on (new_sent\<lparr>si_Begin := b\<rparr>)" for b
    by (simp add: send_go_on_def new_sent_def MAX_SEND_ERRORS_def)
  have deferred: "got (ts_world (send_deferred fm c t)) = got (ts_world t)" for t
    using c by (simp add: send_deferred_def send_now_def send_status_def Let_def split_beta api_accepts_def)
  let ?start = "snd (wc_Now c w)"
  have one: "got (ts_world (fst (sendAllFiles c so ?start t)))
      = got (ts_world t) @ filter (\<lambda>d. d \<noteq> []) (map (\<lambda>f. the (view sp f)) (snd (so_Files so sp)))
    \<and> \<not> fst (snd (sendAllFiles c so ?start t))"
    if "ts_spool t = sp" "in_time c (ts_sender t) ?start" "\<not> sd_blackhole (ts_sender t)"
    for t
    using that assms(1) c sendAllFiles_done [of t ?start c]
      send_files_posts [of "t\<lparr>ts_spool := fst (so_Files so sp)\<rparr>" "snd (so_Files so sp)" c ?start got]
    by (simp add: sendAllFiles_def Let_def split_beta files_ok files_distinct files_dom files_view
        in_time_def api_accepts_def)
  show ?thesis
    using assms go
    by (subst sender_send_eq, subst send_loop.simps)
      (simp add: Let_def split_beta send_now_def deferred frame one in_time_def send_status_def
        send_timed_out_def api_accepts_def)
qed

end

section \<open>From the analyzer to the disk\<close>

text \<open>
  What happens before: an analyzer runs its worker on an interval and writes the report, with the
  time of the call of \<open>Write\<close>, or the run loop of the spooler takes a report from the channel. A
  \<open>Write\<close> to a full channel fails and its report is dropped; \<open>accepted\<close> lists the others.
\<close>

datatype feed = Analyzed worker_env interval int | Spooled

record feed_env =
  fe_sort :: "qclass list \<Rightarrow> qclass list"
  fe_fileSize :: "string \<Rightarrow> int option"
  fe_encode :: "report \<Rightarrow> bytes option"
  fe_marshal :: "proto_data \<Rightarrow> bytes option"

definition feed_step ::
  "feed_env \<Rightarrow> QAN \<Rightarrow> spooler \<times> (int \<times> report) list \<Rightarrow> feed \<Rightarrow> spooler \<times> (int \<times> report) list" where
  "feed_step env cfg st ev =
     (case st of (s, accepted) \<Rightarrow>
       (case ev of
          Analyzed e iv now \<Rightarrow>
            (case fst (runWorker (fe_sort env) (fe_fileSize env) cfg e iv) of
               None \<Rightarrow> (s, accepted)
             | Some r \<Rightarrow>
                 (case spooler_Write (fe_encode env) now ''qan'' r s of
                    (s, err) \<Rightarrow> (s, if err = None then accepted @ [(now, r)] else accepted)))
        | Spooled \<Rightarrow>
            (case spooler_run_step (fe_marshal env) RecvData s of
               None \<Rightarrow> (s, accepted)
             | Some (s, _) \<Rightarrow> (s, accepted))))"

definition feed_run :: "feed_env \<Rightarrow> QAN \<Rightarrow> feed list \<Rightarrow> spooler \<Rightarrow> spooler \<times> (int \<times> report) list" where
  "feed_run env cfg evs s = foldl (feed_step env cfg) (s, []) evs"

text \<open>The envelope of an accepted report, its message, and the files of some of them.\<close>

definition envelope :: "feed_env \<Rightarrow> string \<Rightarrow> serializer \<Rightarrow> int \<times> report \<Rightarrow> proto_data" where
  "envelope env host sz a =
     \<lparr>pd_Created = fst a, pd_Hostname = host, pd_Service = ''qan'', pd_ContentEncoding = sz_Encoding sz,
      pd_Data = the (fe_encode env (snd a))\<rparr>"

definition message :: "feed_env \<Rightarrow> string \<Rightarrow> serializer \<Rightarrow> int \<times> report \<Rightarrow> bytes" where
  "message env host sz a = the (fe_marshal env (envelope env host sz a))"

definition add_files :: "feed_env \<Rightarrow> string \<Rightarrow> serializer \<Rightarrow> (int \<times> report) list \<Rightarrow> (string \<rightharpoonup> bytes) \<Rightarrow> (string \<rightharpoonup> bytes)" where
  "add_files env host sz stored m =
     foldl (\<lambda>m a. m(spool_key ''qan'' (fst a) \<mapsto> message env host sz a)) m stored"

text \<open>
  Between the steps the accepted reports are those on the disk, in order, followed by those in the
  channel.
\<close>

definition feed_inv :: "feed_env \<Rightarrow> spooler \<Rightarrow> serializer \<Rightarrow> spooler \<times> (int \<times> report) list \<Rightarrow> bool" where
  "feed_inv env s0 sz st \<longleftrightarrow>
     (case st of (s, accepted) \<Rightarrow>
        (\<exists>stored pending. accepted = stored @ pending
          \<and> sp_dataChan s = map (envelope env (sp_hostname s0) sz) pending
          \<and> spool_view s = add_files env (sp_hostname s0) sz stored (spool_view s0))
        \<and> spool_healthy s \<and> sp_sz s = Some sz \<and> sp_hostname s = sp_hostname s0
        \<and> (\<forall>a \<in> set accepted. fe_encode env (snd a) \<noteq> None))"

lemma feed_invI:
  assumes "sp_dataChan s = map (envelope env (sp_hostname s0) sz) pending"
    and "spool_view s = add_files env (sp_hostname s0) sz stored (spool_view s0)"
    and "spool_healthy s" "sp_sz s = Some sz" "sp_hostname s = sp_hostname s0"
    and "\<forall>a \<in> set (stored @ pending). fe_encode env (snd a) \<noteq> None"
  shows "feed_inv env s0 sz (s, stored @ pending)"
  using assms unfolding feed_inv_def by blast

lemma feed_invE:
  assumes "feed_inv env s0 sz (s, accepted)"
  obtains stored pending where "accepted = stored @ pending"
    and "sp_dataChan s = map (envelope env (sp_hostname s0) sz) pending"
    and "spool_view s = add_files env (sp_hostname s0) sz stored (spool_view s0)"
    and "spool_healthy s" "sp_sz s = Some sz" "sp_hostname s = sp_hostname s0"
    and "\<forall>a \<in> set accepted. fe_encode env (snd a) \<noteq> None"
  using assms unfolding feed_inv_def by auto

lemma spooler_Write_ok:
  "spooler_Write enc now svc r s = (s', None) \<longleftrightarrow>
     (\<exists>sz d. sp_sz s = Some sz \<and> enc r = Some d \<and> length (sp_dataChan s) < WRITE_BUFFER
        \<and> s' = s\<lparr>sp_dataChan := sp_dataChan s @ [\<lparr>pd_Created = now, pd_Hostname = sp_hostname s, pd_Service = svc,
                 pd_ContentEncoding = sz_Encoding sz, pd_Data = d\<rparr>]\<rparr>)"
  by (auto simp: spooler_Write_def Let_def split: option.splits if_splits)

lemma spooler_Write_error:
  "spooler_Write enc now svc r s = (s', Some e) \<Longrightarrow> s' = s"
  by (auto simp: spooler_Write_def Let_def split: option.splits if_splits)

lemma feed_inv_write:
  assumes "feed_inv env s0 sz (s, accepted)" and "spooler_Write (fe_encode env) now ''qan'' r s = (s', None)"
  shows "feed_inv env s0 sz (s', accepted @ [(now, r)])"
  using assms(1)
proof (rule feed_invE)
  fix stored pending
  assume d: "accepted = stored @ pending" "sp_dataChan s = map (envelope env (sp_hostname s0) sz) pending"
    "spool_view s = add_files env (sp_hostname s0) sz stored (spool_view s0)"
    and s: "spool_healthy s" "sp_sz s = Some sz" "sp_hostname s = sp_hostname s0"
      "\<forall>a \<in> set accepted. fe_encode env (snd a) \<noteq> None"
  from assms(2) s(2) obtain b where b: "fe_encode env r = Some b"
    and s': "s' = s\<lparr>sp_dataChan := sp_dataChan s @ [\<lparr>pd_Created = now, pd_Hostname = sp_hostname s, pd_Service = ''qan'',
                 pd_ContentEncoding = sz_Encoding sz, pd_Data = b\<rparr>]\<rparr>"
    unfolding spooler_Write_ok by auto
  have "spool_view s' = spool_view s" "spool_healthy s' = spool_healthy s"
    by (simp_all add: s' spool_view_def spool_healthy_def)
  with d s b have "feed_inv env s0 sz (s', stored @ (pending @ [(now, r)]))"
    by (intro feed_invI) (auto simp: s' envelope_def)
  with d(1) show ?thesis by simp
qed

lemma spool_one_view:
  assumes "spool_healthy s" and "marshal pd = Some data"
  shows "spool_view (set_spool_status st (spool_one marshal pd s)) = (spool_view s)(spool_key (pd_Service pd) (pd_Created pd) \<mapsto> data)"
    and "spool_healthy (set_spool_status st (spool_one marshal pd s))"
    and "sp_dataChan (set_spool_status st (spool_one marshal pd s)) = sp_dataChan s"
    and "sp_sz (set_spool_status st (spool_one marshal pd s)) = sp_sz s"
    and "sp_hostname (set_spool_status st (spool_one marshal pd s)) = sp_hostname s"
  using assms wf_files_put [of "sp_files s"]
  by (simp_all add: spool_one_def spool_view_def spool_healthy_def dv_contents_def diskv_Write_def no_faults_def Let_def)

lemma feed_inv_spool:
  assumes "feed_inv env s0 sz (s, accepted)" and "\<And>pd. fe_marshal env pd \<noteq> None"
    and "spooler_run_step (fe_marshal env) RecvData s = Some (s', b)"
  shows "feed_inv env s0 sz (s', accepted)"
  using assms(1)
proof (rule feed_invE)
  let ?pd = "envelope env (sp_hostname s0) sz"
  fix stored pending
  assume d: "accepted = stored @ pending" "sp_dataChan s = map ?pd pending"
    "spool_view s = add_files env (sp_hostname s0) sz stored (spool_view s0)"
    and s: "spool_healthy s" "sp_sz s = Some sz" "sp_hostname s = sp_hostname s0"
      "\<forall>a \<in> set accepted. fe_encode env (snd a) \<noteq> None"
  from assms(3) d(2) obtain a rest where p: "pending = a # rest"
    and s': "s' = set_spool_status ''Idle'' (spool_one (fe_marshal env) (?pd a) (s\<lparr>sp_dataChan := map ?pd rest\<rparr>))"
    by (cases pending) (auto simp: spooler_run_step_def)
  have m: "fe_marshal env (?pd a) = Some (message env (sp_hostname s0) sz a)"
    using assms(2) [of "?pd a"] by (simp add: message_def)
  have h: "spool_healthy (s\<lparr>sp_dataChan := map ?pd rest\<rparr>)" "spool_view (s\<lparr>sp_dataChan := map ?pd rest\<rparr>) = spool_view s"
    using s(1) by (simp_all add: spool_healthy_def spool_view_def)
  note v = spool_one_view [where marshal = "fe_marshal env" and st = "''Idle''", OF h(1) m, folded s']
  have "spool_view s' = add_files env (sp_hostname s0) sz (stored @ [a]) (spool_view s0)"
    using v(1) h(2) d(3) by (simp add: add_files_def envelope_def)
  then have "feed_inv env s0 sz (s', (stored @ [a]) @ rest)"
    using v(2-5) s d(1) by (intro feed_invI) (simp_all add: p)
  then show ?thesis by (simp add: d(1) p)
qed

lemma feed_step_inv:
  assumes "feed_inv env s0 sz st" and "\<And>pd. fe_marshal env pd \<noteq> None"
  shows "feed_inv env s0 sz (feed_step env cfg st ev)"
proof (cases st)
  case (Pair s accepted)
  show ?thesis
  proof (cases ev)
    case (Analyzed e iv now)
    show ?thesis
    proof (cases "fst (runWorker (fe_sort env) (fe_fileSize env) cfg e iv)")
      case None
      with assms(1) Analyzed Pair show ?thesis by (simp add: feed_step_def)
    next
      case (Some r)
      obtain s' err where w: "spooler_Write (fe_encode env) now ''qan'' r s = (s', err)" by fastforce
      then show ?thesis
        using assms(1) Analyzed Pair Some feed_inv_write [of env s0 sz s accepted now r s'] spooler_Write_error [of _ now _ r s s']
        by (cases err) (auto simp: feed_step_def)
    qed
  next
    case Spooled
    with assms(1) Pair show ?thesis
      using feed_inv_spool [OF _ assms(2)]
      by (auto simp: feed_step_def split: option.split)
  qed
qed

lemma feed_run_inv:
  assumes "spool_healthy s0" and "sp_dataChan s0 = []" and "sp_sz s0 = Some sz" and "\<And>pd. fe_marshal env pd \<noteq> None"
  shows "feed_inv env s0 sz (feed_run env cfg evs s0)"
proof -
  have "feed_inv env s0 sz (s0, [] @ [])"
    using assms by (intro feed_invI) (simp_all add: add_files_def)
  then have "feed_inv env s0 sz (s0, [])" by simp
  then show ?thesis
    unfolding feed_run_def by (rule foldl_invariant) (rule feed_step_inv [OF _ assms(4)])
qed

text \<open>Where an accepted report comes from.\<close>

lemma feed_step_source:
  assumes "a \<in> set (snd (feed_step env cfg st ev))"
  shows "a \<in> set (snd st) \<or> (\<exists>e iv. ev = Analyzed e iv (fst a)
    \<and> fst (runWorker (fe_sort env) (fe_fileSize env) cfg e iv) = Some (snd a))"
  using assms by (cases st) (auto simp: feed_step_def split: feed.splits option.splits prod.splits if_splits)

lemma feed_run_source:
  assumes "a \<in> set (snd (feed_run env cfg evs s0))"
  shows "\<exists>e iv. Analyzed e iv (fst a) \<in> set evs
    \<and> fst (runWorker (fe_sort env) (fe_fileSize env) cfg e iv) = Some (snd a)"
  using assms
proof (induction evs rule: rev_induct)
  case Nil
  then show ?case by (simp add: feed_run_def)
next
  case (snoc ev evs)
  then show ?case
    using feed_step_source [of a env cfg "feed_run env cfg evs s0" ev] by (auto simp: feed_run_def)
qed

context by_query_time
begin

text \<open>The totals of a report, for every limit.\<close>

lemma MakeReport_totals:
  "sum_list (map qc_TotalQueries (rt_Class (MakeReport srt fs uuid lm t0 t1 iv res)))
     = sum_list (map qc_TotalQueries (rs_Class res))"
proof -
  have "sum_list (map qc_TotalQueries (take n cs)) + sum_list (map qc_TotalQueries (drop n cs))
    = sum_list (map qc_TotalQueries cs)" for n cs
    by (metis append_take_drop_id map_append sum_list_append)
  from this [of "unat lm" "srt (rs_Class res)"] show ?thesis
    by (simp add: MakeReport_def Let_def foldl_AddClass NewClass_def srt_sums(2) split: option.split)
qed

end

section \<open>The files of the accepted reports\<close>

lemma string_of_int_inj [simp]: "string_of_int a = string_of_int b \<longleftrightarrow> a = b"
proof -
  have nat: "string_of_nat m = string_of_nat n \<longleftrightarrow> m = n" for m n
    by (metis parse_unsigned_string_of_nat sum.inject(2))
  have "string_of_nat m \<noteq> CHR ''-'' # string_of_nat n" for m n
    using string_of_nat_Cons_sign by blast
  then show ?thesis
    by (auto simp: string_of_int_def nat dest: sym)
qed

lemma foldl_upd_map_of: "foldl (\<lambda>m a. m(k a \<mapsto> v a)) m xs = m ++ map_of (rev (map (\<lambda>a. (k a, v a)) xs))"
  by (induction xs rule: rev_induct) (simp_all add: fun_eq_iff map_add_def)

text \<open>A store whose view has grown by new files holds the old files and the new ones.\<close>

lemma mset_files_added:
  assumes "wf_alist fs" and "wf_alist fs0" and "map_of fs = add_files env host sz accepted (map_of fs0)"
    and "distinct (map fst accepted)" and "\<forall>a \<in> set accepted. map_of fs0 (spool_key ''qan'' (fst a)) = None"
  shows "mset fs = mset fs0 + mset (map (\<lambda>a. (spool_key ''qan'' (fst a), message env host sz a)) accepted)"
proof -
  let ?new = "map (\<lambda>a. (spool_key ''qan'' (fst a), message env host sz a)) accepted"
  have new: "map fst ?new = map (spool_key ''qan'') (map fst accepted)" by simp
  have "distinct (map fst ?new)"
    unfolding new using assms(4) by (auto simp: distinct_map inj_on_def spool_key_def)
  moreover have "set (map fst ?new) \<inter> set (map fst fs0) = {}"
    using assms(5) by (auto simp: map_of_eq_None_iff)
  ultimately have d: "distinct (map fst (rev ?new @ fs0))"
    using assms(2) by (simp add: wf_alist_def flip: rev_map)
  moreover have "map_of fs = map_of (rev ?new @ fs0)"
    unfolding assms(3) add_files_def foldl_upd_map_of by simp
  ultimately have "set fs = set (rev ?new @ fs0)"
    using assms(1) map_of_inject_set [of fs "rev ?new @ fs0"] by (simp add: wf_alist_def)
  then have "mset fs = mset (rev ?new @ fs0)"
    using d assms(1) by (subst set_eq_iff_mset_eq_distinct [symmetric]) (auto simp: wf_alist_def distinct_map)
  then show ?thesis by (simp add: ac_simps)
qed

section \<open>The whole way\<close>

text \<open>
  The messages a run of the sender posts after the channel has been emptied: what was on the disk
  before, less the empty files, and one message for each accepted report.
\<close>

lemma feed_then_send:
  assumes s0: "spool_healthy s0" "sp_dataChan s0 = []" "sp_sz s0 = Some sz"
    and marshal: "\<And>pd. fe_marshal env pd \<noteq> None" "\<And>pd. fe_marshal env pd \<noteq> Some []"
    and run: "feed_run env cfg evs s0 = (s, accepted)" "sp_dataChan s = []"
    and new: "distinct (map fst accepted)" "\<forall>a \<in> set accepted. spool_view s0 (spool_key ''qan'' (fst a)) = None"
    and c: "api_accepts c got" "in_time c sd (snd (wc_Now c w))" "\<not> sd_blackhole sd"
  shows "\<exists>posted. got (ts_world (fst (sender_send fm c diskv_spool sd s w))) = got w @ posted
    \<and> mset posted = mset (filter (\<lambda>d. d \<noteq> []) (map snd (sp_files s0)))
        + mset (map (message env (sp_hostname s0) sz) accepted)
    \<and> (\<forall>a \<in> set accepted. fe_encode env (snd a) \<noteq> None)"
proof -
  have "feed_inv env s0 sz (s, accepted)" using feed_run_inv [OF s0 marshal(1)] run(1) by metis
  then have h: "spool_healthy s" and enc: "\<forall>a \<in> set accepted. fe_encode env (snd a) \<noteq> None"
    and v: "spool_view s = add_files env (sp_hostname s0) sz accepted (spool_view s0)"
    using run(2) by (auto elim!: feed_invE)
  have contents: "dv_contents (sp_cache s') = map_of (sp_files s')" for s'
    by (simp add: dv_contents_def)
  have wf: "wf_alist (sp_files s)" "wf_alist (sp_files s0)" using h s0(1) by (simp_all add: spool_healthy_def)
  have "map (\<lambda>f. the (spool_view s f)) (snd (so_Files diskv_spool s)) = map snd (sp_files s)"
    using wf(1) by (auto simp: diskv_spool_def spooler_Files_def diskv_Keys_def spool_view_def contents wf_alist_def
        dest: map_of_is_SomeI)
  with ds.sender_send_posts [OF h c(2,3,1)]
  have "got (ts_world (fst (sender_send fm c diskv_spool sd s w)))
      = got w @ filter (\<lambda>d. d \<noteq> []) (map snd (sp_files s))" by simp
  moreover have "mset (map snd (sp_files s)) = mset (map snd (sp_files s0))
      + mset (map (message env (sp_hostname s0) sz) accepted)"
    using arg_cong [OF mset_files_added [OF wf v [unfolded spool_view_def contents] new(1) new(2) [unfolded spool_view_def contents]],
        of "image_mset snd"] by (simp add: multiset.map_comp comp_def)
  moreover have "message env host sz a \<noteq> []" for host a
    using marshal [of "envelope env host sz a"] by (auto simp: message_def)
  ultimately show ?thesis
    using enc by (auto simp: mset_filter filter_mset_eq_conv)
qed

text \<open>What the API makes of a message.\<close>

definition read_message :: "(bytes \<Rightarrow> proto_data option) \<Rightarrow> (bytes \<Rightarrow> report option) \<Rightarrow> bytes \<Rightarrow> report option" where
  "read_message unmarshal decode b = Option.bind (unmarshal b) (\<lambda>pd. decode (pd_Data pd))"

lemma read_message_roundtrip:
  assumes "\<And>pd b. fe_marshal env pd = Some b \<Longrightarrow> unmarshal b = Some pd" and "\<And>pd. fe_marshal env pd \<noteq> None"
    and "\<And>r d. fe_encode env r = Some d \<Longrightarrow> decode d = Some r" and "fe_encode env (snd a) \<noteq> None"
  shows "read_message unmarshal decode (message env host sz a) = Some (snd a)"
proof -
  have "unmarshal (message env host sz a) = Some (envelope env host sz a)"
    using assms(1,2) by (simp add: message_def)
  with assms(3,4) show ?thesis by (auto simp: read_message_def envelope_def)
qed

end
