(* ===== verification/SlowWorker.thy ===== *)
theory SlowWorker
  imports SlowLog "HOL-Library.Sublist"
begin

text \<open>
  The goroutines of the slow log worker. The fingerprinter, \<open>qan/analyzer/mysql/worker/slowlog/worker.go\<close>: a goroutine
  that computes the fingerprints for the event loop of \<open>Run\<close>, so that a query on which the
  fingerprinter panics does not end the run. A run starts one and leaves a message on \<open>doneChan\<close> for it;
  a panic ends the goroutine and the loop starts another. The goroutine of one run may still be there
  when the next run of the same worker begins. The lemmas show that the loop nevertheless sees a
  function from queries to fingerprints, which is how \<open>event_loop\<close> of the theory \<open>SlowLog\<close> uses it. And
  the stop of a run: \<open>Stop\<close> hands its message over to the event loop, which looks for it once per event.
\<close>

section \<open>The channels and the goroutines\<close>

text \<open>
  \<open>fr_idle\<close> is the number of goroutines at the select of \<open>fingerprinter\<close>, \<open>fr_busy\<close> the queries that the
  others compute. \<open>fr_wait\<close> is the query for which the event loop is in its select, \<open>fr_todo\<close> the queries
  to come, and \<open>fr_seen\<close> what the loop of the last run has got so far for its \<open>fr_queries\<close>. The four channels have room
  for one message.
\<close>

record fingers =
  fr_running :: bool
  fr_queries :: "string list"
  fr_todo :: "string list"
  fr_wait :: "string option"
  fr_seen :: "(string \<times> string option) list"
  fr_queryChan :: "string list"
  fr_fingerprintChan :: "string list"
  fr_errChan :: nat
  fr_doneChan :: nat
  fr_idle :: nat
  fr_busy :: "string list"

definition fingers_start :: fingers where
  "fingers_start = \<lparr>fr_running = False, fr_queries = [], fr_todo = [], fr_wait = None, fr_seen = [], fr_queryChan = [],
     fr_fingerprintChan = [], fr_errChan = 0, fr_doneChan = 0, fr_idle = 0, fr_busy = []\<rparr>"

datatype flabel = GoRun "string list" | Ask | Take | Quit | Answer | Panic | GotFingerprint | GotError | EndRun

text \<open>
  The steps of the goroutine: it takes a query or the message that ends it, and answers or panics.
\<close>

inductive finger_step :: "(string \<Rightarrow> string option) \<Rightarrow> fingers \<Rightarrow> flabel \<Rightarrow> fingers \<Rightarrow> bool" for fp where
  take_query: "0 < fr_idle s \<Longrightarrow> fr_queryChan s = q # rest \<Longrightarrow>
    finger_step fp s Take (s\<lparr>fr_idle := fr_idle s - 1, fr_queryChan := rest, fr_busy := q # fr_busy s\<rparr>)"
| quit: "0 < fr_idle s \<Longrightarrow> 0 < fr_doneChan s \<Longrightarrow>
    finger_step fp s Quit (s\<lparr>fr_idle := fr_idle s - 1, fr_doneChan := fr_doneChan s - 1\<rparr>)"
| answer: "q \<in> set (fr_busy s) \<Longrightarrow> fp q = Some f \<Longrightarrow> fr_fingerprintChan s = [] \<Longrightarrow>
    finger_step fp s Answer (s\<lparr>fr_idle := fr_idle s + 1, fr_busy := remove1 q (fr_busy s), fr_fingerprintChan := [f]\<rparr>)"
| panic: "q \<in> set (fr_busy s) \<Longrightarrow> fp q = None \<Longrightarrow> fr_errChan s = 0 \<Longrightarrow>
    finger_step fp s Panic (s\<lparr>fr_busy := remove1 q (fr_busy s), fr_errChan := 1\<rparr>)"

text \<open>
  The steps of \<open>Run\<close>: the start of the goroutine, the query of an event, its fingerprint or the error, on
  which another goroutine is started, and the deferred message. The loop ends after the last event or
  breaks out before one.
\<close>

inductive slowrun_step :: "fingers \<Rightarrow> flabel \<Rightarrow> fingers \<Rightarrow> bool" where
  go: "\<not> fr_running s \<Longrightarrow>
    slowrun_step s (GoRun qs) (s\<lparr>fr_running := True, fr_queries := qs, fr_todo := qs, fr_seen := [], fr_idle := fr_idle s + 1\<rparr>)"
| ask: "fr_running s \<Longrightarrow> fr_wait s = None \<Longrightarrow> fr_todo s = q # qs \<Longrightarrow> fr_queryChan s = [] \<Longrightarrow>
    slowrun_step s Ask (s\<lparr>fr_todo := qs, fr_wait := Some q, fr_queryChan := [q]\<rparr>)"
| got_fingerprint: "fr_wait s = Some q \<Longrightarrow> fr_fingerprintChan s = f # rest \<Longrightarrow>
    slowrun_step s GotFingerprint (s\<lparr>fr_wait := None, fr_fingerprintChan := rest, fr_seen := fr_seen s @ [(q, Some f)]\<rparr>)"
| got_error: "fr_wait s = Some q \<Longrightarrow> 0 < fr_errChan s \<Longrightarrow>
    slowrun_step s GotError (s\<lparr>fr_wait := None, fr_errChan := fr_errChan s - 1, fr_idle := fr_idle s + 1,
      fr_seen := fr_seen s @ [(q, None)]\<rparr>)"
| end_run: "fr_running s \<Longrightarrow> fr_wait s = None \<Longrightarrow> fr_doneChan s = 0 \<Longrightarrow>
    slowrun_step s EndRun (s\<lparr>fr_running := False, fr_todo := [], fr_doneChan := 1\<rparr>)"

inductive fingers_step :: "(string \<Rightarrow> string option) \<Rightarrow> fingers \<Rightarrow> flabel \<Rightarrow> fingers \<Rightarrow> bool" for fp where
  goroutine: "finger_step fp s l s' \<Longrightarrow> fingers_step fp s l s'"
| run: "slowrun_step s l s' \<Longrightarrow> fingers_step fp s l s'"

inductive_cases finger_stepE: "finger_step fp s l s'"
inductive_cases slowrun_stepE: "slowrun_step s l s'"
inductive_cases fingers_stepE: "fingers_step fp s l s'"

lemmas fingers_elims = fingers_stepE finger_stepE slowrun_stepE

section \<open>One query at a time\<close>

text \<open>
  While the loop waits for a query it is in exactly one place: in the channel, with a goroutine, or
  answered. There is one goroutine for the run, unless it has just panicked, and one for each message
  on \<open>doneChan\<close>.
\<close>

definition in_flight :: "(string \<Rightarrow> string option) \<Rightarrow> fingers \<Rightarrow> bool" where
  "in_flight fp s \<longleftrightarrow>
     (case fr_wait s of
        None \<Rightarrow> fr_queryChan s = [] \<and> fr_busy s = [] \<and> fr_fingerprintChan s = [] \<and> fr_errChan s = 0
      | Some q \<Rightarrow> fr_running s
          \<and> (fr_queryChan s = [q] \<and> fr_busy s = [] \<and> fr_fingerprintChan s = [] \<and> fr_errChan s = 0
             \<or> fr_queryChan s = [] \<and> fr_busy s = [q] \<and> fr_fingerprintChan s = [] \<and> fr_errChan s = 0
             \<or> fr_queryChan s = [] \<and> fr_busy s = [] \<and> fr_fingerprintChan s = [] \<and> fr_errChan s = 1 \<and> fp q = None
             \<or> fr_queryChan s = [] \<and> fr_busy s = [] \<and> fr_errChan s = 0
                \<and> fp q \<noteq> None \<and> fr_fingerprintChan s = [the (fp q)]))"

definition fingers_inv :: "(string \<Rightarrow> string option) \<Rightarrow> fingers \<Rightarrow> bool" where
  "fingers_inv fp s \<longleftrightarrow>
     in_flight fp s \<and> fr_doneChan s \<le> 1
     \<and> fr_idle s + length (fr_busy s) + fr_errChan s = fr_doneChan s + (if fr_running s then 1 else 0)
     \<and> fr_seen s = map (\<lambda>q. (q, fp q)) (map fst (fr_seen s))
     \<and> (if fr_running s then fr_queries s = map fst (fr_seen s) @ (case fr_wait s of None \<Rightarrow> [] | Some q \<Rightarrow> [q]) @ fr_todo s
        else prefix (map fst (fr_seen s)) (fr_queries s))"

lemma in_flight_cases:
  assumes "in_flight fp s"
  obtains "fr_wait s = None" "fr_queryChan s = []" "fr_busy s = []" "fr_fingerprintChan s = []" "fr_errChan s = 0"
  | q where "fr_wait s = Some q" "fr_running s" "fr_queryChan s = [q]" "fr_busy s = []" "fr_fingerprintChan s = []"
      "fr_errChan s = 0"
  | q where "fr_wait s = Some q" "fr_running s" "fr_queryChan s = []" "fr_busy s = [q]" "fr_fingerprintChan s = []"
      "fr_errChan s = 0"
  | q where "fr_wait s = Some q" "fr_running s" "fr_queryChan s = []" "fr_busy s = []" "fr_fingerprintChan s = []"
      "fr_errChan s = 1" "fp q = None"
  | q f where "fr_wait s = Some q" "fr_running s" "fr_queryChan s = []" "fr_busy s = []" "fr_fingerprintChan s = [f]"
      "fr_errChan s = 0" "fp q = Some f"
  using assms unfolding in_flight_def by (fastforce split: option.splits)

lemma finger_step_inv: "fingers_inv fp s \<Longrightarrow> finger_step fp s l s' \<Longrightarrow> fingers_inv fp s'"
  by (elim finger_stepE) (auto simp: fingers_inv_def in_flight_def split: option.splits)

lemma slowrun_step_inv: "fingers_inv fp s \<Longrightarrow> slowrun_step s l s' \<Longrightarrow> fingers_inv fp s'"
  by (elim slowrun_stepE) (auto simp: fingers_inv_def in_flight_def split: option.splits)

interpretation fi: step_invariant "\<lambda>s. s = fingers_start" "fingers_step fp" "fingers_inv fp" for fp
proof
  show "fingers_inv fp s" if "s = fingers_start" for s
    using that by (simp add: fingers_inv_def in_flight_def fingers_start_def)
  show "fingers_inv fp s'" if "fingers_inv fp s" "fingers_step fp s l s'" for s l s'
    using that(2)
    by (rule fingers_stepE) (rule finger_step_inv [OF that(1)], assumption, rule slowrun_step_inv [OF that(1)], assumption)
qed

section \<open>The loop goes on\<close>

definition fingers_reach :: "(string \<Rightarrow> string option) \<Rightarrow> fingers \<Rightarrow> fingers \<Rightarrow> bool" where
  "fingers_reach fp = (\<lambda>s s'. \<exists>l. fingers_step fp s l s')\<^sup>*\<^sup>*"

lemma fingers_reach_refl [simp]: "fingers_reach fp s s"
  by (simp add: fingers_reach_def)

lemma fingers_reach_step: "fingers_step fp s l s' \<Longrightarrow> fingers_reach fp s' t \<Longrightarrow> fingers_reach fp s t"
  unfolding fingers_reach_def by (blast intro: converse_rtranclp_into_rtranclp)

lemma reach_now: "fingers_step fp s l s' \<Longrightarrow> P s' \<Longrightarrow> \<exists>t. fingers_reach fp s t \<and> P t"
  by (blast intro: fingers_reach_step fingers_reach_refl)

lemma reach_later: "fingers_step fp s l s' \<Longrightarrow> \<exists>t. fingers_reach fp s' t \<and> P t \<Longrightarrow> \<exists>t. fingers_reach fp s t \<and> P t"
  by (blast intro: fingers_reach_step)

text \<open>From each place in which a query can be, its result comes to the loop.\<close>

lemma result_received:
  assumes "fr_wait s = Some q" and "fr_running s"
    and "fr_fingerprintChan s = [f] \<and> fp q = Some f \<or> fr_errChan s = 1 \<and> fp q = None"
  shows "\<exists>t. fingers_reach fp s t \<and> fr_wait t = None \<and> fr_running t \<and> fr_todo t = fr_todo s
    \<and> fr_seen t = fr_seen s @ [(q, fp q)]"
  using assms(3)
proof
  assume f: "fr_fingerprintChan s = [f] \<and> fp q = Some f"
  with assms(1) have "fingers_step fp s GotFingerprint
    (s\<lparr>fr_wait := None, fr_fingerprintChan := [], fr_seen := fr_seen s @ [(q, Some f)]\<rparr>)"
    by (intro fingers_step.run got_fingerprint) simp_all
  then show ?thesis by (rule reach_now) (simp add: f assms(2))
next
  assume f: "fr_errChan s = 1 \<and> fp q = None"
  with assms(1) have "fingers_step fp s GotError (s\<lparr>fr_wait := None, fr_errChan := fr_errChan s - 1,
    fr_idle := fr_idle s + 1, fr_seen := fr_seen s @ [(q, None)]\<rparr>)"
    by (intro fingers_step.run got_error) simp_all
  then show ?thesis by (rule reach_now) (simp add: f assms(2))
qed

lemma busy_answered:
  assumes "fingers_inv fp s" and "fr_wait s = Some q" and "fr_queryChan s = []"
  shows "\<exists>t. fingers_reach fp s t \<and> fr_wait t = None \<and> fr_running t \<and> fr_todo t = fr_todo s
    \<and> fr_seen t = fr_seen s @ [(q, fp q)]"
proof -
  from assms(1) have "in_flight fp s" by (simp add: fingers_inv_def)
  then show ?thesis
  proof (cases rule: in_flight_cases)
    case (3 q')
    then have q: "q' = q" using assms(2) by simp
    show ?thesis
    proof (cases "fp q")
      case None
      let ?s = "s\<lparr>fr_busy := remove1 q (fr_busy s), fr_errChan := 1\<rparr>"
      have "fingers_step fp s Panic ?s" using 3 q None by (intro goroutine panic) auto
      then show ?thesis by (rule reach_later) (use result_received [of ?s q _ fp] 3 q None in simp)
    next
      case (Some f)
      let ?s = "s\<lparr>fr_idle := fr_idle s + 1, fr_busy := remove1 q (fr_busy s), fr_fingerprintChan := [f]\<rparr>"
      have "fingers_step fp s Answer ?s" using 3 q Some by (intro goroutine answer) auto
      then show ?thesis by (rule reach_later) (use result_received [of ?s q f fp] 3 q Some in simp)
    qed
  qed (use assms result_received [of s q _ fp] in auto)
qed

lemma query_answered:
  assumes "fingers_inv fp s" and "fr_wait s = Some q"
  shows "\<exists>t. fingers_reach fp s t \<and> fr_wait t = None \<and> fr_running t \<and> fr_todo t = fr_todo s
    \<and> fr_seen t = fr_seen s @ [(q, fp q)]"
proof (cases "fr_queryChan s")
  case Nil
  with busy_answered [OF assms] show ?thesis .
next
  case (Cons q' rest)
  let ?s = "s\<lparr>fr_idle := fr_idle s - 1, fr_queryChan := rest, fr_busy := q' # fr_busy s\<rparr>"
  have "0 < fr_idle s" and rest: "rest = []"
    using assms Cons by (auto simp: fingers_inv_def in_flight_def)
  then have step: "fingers_step fp s Take ?s" using Cons by (intro goroutine take_query)
  with assms(1) have "fingers_inv fp ?s" by (rule fi.inv_step)
  from busy_answered [OF this, of q] assms(2) rest show ?thesis by (intro reach_later [OF step]) simp
qed

text \<open>The deferred message finds room, since a goroutine that is left over takes the one before it.\<close>

lemma run_ends:
  assumes "fingers_inv fp s" and "fr_running s" and "fr_wait s = None"
  shows "\<exists>t. fingers_reach fp s t \<and> \<not> fr_running t \<and> fr_seen t = fr_seen s"
proof (cases "fr_doneChan s")
  case 0
  with assms have "fingers_step fp s EndRun (s\<lparr>fr_running := False, fr_todo := [], fr_doneChan := 1\<rparr>)"
    by (intro fingers_step.run end_run)
  then show ?thesis by (rule reach_now) simp
next
  case (Suc n)
  let ?s = "s\<lparr>fr_idle := fr_idle s - 1, fr_doneChan := fr_doneChan s - 1\<rparr>"
  have one: "fr_doneChan s = 1" and "0 < fr_idle s"
    using assms Suc by (auto simp: fingers_inv_def in_flight_def)
  then have quit: "fingers_step fp s Quit ?s" by (intro goroutine quit) simp_all
  have "fingers_step fp ?s EndRun (?s\<lparr>fr_running := False, fr_todo := [], fr_doneChan := 1\<rparr>)"
    using assms one by (intro fingers_step.run end_run) simp_all
  then have "\<exists>t. fingers_reach fp ?s t \<and> \<not> fr_running t \<and> fr_seen t = fr_seen s"
    by (rule reach_now) simp
  with quit show ?thesis by (rule reach_later)
qed

text \<open>
  C5: the event loop of the slow log worker sees the fingerprinter as a function. Through all runs of
  a worker, with panics and with goroutines of earlier runs still there, the loop gets for the queries
  of its run in order the fingerprint of that query, or an error exactly if the fingerprinter panics
  on it. A query that it waits for is always answered, the run can always end, and no goroutine is
  left behind that has no message to end it.
\<close>

theorem fingerprinter_exact:
  assumes "reachable (\<lambda>s. s = fingers_start) (fingers_step fp) s"
  shows "prefix (map fst (fr_seen s)) (fr_queries s) \<and> fr_seen s = map (\<lambda>q. (q, fp q)) (map fst (fr_seen s))
    \<and> (\<forall>q. fr_wait s = Some q \<longrightarrow>
         (\<exists>t. fingers_reach fp s t \<and> fr_wait t = None \<and> fr_running t \<and> fr_todo t = fr_todo s
            \<and> fr_seen t = fr_seen s @ [(q, fp q)]))
    \<and> (fr_running s \<and> fr_wait s = None \<longrightarrow>
         (\<exists>t. fingers_reach fp s t \<and> \<not> fr_running t \<and> fr_seen t = fr_seen s))
    \<and> fr_idle s + length (fr_busy s) \<le> 2
    \<and> (\<not> fr_running s \<longrightarrow> fr_busy s = [] \<and> fr_idle s = fr_doneChan s)"
proof -
  have inv: "fingers_inv fp s" using assms by (rule fi.reachable_inv)
  then have "prefix (map fst (fr_seen s)) (fr_queries s)" "fr_seen s = map (\<lambda>q. (q, fp q)) (map fst (fr_seen s))"
    "fr_idle s + length (fr_busy s) \<le> 2" "\<not> fr_running s \<longrightarrow> fr_busy s = [] \<and> fr_idle s = fr_doneChan s"
    by (auto simp: fingers_inv_def in_flight_def split: if_splits option.splits)
  then show ?thesis using query_answered [OF inv] run_ends [OF inv] by blast
qed

text \<open>A run whose query panics, and the next one, which begins while its goroutine is still there.\<close>

definition demo_fp :: "string \<Rightarrow> string option" where
  "demo_fp q = (if q = ''bad'' then None else Some (''fp-'' @ q))"

definition demo_fingers :: fingers where
  "demo_fingers = \<lparr>fr_running = True, fr_queries = [''good''], fr_todo = [], fr_wait = Some ''good'', fr_seen = [],
     fr_queryChan = [''good''], fr_fingerprintChan = [], fr_errChan = 0, fr_doneChan = 1, fr_idle = 2, fr_busy = []\<rparr>"

lemma demo_fingers_reachable: "reachable (\<lambda>s. s = fingers_start) (fingers_step demo_fp) demo_fingers"
proof -
  let ?R = "reachable (\<lambda>s. s = fingers_start) (fingers_step demo_fp)"
  let ?mk = "\<lambda>run qs wait seen qc err d idle busy. \<lparr>fr_running = run, fr_queries = qs, fr_todo = [], fr_wait = wait,
    fr_seen = seen, fr_queryChan = qc, fr_fingerprintChan = [], fr_errChan = err, fr_doneChan = d, fr_idle = idle, fr_busy = busy\<rparr>"
  note go = reachable.move [where step = "fingers_step demo_fp", OF _ fingers_step.run [OF slowrun_step.go]]
    and ask = reachable.move [where step = "fingers_step demo_fp", OF _ fingers_step.run [OF slowrun_step.ask]]
    and tak = reachable.move [where step = "fingers_step demo_fp", OF _ fingers_step.goroutine [OF finger_step.take_query]]
    and pan = reachable.move [where step = "fingers_step demo_fp", OF _ fingers_step.goroutine [OF finger_step.panic]]
    and got = reachable.move [where step = "fingers_step demo_fp", OF _ fingers_step.run [OF slowrun_step.got_error]]
    and fin = reachable.move [where step = "fingers_step demo_fp", OF _ fingers_step.run [OF slowrun_step.end_run]]
  have "?R fingers_start" by (rule reachable.start) simp
  from go [OF this, of "[''bad'']"]
  have "?R (fingers_start\<lparr>fr_running := True, fr_queries := [''bad''], fr_todo := [''bad''], fr_idle := 1\<rparr>)"
    by (simp add: fingers_start_def)
  from ask [OF this, of "''bad''" "[]"]
  have "?R (?mk True [''bad''] (Some ''bad'') [] [''bad''] 0 0 1 [])" by (simp add: fingers_start_def)
  from tak [OF this, of "''bad''" "[]"] have "?R (?mk True [''bad''] (Some ''bad'') [] [] 0 0 0 [''bad''])" by simp
  from pan [OF this, of "''bad''"] have "?R (?mk True [''bad''] (Some ''bad'') [] [] 1 0 0 [])" by (simp add: demo_fp_def)
  from got [OF this, of "''bad''"] have "?R (?mk True [''bad''] None [(''bad'', None)] [] 0 0 1 [])" by simp
  from fin [OF this] have "?R (?mk False [''bad''] None [(''bad'', None)] [] 0 1 1 [])" by simp
  from go [OF this, of "[''good'']"]
  have "?R ((?mk True [''good''] None [] [] 0 1 2 [])\<lparr>fr_todo := [''good'']\<rparr>)" by (simp add: numeral_2_eq_2)
  from ask [OF this, of "''good''" "[]"] show ?thesis by (simp add: demo_fingers_def)
qed

theorem fingerprinter_exact_witness:
  "\<exists>t. fingers_reach demo_fp demo_fingers t \<and> fr_wait t = None \<and> fr_seen t = [(''good'', Some ''fp-good'')]"
proof -
  have "fr_wait demo_fingers = Some ''good''" "fr_seen demo_fingers = []" "demo_fp ''good'' = Some ''fp-good''"
    by (simp_all add: demo_fingers_def demo_fp_def)
  with fingerprinter_exact [OF demo_fingers_reachable] show ?thesis by auto
qed

section \<open>Stopping a run\<close>

text \<open>
  \<open>Run\<close> is before its start, at the head of the event loop, after the loop with the variable \<open>stopped\<close>, or
  has returned; \<open>Stop\<close> has not been called, is in \<open>sync.Stop\<close>, in \<open>sync.Wait\<close>, or has returned. The stop
  channel has no buffer, so that \<open>sync.Stop\<close> waits for a receiver.
\<close>

datatype srun_pc = BeforeRun | AtEvent | AfterLoop bool | RunReturned

datatype sstop_pc = NotCalled | InStop | InWait | StopReturned

record srun =
  sr_run :: srun_pc
  sr_running :: bool
  sr_stop :: sstop_pc
  sr_sync :: SyncChan

definition srun_start :: srun where
  "srun_start = \<lparr>sr_run = BeforeRun, sr_running = False, sr_stop = NotCalled, sr_sync = NewSyncChan\<rparr>"

datatype slabel = RunStarts | NextEvent | SeesStop | Breaks | LogEnds | RunReturns | CallStop | StopWaits

text \<open>
  An event is handled, or the loop breaks out for one of its other reasons, when \<open>Stop\<close> is not at the stop
  channel; otherwise the event loop takes the message. The channel of the parser is closed at the end of
  the log, and the loop ends without a look at the stop channel.
\<close>

inductive srun_step :: "srun \<Rightarrow> slabel \<Rightarrow> srun \<Rightarrow> bool" where
  starts: "sr_run s = BeforeRun \<Longrightarrow> srun_step s RunStarts (s\<lparr>sr_run := AtEvent, sr_running := True\<rparr>)"
| next_event: "sr_run s = AtEvent \<Longrightarrow> sr_stop s \<noteq> InStop \<Longrightarrow> srun_step s NextEvent s"
| sees_stop: "sr_run s = AtEvent \<Longrightarrow> sr_stop s = InStop \<Longrightarrow>
    srun_step s SeesStop (s\<lparr>sr_run := AfterLoop True, sr_stop := InWait\<rparr>)"
| breaks: "sr_run s = AtEvent \<Longrightarrow> sr_stop s \<noteq> InStop \<Longrightarrow> srun_step s Breaks (s\<lparr>sr_run := AfterLoop False\<rparr>)"
| log_ends: "sr_run s = AtEvent \<Longrightarrow> srun_step s LogEnds (s\<lparr>sr_run := AfterLoop False\<rparr>)"
| returns: "sr_run s = AfterLoop stopped \<Longrightarrow> (if stopped then sync_Done (sr_sync s) else Some (sr_sync s)) = Some sy \<Longrightarrow>
    srun_step s RunReturns (s\<lparr>sr_run := RunReturned, sr_running := False, sr_sync := sy\<rparr>)"
| call_stop: "sr_stop s = NotCalled \<Longrightarrow>
    srun_step s CallStop (s\<lparr>sr_stop := (if sr_running s then InStop else StopReturned)\<rparr>)"
| stop_waits: "sr_stop s = InWait \<Longrightarrow> sync_Wait True (sr_sync s) = Some sy \<Longrightarrow>
    srun_step s StopWaits (s\<lparr>sr_stop := StopReturned, sr_sync := sy\<rparr>)"

inductive_cases srun_stepE: "srun_step s l s'"

definition srun_reach :: "srun \<Rightarrow> srun \<Rightarrow> bool" where
  "srun_reach = (\<lambda>s s'. \<exists>l. srun_step s l s')\<^sup>*\<^sup>*"

definition srun_stuck :: "srun \<Rightarrow> bool" where
  "srun_stuck s \<longleftrightarrow> sr_stop s = InStop \<and> (sr_run s = AfterLoop False \<or> sr_run s = RunReturned)"

definition srun_inv :: "srun \<Rightarrow> bool" where
  "srun_inv s \<longleftrightarrow>
     (sr_running s \<longleftrightarrow> sr_run s \<in> {AtEvent, AfterLoop True, AfterLoop False})
     \<and> (sr_run s = BeforeRun \<longrightarrow> sr_stop s \<in> {NotCalled, StopReturned})
     \<and> (sr_run s = AfterLoop True \<longrightarrow> sr_stop s = InWait \<and> sr_sync s = NewSyncChan)
     \<and> (sr_stop s = InWait \<longrightarrow> sr_run s = AfterLoop True \<or> sr_run s = RunReturned \<and> sr_sync s = NewSyncChan\<lparr>CrashChan := 1\<rparr>)
     \<and> (sr_stop s \<noteq> InWait \<longrightarrow> sr_sync s = NewSyncChan)"

lemma srun_step_inv: "srun_inv s \<Longrightarrow> srun_step s l s' \<Longrightarrow> srun_inv s'"
  by (elim srun_stepE)
    (auto simp: srun_inv_def sync_Done_def sync_Wait_def NewSyncChan_def split: if_splits)

interpretation sri: step_invariant "\<lambda>s. s = srun_start" srun_step srun_inv
proof
  show "srun_inv s" if "s = srun_start" for s using that by (simp add: srun_inv_def srun_start_def)
  show "srun_inv s'" if "srun_inv s" "srun_step s l s'" for s l s' using that by (rule srun_step_inv)
qed

lemma srun_stuck_step: "srun_stuck s \<Longrightarrow> srun_step s l s' \<Longrightarrow> srun_stuck s'"
  by (elim srun_stepE) (auto simp: srun_stuck_def)

lemma srun_stuck_for_ever: "srun_reach s t \<Longrightarrow> srun_stuck s \<Longrightarrow> srun_stuck t"
  unfolding srun_reach_def by (induction rule: rtranclp_induct) (auto intro: srun_stuck_step)

lemma stop_returns_at_event:
  assumes "srun_inv s" and "sr_stop s = InStop" and "sr_run s = AtEvent"
  shows "\<exists>t. srun_reach s t \<and> sr_stop t = StopReturned"
proof -
  have sync: "sr_sync s = NewSyncChan" using assms by (simp add: srun_inv_def)
  let ?s1 = "s\<lparr>sr_run := AfterLoop True, sr_stop := InWait\<rparr>"
  let ?s2 = "?s1\<lparr>sr_run := RunReturned, sr_running := False, sr_sync := NewSyncChan\<lparr>CrashChan := 1\<rparr>\<rparr>"
  let ?s3 = "?s2\<lparr>sr_stop := StopReturned, sr_sync := NewSyncChan\<rparr>"
  have "srun_step s SeesStop ?s1" using assms by (intro sees_stop)
  moreover have "srun_step ?s1 RunReturns ?s2"
    by (rule srun_step.returns [where stopped = True]) (simp_all add: sync sync_Done_def NewSyncChan_def)
  moreover have "srun_step ?s2 StopWaits ?s3"
    by (rule stop_waits) (simp_all add: sync_Wait_def NewSyncChan_def)
  ultimately have "srun_reach s ?s3"
    unfolding srun_reach_def by (blast intro: converse_rtranclp_into_rtranclp)
  then show ?thesis by (intro exI [of _ ?s3]) simp
qed

text \<open>
  C10: \<open>Stop\<close> of the slow log worker returns only if the event loop sees another event. When it is called
  while the loop still reads the log, the next event ends the run and \<open>Stop\<close> returns; when the log ends
  first, or the call falls between the last event and the return of \<open>Run\<close>, it waits for ever, and with it
  the analyzer that is being stopped.
\<close>

theorem sworker_Stop_blocks:
  assumes "reachable (\<lambda>s. s = srun_start) srun_step s" and "sr_stop s = InStop"
  shows "(sr_run s = AtEvent \<and> (\<exists>t. srun_reach s t \<and> sr_stop t = StopReturned)
      \<and> (\<exists>t. srun_step s LogEnds t \<and> srun_stuck t))
    \<or> (srun_stuck s \<and> (\<forall>t. srun_reach s t \<longrightarrow> sr_stop t = InStop))"
proof -
  have inv: "srun_inv s" using assms(1) by (rule sri.reachable_inv)
  show ?thesis
  proof (cases "sr_run s = AtEvent")
    case True
    moreover have "srun_step s LogEnds (s\<lparr>sr_run := AfterLoop False\<rparr>)" using True by (rule log_ends)
    moreover have "srun_stuck (s\<lparr>sr_run := AfterLoop False\<rparr>)" using assms(2) by (simp add: srun_stuck_def)
    ultimately show ?thesis using stop_returns_at_event [OF inv assms(2)] by blast
  next
    case False
    with inv assms(2) have "srun_stuck s"
      by (cases "sr_run s") (auto simp: srun_inv_def srun_stuck_def)
    then show ?thesis using srun_stuck_for_ever [of s] by (auto simp: srun_stuck_def)
  qed
qed

text \<open>The call comes after the loop has seen the first event behind the interval.\<close>

theorem sworker_Stop_blocks_witness:
  "\<exists>s. reachable (\<lambda>s. s = srun_start) srun_step s \<and> sr_run s = AfterLoop False
     \<and> (\<forall>t. srun_reach s t \<longrightarrow> sr_stop t = InStop)"
proof -
  let ?R = "reachable (\<lambda>s. s = srun_start) srun_step"
  let ?s = "\<lparr>sr_run = AfterLoop False, sr_running = True, sr_stop = InStop, sr_sync = NewSyncChan\<rparr>"
  have "?R srun_start" by (rule reachable.start) simp
  then have "?R (srun_start\<lparr>sr_run := AtEvent, sr_running := True\<rparr>)"
    by (rule reachable.move) (rule starts, simp add: srun_start_def)
  then have "?R ((srun_start\<lparr>sr_run := AtEvent, sr_running := True\<rparr>)\<lparr>sr_run := AfterLoop False\<rparr>)"
    by (rule reachable.move) (rule breaks, simp_all add: srun_start_def)
  from reachable.move [where step = srun_step, OF this call_stop] have s: "?R ?s" by (simp add: srun_start_def)
  have "sr_stop ?s = InStop" by simp
  from sworker_Stop_blocks [OF s this] have "\<forall>t. srun_reach ?s t \<longrightarrow> sr_stop t = InStop" by simp
  with s show ?thesis by (intro exI [of _ ?s]) simp
qed

end
