(* ===== verification/AnalyzerFactory.thy ===== *)
theory AnalyzerFactory
  imports MongoProfiler
begin

text \<open>
  The factory of the analyzers, \<open>qan/analyzer/factory/factory.go\<close>, which the QAN manager makes an analyzer
  with for each instance: a MySQL or a MongoDB analyzer, by the type of the instance. With it the manager of
  \<open>qan/manager.go\<close> runs analyzers of both kinds side by side.
\<close>

section \<open>Making an analyzer\<close>

text \<open>The services that the analyzers share; the context of a new analyzer hands them over.\<close>

record Factory =
  fa_clock :: clock
  fa_mrms :: monitor

definition factory_New :: "clock \<Rightarrow> monitor \<Rightarrow> Factory" where
  "factory_New clk mon = \<lparr>fa_clock = clk, fa_mrms = mon\<rparr>"

definition UnknownTypeError :: "string \<Rightarrow> string" where
  "UnknownTypeError u = ''factory: unknown type '' @ u"

definition factory_Make ::
  "Factory \<Rightarrow> string \<Rightarrow> string \<Rightarrow> inst \<Rightarrow> string + (mysql_analyzer + mongo_analyzer)" where
  "factory_Make f analyzerType name protoInstance =
     (if analyzerType = ''mongo'' then Inr (Inr (mongo_New protoInstance))
      else if analyzerType = ''mysql'' then
        Inr (Inl (NewMySQLAnalyzer (in_UUID protoInstance) NewQAN (fa_clock f) (fa_mrms f)))
      else Inl (UnknownTypeError analyzerType))"

section \<open>The analyzers of the manager\<close>

text \<open>A call of the manager goes to the analyzer of its kind; \<open>mo\<close> are the operations of the MongoDB analyzer.\<close>

definition factory_ops :: "Factory \<Rightarrow> mongo_analyzer analyzer_ops \<Rightarrow> (mysql_analyzer + mongo_analyzer) analyzer_ops" where
  "factory_ops f mo =
     \<lparr>op_Make = (\<lambda>t nm i. case factory_Make f t nm i of Inl _ \<Rightarrow> None | Inr a \<Rightarrow> Some a),
      op_SetConfig = (\<lambda>c. map_sum (op_SetConfig mysql_ops c) (op_SetConfig mo c)),
      op_Start = case_sum (\<lambda>a. map_prod Inl id (op_Start mysql_ops a)) (\<lambda>a. map_prod Inr id (op_Start mo a)),
      op_Stop = case_sum (\<lambda>a. map_prod Inl id (op_Stop mysql_ops a)) (\<lambda>a. map_prod Inr id (op_Stop mo a)),
      op_Config = case_sum (op_Config mysql_ops) (op_Config mo)\<rparr>"

lemma factory_startable:
  assumes "rp_inst rp (qn_UUID c) = Some i" and "8 \<le> length (in_UUID i)"
    and "in_Subsystem i = ''mongo'' \<or> in_Subsystem i = ''mysql'' \<and> (\<exists>r. ValidateConfig c = Inr r)"
  shows "startable (factory_ops (factory_New clk mon) (mongo_ops None now answer)) rp c"
  using assms(3)
proof (elim disjE conjE exE)
  assume "in_Subsystem i = ''mongo''"
  with mongo_ops_startable [OF assms(1) _ assms(2), of now answer] assms(1) show ?thesis
    by (simp add: startable_def factory_ops_def factory_Make_def mongo_ops_def)
next
  fix r assume "in_Subsystem i = ''mysql''" "ValidateConfig c = Inr r"
  with mysql_ops_startable [OF _ assms(1) _ assms(2)] assms(1) show ?thesis
    by (simp add: startable_def factory_ops_def factory_Make_def mysql_ops_def mysql_Start_def mysql_Config_def
        mysql_SetConfig_def NewMySQLAnalyzer_def case_prod_beta Let_def)
qed

text \<open>
  The manager starts analyzers of both kinds one after the other and refuses an instance of any other
  kind, such as the host that the installer registers, without a change.
\<close>

lemma manager_runs_both:
  assumes "rp_inst (qm_repo m) (qn_UUID c) = Some i" "rp_inst (qm_repo m) (qn_UUID d) = Some j"
    and "8 \<le> length (in_UUID i)" "8 \<le> length (in_UUID j)" and "in_Subsystem i = ''mysql''" "in_Subsystem j = ''mongo''"
    and "ValidateConfig c = Inr r" and "qn_UUID c \<noteq> qn_UUID d"
    and "map_of (qm_analyzers m) (qn_UUID c) = None" "map_of (qm_analyzers m) (qn_UUID d) = None"
    and ops: "ops = factory_ops (factory_New clk mon) (mongo_ops None now answer)"
  shows "\<exists>m1 m2. startAnalyzer ops b c m = (m1, None) \<and> startAnalyzer ops b' d m1 = (m2, None)
    \<and> set_config m2 (qn_UUID c) = Some c \<and> set_config m2 (qn_UUID d) = Some d"
proof -
  have "startable ops (qm_repo m) c" "startable ops (qm_repo m) d"
    unfolding ops using assms by (auto intro: factory_startable)
  from startAnalyzer_startable [OF this(1) assms(9)] obtain a where
    a: "startAnalyzer ops b c m = (m\<lparr>qm_analyzers := alist_put (qn_UUID c) (c, a) (qm_analyzers m)\<rparr>, None)" by blast
  let ?m1 = "m\<lparr>qm_analyzers := alist_put (qn_UUID c) (c, a) (qm_analyzers m)\<rparr>"
  have "startable ops (qm_repo ?m1) d" "map_of (qm_analyzers ?m1) (qn_UUID d) = None"
    using \<open>startable ops (qm_repo m) d\<close> assms(8,10) by (simp_all add: map_of_alist_put)
  from startAnalyzer_startable [OF this] obtain a' where
    "startAnalyzer ops b' d ?m1 = (?m1\<lparr>qm_analyzers := alist_put (qn_UUID d) (d, a') (qm_analyzers ?m1)\<rparr>, None)" by blast
  with a assms(8) show ?thesis by (auto simp: set_config_def map_of_alist_put)
qed

lemma manager_unknown_type:
  assumes "rp_inst (qm_repo m) (qn_UUID c) = Some i" "8 \<le> length (in_UUID i)"
    and "in_Subsystem i \<noteq> ''mysql''" "in_Subsystem i \<noteq> ''mongo''" and "map_of (qm_analyzers m) (qn_UUID c) = None"
  shows "startAnalyzer (factory_ops f mo) b c m = (m, Some CannotCreate)"
  using assms
  by (simp add: startAnalyzer_def repo_Get_def factory_ops_def factory_Make_def Let_def)

end
