(* ===== verification/Spec2Isabelle.thy ===== *)
theory Spec2Isabelle
  imports DataManager LogRelay InstanceRepo PerfSchema Analyzer QanManager Agent MongoProfiler WsClient QueryService
    InstanceManager IterFactory PerfRows AgentInfo Installer Lifecycle Delivery SlowWorker AnalyzerFactory
begin

text \<open>
  A verification library of the Percona Query Analytics agent (\<open>qan-agent\<close>, Go).

  \<^bold>\<open>The program.\<close> The agent runs beside a MySQL or MongoDB server. An installer registers the host and
  the agent with the API and writes the configuration; the main program starts the services, connects to
  the API and waits (\<open>bin/\<close>). The API sends commands over a websocket (\<open>client/ws.go\<close>); the agent
  (\<open>agent/agent.go\<close>) answers its own and hands the others to its services. The query analytics service
  (\<open>qan/manager.go\<close>) runs one analyzer for each monitored server instance. A MySQL analyzer
  (\<open>qan/analyzer/mysql/\<close>) is driven by a clock (\<open>ticker/\<close>): each tick ends an interval, a worker
  aggregates the queries of the interval from the slow log or from the performance schema, and the result
  becomes a report (\<open>qan/analyzer/report/\<close>). A MongoDB analyzer (\<open>qan/analyzer/mongo/\<close>) follows the
  profile collections of all databases. Reports go to the data service (\<open>data/\<close>): a spooler keeps them on
  disk and a sender posts them to the API. The log service (\<open>log/\<close>) relays log entries and buffers them
  during an outage, the restart monitor (\<open>mrms/\<close>) notices restarts of a server, the instance service
  (\<open>instance/\<close>) knows the servers and reports what they are, and the query service (\<open>query/\<close>) explains
  queries, describes tables and summarises servers.

  \<^bold>\<open>The theories.\<close> Each theory opens with what it models; definitions keep the names of the
  source, with the name of the component first where two components share a name.

    \<^item> \<open>Qan_Prelude\<close>: machine integers, decimal numbers and strings of the Go library, Go maps as
      association lists, runs of step relations and their invariants (the locale \<open>step_invariant\<close>).
    \<^item> \<open>Pct\<close> (\<open>pct/status.go\<close>, \<open>pct/sync.go\<close>, \<open>pct/backoff.go\<close>), \<open>Sys\<close> (\<open>pct/sys.go\<close>: formats and file
      helpers), \<open>Files\<close> (\<open>pct/basedir.go\<close> over the paths of the standard library, and the external programs of
      \<open>pct/cmd/\<close>) and \<open>Api\<close> (\<open>pct/api.go\<close>).
    \<^item> \<open>Spooler\<close> (\<open>data/spooler.go\<close>), \<open>Sender\<close> (\<open>data/sender.go\<close>, \<open>data/stats.go\<close>) and
      \<open>DataManager\<close> (\<open>data/manager.go\<close>). The sender uses the spooler through the locale of its
      operations, which \<open>Sender\<close> interprets by the spooler's model.
    \<^item> \<open>LogRelay\<close>: \<open>log/relay.go\<close>, \<open>log/manager.go\<close> and \<open>pct/logger.go\<close>.
    \<^item> \<open>Ticker\<close> (\<open>ticker/\<close>) and \<open>Mrms\<close> (\<open>mrms/\<close>: the checker, the monitor and the service around it).
    \<^item> \<open>InstanceRepo\<close> (\<open>instance/repo.go\<close>) and \<open>InstanceManager\<close> (\<open>instance/manager.go\<close>).
    \<^item> \<open>MySQLConn\<close>: \<open>mysql/\<close>, the connection the MySQL services share.
    \<^item> \<open>Report\<close>: query classes and \<open>qan/analyzer/report/report.go\<close>.
    \<^item> \<open>SlowLog\<close> and \<open>SlowWorker\<close>: the slow log iterator and worker, its fingerprinter goroutine and its stop.
      \<open>PerfSchema\<close> and \<open>PerfRows\<close>: the performance schema worker, its queries and its query examples.
      \<open>IterFactory\<close>: the factories of iterators and workers over the shared connection.
    \<^item> \<open>Analyzer\<close>: \<open>qan/analyzer/mysql/\<close>: the validation of a configuration, the setting up of the
      server, one run of a worker, the loop of the analyzer as a step relation, and the proxy that
      registers with the clock and the restart monitor.
    \<^item> \<open>MongoAggregator\<close> and \<open>MongoProfiler\<close>: \<open>qan/analyzer/mongo/\<close>. \<open>Lifecycle\<close>: starting and stopping of
      the services with one goroutine, by one locale with four interpretations.
    \<^item> \<open>QanManager\<close> (\<open>qan/manager.go\<close>) and \<open>AnalyzerFactory\<close> (\<open>qan/analyzer/factory/\<close>).
    \<^item> \<open>Agent\<close> and \<open>AgentInfo\<close> (\<open>agent/agent.go\<close>), and \<open>WsClient\<close> (\<open>client/ws.go\<close>).
    \<^item> \<open>QueryService\<close> (\<open>query/\<close>) with \<open>TableInfo\<close> and \<open>Explain\<close>, which uses the regular expressions of
      \<open>GoRegexp\<close>.
    \<^item> \<open>Installer\<close>: \<open>bin/\<close>, the installer and the main program.
    \<^item> \<open>Delivery\<close>: the way of a report through analyzer, spooler and sender.

  \<^bold>\<open>What the lemmas show.\<close>

    \<^item> Nothing is lost on the way to the API: \<open>reports_reach_api\<close> below, for the whole way of a report. Each
      event of the slow log between two ticks is aggregated once (\<open>slow_log_no_event_lost\<close>, over the intervals
      of \<open>iter_run_intervals\<close>, with the fingerprints of \<open>fingerprinter_exact\<close>), each execution that the
      performance schema counts is reported once (\<open>pworker_cycles_conserve\<close>), each document of a MongoDB
      profile is accounted for from the cursor to the spool (\<open>mongo_pipeline_conserves\<close>,
      \<open>aggregator_exact\<close>), a report keeps the totals of its classes (\<open>MakeReport_conserves\<close>), a spooled report
      is on disk (\<open>spooler_run_spools\<close>), stays there unless it is purged by its age or the limits
      (\<open>spooler_purge_correct\<close>) or the API has taken or refused it (\<open>sender_loses_nothing\<close>), and the log relay
      delivers what its buffers hold after an outage and the exact number of what they do not
      (\<open>relay_outage_roundtrip\<close>, \<open>relay_buffers_bounded\<close>).
    \<^item> Commands are answered and their effects last: \<open>agent_loop_accounts\<close>, \<open>agent_answers\<close>,
      \<open>manager_restart_resumes\<close>, \<open>query_answers\<close>, \<open>collect_info_sends\<close>, \<open>install_then_run\<close>.
    \<^item> The loops are safe and go on: \<open>arun_safe\<close>, \<open>monitors_follow_databases\<close>, \<open>clock_watchers_exact\<close>,
      \<open>even_ticker_aligned\<close>, \<open>backoff_waits_bounded\<close>, \<open>ws_one_connection\<close>, \<open>services_one_goroutine\<close>,
      \<open>connect_loop_returns\<close>.
    \<^item> What is sent and shown is right: \<open>connect_prepares_links\<close>, \<open>updateMySQLInstances_exact\<close>,
      \<open>restarts_hide_passwords\<close>, \<open>showIndex_groups\<close>, \<open>update_converted\<close>, \<open>conn_Set_exact\<close>, \<open>agent_files\<close>,
      \<open>base64_roundtrip\<close>, \<open>escapeString_roundtrip\<close>, \<open>config_roundtrip\<close>.
    \<^item> Faults of the code, each as a theorem about the model: \<open>sworker_Stop_blocks\<close>, \<open>shared_connection_race\<close>,
      \<open>examples_race\<close>, \<open>digest_window_exact\<close>, \<open>agg_Stop_deadlock\<close>, \<open>relay_connect_deadlock\<close>, \<open>ticker_Stop\<close>,
      \<open>manager_stop_forgets_instance\<close>, \<open>mysql_Stop_leaks\<close>, \<open>data_no_restart\<close>, \<open>prepareResult_truncated\<close>,
      \<open>ping_never_succeeds\<close>, \<open>spooler_restart_counts_twice\<close> and others.

  \<^bold>\<open>Conventions.\<close> Goroutines that share state through channels are a step relation whose steps
  are the atomic parts of the code, and an invariant of all reachable states; a channel is the list
  of what its buffer holds, an operation on a full channel is not enabled or gives a value of its
  own. Operations that cannot be interleaved are functions that return the changed state; an error,
  a panic, and waiting for ever are values. What is outside the program is an argument: the disk, the
  answers of the database servers and of the API, the clock, random numbers, and third-party packages
  (the parser of the slow log, the fingerprinters, the sort of the standard library, whose contract
  is the locale \<open>by_query_time\<close> for classes and \<open>key_sort\<close> for keys). A theorem about such an argument
  states the law it needs and has a witness with a concrete one.

  \<^bold>\<open>Numbers, bounds and fuel.\<close> Counters are 64-bit words and wrap around; a theorem about sums is
  an equation of words or states that they do not overflow. Durations are integers in the unit of
  the source. Floating-point values that are only added, scaled and compared are rationals; the
  rounding of a timestamp matters in the ticker and is modelled there. The functions are total: a
  loop over a finite list of attempts or events takes that list as an argument, a loop that counts
  down has a termination proof, and a loop that could go on for ever is a step relation or, for the
  goroutine that connects, a partial function of which \<open>connect_loop_returns\<close> shows when it returns; so
  that no fuel is used.

  \<^bold>\<open>Not modelled.\<close> The bytes on the wire: the HTTP and websocket libraries, the database drivers, the JSON
  and zip encodings and the servers are arguments. MongoDB's explain, which is a third-party library on a
  database session. The parsing of the options and the output of the two programs, and the wiring of the
  objects in \<open>bin/percona-qan-agent/main.go\<close>, which constructs what the theories construct themselves.
  Status texts and log messages, where they are only shown; the keepalive message of the agent and the stop of
  the websocket client, which no service calls; medians and percentiles of metrics. The test doubles under
  \<open>test/\<close>, which are not part of the running program.
\<close>

section \<open>From the interval to the API\<close>

text \<open>
  C1: the way of a report through the agent. Analyzers run their workers and write reports while the
  spooler takes them from its channel, in any order; when the channel is empty again, one run of the
  sender with a working connection posts the files that were on the disk before and exactly one message
  for each report whose write was accepted, and leaves the spool empty. The API reads the report back
  from its message, and the report counts the queries that a worker counted for an interval.
\<close>

theorem reports_reach_api:
  fixes c :: "'w ws_ops"
  assumes s0: "spool_healthy s0" "sp_dataChan s0 = []" "sp_sz s0 = Some sz"
    and sort: "\<And>cs. mset (fe_sort env cs) = mset cs"
      "\<And>cs. sorted_wrt (\<lambda>x y. Query_time x \<ge> Query_time y) (fe_sort env cs)"
    and json: "\<And>pd. fe_marshal env pd \<noteq> None" "\<And>pd. fe_marshal env pd \<noteq> Some []"
      "\<And>pd b. fe_marshal env pd = Some b \<Longrightarrow> unmarshal b = Some pd"
      "\<And>r d. fe_encode env r = Some d \<Longrightarrow> decode d = Some r"
    and run: "feed_run env cfg evs s0 = (s, accepted)" "sp_dataChan s = []"
    and new: "distinct (map fst accepted)" "\<forall>a \<in> set accepted. spool_view s0 (spool_key ''qan'' (fst a)) = None"
    and api: "api_accepts c got" "in_time c sd (snd (wc_Now c w))" "\<not> sd_blackhole sd"
  shows "spool_view (ts_spool (fst (sender_send fm c diskv_spool sd s w))) = Map.empty
    \<and> (\<exists>posted messages. got (ts_world (fst (sender_send fm c diskv_spool sd s w))) = got w @ posted
         \<and> mset posted = mset (filter (\<lambda>d. d \<noteq> []) (map snd (sp_files s0))) + mset messages
         \<and> map (read_message unmarshal decode) messages = map (Some \<circ> snd) accepted)
    \<and> (\<forall>a \<in> set accepted. \<exists>e iv res. Analyzed e iv (fst a) \<in> set evs \<and> we_run e = RunResult res
         \<and> sum_list (map qc_TotalQueries (rt_Class (snd a))) = sum_list (map qc_TotalQueries (rs_Class res)))"
proof -
  have q: "by_query_time (fe_sort env)" by (rule by_query_time.intro) (fact sort)+
  have "feed_inv env s0 sz (s, accepted)" using feed_run_inv [OF s0 json(1)] run(1) by metis
  then have h: "spool_healthy s" by (rule feed_invE)
  have "spool_view (ts_spool (fst (sender_send fm c diskv_spool sd s w))) = Map.empty"
    using h api by (intro ds.sender_send_done) (simp_all add: api_accepts_def in_time_def)
  moreover have "\<exists>posted messages. got (ts_world (fst (sender_send fm c diskv_spool sd s w))) = got w @ posted
         \<and> mset posted = mset (filter (\<lambda>d. d \<noteq> []) (map snd (sp_files s0))) + mset messages
         \<and> map (read_message unmarshal decode) messages = map (Some \<circ> snd) accepted"
  proof -
    obtain posted where "got (ts_world (fst (sender_send fm c diskv_spool sd s w))) = got w @ posted"
      "mset posted = mset (filter (\<lambda>d. d \<noteq> []) (map snd (sp_files s0)))
        + mset (map (message env (sp_hostname s0) sz) accepted)"
      and enc: "\<forall>a \<in> set accepted. fe_encode env (snd a) \<noteq> None"
      using feed_then_send [OF s0 json(1,2) run new api, where fm = fm] by blast
    moreover have "map (read_message unmarshal decode) (map (message env (sp_hostname s0) sz) accepted)
        = map (Some \<circ> snd) accepted"
      using enc read_message_roundtrip [where unmarshal = unmarshal and decode = decode, OF json(3,1,4)] by simp
    ultimately show ?thesis by blast
  qed
  moreover have "\<exists>e iv res. Analyzed e iv (fst a) \<in> set evs \<and> we_run e = RunResult res
         \<and> sum_list (map qc_TotalQueries (rt_Class (snd a))) = sum_list (map qc_TotalQueries (rs_Class res))"
    if a: "a \<in> set accepted" for a
  proof -
    obtain e iv where e: "Analyzed e iv (fst a) \<in> set evs"
      and r: "fst (runWorker (fe_sort env) (fe_fileSize env) cfg e iv) = Some (snd a)"
      using feed_run_source [of a env cfg evs s0] a run(1) by auto
    from r obtain res where "we_run e = RunResult res"
      "snd a = MakeReport (fe_sort env) (fe_fileSize env) (qn_UUID cfg) (qn_ReportLimit cfg) (iv_StartTime iv)
         (iv_StopTime iv) (Some iv) (res\<lparr>rs_RunTime := we_elapsed e\<rparr>)"
      by (auto simp: runWorker_def split: if_splits worker_run.splits)
    with e by_query_time.MakeReport_totals [OF q] show ?thesis by fastforce
  qed
  ultimately show ?thesis by blast
qed

text \<open>
  A concrete instance: the fields of an envelope are written with a mark before each character, the
  connection keeps what it was sent, and two workers run, of which one fails to set up.
\<close>

definition put_field :: "string \<Rightarrow> string" where
  "put_field s = concat (map (\<lambda>x. [CHR ''c'', x]) s) @ ''.''"

fun get_fields :: "string \<Rightarrow> string \<Rightarrow> string list" where
  "get_fields cur [] = []"
| "get_fields cur [t] = [cur]"
| "get_fields cur (t # x # rest) =
     (if t = CHR ''c'' then get_fields (cur @ [x]) rest else cur # get_fields [] (x # rest))"

lemma get_put_field: "get_fields cur (put_field s @ rest) = (cur @ s) # get_fields [] rest"
proof (induction s arbitrary: cur)
  case Nil
  then show ?case by (cases rest) (simp_all add: put_field_def)
next
  case (Cons x s)
  then show ?case by (simp add: put_field_def)
qed

definition put_int :: "int \<Rightarrow> string" where
  "put_int n = (if n < 0 then CHR ''-'' else CHR ''+'') # replicate (nat \<bar>n\<bar>) CHR ''1''"

definition get_int :: "string \<Rightarrow> int" where
  "get_int s = (if hd s = CHR ''-'' then - int (length s - 1) else int (length s - 1))"

lemma get_put_int: "get_int (put_int n) = n"
  by (simp add: get_int_def put_int_def)

definition demo_marshal :: "proto_data \<Rightarrow> bytes option" where
  "demo_marshal pd = Some (put_field (put_int (pd_Created pd)) @ put_field (pd_Hostname pd)
     @ put_field (pd_Service pd) @ put_field (pd_ContentEncoding pd) @ put_field (pd_Data pd))"

definition demo_unmarshal :: "bytes \<Rightarrow> proto_data option" where
  "demo_unmarshal b =
     (case get_fields [] b of
        [t, h, s, e, d] \<Rightarrow> Some \<lparr>pd_Created = get_int t, pd_Hostname = h, pd_Service = s, pd_ContentEncoding = e, pd_Data = d\<rparr>
      | _ \<Rightarrow> None)"

lemma demo_json:
  "demo_marshal pd \<noteq> None" "demo_marshal pd \<noteq> Some []" "demo_marshal pd = Some b \<Longrightarrow> demo_unmarshal b = Some pd"
proof -
  show "demo_marshal pd \<noteq> None" "demo_marshal pd \<noteq> Some []"
    by (simp_all add: demo_marshal_def put_field_def)
  show "demo_unmarshal b = Some pd" if "demo_marshal pd = Some b"
    using that get_put_field [where rest = "[]"]
    by (auto simp: demo_marshal_def demo_unmarshal_def get_put_field get_put_int)
qed

definition demo_interval :: interval where
  "demo_interval = \<lparr>iv_Number = 1, iv_StartTime = 0, iv_StopTime = 60, iv_Filename = ''slow.log'',
     iv_StartOffset = 0, iv_EndOffset = 100\<rparr>"

definition demo_worker :: "bool \<Rightarrow> worker_env" where
  "demo_worker fails = \<lparr>we_setup = fails, we_run = RunResult \<lparr>rs_Global = NewClass '''' '''',
      rs_Class = [demo_class ''a'' 1 2, demo_class ''b'' 2 5], rs_RateLimit = 0, rs_RunTime = 0, rs_StopOffset = 0, rs_Error = ''''\<rparr>,
      we_elapsed = 1\<rparr>"

definition demo_report :: "QAN \<Rightarrow> report" where
  "demo_report cfg = the (fst (runWorker query_time_sort (\<lambda>_. None) cfg (demo_worker False) demo_interval))"

definition demo_feed :: "QAN \<Rightarrow> feed_env" where
  "demo_feed cfg = \<lparr>fe_sort = query_time_sort, fe_fileSize = (\<lambda>_. None),
     fe_encode = (\<lambda>r. if r = demo_report cfg then Some ''r'' else None), fe_marshal = demo_marshal\<rparr>"

definition demo_disk :: spooler where
  "demo_disk = (NewDiskvSpooler ''h'' \<lparr>MaxAge = 5, MaxSize = 100, MaxFiles = 10\<rparr>
     \<lparr>dv_files = [(spool_key ''qan'' 1, ''old'')], dv_readErr = [], dv_eraseErr = [], dv_writeErr = []\<rparr>)
     \<lparr>sp_sz := Some \<lparr>sz_Encoding = ''gzip'', sz_Concurrent = False\<rparr>\<rparr>"

definition demo_client :: "bytes list ws_ops" where
  "demo_client = \<lparr>wc_ConnectOnce = (\<lambda>w. (w, True)), wc_DisconnectOnce = (\<lambda>w. w), wc_SendBytes = (\<lambda>b w. (w @ [b], True)),
     wc_Recv = (\<lambda>w. (w, Some 200)), wc_Now = (\<lambda>w. (w, 0))\<rparr>"

definition demo_events :: "feed list" where
  "demo_events = [Analyzed (demo_worker True) demo_interval 5, Analyzed (demo_worker False) demo_interval 7, Spooled]"

lemma demo_feed_run:
  "feed_run (demo_feed cfg) cfg demo_events demo_disk
     = (fst (feed_run (demo_feed cfg) cfg demo_events demo_disk), [(7, demo_report cfg)])"
  "sp_dataChan (fst (feed_run (demo_feed cfg) cfg demo_events demo_disk)) = []"
proof -
  have r: "fst (runWorker query_time_sort (\<lambda>_. None) cfg (demo_worker False) demo_interval) = Some (demo_report cfg)"
    "fst (runWorker query_time_sort (\<lambda>_. None) cfg (demo_worker True) demo_interval) = None"
    by (simp_all add: demo_report_def runWorker_def demo_worker_def)
  show "feed_run (demo_feed cfg) cfg demo_events demo_disk
     = (fst (feed_run (demo_feed cfg) cfg demo_events demo_disk), [(7, demo_report cfg)])"
    "sp_dataChan (fst (feed_run (demo_feed cfg) cfg demo_events demo_disk)) = []"
    by (simp_all add: feed_run_def feed_step_def demo_events_def demo_feed_def r spooler_Write_def demo_disk_def
        NewDiskvSpooler_def WRITE_BUFFER_def spooler_run_step_def spool_one_def Let_def split: option.split)
qed

definition demo_decode :: "bytes \<Rightarrow> report option" where
  "demo_decode d = (if d = ''r'' then Some (demo_report NewQAN) else None)"

theorem reports_reach_api_witness:
  "let s = fst (feed_run (demo_feed NewQAN) NewQAN demo_events demo_disk);
       t = fst (sender_send demo_formats demo_client diskv_spool (sender_Start 10 False NewSender) s [''earlier''])
   in spool_view (ts_spool t) = Map.empty
    \<and> (\<exists>posted m. ts_world t = ''earlier'' # posted \<and> mset posted = {#''old'', m#}
         \<and> read_message demo_unmarshal demo_decode m = Some (demo_report NewQAN))
    \<and> sum_list (map qc_TotalQueries (rt_Class (demo_report NewQAN))) = 3"
proof -
  let ?s = "fst (feed_run (demo_feed NewQAN) NewQAN demo_events demo_disk)"
  let ?t = "fst (sender_send demo_formats demo_client diskv_spool (sender_Start 10 False NewSender) ?s [''earlier''])"
  have disk: "spool_healthy demo_disk" "sp_dataChan demo_disk = []"
    "sp_sz demo_disk = Some \<lparr>sz_Encoding = ''gzip'', sz_Concurrent = False\<rparr>" "map snd (sp_files demo_disk) = [''old'']"
    by (simp_all add: demo_disk_def NewDiskvSpooler_def spool_healthy_def no_faults_def wf_alist_def)
  have "spool_view demo_disk (spool_key ''qan'' 7) = None"
    by (simp add: demo_disk_def NewDiskvSpooler_def spool_view_def dv_contents_def spool_key_def)
  then have key: "\<forall>a \<in> set [(7, demo_report NewQAN)]. spool_view demo_disk (spool_key ''qan'' (fst a)) = None"
    by simp
  have env: "fe_sort (demo_feed cfg) = query_time_sort" "fe_marshal (demo_feed cfg) = demo_marshal" for cfg
    by (simp_all add: demo_feed_def)
  have dec: "fe_encode (demo_feed NewQAN) r = Some d \<Longrightarrow> demo_decode d = Some r" for r d
    by (auto simp: demo_feed_def demo_decode_def split: if_splits)
  have api: "api_accepts demo_client (\<lambda>w. w)" "in_time demo_client (sender_Start 10 False NewSender) (snd (wc_Now demo_client w))"
    "\<not> sd_blackhole (sender_Start 10 False NewSender)" for w
    by (simp_all add: api_accepts_def in_time_def demo_client_def send_timed_out_def sender_Start_def signed_divide_int_def)
  note r = reports_reach_api [where env = "demo_feed NewQAN" and unmarshal = demo_unmarshal and decode = demo_decode
      and got = "\<lambda>w. w" and w = "[''earlier'']" and fm = demo_formats,
      OF disk(1-3) _ _ _ _ _ dec demo_feed_run(1) demo_feed_run(2) _ key api, unfolded env, OF qs.perm qs.descending demo_json]
  then have sent: "spool_view (ts_spool ?t) = Map.empty"
    and posted: "\<exists>posted messages. ts_world ?t = [''earlier''] @ posted \<and> mset posted = {#''old''#} + mset messages
      \<and> map (read_message demo_unmarshal demo_decode) messages = [Some (demo_report NewQAN)]"
    and src: "\<exists>e iv res. Analyzed e iv 7 \<in> set demo_events \<and> we_run e = RunResult res
      \<and> sum_list (map qc_TotalQueries (rt_Class (demo_report NewQAN))) = sum_list (map qc_TotalQueries (rs_Class res))"
    by (simp_all add: disk(4))
  have "sum_list (map qc_TotalQueries (rt_Class (demo_report NewQAN))) = 3"
    using src by (auto simp: demo_events_def demo_worker_def demo_class_def)
  with sent posted show ?thesis by (fastforce simp: Let_def map_eq_Cons_conv)
qed

end
